(* ===== verification/Prelude.thy ===== *)
theory Prelude
  imports Complex_Main "HOL-Library.Sublist" "HOL-Library.Code_Target_Numeral"
begin

text \<open>
  Shared vocabulary of the development.  A TypeScript function that may throw is a
  function into \<open>'e + 'a\<close> (\<open>Inl\<close> the thrown value, \<open>Inr\<close> the result); an
  asynchronous one that talks to the outside is a state transformer over an explicit
  world \<open>'w\<close>, in the order the code awaits its calls.  The combinators below sequence
  them; the collections gather the facts component proofs unfold and rewrite with.
\<close>

named_theorems result_simps \<open>inversion of sequenced results\<close>
named_theorems io_simps \<open>unfolding of sequenced effects\<close>

section \<open>Results\<close>

fun and_then :: "'e + 'a \<Rightarrow> ('a \<Rightarrow> 'e + 'b) \<Rightarrow> 'e + 'b" where
  "and_then (Inl e) f = Inl e"
| "and_then (Inr x) f = f x"

lemma and_then_eq_Inr [result_simps]:
  "and_then r f = Inr y \<longleftrightarrow> (\<exists>x. r = Inr x \<and> f x = Inr y)"
  by (cases r) auto

lemma and_then_eq_Inl [result_simps]:
  "and_then r f = Inl e \<longleftrightarrow> r = Inl e \<or> (\<exists>x. r = Inr x \<and> f x = Inl e)"
  by (cases r) auto

lemma and_then_assoc: "and_then (and_then r f) g = and_then r (\<lambda>x. and_then (f x) g)"
  by (cases r) auto

lemma and_then_cong [fundef_cong]:
  assumes "r = r'" and "\<And>x. r' = Inr x \<Longrightarrow> f x = g x"
  shows "and_then r f = and_then r' g"
  using assms by (cases r') auto

definition is_ok :: "'e + 'a \<Rightarrow> bool" where
  "is_ok r = (case r of Inl _ \<Rightarrow> False | Inr _ \<Rightarrow> True)"

lemma is_ok_simps [simp]: "is_ok (Inr x)" "\<not> is_ok (Inl e)"
  by (simp_all add: is_ok_def)

lemma is_ok_iff: "is_ok r \<longleftrightarrow> (\<exists>x. r = Inr x)"
  by (cases r) auto

text \<open>\<open>try { ... } catch { ... }\<close> with a handler that sees the thrown value.\<close>

fun catch :: "'e + 'a \<Rightarrow> ('e \<Rightarrow> 'e + 'a) \<Rightarrow> 'e + 'a" where
  "catch (Inl e) h = h e"
| "catch (Inr x) h = Inr x"

lemma catch_eq_Inr [result_simps]:
  "catch r h = Inr y \<longleftrightarrow> r = Inr y \<or> (\<exists>e. r = Inl e \<and> h e = Inr y)"
  by (cases r) auto

definition of_option :: "'e \<Rightarrow> 'a option \<Rightarrow> 'e + 'a" where
  "of_option e o' = (case o' of None \<Rightarrow> Inl e | Some x \<Rightarrow> Inr x)"

lemma of_option_simps [simp]: "of_option e None = Inl e" "of_option e (Some x) = Inr x"
  by (simp_all add: of_option_def)

lemma of_option_eq_Inr [result_simps]: "of_option e v = Inr x \<longleftrightarrow> v = Some x"
  by (cases v) auto

lemma of_option_eq_Inl [result_simps]: "of_option e v = Inl e' \<longleftrightarrow> v = None \<and> e' = e"
  by (cases v) auto

section \<open>Effects\<close>

type_synonym ('w, 'e, 'a) io = "'w \<Rightarrow> ('e + 'a) \<times> 'w"

definition ret :: "'a \<Rightarrow> ('w, 'e, 'a) io" where
  "ret x = (\<lambda>w. (Inr x, w))"

definition lift :: "'e + 'a \<Rightarrow> ('w, 'e, 'a) io" where
  "lift r = (\<lambda>w. (r, w))"

definition bind_io :: "('w, 'e, 'a) io \<Rightarrow> ('a \<Rightarrow> ('w, 'e, 'b) io) \<Rightarrow> ('w, 'e, 'b) io" where
  "bind_io m k = (\<lambda>w. case m w of (Inl e, w') \<Rightarrow> (Inl e, w') | (Inr x, w') \<Rightarrow> k x w')"

definition catch_io :: "('w, 'e, 'a) io \<Rightarrow> ('e \<Rightarrow> ('w, 'e, 'a) io) \<Rightarrow> ('w, 'e, 'a) io" where
  "catch_io m h = (\<lambda>w. case m w of (Inl e, w') \<Rightarrow> h e w' | (Inr x, w') \<Rightarrow> (Inr x, w'))"

lemma ret_apply [io_simps]: "ret x w = (Inr x, w)"
  by (simp add: ret_def)

lemma lift_apply [io_simps]: "lift r w = (r, w)"
  by (simp add: lift_def)

lemma bind_io_apply [io_simps]:
  "bind_io m k w = (case m w of (Inl e, w') \<Rightarrow> (Inl e, w') | (Inr x, w') \<Rightarrow> k x w')"
  by (simp add: bind_io_def)

lemma catch_io_apply [io_simps]:
  "catch_io m h w = (case m w of (Inl e, w') \<Rightarrow> h e w' | (Inr x, w') \<Rightarrow> (Inr x, w'))"
  by (simp add: catch_io_def)

lemma bind_io_ret [simp]: "bind_io (ret x) k = k x" "bind_io m ret = m"
  by (auto simp: bind_io_def ret_def fun_eq_iff split: prod.splits sum.splits)

lemma bind_io_assoc: "bind_io (bind_io m k) l = bind_io m (\<lambda>x. bind_io (k x) l)"
  by (auto simp: bind_io_def fun_eq_iff split: prod.splits sum.splits)

lemma bind_io_eq_Inr [result_simps]:
  "bind_io m k w = (Inr y, w'') \<longleftrightarrow> (\<exists>x w'. m w = (Inr x, w') \<and> k x w' = (Inr y, w''))"
  by (auto simp: bind_io_def split: prod.splits sum.splits)

section \<open>Lists\<close>

lemma map_of_filter_other:
  "k \<noteq> l \<Longrightarrow> map_of (filter (\<lambda>p. fst p \<noteq> l) kvs) k = map_of kvs k"
  by (induction kvs) auto

lemma take_eq_iff_prefix: "take (length p) s = p \<longleftrightarrow> prefix p s"
  by (metis append_eq_conv_conj prefix_def take_is_prefix)

section \<open>Refinement\<close>

text \<open>
  A concrete transition refines an abstract one when each of its steps, from a state satisfying the
  invariant, is a sequence of abstract steps between the abstractions.
\<close>

locale refinement =
  fixes cstep :: "'c \<Rightarrow> 'c \<Rightarrow> bool" and astep :: "'a \<Rightarrow> 'a \<Rightarrow> bool"
    and abstraction :: "'c \<Rightarrow> 'a" and good :: "'c \<Rightarrow> bool"
  assumes step_refines: "good c \<Longrightarrow> cstep c c' \<Longrightarrow> astep\<^sup>*\<^sup>* (abstraction c) (abstraction c')"
    and step_good: "good c \<Longrightarrow> cstep c c' \<Longrightarrow> good c'"
begin

lemma run_good: "cstep\<^sup>*\<^sup>* c c' \<Longrightarrow> good c \<Longrightarrow> good c'"
  by (induction rule: rtranclp_induct) (auto intro: step_good)

lemma run_refines: "cstep\<^sup>*\<^sup>* c c' \<Longrightarrow> good c \<Longrightarrow> astep\<^sup>*\<^sup>* (abstraction c) (abstraction c')"
proof (induction rule: rtranclp_induct)
  case (step d e)
  then show ?case using step_refines [OF run_good [OF step.hyps(1)]] by (meson rtranclp_trans)
qed simp

text \<open>What the abstract steps preserve holds of every reachable concrete state's abstraction.\<close>

lemma invariant_transfers:
  assumes "cstep\<^sup>*\<^sup>* c c'" and "good c" and "P (abstraction c)" and "\<And>a b. astep a b \<Longrightarrow> P a \<Longrightarrow> P b"
  shows "P (abstraction c')"
proof -
  have "P b" if "astep\<^sup>*\<^sup>* (abstraction c) b" for b
    using that by (induction rule: rtranclp_induct) (use assms(3,4) in auto)
  then show ?thesis using run_refines [OF assms(1,2)] by blast
qed

end

end
