(* ===== verification/Js_Text.thy ===== *)
theory Js_Text
  imports Prelude
begin

text \<open>
  JavaScript strings and the string operations the sources use.  A string is held as the
  bytes of its UTF-8 encoding (a lone surrogate as its three-byte form), so a HOL literal
  is the ASCII string it shows, equality is JavaScript's \<open>===\<close>, and \<open>TextEncoder\<close> is
  the identity on text without lone surrogates.  No source reads a string's length or
  indexes into text; the two places that index (\<open>atob\<close>'s binary strings) only copy
  character codes into a byte array and are modelled as that byte array.
\<close>

type_synonym bytes = "char list"

section \<open>Bytes and characters\<close>

abbreviation byte :: "char \<Rightarrow> nat" where
  "byte \<equiv> of_char"

abbreviation chr :: "nat \<Rightarrow> char" where
  "chr \<equiv> char_of"

lemma byte_less [simp]: "byte c < 256"
  by (rule nat_of_char_less_256)

lemma byte_chr [simp]: "n < 256 \<Longrightarrow> byte (chr n) = n"
  by simp

lemma chr_numeral_eq [simp]: "chr (numeral k) = c \<longleftrightarrow> take_bit 8 (numeral k) = byte c"
  by (rule char_of_eq_iff)

lemma eq_chr_numeral [simp]: "c = chr (numeral k) \<longleftrightarrow> take_bit 8 (numeral k) = byte c"
  using char_of_eq_iff by metis

lemma chr_eq_byte: "n < 256 \<Longrightarrow> chr n = c \<longleftrightarrow> n = byte c"
  by (metis byte_chr char_of_char)

lemma chr_eq_iff: "m < 256 \<Longrightarrow> n < 256 \<Longrightarrow> chr m = chr n \<longleftrightarrow> m = n"
  by (metis byte_chr)

section \<open>Prefixes, trimming and letter case\<close>

definition starts_with :: "string \<Rightarrow> string \<Rightarrow> bool" where
  "starts_with p s \<longleftrightarrow> take (length p) s = p"

lemma starts_with_append [simp]: "starts_with p (p @ s)"
  by (simp add: starts_with_def)

lemma starts_with_iff: "starts_with p s \<longleftrightarrow> (\<exists>r. s = p @ r)"
  by (metis append_eq_conv_conj append_take_drop_id starts_with_def)

text \<open>The white space and line terminators of ECMAScript, as UTF-8.\<close>

definition white_space :: "string list" where
  "white_space =
     map (\<lambda>n. [chr n]) [9, 10, 11, 12, 13, 32] @ [[chr 194, chr 160]] @
     [[chr 225, chr 154, chr 128]] @
     map (\<lambda>n. [chr 226, chr 128, chr n])
       [128, 129, 130, 131, 132, 133, 134, 135, 136, 137, 138, 168, 169, 175] @
     [[chr 226, chr 129, chr 159], [chr 227, chr 128, chr 128], [chr 239, chr 187, chr 191]]"

function strip_any :: "string list \<Rightarrow> string \<Rightarrow> string" where
  "strip_any ps s =
     (case find (\<lambda>p. p \<noteq> [] \<and> s \<noteq> [] \<and> starts_with p s) ps of
        None \<Rightarrow> s | Some p \<Rightarrow> strip_any ps (drop (length p) s))"
  by pat_completeness auto
termination
  by (relation "measure (\<lambda>(ps, s). length s)") (auto simp: find_Some_iff)

declare strip_any.simps [simp del]

definition trim_start :: "string \<Rightarrow> string" where
  "trim_start s = strip_any white_space s"

definition trim_end :: "string \<Rightarrow> string" where
  "trim_end s = rev (strip_any (map rev white_space) (rev s))"

definition trim :: "string \<Rightarrow> string" where
  "trim s = trim_end (trim_start s)"

lemma strip_any_id: "s = [] \<or> hd s \<notin> hd ` set ps \<Longrightarrow> strip_any ps s = s"
proof -
  assume s: "s = [] \<or> hd s \<notin> hd ` set ps"
  have "find (\<lambda>p. p \<noteq> [] \<and> s \<noteq> [] \<and> starts_with p s) ps = None"
    using s by (auto simp: find_None_iff starts_with_iff)
  then show ?thesis by (subst strip_any.simps) simp
qed

definition white_bytes :: "nat set" where
  "white_bytes = {9, 10, 11, 12, 13, 32, 194, 225, 226, 227, 239} \<union>
     {160, 128, 129, 130, 131, 132, 133, 134, 135, 136, 137, 138, 168, 169, 175, 159, 191}"

lemma white_space_heads:
  assumes "p \<in> set white_space"
  shows "byte (hd p) \<in> white_bytes" and "byte (hd (rev p)) \<in> white_bytes"
  using assms by (auto simp: white_space_def white_bytes_def)

lemma trim_id:
  assumes "s = [] \<or> (byte (hd s) \<notin> white_bytes \<and> byte (last s) \<notin> white_bytes)"
  shows "trim s = s"
proof -
  have 1: "trim_start s = s"
    unfolding trim_start_def using assms white_space_heads(1) by (intro strip_any_id) fastforce
  have "rev s = [] \<or> hd (rev s) \<notin> hd ` set (map rev white_space)"
    using assms white_space_heads(2) by (fastforce simp: hd_rev)
  then have "trim_end s = s" unfolding trim_end_def by (simp add: strip_any_id)
  with 1 show ?thesis by (simp add: trim_def)
qed

lemma trim_Nil [simp]: "trim [] = []"
  by (rule trim_id) simp

text \<open>
  \<open>toLowerCase\<close>: the ASCII mapping.  The sources lower-case hexadecimal EVM addresses,
  HTTP header names and the word \<open>true\<close>; no non-ASCII character lower-cases into a
  hexadecimal digit, so comparing with such a text is exact.
\<close>

definition lower_char :: "char \<Rightarrow> char" where
  "lower_char c = (if 65 \<le> byte c \<and> byte c \<le> 90 then chr (byte c + 32) else c)"

definition to_lower :: "string \<Rightarrow> string" where
  "to_lower s = map lower_char s"

lemma lower_char_idem [simp]: "lower_char (lower_char c) = lower_char c"
  by (auto simp: lower_char_def)

lemma to_lower_idem [simp]: "to_lower (to_lower s) = to_lower s"
  by (simp add: to_lower_def)

section \<open>Decimal and hexadecimal digits\<close>

definition digit_of :: "char \<Rightarrow> nat option" where
  "digit_of c =
     (let n = byte c in
      if 48 \<le> n \<and> n \<le> 57 then Some (n - 48)
      else if 97 \<le> n \<and> n \<le> 102 then Some (n - 87)
      else if 65 \<le> n \<and> n \<le> 70 then Some (n - 55)
      else None)"

definition digit_char :: "nat \<Rightarrow> char" where
  "digit_char d = (if d < 10 then chr (48 + d) else chr (87 + d))"

lemma digit_of_char [simp]: "d < 16 \<Longrightarrow> digit_of (digit_char d) = Some d"
  by (auto simp: digit_of_def digit_char_def Let_def)

fun digits_value :: "nat \<Rightarrow> nat \<Rightarrow> string \<Rightarrow> nat option" where
  "digits_value b acc [] = Some acc"
| "digits_value b acc (c # cs) =
     (case digit_of c of
        None \<Rightarrow> None
      | Some d \<Rightarrow> if d < b then digits_value b (acc * b + d) cs else None)"

lemma digits_value_append:
  "digits_value b acc (s @ t) =
     (case digits_value b acc s of None \<Rightarrow> None | Some v \<Rightarrow> digits_value b v t)"
  by (induction b acc s rule: digits_value.induct) (auto split: option.splits)

fun nat_text :: "nat \<Rightarrow> string" where
  "nat_text n = (if n < 10 then [digit_char n] else nat_text (n div 10) @ [digit_char (n mod 10)])"

declare nat_text.simps [simp del]

lemma nat_text_nonempty [simp]: "nat_text n \<noteq> []"
  by (subst nat_text.simps) simp

lemma nat_text_value: "digits_value 10 0 (nat_text n) = Some n"
proof (induction n rule: nat_text.induct)
  case (1 n)
  show ?case
  proof (cases "n < 10")
    case True
    then show ?thesis by (subst nat_text.simps) simp
  next
    case False
    with 1 have "digits_value 10 0 (nat_text (n div 10)) = Some (n div 10)" by simp
    with False show ?thesis by (subst nat_text.simps) (simp add: digits_value_append)
  qed
qed

definition is_digit :: "char \<Rightarrow> bool" where
  "is_digit c \<longleftrightarrow> 48 \<le> byte c \<and> byte c \<le> 57"

lemma is_digit_digit_char [simp]: "d < 10 \<Longrightarrow> is_digit (digit_char d)"
  by (simp add: is_digit_def digit_char_def)

lemma nat_text_digits: "\<forall>c \<in> set (nat_text n). is_digit c"
proof (induction n rule: nat_text.induct)
  case (1 n)
  then show ?case
    by (subst nat_text.simps) auto
qed

lemma nat_text_inj: "nat_text m = nat_text n \<Longrightarrow> m = n"
  by (metis nat_text_value option.inject)

definition int_text :: "int \<Rightarrow> string" where
  "int_text i = (if i < 0 then ''-'' @ nat_text (nat (- i)) else nat_text (nat i))"

lemma nat_text_hd_digit: "is_digit (hd (nat_text n))"
  using nat_text_digits [of n] by (simp add: hd_in_set)

lemma nat_text_last_digit: "is_digit (last (nat_text n))"
  using nat_text_digits [of n] by (simp add: last_in_set)

lemma int_text_inj:
  assumes "int_text i = int_text j"
  shows "i = j"
proof -
  have minus: "\<not> is_digit (CHR ''-'')" by (simp add: is_digit_def)
  have mixed: "CHR ''-'' # s \<noteq> nat_text n" for s n
    using nat_text_hd_digit [of n] minus by (metis list.sel(1))
  show ?thesis
    using assms
    by (auto simp: int_text_def mixed mixed [symmetric] split: if_splits dest: nat_text_inj)
qed

text \<open>\<open>/^\d+$/\<close>, the decimal test of the facilitator.\<close>

definition all_digits :: "string \<Rightarrow> bool" where
  "all_digits s \<longleftrightarrow> s \<noteq> [] \<and> list_all is_digit s"

lemma digits_value_all_digits:
  "list_all is_digit s \<Longrightarrow> \<exists>v. digits_value 10 acc s = Some v"
  by (induction s arbitrary: acc) (auto simp: is_digit_def digit_of_def Let_def)

lemma all_digits_nat_text [simp]: "all_digits (nat_text n)"
  using nat_text_digits by (simp add: all_digits_def list_all_iff)

section \<open>\<open>BigInt\<close> of a string\<close>

text \<open>
  ECMAScript's StringToBigInt: surrounding white space is dropped, the empty text is 0, a
  \<open>0x\<close>, \<open>0o\<close> or \<open>0b\<close> literal takes no sign, and a decimal one takes an optional sign.
  \<open>None\<close> is the SyntaxError that \<open>BigInt\<close> throws.
\<close>

definition radix_digits :: "nat \<Rightarrow> string \<Rightarrow> int option" where
  "radix_digits b s = (if s = [] then None else map_option int (digits_value b 0 s))"

definition string_to_bigint :: "string \<Rightarrow> int option" where
  "string_to_bigint s =
     (let t = trim s in
      if t = [] then Some 0
      else if starts_with ''0x'' t \<or> starts_with ''0X'' t then radix_digits 16 (drop 2 t)
      else if starts_with ''0o'' t \<or> starts_with ''0O'' t then radix_digits 8 (drop 2 t)
      else if starts_with ''0b'' t \<or> starts_with ''0B'' t then radix_digits 2 (drop 2 t)
      else if starts_with ''-'' t then map_option uminus (radix_digits 10 (drop 1 t))
      else if starts_with ''+'' t then radix_digits 10 (drop 1 t)
      else radix_digits 10 t)"

lemma digit_not_white: "is_digit c \<Longrightarrow> byte c \<notin> white_bytes"
  by (auto simp: is_digit_def white_bytes_def)

lemma trim_all_digits: "all_digits s \<Longrightarrow> trim s = s"
  by (rule trim_id) (auto simp: all_digits_def list_all_iff intro!: digit_not_white)

lemma all_digits_no_prefix:
  assumes "all_digits s" and "\<exists>c \<in> set p. \<not> is_digit c"
  shows "\<not> starts_with p s"
  using assms by (auto simp: starts_with_iff all_digits_def list_all_iff)

lemma string_to_bigint_digits:
  assumes "all_digits s"
  shows "string_to_bigint s = map_option int (digits_value 10 0 s)"
proof -
  have "\<not> starts_with p s" if "p \<in> {''0x'', ''0X'', ''0o'', ''0O'', ''0b'', ''0B'', ''-'', ''+''}" for p
    using that by (intro all_digits_no_prefix [OF assms]) (auto simp: is_digit_def)
  moreover have "s \<noteq> []" using assms by (simp add: all_digits_def)
  ultimately show ?thesis
    by (simp add: string_to_bigint_def trim_all_digits [OF assms] radix_digits_def)
qed

lemma string_to_bigint_nat_text [simp]: "string_to_bigint (nat_text n) = Some (int n)"
  by (simp add: string_to_bigint_digits nat_text_value)

lemma string_to_bigint_int_text: "string_to_bigint (int_text i) = Some i"
proof (cases "i < 0")
  case False
  then show ?thesis by (simp add: int_text_def)
next
  case True
  let ?d = "nat_text (nat (- i))"
  have "trim (CHR ''-'' # ?d) = CHR ''-'' # ?d"
    using digit_not_white [OF nat_text_last_digit, of "nat (- i)"]
    by (intro trim_id) (simp add: white_bytes_def)
  then show ?thesis
    using True
    by (simp add: string_to_bigint_def int_text_def radix_digits_def nat_text_value starts_with_def)
qed

end
