(* ===== verification/Js_Number.thy ===== *)
theory Js_Number
  imports Js_Text "HOL-Library.Log_Nat"
begin

text \<open>
  JavaScript's Number: IEEE 754 binary64, rounding to nearest with ties to even.  A finite
  value is held as the rational it denotes; the two zeros are one value here (no source
  tells them apart).  \<open>to_double\<close> is the rounding every arithmetic operation applies to
  its exact result, so a product or quotient is rounded exactly where the engine rounds.
  The lemmas say when rounding does nothing (integers below \<open>2^53\<close>) and how far it can
  move a value otherwise.
\<close>

datatype number = Fin rat | NaN | PosInf | NegInf

section \<open>Rounding\<close>

definition floor_log2 :: "rat \<Rightarrow> int" where
  "floor_log2 x =
     (let (p, q) = quotient_of x; d = bitlen p - bitlen q
      in if 2 powi d \<le> x then d else d - 1)"

definition round_half_even :: "rat \<Rightarrow> int" where
  "round_half_even x =
     (let f = \<lfloor>x\<rfloor>; d = x - of_int f
      in if d < 1 / 2 then f else if d > 1 / 2 then f + 1 else if even f then f else f + 1)"

text \<open>The spacing of doubles around a positive rational: 53 significant bits, with the
  smallest exponent of the subnormal range.\<close>

definition ulp_exponent :: "rat \<Rightarrow> int" where
  "ulp_exponent x = max (floor_log2 x - 52) (- 1074)"

definition significand :: "rat \<Rightarrow> int" where
  "significand x = round_half_even (x / 2 powi ulp_exponent x)"

definition round_pos :: "rat \<Rightarrow> rat" where
  "round_pos x = of_int (significand x) * 2 powi ulp_exponent x"

text \<open>A magnitude that rounds to \<open>2 ^ 1024\<close> or more is an infinity.\<close>

definition overflows :: "rat \<Rightarrow> bool" where
  "overflows x \<longleftrightarrow> ulp_exponent x > 971 \<or> (ulp_exponent x = 971 \<and> significand x \<ge> 2 ^ 53)"

definition to_double :: "rat \<Rightarrow> number" where
  "to_double x =
     (if x = 0 then Fin 0
      else if overflows \<bar>x\<bar> then (if x > 0 then PosInf else NegInf)
      else Fin (if x > 0 then round_pos \<bar>x\<bar> else - round_pos \<bar>x\<bar>))"

lemma bitlen_bounds_pos: "p > 0 \<Longrightarrow> 2 powi (bitlen p - 1) \<le> (of_int p :: rat) \<and> (of_int p :: rat) < 2 powi bitlen p"
proof -
  assume p: "p > 0"
  from bitlen_bounds [OF p] have b: "2 ^ nat (bitlen p - 1) \<le> p \<and> p < 2 ^ nat (bitlen p)" .
  have pos: "bitlen p > 0" using p bitlen_nonneg [of p] bitlen_eq_zero_iff [of p] by linarith
  have "(2 :: rat) powi (bitlen p - 1) = of_int (2 ^ nat (bitlen p - 1))"
    using pos by (simp add: power_int_def)
  moreover have "(2 :: rat) powi bitlen p = of_int (2 ^ nat (bitlen p))"
    using pos by (simp add: power_int_def)
  ultimately show ?thesis using b by (metis of_int_le_iff of_int_less_iff)
qed

lemma two_powi_Suc: "(2 :: rat) powi (1 + e) = 2 * 2 powi e"
  by (simp add: power_int_add)

lemma two_powi_minus52: "(2 :: rat) powi (e - 52) = 2 powi e / 2 ^ 52"
  using power_int_diff [of "2 :: rat" e 52] by simp

lemma floor_log2_bounds:
  assumes "x > 0"
  shows "2 powi floor_log2 x \<le> x" and "x < 2 powi (floor_log2 x + 1)"
proof -
  obtain p q where pq: "quotient_of x = (p, q)" by fastforce
  have q: "q > 0" using pq by (rule quotient_of_denom_pos)
  have x: "x = of_int p / of_int q" using pq by (rule quotient_of_div)
  have p: "p > 0" using assms x q by (simp add: zero_less_divide_iff)
  let ?d = "bitlen p - bitlen q"
  have lo: "2 powi (?d - 1) \<le> x"
  proof -
    have "(2 :: rat) powi (?d - 1) = 2 powi (bitlen p - 1) / 2 powi bitlen q"
      by (simp add: algebra_simps flip: power_int_diff)
    also have "\<dots> \<le> of_int p / of_int q"
      using bitlen_bounds_pos [OF p] bitlen_bounds_pos [OF q] p q
      by (intro frac_le) auto
    finally show ?thesis using x by simp
  qed
  have hi: "x < 2 powi (?d + 1)"
  proof -
    have "of_int p / of_int q < (2 :: rat) powi bitlen p / 2 powi (bitlen q - 1)"
      using bitlen_bounds_pos [OF p] bitlen_bounds_pos [OF q] p
      by (intro frac_less) (auto simp: zero_less_power_int)
    also have "\<dots> = 2 powi (?d + 1)"
      by (simp add: algebra_simps flip: power_int_diff)
    finally show ?thesis using x by simp
  qed
  show "2 powi floor_log2 x \<le> x" and "x < 2 powi (floor_log2 x + 1)"
    using lo hi pq by (auto simp: floor_log2_def Let_def)
qed

lemma round_half_even_error: "\<bar>of_int (round_half_even x) - x\<bar> \<le> 1 / 2"
proof -
  have "of_int \<lfloor>x\<rfloor> \<le> x" "x < of_int \<lfloor>x\<rfloor> + 1" by linarith+
  then show ?thesis by (auto simp: round_half_even_def Let_def abs_le_iff)
qed

lemma round_half_even_int [simp]: "round_half_even (of_int n) = n"
  by (simp add: round_half_even_def)

lemma ulp_exponent_bound:
  assumes "1 / 10000 \<le> x"
  shows "2 powi ulp_exponent x \<le> x * (1 / 2 ^ 52)"
proof -
  have x: "x > 0" using assms by simp
  have "floor_log2 x - 52 \<ge> - 1074"
  proof (rule ccontr)
    assume "\<not> ?thesis"
    then have "floor_log2 x + 1 \<le> - 20" by simp
    then have "(2 :: rat) powi (floor_log2 x + 1) \<le> 2 powi (- 20)"
      by (intro power_int_increasing) auto
    also have "\<dots> < 1 / 10000" by (simp add: power_int_def power_divide)
    finally show False using floor_log2_bounds(2) [OF x] assms by simp
  qed
  then have "(2 :: rat) powi ulp_exponent x = 2 powi floor_log2 x / 2 ^ 52"
    by (simp add: ulp_exponent_def two_powi_minus52)
  then show ?thesis using floor_log2_bounds(1) [OF x] by simp
qed

lemma round_pos_error:
  assumes "1 / 10000 \<le> x"
  shows "\<bar>round_pos x - x\<bar> \<le> x / 2 ^ 53"
proof -
  let ?u = "(2 :: rat) powi ulp_exponent x"
  have u: "?u > 0" by (simp add: zero_less_power_int)
  have "round_pos x - x = (of_int (round_half_even (x / ?u)) - x / ?u) * ?u"
    using u by (simp add: round_pos_def significand_def algebra_simps)
  then have "\<bar>round_pos x - x\<bar> = \<bar>of_int (round_half_even (x / ?u)) - x / ?u\<bar> * ?u"
    using u by (simp add: abs_mult)
  also have "\<dots> \<le> 1 / 2 * ?u"
    using u by (intro mult_right_mono round_half_even_error) simp
  also have "\<dots> \<le> 1 / 2 * (x * (1 / 2 ^ 52))"
    by (intro mult_left_mono ulp_exponent_bound assms) simp
  finally show ?thesis by simp
qed

lemma floor_log2_upper:
  assumes x: "0 < x" and "x < 2 powi n"
  shows "floor_log2 x < n"
proof (rule ccontr)
  assume "\<not> ?thesis"
  then have "(2 :: rat) powi n \<le> 2 powi floor_log2 x" by (intro power_int_increasing) auto
  with floor_log2_bounds(1) [OF x] assms show False by simp
qed

lemma floor_log2_nonneg:
  assumes "1 \<le> x"
  shows "0 \<le> floor_log2 x"
proof (rule ccontr)
  assume "\<not> ?thesis"
  then have "(2 :: rat) powi (floor_log2 x + 1) \<le> 2 powi 0" by (intro power_int_increasing) auto
  with floor_log2_bounds(2) [of x] assms show False by simp
qed

lemma not_overflows: "0 < x \<Longrightarrow> x < 2 powi 1000 \<Longrightarrow> \<not> overflows x"
  using floor_log2_upper [of x 1000] by (auto simp: overflows_def ulp_exponent_def)

lemma int_rat_bounds:
  assumes "0 < n" and "n < 2 ^ 53"
  shows "(of_int n :: rat) \<ge> 1" and "(of_int n :: rat) < 2 powi 53"
proof -
  have "(of_int n :: rat) < of_int (2 ^ 53)" using assms(2) by (simp only: of_int_less_iff)
  then show "(of_int n :: rat) < 2 powi 53" by simp
  have "(1 :: int) \<le> n" using assms by simp
  then show "(of_int n :: rat) \<ge> 1" by (simp only: of_int_1_le_iff)
qed

lemma round_pos_int:
  assumes "0 < n" and "n < 2 ^ 53"
  shows "round_pos (of_int n) = of_int n"
proof -
  let ?x = "of_int n :: rat"
  have "floor_log2 ?x < 53" "0 \<le> floor_log2 ?x"
    using int_rat_bounds [OF assms] assms by (auto intro: floor_log2_upper floor_log2_nonneg)
  then have "ulp_exponent ?x = - int (nat (52 - floor_log2 ?x))"
    by (simp add: ulp_exponent_def)
  then obtain k :: nat where k: "ulp_exponent ?x = - int k" by blast
  have "?x / 2 powi ulp_exponent ?x = of_int (n * 2 ^ k)"
    by (simp add: k power_int_minus divide_inverse)
  then have "round_pos ?x = of_int (n * 2 ^ k) * 2 powi ulp_exponent ?x"
    by (simp only: round_pos_def significand_def round_half_even_int)
  then show ?thesis by (simp add: k power_int_minus)
qed

lemma to_double_int:
  assumes "\<bar>n\<bar> < 2 ^ 53"
  shows "to_double (of_int n) = Fin (of_int n)"
proof (cases "n = 0")
  case False
  then have n: "0 < \<bar>n\<bar>" by simp
  have "(2 :: rat) powi 53 \<le> 2 powi 1000" by (intro power_int_increasing) auto
  with int_rat_bounds [OF n assms] have "\<not> overflows (of_int \<bar>n\<bar>)"
    using n by (intro not_overflows) (auto simp del: of_int_abs)
  with False round_pos_int [OF n assms] show ?thesis
    by (auto simp: to_double_def)
qed (simp add: to_double_def)

section \<open>Arithmetic\<close>

fun num_sign :: "number \<Rightarrow> rat" where
  "num_sign (Fin x) = sgn x"
| "num_sign NaN = 0"
| "num_sign PosInf = 1"
| "num_sign NegInf = - 1"

definition signed_inf :: "rat \<Rightarrow> number" where
  "signed_inf s = (if s > 0 then PosInf else if s < 0 then NegInf else NaN)"

fun num_neg :: "number \<Rightarrow> number" where
  "num_neg (Fin x) = Fin (- x)"
| "num_neg NaN = NaN"
| "num_neg PosInf = NegInf"
| "num_neg NegInf = PosInf"

fun num_mul :: "number \<Rightarrow> number \<Rightarrow> number" where
  "num_mul (Fin x) (Fin y) = to_double (x * y)"
| "num_mul NaN y = NaN"
| "num_mul x NaN = NaN"
| "num_mul x y = signed_inf (num_sign x * num_sign y)"

fun num_div :: "number \<Rightarrow> number \<Rightarrow> number" where
  "num_div (Fin x) (Fin y) = (if y = 0 then signed_inf (sgn x) else to_double (x / y))"
| "num_div NaN y = NaN"
| "num_div x NaN = NaN"
| "num_div (Fin x) y = Fin 0"
| "num_div x (Fin y) = signed_inf (num_sign x * (if y < 0 then - 1 else 1))"
| "num_div x y = NaN"

fun num_add :: "number \<Rightarrow> number \<Rightarrow> number" where
  "num_add (Fin x) (Fin y) = to_double (x + y)"
| "num_add NaN y = NaN"
| "num_add x NaN = NaN"
| "num_add (Fin x) y = y"
| "num_add x (Fin y) = x"
| "num_add x y = (if x = y then x else NaN)"

definition num_sub :: "number \<Rightarrow> number \<Rightarrow> number" where
  "num_sub x y = num_add x (num_neg y)"

text \<open>\<open>Math.floor\<close> is exact; \<open>Math.min\<close> and \<open>Math.max\<close> are NaN when an argument is.\<close>

fun math_floor :: "number \<Rightarrow> number" where
  "math_floor (Fin x) = Fin (of_int \<lfloor>x\<rfloor>)"
| "math_floor n = n"

fun num_less :: "number \<Rightarrow> number \<Rightarrow> bool" where
  "num_less (Fin x) (Fin y) = (x < y)"
| "num_less NaN y = False"
| "num_less x NaN = False"
| "num_less NegInf y = (y \<noteq> NegInf)"
| "num_less x PosInf = (x \<noteq> PosInf)"
| "num_less x y = False"

definition math_min :: "number \<Rightarrow> number \<Rightarrow> number" where
  "math_min x y = (if x = NaN \<or> y = NaN then NaN else if num_less y x then y else x)"

definition math_max :: "number \<Rightarrow> number \<Rightarrow> number" where
  "math_max x y = (if x = NaN \<or> y = NaN then NaN else if num_less x y then y else x)"

fun is_finite :: "number \<Rightarrow> bool" where
  "is_finite (Fin x) = True"
| "is_finite n = False"

text \<open>\<open>Number.isInteger\<close>.\<close>

fun is_integer :: "number \<Rightarrow> bool" where
  "is_integer (Fin x) = (of_int \<lfloor>x\<rfloor> = x)"
| "is_integer n = False"

abbreviation num_of_int :: "int \<Rightarrow> number" where
  "num_of_int n \<equiv> Fin (of_int n)"

section \<open>Decimal text of a number\<close>

definition floor_log10 :: "rat \<Rightarrow> int" where
  "floor_log10 x =
     (let (p, q) = quotient_of x;
          d = int (length (nat_text (nat p))) - int (length (nat_text (nat q)))
      in if 10 powi d \<le> x then d else d - 1)"

text \<open>
  The shortest decimal that reads back as the value (ECMAScript's Number::toString): for
  each digit count \<open>k\<close> the neighbours of \<open>x / 10 ^ (n - k)\<close>, the closer one when both
  read back.  The result is \<open>(s, k, n)\<close>, standing for \<open>s * 10 ^ (n - k)\<close>.  Seventeen
  digits always suffice for a double, hence the bound.
\<close>

fun shortest_digits :: "nat \<Rightarrow> int \<Rightarrow> rat \<Rightarrow> int \<times> int \<times> int" where
  "shortest_digits 0 k x = (\<lfloor>x / 10 powi (floor_log10 x + 1 - k)\<rfloor>, k, floor_log10 x + 1)"
| "shortest_digits (Suc f) k x =
     (let n = floor_log10 x + 1; u = 10 powi (n - k); s = \<lfloor>x / u\<rfloor>;
          lo = to_double (of_int s * u) = Fin x;
          hi = to_double (of_int (s + 1) * u) = Fin x;
          pick = (if lo \<and> (\<not> hi \<or> x - of_int s * u \<le> of_int (s + 1) * u - x) then s else s + 1)
      in if lo \<or> hi
         then (if pick = 10 ^ nat k then (10 ^ nat (k - 1), k, n + 1) else (pick, k, n))
         else shortest_digits f (k + 1) x)"

definition zeros :: "int \<Rightarrow> string" where
  "zeros n = replicate (nat n) (CHR ''0'')"

definition pos_text :: "rat \<Rightarrow> string" where
  "pos_text x =
     (if of_int \<lfloor>x\<rfloor> = x \<and> x < 2 ^ 53 then nat_text (nat \<lfloor>x\<rfloor>)
      else
        (let (s, k, n) = shortest_digits 17 1 x; ds = nat_text (nat s)
         in if k \<le> n \<and> n \<le> 21 then ds @ zeros (n - k)
            else if 0 < n \<and> n \<le> 21 then take (nat n) ds @ ''.'' @ drop (nat n) ds
            else if - 6 < n \<and> n \<le> 0 then ''0.'' @ zeros (- n) @ ds
            else take 1 ds @ (if k = 1 then [] else ''.'' @ drop 1 ds) @ ''e'' @
              (if n - 1 < 0 then ''-'' else ''+'') @ nat_text (nat \<bar>n - 1\<bar>)))"

text \<open>\<open>String(x)\<close>.  Below \<open>2^53\<close> an integer's shortest text is its plain decimal one.\<close>

fun num_text :: "number \<Rightarrow> string" where
  "num_text NaN = ''NaN''"
| "num_text PosInf = ''Infinity''"
| "num_text NegInf = ''-Infinity''"
| "num_text (Fin x) =
     (if x = 0 then ''0'' else if x < 0 then ''-'' @ pos_text (- x) else pos_text x)"

lemma num_text_int:
  assumes "\<bar>i\<bar> < 2 ^ 53"
  shows "num_text (num_of_int i) = int_text i"
proof -
  have small: "(of_int \<bar>i\<bar> :: rat) < 2 ^ 53"
  proof -
    have "(of_int \<bar>i\<bar> :: rat) < of_int (2 ^ 53)" using assms by (simp only: of_int_less_iff)
    then show ?thesis by simp
  qed
  then have "pos_text (of_int \<bar>i\<bar>) = nat_text (nat \<bar>i\<bar>)"
    by (simp add: pos_text_def del: of_int_abs)
  moreover have "nat_text 0 = ''0''"
    by (simp add: nat_text.simps digit_char_def)
  ultimately show ?thesis
    by (cases "i = 0"; cases "i < 0") (simp_all add: int_text_def)
qed

text \<open>\<open>x.toFixed(2)\<close>: the integer nearest to \<open>100 x\<close>, the larger of two equally near.\<close>

fun to_fixed2 :: "number \<Rightarrow> string" where
  "to_fixed2 (Fin x) =
     (if \<bar>x\<bar> \<ge> 10 ^ 21 then num_text (Fin x)
      else
        (let n = nat \<lfloor>100 * \<bar>x\<bar> + 1 / 2\<rfloor>; ds = nat_text n;
             ds' = replicate (3 - length ds) (CHR ''0'') @ ds
         in (if x < 0 then ''-'' else []) @ take (length ds' - 2) ds' @ ''.'' @
            drop (length ds' - 2) ds'))"
| "to_fixed2 n = num_text n"

section \<open>Reading numbers\<close>

text \<open>
  \<open>decimal_value\<close> reads \<open>digits [. digits] [e [sign] digits]\<close> as an exact rational.  The
  flags say whether a missing integer or fraction part is allowed, which is where
  \<open>Number(text)\<close> and a JSON number differ.
\<close>

definition exponent_value :: "string \<Rightarrow> int option" where
  "exponent_value s =
     (let (neg, ds) = (if starts_with ''-'' s then (True, drop 1 s)
                       else if starts_with ''+'' s then (False, drop 1 s) else (False, s))
      in if all_digits ds then map_option (\<lambda>v. if neg then - int v else int v) (digits_value 10 0 ds)
         else None)"

definition decimal_value :: "bool \<Rightarrow> string \<Rightarrow> rat option" where
  "decimal_value loose s =
     (let ip = takeWhile is_digit s; r = dropWhile is_digit s;
          dot = starts_with ''.'' r; r' = (if dot then drop 1 r else r);
          fp = (if dot then takeWhile is_digit r' else []);
          ex = (if dot then dropWhile is_digit r' else r)
      in if (if loose then ip = [] \<and> fp = []
             else ip = [] \<or> (dot \<and> fp = []) \<or> (length ip > 1 \<and> starts_with ''0'' ip)) then None
         else
           case (if ex = [] then Some 0
                 else if starts_with ''e'' ex \<or> starts_with ''E'' ex then exponent_value (drop 1 ex)
                 else None) of
             None \<Rightarrow> None
           | Some e \<Rightarrow>
               map_option (\<lambda>v. of_nat v * 10 powi (e - int (length fp)))
                 (digits_value 10 0 (ip @ fp)))"

text \<open>\<open>Number(text)\<close>, ECMAScript's StringToNumber.\<close>

definition string_to_number :: "string \<Rightarrow> number" where
  "string_to_number s =
     (let t = trim s;
          radix = (\<lambda>b. case radix_digits b (drop 2 t) of None \<Rightarrow> NaN | Some v \<Rightarrow> to_double (of_int v));
          unsigned = (\<lambda>u. if u = ''Infinity'' then PosInf
                          else case decimal_value True u of None \<Rightarrow> NaN | Some x \<Rightarrow> to_double x)
      in if t = [] then Fin 0
         else if starts_with ''0x'' t \<or> starts_with ''0X'' t then radix 16
         else if starts_with ''0o'' t \<or> starts_with ''0O'' t then radix 8
         else if starts_with ''0b'' t \<or> starts_with ''0B'' t then radix 2
         else if starts_with ''-'' t then num_neg (unsigned (drop 1 t))
         else if starts_with ''+'' t then unsigned (drop 1 t)
         else unsigned t)"

lemma dropWhile_all [simp]: "list_all P s \<Longrightarrow> dropWhile P s = []"
  by (simp add: list_all_iff)

lemma takeWhile_all [simp]: "list_all P s \<Longrightarrow> takeWhile P s = s"
  by (simp add: list_all_iff)

lemma decimal_value_loose_digits:
  "all_digits s \<Longrightarrow> decimal_value True s = map_option of_nat (digits_value 10 0 s)"
  by (simp add: decimal_value_def all_digits_def starts_with_def option.map_comp comp_def)

end
