(* ===== verification/Base64.thy ===== *)
theory Base64
  imports Js_Text
begin

text \<open>
  \<open>btoa\<close> and \<open>atob\<close> on byte strings: the alphabet, the padded encoder and WHATWG's
  forgiving decoder (ASCII white space dropped, padding optional, surplus low bits of the
  last digit ignored).  The round trip is proved for every byte string.  The locale
  \<open>codec\<close> is the interface the header encoding is built on: a partial decoder that
  inverts a total encoder on the values that are allowed into it.
\<close>

section \<open>Codecs\<close>

locale codec =
  fixes encode :: "'a \<Rightarrow> 'b" and decode :: "'b \<Rightarrow> 'e + 'a" and valid :: "'a \<Rightarrow> bool"
  assumes decode_encode: "valid x \<Longrightarrow> decode (encode x) = Inr x"
begin

lemma encode_inj:
  assumes "valid x" and "valid y" and "encode x = encode y"
  shows "x = y"
  using assms decode_encode by (metis sum.inject(2))

lemma encode_eq_iff: "valid x \<Longrightarrow> valid y \<Longrightarrow> encode x = encode y \<longleftrightarrow> x = y"
  using encode_inj by blast

end

section \<open>Alphabet\<close>

definition sextet_char :: "nat \<Rightarrow> char" where
  "sextet_char n =
     (if n < 26 then chr (65 + n) else if n < 52 then chr (71 + n)
      else if n < 62 then chr (n - 4) else if n = 62 then CHR ''+'' else CHR ''/'')"

definition char_sextet :: "char \<Rightarrow> nat option" where
  "char_sextet c =
     (let n = byte c in
      if 65 \<le> n \<and> n \<le> 90 then Some (n - 65)
      else if 97 \<le> n \<and> n \<le> 122 then Some (n - 71)
      else if 48 \<le> n \<and> n \<le> 57 then Some (n + 4)
      else if n = 43 then Some 62 else if n = 47 then Some 63 else None)"

lemma char_sextet_sextet_char [simp]: "n < 64 \<Longrightarrow> char_sextet (sextet_char n) = Some n"
  by (auto simp: char_sextet_def sextet_char_def Let_def)

definition b64_space :: "char \<Rightarrow> bool" where
  "b64_space c \<longleftrightarrow> byte c \<in> {9, 10, 12, 13, 32}"

lemma sextet_char_special:
  "n < 64 \<Longrightarrow> \<not> b64_space (sextet_char n)" "n < 64 \<Longrightarrow> sextet_char n \<noteq> CHR ''=''"
  by (auto simp: sextet_char_def b64_space_def chr_eq_byte)

section \<open>Grouping\<close>

fun to_sextets :: "nat list \<Rightarrow> nat list" where
  "to_sextets (a # b # c # r) =
     a div 4 # (a mod 4 * 16 + b div 16) # (b mod 16 * 4 + c div 64) # (c mod 64) # to_sextets r"
| "to_sextets [a, b] = [a div 4, a mod 4 * 16 + b div 16, b mod 16 * 4]"
| "to_sextets [a] = [a div 4, a mod 4 * 16]"
| "to_sextets [] = []"

fun of_sextets :: "nat list \<Rightarrow> nat list" where
  "of_sextets (w # x # y # z # r) =
     (w * 4 + x div 16) # (x mod 16 * 16 + y div 4) # (y mod 4 * 64 + z) # of_sextets r"
| "of_sextets [w, x, y] = [w * 4 + x div 16, x mod 16 * 16 + y div 4]"
| "of_sextets [w, x] = [w * 4 + x div 16]"
| "of_sextets _ = []"

lemma of_to_sextets: "\<forall>b \<in> set bs. b < 256 \<Longrightarrow> of_sextets (to_sextets bs) = bs"
  by (induction bs rule: to_sextets.induct) auto

lemma to_sextets_bound: "\<forall>b \<in> set bs. b < 256 \<Longrightarrow> \<forall>s \<in> set (to_sextets bs). s < 64"
proof (induction bs rule: to_sextets.induct)
  case (1 a b c r)
  then have "a div 4 < 64" "b div 16 < 16" "c div 64 < 4" by auto
  moreover have "a mod 4 < 4" "b mod 16 < 16" by simp_all
  ultimately show ?case using 1 by auto
next
  case (2 a b)
  then have "a div 4 < 64" "b div 16 < 16" by auto
  moreover have "a mod 4 < 4" "b mod 16 < 16" by simp_all
  ultimately show ?case by auto
next
  case (3 a)
  then have "a div 4 < 64" by auto
  moreover have "a mod 4 < 4" by simp
  ultimately show ?case by auto
qed simp

lemma to_sextets_length:
  "length (to_sextets bs) = length bs div 3 * 4 + (if length bs mod 3 = 0 then 0 else length bs mod 3 + 1)"
  by (induction bs rule: to_sextets.induct) (auto simp: div_Suc mod_Suc)

lemma to_sextets_mod4: "length (to_sextets bs) mod 4 \<noteq> 1"
  by (induction bs rule: to_sextets.induct) (auto simp: mod_Suc)

section \<open>\<open>btoa\<close> and \<open>atob\<close>\<close>

definition padding :: "nat \<Rightarrow> string" where
  "padding n = replicate ((4 - n mod 4) mod 4) (CHR ''='')"

definition btoa :: "bytes \<Rightarrow> string" where
  "btoa bs =
     (let ss = to_sextets (map byte bs) in map sextet_char ss @ padding (length ss))"

fun map_sextets :: "string \<Rightarrow> nat list option" where
  "map_sextets [] = Some []"
| "map_sextets (c # cs) =
     (case char_sextet c of None \<Rightarrow> None | Some n \<Rightarrow> map_option (Cons n) (map_sextets cs))"

text \<open>At most two trailing equals signs, and only of a text whose length is a multiple of four.\<close>

definition strip_padding :: "string \<Rightarrow> string" where
  "strip_padding s =
     (if length s mod 4 = 0 \<and> s \<noteq> [] \<and> last s = CHR ''=''
      then (let t = butlast s in if t \<noteq> [] \<and> last t = CHR ''='' then butlast t else t)
      else s)"

definition atob :: "string \<Rightarrow> bytes option" where
  "atob s =
     (let t = strip_padding (filter (\<lambda>c. \<not> b64_space c) s)
      in if length t mod 4 = 1 then None
         else map_option (\<lambda>ss. map chr (of_sextets ss)) (map_sextets t))"

lemma map_sextets_chars: "\<forall>s \<in> set ss. s < 64 \<Longrightarrow> map_sextets (map sextet_char ss) = Some ss"
  by (induction ss) auto

lemma padding_cases: "n mod 4 = 0 \<and> padding n = [] \<or> n mod 4 = 1 \<and> padding n = ''==='' \<or>
    n mod 4 = 2 \<and> padding n = ''=='' \<or> n mod 4 = 3 \<and> padding n = ''=''"
proof -
  have "n mod 4 < 4" by simp
  then consider "n mod 4 = 0" | "n mod 4 = 1" | "n mod 4 = 2" | "n mod 4 = 3" by linarith
  then show ?thesis
  proof cases
    case 2
    then have "padding n = replicate 3 (CHR ''='')" by (simp add: padding_def)
    also have "\<dots> = ''===''" by code_simp
    finally show ?thesis using 2 by simp
  next
    case 3
    then have "padding n = replicate 2 (CHR ''='')" by (simp add: padding_def)
    also have "\<dots> = ''==''" by code_simp
    finally show ?thesis using 3 by simp
  qed (simp_all add: padding_def)
qed

lemma strip_padding_padding:
  assumes "CHR ''='' \<notin> set t" and "length t mod 4 \<noteq> 1"
  shows "strip_padding (t @ padding (length t)) = t"
proof -
  have last: "t \<noteq> [] \<Longrightarrow> last t \<noteq> CHR ''=''" using assms(1) last_in_set by metis
  consider "length t mod 4 = 0" "padding (length t) = []"
    | "length t mod 4 = 2" "padding (length t) = ''==''"
    | "length t mod 4 = 3" "padding (length t) = ''=''"
    using padding_cases [of "length t"] assms(2) by auto
  then show ?thesis
  proof cases
    case 2
    then show ?thesis by (simp add: strip_padding_def mod_Suc butlast_append)
  next
    case 3
    then show ?thesis using last by (auto simp: strip_padding_def mod_Suc butlast_append)
  qed (use last in \<open>auto simp: strip_padding_def\<close>)
qed

theorem atob_btoa [simp]: "atob (btoa bs) = Some bs"
proof -
  define ss where "ss = to_sextets (map byte bs)"
  define t where "t = map sextet_char ss"
  have bytes: "\<forall>b \<in> set (map byte bs). b < (256 :: nat)" by simp
  have ss: "\<forall>s \<in> set ss. s < 64" unfolding ss_def by (rule to_sextets_bound [OF bytes])
  have len: "length t mod 4 \<noteq> 1"
    using to_sextets_mod4 by (simp add: t_def ss_def)
  have no_eq: "CHR ''='' \<notin> set t"
    using ss sextet_char_special(2) unfolding t_def by (metis (no_types, lifting) image_iff list.set_map)
  have "btoa bs = t @ padding (length t)"
    by (simp add: btoa_def ss_def t_def Let_def)
  moreover have "filter (\<lambda>c. \<not> b64_space c) (padding n) = padding n" for n
    by (simp add: padding_def b64_space_def)
  moreover have "filter (\<lambda>c. \<not> b64_space c) t = t"
    using ss by (auto simp: t_def filter_id_conv sextet_char_special)
  ultimately have "strip_padding (filter (\<lambda>c. \<not> b64_space c) (btoa bs)) = t"
    using strip_padding_padding [OF no_eq len] by simp
  moreover have "map chr (of_sextets ss) = bs"
    using of_to_sextets [OF bytes] by (simp add: ss_def comp_def)
  ultimately show ?thesis
    using len map_sextets_chars [OF ss] by (simp add: atob_def t_def)
qed

lemma btoa_length: "length (btoa bs) = (length bs + 2) div 3 * 4"
proof -
  define k m where "k = length bs div 3" and "m = length bs mod 3"
  have len: "length bs = 3 * k + m" and "m < 3" by (simp_all add: k_def m_def)
  then consider "m = 0" | "m = 1" | "m = 2" by linarith
  then show ?thesis
    using len by cases (simp_all add: btoa_def to_sextets_length padding_def mod_Suc div_Suc Let_def)
qed

end
