(* ===== verification/Utf8.thy ===== *)
theory Utf8
  imports Base64
begin

text \<open>
  \<open>TextEncoder\<close> and \<open>TextDecoder\<close>.  Text is held as UTF-8 bytes, so encoding only
  replaces lone surrogates and decoding only replaces malformed sequences, one U+FFFD for
  each maximal prefix of a sequence as WHATWG's decoder does, after dropping a byte order
  mark.  \<open>utf8_wf\<close> recognises the well-formed byte strings; on those both are the identity,
  which gives the codec its interpretation.
\<close>

definition replacement :: bytes where
  "replacement = [chr 239, chr 191, chr 189]"

text \<open>For a lead byte: how many continuation bytes follow, and the range of the first.\<close>

definition utf8_lead :: "nat \<Rightarrow> (nat \<times> nat \<times> nat) option" where
  "utf8_lead b =
     (if 194 \<le> b \<and> b \<le> 223 then Some (1, 128, 191)
      else if b = 224 then Some (2, 160, 191)
      else if b = 237 then Some (2, 128, 159)
      else if 225 \<le> b \<and> b \<le> 239 then Some (2, 128, 191)
      else if b = 240 then Some (3, 144, 191)
      else if b = 244 then Some (3, 128, 143)
      else if 241 \<le> b \<and> b \<le> 243 then Some (3, 128, 191)
      else None)"

fun take_conts :: "nat \<Rightarrow> nat \<Rightarrow> nat \<Rightarrow> bytes \<Rightarrow> bytes \<times> bytes \<times> bool" where
  "take_conts 0 lo hi bs = ([], bs, True)"
| "take_conts (Suc n) lo hi [] = ([], [], False)"
| "take_conts (Suc n) lo hi (c # cs) =
     (if lo \<le> byte c \<and> byte c \<le> hi
      then (case take_conts n 128 191 cs of (t, r, ok) \<Rightarrow> (c # t, r, ok))
      else ([], c # cs, False))"

lemma take_conts_code [code]:
  "take_conts n lo hi bs =
     (if n = 0 then ([], bs, True)
      else case bs of
        [] \<Rightarrow> ([], [], False)
      | c # cs \<Rightarrow>
          if lo \<le> byte c \<and> byte c \<le> hi
          then (case take_conts (n - 1) 128 191 cs of (t, r, ok) \<Rightarrow> (c # t, r, ok))
          else ([], c # cs, False))"
  by (cases n; cases bs) auto

lemma take_conts_length: "take_conts n lo hi bs = (t, r, ok) \<Longrightarrow> length r \<le> length bs"
proof (induction n lo hi bs arbitrary: t rule: take_conts.induct)
  case (3 n lo hi c cs)
  then show ?case by (fastforce split: if_splits prod.splits)
qed auto

lemma take_conts_split: "take_conts n lo hi bs = (t, r, ok) \<Longrightarrow> bs = t @ r"
  by (induction n lo hi bs arbitrary: t rule: take_conts.induct) (auto split: if_splits prod.splits)

lemma take_conts_append:
  "take_conts n lo hi bs = (t, r, True) \<Longrightarrow> take_conts n lo hi (bs @ s) = (t, r @ s, True)"
  by (induction n lo hi bs arbitrary: t rule: take_conts.induct) (auto split: if_splits prod.splits)

lemma take_conts_bytes:
  "take_conts n lo hi bs = (t, r, ok) \<Longrightarrow> hi \<le> 191 \<Longrightarrow> \<forall>c \<in> set t. byte c \<le> (191 :: nat)"
  by (induction n lo hi bs arbitrary: t rule: take_conts.induct) (auto split: if_splits prod.splits)

lemma take_conts_high:
  "take_conts n lo hi bs = (t, r, ok) \<Longrightarrow> 128 \<le> lo \<Longrightarrow> \<forall>c \<in> set t. byte c \<ge> (128 :: nat)"
  by (induction n lo hi bs arbitrary: t rule: take_conts.induct) (auto split: if_splits prod.splits)

lemma take_conts_replace:
  "take_conts n lo hi bs = (t, r, True) \<Longrightarrow> take_conts n lo hi (t @ s) = (t, s, True)"
  by (induction n lo hi bs arbitrary: t rule: take_conts.induct) (auto split: if_splits prod.splits)

lemma take_conts_first:
  "take_conts (Suc n) lo hi bs = (t, r, True) \<Longrightarrow> \<exists>c t'. t = c # t' \<and> lo \<le> byte c \<and> byte c \<le> hi"
  by (cases bs) (auto split: if_splits prod.splits)

function utf8_replace :: "bytes \<Rightarrow> string" where
  "utf8_replace [] = []"
| "utf8_replace (b # bs) =
     (if byte b < (128 :: nat) then b # utf8_replace bs
      else case utf8_lead (byte b) of
        None \<Rightarrow> replacement @ utf8_replace bs
      | Some (n, lo, hi) \<Rightarrow>
          (case take_conts n lo hi bs of
             (t, r, ok) \<Rightarrow> (if ok then b # t else replacement) @ utf8_replace r))"
  by pat_completeness auto
termination
  by (relation "measure length") (auto dest: take_conts_length [OF sym] simp: less_Suc_eq_le)

function utf8_wf :: "bytes \<Rightarrow> bool" where
  "utf8_wf [] = True"
| "utf8_wf (b # bs) =
     (if byte b < (128 :: nat) then utf8_wf bs
      else case utf8_lead (byte b) of
        None \<Rightarrow> False
      | Some (n, lo, hi) \<Rightarrow> (case take_conts n lo hi bs of (t, r, ok) \<Rightarrow> ok \<and> utf8_wf r))"
  by pat_completeness auto
termination
  by (relation "measure length") (auto dest: take_conts_length [OF sym] simp: less_Suc_eq_le)

lemma utf8_replace_wf [simp]: "utf8_wf s \<Longrightarrow> utf8_replace s = s"
proof (induction s rule: utf8_wf.induct)
  case (2 b bs)
  then show ?case
    by (auto split: if_splits option.splits prod.splits dest: take_conts_split)
qed simp

lemma utf8_wf_append [simp]:
  assumes "utf8_wf s" and "utf8_wf t"
  shows "utf8_wf (s @ t)"
  using assms(1)
proof (induction s rule: utf8_wf.induct)
  case (2 b bs)
  show ?case
  proof (cases "byte b < (128 :: nat)")
    case False
    with "2.prems" obtain n lo hi u r where lead: "utf8_lead (byte b) = Some (n, lo, hi)"
      and tc: "take_conts n lo hi bs = (u, r, True)" and wf: "utf8_wf r"
      by (auto split: option.splits prod.splits)
    have "utf8_wf (r @ t)" using "2.IH"(2) [OF False lead] tc wf by auto
    with False lead take_conts_append [OF tc, of t] show ?thesis by simp
  qed (use 2 in simp)
qed (use assms(2) in simp)

lemma utf8_wf_ascii: "list_all (\<lambda>c. byte c < (128 :: nat)) s \<Longrightarrow> utf8_wf s"
  by (induction s) auto

section \<open>Encoding and decoding\<close>

text \<open>\<open>TextEncoder.encode\<close>: a lone surrogate (held as \<open>ED A0..BF xx\<close>) becomes U+FFFD.\<close>

fun utf8_encode :: "string \<Rightarrow> bytes" where
  "utf8_encode (a # b # c # r) =
     (if byte a = (237 :: nat) \<and> byte b \<ge> (160 :: nat) then replacement @ utf8_encode r
      else a # utf8_encode (b # c # r))"
| "utf8_encode s = s"

text \<open>No surrogate occurs in well-formed UTF-8: \<open>ED\<close> only leads sequences whose next byte
  is below \<open>A0\<close>.\<close>

fun surrogate_free :: "string \<Rightarrow> bool" where
  "surrogate_free (a # b # r) =
     (\<not> (byte a = (237 :: nat) \<and> byte b \<ge> (160 :: nat)) \<and> surrogate_free (b # r))"
| "surrogate_free s = True"

lemma surrogate_free_cons:
  "surrogate_free (a # s) \<longleftrightarrow>
     (s = [] \<or> byte a \<noteq> (237 :: nat) \<or> byte (hd s) < (160 :: nat)) \<and> surrogate_free s"
  by (cases s) auto

lemma surrogate_free_conts:
  "\<forall>c \<in> set t. byte c \<le> (191 :: nat) \<Longrightarrow> surrogate_free (t @ r) = surrogate_free r"
  by (induction t) (auto simp: surrogate_free_cons)

lemma utf8_lead_cases:
  "utf8_lead b = Some (n, lo, hi) \<Longrightarrow> 0 < n \<and> hi \<le> 191 \<and> (b = 237 \<longrightarrow> hi = 159)"
  by (auto simp: utf8_lead_def split: if_splits)

lemma utf8_wf_surrogate_free: "utf8_wf s \<Longrightarrow> surrogate_free s"
proof (induction s rule: utf8_wf.induct)
  case (2 b bs)
  show ?case
  proof (cases "byte b < (128 :: nat)")
    case True
    with 2 show ?thesis by (simp add: surrogate_free_cons)
  next
    case False
    with "2.prems" obtain n lo hi t r where lead: "utf8_lead (byte b) = Some (n, lo, hi)"
      and tc: "take_conts n lo hi bs = (t, r, True)" and wf: "utf8_wf r"
      by (auto split: option.splits prod.splits)
    from lead have n: "0 < n" "hi \<le> 191" "byte b = (237 :: nat) \<Longrightarrow> hi = 159"
      by (auto dest: utf8_lead_cases)
    then obtain m where "n = Suc m" by (cases n) auto
    with tc obtain c t' where t: "t = c # t'" "byte c \<le> hi" by (metis take_conts_first)
    have bs: "bs = t @ r" using tc by (rule take_conts_split)
    have "surrogate_free r" using "2.IH"(2) [OF False lead] tc wf by auto
    then have "surrogate_free bs"
      using take_conts_bytes [OF tc n(2)] by (simp add: bs surrogate_free_conts)
    moreover have "byte b \<noteq> (237 :: nat) \<or> byte (hd bs) < (160 :: nat)"
      using n(3) t bs by auto
    ultimately show ?thesis by (auto simp: surrogate_free_cons)
  qed
qed simp

lemma utf8_encode_free: "surrogate_free s \<Longrightarrow> utf8_encode s = s"
  by (induction s rule: utf8_encode.induct) auto

lemma utf8_encode_wf [simp]: "utf8_wf s \<Longrightarrow> utf8_encode s = s"
  by (simp add: utf8_encode_free utf8_wf_surrogate_free)

definition byte_order_mark :: bytes where
  "byte_order_mark = [chr 239, chr 187, chr 191]"

definition text_decode :: "bytes \<Rightarrow> string" where
  "text_decode bs =
     utf8_replace (if starts_with byte_order_mark bs then drop 3 bs else bs)"

definition plain_text :: "string \<Rightarrow> bool" where
  "plain_text s \<longleftrightarrow> utf8_wf s \<and> \<not> starts_with byte_order_mark s"

lemma text_decode_encode: "plain_text s \<Longrightarrow> text_decode (utf8_encode s) = s"
  by (simp add: plain_text_def text_decode_def)

section \<open>Code points\<close>

definition utf8_of_code :: "nat \<Rightarrow> bytes" where
  "utf8_of_code n =
     (if n < 128 then [chr n]
      else if n < 2048 then [chr (192 + n div 64), chr (128 + n mod 64)]
      else if n < 65536 then [chr (224 + n div 4096), chr (128 + n div 64 mod 64), chr (128 + n mod 64)]
      else [chr (240 + n div 262144), chr (128 + n div 4096 mod 64), chr (128 + n div 64 mod 64),
            chr (128 + n mod 64)])"

end
