(* ===== verification/Js_Value.thy ===== *)
theory Js_Value
  imports Js_Number Utf8
begin

text \<open>
  JavaScript values as the services meet them at run time.  A TypeScript cast checks
  nothing, so whatever \<open>JSON.parse\<close> produced is what the code reads fields of; the model
  keeps those values dynamic and makes the TypeErrors of the engine explicit, with V8's
  texts.  An object is its list of own properties in insertion order.
\<close>

section \<open>Values\<close>

datatype js =
    JUndef
  | JNull
  | JBool bool
  | JNum number
  | JStr string
  | JArr "js list"
  | JObj "(string \<times> js) list"

abbreviation jint :: "int \<Rightarrow> js" where
  "jint n \<equiv> JNum (num_of_int n)"

fun truthy :: "js \<Rightarrow> bool" where
  "truthy JUndef = False"
| "truthy JNull = False"
| "truthy (JBool b) = b"
| "truthy (JNum n) = (n \<noteq> Fin 0 \<and> n \<noteq> NaN)"
| "truthy (JStr s) = (s \<noteq> [])"
| "truthy v = True"

fun type_of :: "js \<Rightarrow> string" where
  "type_of JUndef = ''undefined''"
| "type_of JNull = ''object''"
| "type_of (JBool b) = ''boolean''"
| "type_of (JNum n) = ''number''"
| "type_of (JStr s) = ''string''"
| "type_of v = ''object''"

lemma type_of_string: "type_of v = ''string'' \<longleftrightarrow> (\<exists>s. v = JStr s)"
  by (cases v) auto

text \<open>\<open>typeof v !== 'object' || v === null\<close> is how the sources ask for an object.\<close>

definition is_object :: "js \<Rightarrow> bool" where
  "is_object v \<longleftrightarrow> type_of v = ''object'' \<and> v \<noteq> JNull"

lemma is_object_simps [simp]:
  "is_object (JObj kvs)" "is_object (JArr vs)" "\<not> is_object JNull" "\<not> is_object JUndef"
  "\<not> is_object (JBool b)" "\<not> is_object (JNum n)" "\<not> is_object (JStr s)"
  by (simp_all add: is_object_def)

text \<open>
  \<open>left || right\<close> and \<open>left ?? right\<close>.\<close>

definition js_or :: "js \<Rightarrow> js \<Rightarrow> js" where
  "js_or a b = (if truthy a then a else b)"

definition nullish :: "js \<Rightarrow> js \<Rightarrow> js" where
  "nullish a b = (if a = JUndef \<or> a = JNull then b else a)"

section \<open>Thrown values\<close>

datatype verification_failure = Malformed_signature | Invalid_signature | Expired

fun failure_text :: "verification_failure \<Rightarrow> string" where
  "failure_text Malformed_signature = ''malformed_signature''"
| "failure_text Invalid_signature = ''invalid_signature''"
| "failure_text Expired = ''expired''"

text \<open>
  The engine's errors, the sources' error classes, and \<open>Network_error\<close> for what a failed
  \<open>fetch\<close> rejects with (its text belongs to the platform).
\<close>

datatype exn =
    Type_error string
  | Syntax_error string
  | Dom_exception string
  | Plain_error string
  | Network_error string
  | Request_too_large string
  | Assertion_verification_error verification_failure string
  | Malformed_payment_error string
  | Agent_error string nat js

text \<open>\<open>error instanceof Error ? error.message : 'unknown error'\<close>.\<close>

fun message :: "exn \<Rightarrow> string" where
  "message (Type_error m) = m"
| "message (Syntax_error m) = m"
| "message (Dom_exception m) = m"
| "message (Plain_error m) = m"
| "message (Network_error m) = m"
| "message (Request_too_large m) = m"
| "message (Assertion_verification_error r m) = m"
| "message (Malformed_payment_error m) = m"
| "message (Agent_error m s b) = m"

type_synonym 'a result = "exn + 'a"

section \<open>Reading properties\<close>

definition apostrophe :: string where
  "apostrophe = [chr 39]"

definition quoted_name :: "string \<Rightarrow> string" where
  "quoted_name k = apostrophe @ k @ apostrophe"

definition cannot_read :: "string \<Rightarrow> string \<Rightarrow> exn" where
  "cannot_read what k =
     Type_error (''Cannot read properties of '' @ what @ '' (reading '' @ quoted_name k @ '')'')"

definition own :: "(string \<times> js) list \<Rightarrow> string \<Rightarrow> js" where
  "own kvs k = (case map_of kvs k of None \<Rightarrow> JUndef | Some v \<Rightarrow> v)"

text \<open>\<open>v.k\<close> for a field name \<open>k\<close> of the wire types, which no prototype defines.\<close>

fun get :: "js \<Rightarrow> string \<Rightarrow> js result" where
  "get JUndef k = Inl (cannot_read ''undefined'' k)"
| "get JNull k = Inl (cannot_read ''null'' k)"
| "get (JObj kvs) k = Inr (own kvs k)"
| "get v k = Inr JUndef"

text \<open>\<open>v?.k\<close>.\<close>

definition get_opt :: "js \<Rightarrow> string \<Rightarrow> js" where
  "get_opt v k = (case get v k of Inl _ \<Rightarrow> JUndef | Inr x \<Rightarrow> x)"

lemma own_simps [simp]:
  "own [] k = JUndef" "own ((k', v) # kvs) k = (if k = k' then v else own kvs k)"
  by (simp_all add: own_def)

lemma get_ok_iff: "is_ok (get v k) \<longleftrightarrow> v \<noteq> JUndef \<and> v \<noteq> JNull"
  by (cases v) auto

text \<open>
  Calling a string method on the value of \<open>path\<close>: undefined and null fail on reading the
  method, any other non-string because the method is not a function there.
\<close>

fun as_string_for :: "string \<Rightarrow> string \<Rightarrow> js \<Rightarrow> string result" where
  "as_string_for path method (JStr s) = Inr s"
| "as_string_for path method JUndef = Inl (cannot_read ''undefined'' method)"
| "as_string_for path method JNull = Inl (cannot_read ''null'' method)"
| "as_string_for path method v = Inl (Type_error (path @ ''.'' @ method @ '' is not a function''))"

lemma as_string_for_Inr [simp, result_simps]: "as_string_for p m v = Inr s \<longleftrightarrow> v = JStr s"
  by (cases v) auto

lemma as_string_for_Inl: "as_string_for p m v = Inl e \<Longrightarrow> \<exists>t. e = Type_error t"
  by (cases v) (auto simp: cannot_read_def)

section \<open>Conversions\<close>

text \<open>\<open>String(v)\<close> as template literals and \<open>Date.parse\<close> apply it.\<close>

fun join :: "string \<Rightarrow> string list \<Rightarrow> string" where
  "join sep [] = []"
| "join sep [s] = s"
| "join sep (s # t # r) = s @ sep @ join sep (t # r)"

fun to_text :: "js \<Rightarrow> string" where
  "to_text JUndef = ''undefined''"
| "to_text JNull = ''null''"
| "to_text (JBool b) = (if b then ''true'' else ''false'')"
| "to_text (JNum n) = num_text n"
| "to_text (JStr s) = s"
| "to_text (JArr vs) =
     join '','' (map (\<lambda>v. if v = JUndef \<or> v = JNull then [] else to_text v) vs)"
| "to_text (JObj kvs) = ''[object Object]''"

text \<open>\<open>Number(v)\<close>.\<close>

fun to_number :: "js \<Rightarrow> number" where
  "to_number JUndef = NaN"
| "to_number JNull = Fin 0"
| "to_number (JBool b) = Fin (if b then 1 else 0)"
| "to_number (JNum n) = n"
| "to_number (JStr s) = string_to_number s"
| "to_number (JArr vs) = string_to_number (to_text (JArr vs))"
| "to_number (JObj kvs) = NaN"

section \<open>Object construction\<close>

text \<open>\<open>o[k] = v\<close>: an existing key keeps its place, a new one goes last.\<close>

fun put :: "(string \<times> js) list \<Rightarrow> string \<Rightarrow> js \<Rightarrow> (string \<times> js) list" where
  "put [] k v = [(k, v)]"
| "put ((k', v') # r) k v = (if k = k' then (k, v) # r else (k', v') # put r k v)"

lemma own_put [simp]: "own (put kvs k v) k' = (if k' = k then v else own kvs k')"
  by (induction kvs k v rule: put.induct) auto

lemma keys_put: "fst ` set (put kvs k v) = insert k (fst ` set kvs)"
  by (induction kvs k v rule: put.induct) auto

lemma put_new: "k \<notin> fst ` set kvs \<Longrightarrow> put kvs k v = kvs @ [(k, v)]"
  by (induction kvs k v rule: put.induct) auto

text \<open>\<open>{ ...o, k1: v1, ... }\<close>.\<close>

definition spread :: "(string \<times> js) list \<Rightarrow> (string \<times> js) list \<Rightarrow> (string \<times> js) list" where
  "spread base changes = foldl (\<lambda>o' (k, v). put o' k v) base changes"

lemma spread_simps [simp]:
  "spread base [] = base" "spread base ((k, v) # r) = spread (put base k v) r"
  by (simp_all add: spread_def)

lemma spread_fresh:
  "distinct (map fst (base @ kvs)) \<Longrightarrow> spread base kvs = base @ kvs"
  by (induction kvs arbitrary: base) (auto simp: put_new)

end
