(* ===== verification/Json.thy ===== *)
theory Json
  imports Js_Value
begin

text \<open>
  \<open>JSON.stringify\<close> and \<open>JSON.parse\<close>.  The printer escapes as ECMAScript's well-formed
  stringify does and drops undefined properties; the reader is a recursive descent parser
  whose fuel is twice the length of its input, which \<open>parse_fuel_enough\<close> shows never runs
  out.  \<open>json_parse_stringify\<close> is the round trip on the values JSON can carry exactly.
\<close>

section \<open>Printing\<close>

definition hex4 :: "nat \<Rightarrow> string" where
  "hex4 n = [digit_char (n div 4096 mod 16), digit_char (n div 256 mod 16),
             digit_char (n div 16 mod 16), digit_char (n mod 16)]"

definition escape_unit :: "nat \<Rightarrow> string" where
  "escape_unit n = [chr 92, CHR ''u''] @ hex4 n"

definition escape_char :: "char \<Rightarrow> string" where
  "escape_char c =
     (let n = byte c in
      if n = 34 then [chr 92, c] else if n = 92 then [chr 92, c]
      else if n = 8 then [chr 92, CHR ''b''] else if n = 9 then [chr 92, CHR ''t'']
      else if n = 10 then [chr 92, CHR ''n''] else if n = 12 then [chr 92, CHR ''f'']
      else if n = 13 then [chr 92, CHR ''r'']
      else if n < (32 :: nat) then escape_unit n else [c])"

text \<open>A lone surrogate is held as \<open>ED A0..BF xx\<close> and printed as its escape.\<close>

fun escape_text :: "string \<Rightarrow> string" where
  "escape_text (a # b # c # r) =
     (if byte a = (237 :: nat) \<and> byte b \<ge> (160 :: nat)
      then escape_unit (13 * 4096 + byte b mod 64 * 64 + byte c mod 64) @ escape_text r
      else escape_char a @ escape_text (b # c # r))"
| "escape_text (a # r) = escape_char a @ escape_text r"
| "escape_text [] = []"

definition quote :: "string \<Rightarrow> string" where
  "quote s = [chr 34] @ escape_text s @ [chr 34]"

fun num_json :: "number \<Rightarrow> string" where
  "num_json (Fin x) = num_text (Fin x)"
| "num_json n = ''null''"

text \<open>An undefined property is left out; an undefined array element prints as null.\<close>

fun stringify :: "js \<Rightarrow> string"
  and elem_texts :: "js list \<Rightarrow> string list"
  and member_texts :: "(string \<times> js) list \<Rightarrow> string list" where
  "stringify JUndef = ''null''"
| "stringify JNull = ''null''"
| "stringify (JBool b) = (if b then ''true'' else ''false'')"
| "stringify (JNum n) = num_json n"
| "stringify (JStr s) = quote s"
| "stringify (JArr vs) = ''['' @ join '','' (elem_texts vs) @ '']''"
| "stringify (JObj kvs) = ''{'' @ join '','' (member_texts kvs) @ ''}''"
| "elem_texts [] = []"
| "elem_texts (v # vs) = stringify v # elem_texts vs"
| "member_texts [] = []"
| "member_texts ((k, v) # r) =
     (if v = JUndef then [] else [quote k @ '':'' @ stringify v]) @ member_texts r"

section \<open>Reading\<close>

definition json_space :: "char \<Rightarrow> bool" where
  "json_space c \<longleftrightarrow> byte c \<in> {9, 10, 13, 32}"

definition skip_ws :: "string \<Rightarrow> string" where
  "skip_ws s = dropWhile json_space s"

text \<open>A string body is a sequence of raw bytes and escaped UTF-16 code units.\<close>

datatype piece = Raw char | Unit nat

definition is_high :: "nat \<Rightarrow> bool" where
  "is_high u \<longleftrightarrow> 55296 \<le> u \<and> u \<le> 56319"

definition is_low :: "nat \<Rightarrow> bool" where
  "is_low u \<longleftrightarrow> 56320 \<le> u \<and> u \<le> 57343"

fun pieces_text :: "piece list \<Rightarrow> string" where
  "pieces_text (Unit h # Unit l # r) =
     (if is_high h \<and> is_low l
      then utf8_of_code (65536 + (h - 55296) * 1024 + (l - 56320)) @ pieces_text r
      else utf8_of_code h @ pieces_text (Unit l # r))"
| "pieces_text (Unit u # r) = utf8_of_code u @ pieces_text r"
| "pieces_text (Raw c # r) = c # pieces_text r"
| "pieces_text [] = []"

definition simple_escape :: "char \<Rightarrow> nat option" where
  "simple_escape c =
     (if c \<in> {chr 34, chr 92, CHR ''/''} then Some (byte c)
      else if c = CHR ''b'' then Some 8 else if c = CHR ''f'' then Some 12
      else if c = CHR ''n'' then Some 10 else if c = CHR ''r'' then Some 13
      else if c = CHR ''t'' then Some 9 else None)"

fun parse_string :: "string \<Rightarrow> (piece list \<times> string) option" where
  "parse_string [] = None"
| "parse_string (c # s) =
     (if byte c = (34 :: nat) then Some ([], s)
      else if byte c < (32 :: nat) then None
      else if byte c = (92 :: nat) then
        (case s of
           [] \<Rightarrow> None
         | e # s1 \<Rightarrow>
             if e = CHR ''u'' then
               (case s1 of
                  h1 # h2 # h3 # h4 # s2 \<Rightarrow>
                    (case digits_value 16 0 [h1, h2, h3, h4] of
                       None \<Rightarrow> None
                     | Some u \<Rightarrow> map_option (\<lambda>(ps, r). (Unit u # ps, r)) (parse_string s2))
                | _ \<Rightarrow> None)
             else
               (case simple_escape e of
                  None \<Rightarrow> None
                | Some u \<Rightarrow> map_option (\<lambda>(ps, r). (Unit u # ps, r)) (parse_string s1)))
      else map_option (\<lambda>(ps, r). (Raw c # ps, r)) (parse_string s))"

definition read_string :: "string \<Rightarrow> (string \<times> string) option" where
  "read_string s = map_option (\<lambda>(ps, r). (pieces_text ps, r)) (parse_string s)"

definition number_char :: "char \<Rightarrow> bool" where
  "number_char c \<longleftrightarrow> is_digit c \<or> c \<in> {CHR ''-'', CHR ''+'', CHR ''.'', CHR ''e'', CHR ''E''}"

definition json_number :: "string \<Rightarrow> number option" where
  "json_number s =
     (if starts_with ''-'' s
      then map_option (\<lambda>x. num_neg (to_double x)) (decimal_value False (drop 1 s))
      else map_option to_double (decimal_value False s))"

definition read_number :: "string \<Rightarrow> (number \<times> string) option" where
  "read_number s =
     map_option (\<lambda>n. (n, dropWhile number_char s)) (json_number (takeWhile number_char s))"

text \<open>A repeated key keeps its first place and its last value.\<close>

definition build :: "(string \<times> js) list \<Rightarrow> js" where
  "build kvs = JObj (spread [] kvs)"

fun parse_value :: "nat \<Rightarrow> string \<Rightarrow> (js \<times> string) option"
  and parse_elems :: "nat \<Rightarrow> string \<Rightarrow> (js list \<times> string) option"
  and parse_members :: "nat \<Rightarrow> string \<Rightarrow> ((string \<times> js) list \<times> string) option" where
  "parse_value 0 s = None"
| "parse_value (Suc n) s =
     (case skip_ws s of
        [] \<Rightarrow> None
      | c # cs \<Rightarrow>
          if c = CHR ''{'' then
            (if starts_with ''}'' (skip_ws cs) then Some (JObj [], drop 1 (skip_ws cs))
             else map_option (\<lambda>(kvs, r). (build kvs, r)) (parse_members n cs))
          else if c = CHR ''['' then
            (if starts_with '']'' (skip_ws cs) then Some (JArr [], drop 1 (skip_ws cs))
             else map_option (\<lambda>(vs, r). (JArr vs, r)) (parse_elems n cs))
          else if byte c = (34 :: nat) then map_option (\<lambda>(t, r). (JStr t, r)) (read_string cs)
          else if starts_with ''null'' (c # cs) then Some (JNull, drop 3 cs)
          else if starts_with ''true'' (c # cs) then Some (JBool True, drop 3 cs)
          else if starts_with ''false'' (c # cs) then Some (JBool False, drop 4 cs)
          else map_option (\<lambda>(x, r). (JNum x, r)) (read_number (c # cs)))"
| "parse_elems 0 s = None"
| "parse_elems (Suc n) s =
     (case parse_value n s of
        None \<Rightarrow> None
      | Some (v, r) \<Rightarrow>
          (case skip_ws r of
             [] \<Rightarrow> None
           | c # r' \<Rightarrow>
               if c = CHR '']'' then Some ([v], r')
               else if c = CHR '','' then map_option (\<lambda>(vs, r). (v # vs, r)) (parse_elems n r')
               else None))"
| "parse_members 0 s = None"
| "parse_members (Suc n) s =
     (case skip_ws s of
        [] \<Rightarrow> None
      | q # s1 \<Rightarrow>
          if byte q \<noteq> (34 :: nat) then None
          else
            (case read_string s1 of
               None \<Rightarrow> None
             | Some (k, s2) \<Rightarrow>
                 if \<not> starts_with '':'' (skip_ws s2) then None
                 else
                   (case parse_value n (drop 1 (skip_ws s2)) of
                      None \<Rightarrow> None
                    | Some (v, r) \<Rightarrow>
                        (case skip_ws r of
                           [] \<Rightarrow> None
                         | c # r' \<Rightarrow>
                             if c = CHR ''}'' then Some ([(k, v)], r')
                             else if c = CHR '','' then
                               map_option (\<lambda>(kvs, r). ((k, v) # kvs, r)) (parse_members n r')
                             else None))))"

definition json_fuel :: "string \<Rightarrow> nat" where
  "json_fuel s = 2 * length s + 2"

definition json_parse :: "string \<Rightarrow> js result" where
  "json_parse s =
     (case parse_value (json_fuel s) s of
        Some (v, r) \<Rightarrow> if skip_ws r = [] then Inr v else Inl (Syntax_error ''invalid JSON'')
      | None \<Rightarrow> Inl (Syntax_error ''invalid JSON''))"

section \<open>The fuel is enough\<close>

lemma skip_ws_length: "length (skip_ws s) \<le> length s"
  by (simp add: skip_ws_def length_dropWhile_le)

lemma skip_ws_Cons: "skip_ws s = c # cs \<Longrightarrow> length cs < length s"
  using skip_ws_length [of s] by simp

lemma parse_string_length: "parse_string s = Some (ps, r) \<Longrightarrow> length r < length s"
proof (induction s arbitrary: ps rule: parse_string.induct)
  case (2 c s)
  then show ?case
    by (fastforce split: if_splits list.splits option.splits)
qed simp

lemma read_string_length: "read_string s = Some (t, r) \<Longrightarrow> length r < length s"
  by (auto simp: read_string_def dest: parse_string_length)

lemma json_number_Nil: "json_number [] = None"
  by (simp add: json_number_def decimal_value_def starts_with_def)

lemma read_number_length:
  assumes "read_number s = Some (x, r)"
  shows "length r < length s"
proof -
  have "takeWhile number_char s \<noteq> []"
  proof
    assume "takeWhile number_char s = []"
    with assms show False by (simp only: read_number_def json_number_Nil) simp
  qed
  moreover have r: "r = dropWhile number_char s"
    using assms by (auto simp: read_number_def)
  moreover have "length (takeWhile number_char s) + length r = length s"
    using r by (metis length_append takeWhile_dropWhile_id)
  ultimately show ?thesis by (metis add_less_cancel_right length_greater_0_conv add_0)
qed

lemma starts_with_drop: "starts_with p s \<Longrightarrow> p \<noteq> [] \<Longrightarrow> length (drop 1 s) < length s"
  by (auto simp: starts_with_iff)

lemma parse_length:
  "(\<forall>s v r. parse_value n s = Some (v, r) \<longrightarrow> length r < length s) \<and>
   (\<forall>s vs r. parse_elems n s = Some (vs, r) \<longrightarrow> length r < length s) \<and>
   (\<forall>s kvs r. parse_members n s = Some (kvs, r) \<longrightarrow> length r < length s)"
proof (induction n)
  case (Suc n)
  note skip = skip_ws_length skip_ws_Cons
  have val: "length r < length s" if "parse_value (Suc n) s = Some (v, r)" for s v r
  proof -
    from that obtain c cs where c: "skip_ws s = c # cs" by (auto split: list.splits)
    have cs: "length cs < length s" using c by (rule skip_ws_Cons)
    have drop: "length (drop k t) \<le> length cs" if "length t \<le> length cs" for k t
      using that by simp
    show ?thesis
      using that c cs Suc skip_ws_length [of cs]
      by (fastforce split: if_splits dest: read_string_length read_number_length)
  qed
  have elems: "length r < length s" if e: "parse_elems (Suc n) s = Some (vs, r)" for s vs r
  proof -
    from e obtain v r1 c r2 where v: "parse_value n s = Some (v, r1)" and c: "skip_ws r1 = c # r2"
      by (auto split: option.splits list.splits)
    have "length r1 < length s" using Suc v by blast
    moreover have "length r2 < length r1" using c by (rule skip_ws_Cons)
    ultimately show ?thesis using e v c Suc by (fastforce split: if_splits)
  qed
  have members: "length r < length s" if m: "parse_members (Suc n) s = Some (kvs, r)" for s kvs r
  proof -
    from m obtain q s1 k s2 v r1 c r2 where q: "skip_ws s = q # s1"
      and k: "read_string s1 = Some (k, s2)"
      and v: "parse_value n (drop 1 (skip_ws s2)) = Some (v, r1)" and c: "skip_ws r1 = c # r2"
      by (auto split: option.splits list.splits if_splits)
    have "length s1 < length s" using q by (rule skip_ws_Cons)
    moreover have "length s2 < length s1" using k by (rule read_string_length)
    moreover have "length r1 < length (drop 1 (skip_ws s2))" using Suc v by blast
    moreover have "length (skip_ws s2) \<le> length s2" by (rule skip_ws_length)
    moreover have "length r2 < length r1" using c by (rule skip_ws_Cons)
    ultimately have "length r2 < length s" by simp
    then show ?thesis using m q k v c Suc by (fastforce split: if_splits)
  qed
  from val elems members show ?case by blast
qed simp

lemmas parse_value_length = parse_length [THEN conjunct1, rule_format]

text \<open>Two amounts of fuel above the bound give the same answer, a failure included.\<close>

lemma parse_fuel:
  "(\<forall>s m. 2 * length s + 1 \<le> n \<longrightarrow> n \<le> m \<longrightarrow> parse_value n s = parse_value m s) \<and>
   (\<forall>s m. 2 * length s + 2 \<le> n \<longrightarrow> n \<le> m \<longrightarrow> parse_elems n s = parse_elems m s) \<and>
   (\<forall>s m. 2 * length s + 2 \<le> n \<longrightarrow> n \<le> m \<longrightarrow> parse_members n s = parse_members m s)"
proof (induction n)
  case (Suc n)
  have val: "parse_value (Suc n) s = parse_value m s"
    if b: "2 * length s + 1 \<le> Suc n" "Suc n \<le> m" for s m
  proof -
    obtain m' where m: "m = Suc m'" "n \<le> m'" using b(2) by (cases m) auto
    show ?thesis
    proof (cases "skip_ws s")
      case (Cons c cs)
      then have "2 * length cs + 2 \<le> n" using skip_ws_Cons [OF Cons] b(1) by linarith
      then have "parse_elems n cs = parse_elems m' cs" "parse_members n cs = parse_members m' cs"
        using Suc m(2) by blast+
      then show ?thesis by (simp add: m(1) Cons)
    qed (simp add: m(1))
  qed
  have elems: "parse_elems (Suc n) s = parse_elems m s"
    if b: "2 * length s + 2 \<le> Suc n" "Suc n \<le> m" for s m
  proof -
    obtain m' where m: "m = Suc m'" "n \<le> m'" using b(2) by (cases m) auto
    have v: "parse_value n s = parse_value m' s" using Suc b(1) m(2) by simp
    have "parse_elems n r' = parse_elems m' r'"
      if "parse_value m' s = Some (v, r)" "skip_ws r = c # r'" for v r c r'
    proof -
      have "length r' < length s"
        using parse_value_length [OF that(1)] skip_ws_Cons [OF that(2)] by linarith
      then show ?thesis using Suc b(1) m(2) by simp
    qed
    then show ?thesis by (auto simp: m(1) v split: option.splits list.splits)
  qed
  have members: "parse_members (Suc n) s = parse_members m s"
    if b: "2 * length s + 2 \<le> Suc n" "Suc n \<le> m" for s m
  proof -
    obtain m' where m: "m = Suc m'" "n \<le> m'" using b(2) by (cases m) auto
    have v: "parse_value n (drop 1 (skip_ws s2)) = parse_value m' (drop 1 (skip_ws s2))"
      and l: "length s2 < length s"
      if "skip_ws s = q # s1" "read_string s1 = Some (k, s2)" for q s1 k s2
    proof -
      show l: "length s2 < length s"
        using skip_ws_Cons [OF that(1)] read_string_length [OF that(2)] by linarith
      have "length (drop 1 (skip_ws s2)) < length s" using l skip_ws_length [of s2] by simp
      then show "parse_value n (drop 1 (skip_ws s2)) = parse_value m' (drop 1 (skip_ws s2))"
        using Suc b(1) m(2) by simp
    qed
    have "parse_members n r' = parse_members m' r'"
      if "skip_ws s = q # s1" "read_string s1 = Some (k, s2)"
        "parse_value m' (drop 1 (skip_ws s2)) = Some (v, r)" "skip_ws r = c # r'" for q s1 k s2 v r c r'
    proof -
      have "length r' < length s"
        using l [OF that(1,2)] parse_value_length [OF that(3)] skip_ws_Cons [OF that(4)]
          skip_ws_length [of s2] by simp
      then show ?thesis using Suc b(1) m(2) by simp
    qed
    with v show ?thesis by (auto simp: m(1) split: option.splits list.splits)
  qed
  from val elems members show ?case by blast
qed simp

lemma parse_fuel_enough: "json_fuel s \<le> n \<Longrightarrow> parse_value n s = parse_value (json_fuel s) s"
  using parse_fuel [of "json_fuel s"] by (simp add: json_fuel_def)

section \<open>Round trip\<close>

text \<open>
  What JSON carries exactly: well-formed text, integers a double represents, no undefined
  value, no repeated key.
\<close>

fun json_ok :: "js \<Rightarrow> bool" where
  "json_ok JUndef = False"
| "json_ok (JNum (Fin x)) = (of_int \<lfloor>x\<rfloor> = x \<and> \<bar>\<lfloor>x\<rfloor>\<bar> < 2 ^ 53)"
| "json_ok (JNum n) = False"
| "json_ok (JStr s) = utf8_wf s"
| "json_ok (JArr vs) = (\<forall>v \<in> set vs. json_ok v)"
| "json_ok (JObj kvs) =
     (distinct (map fst kvs) \<and> (\<forall>kv \<in> set kvs. utf8_wf (fst kv) \<and> json_ok (snd kv)))"
| "json_ok v = True"

lemma json_ok_num: "json_ok (JNum n) \<longleftrightarrow> (\<exists>i. n = num_of_int i \<and> \<bar>i\<bar> < 2 ^ 53)"
  by (cases n) (auto intro: exI [where x = "\<lfloor>x\<rfloor>" for x])

subsection \<open>Strings\<close>

lemma escape_text_free: "surrogate_free s \<Longrightarrow> escape_text s = concat (map escape_char s)"
  by (induction s rule: escape_text.induct) auto

definition char_piece :: "char \<Rightarrow> piece" where
  "char_piece c = (if byte c < (32 :: nat) \<or> byte c = (34 :: nat) \<or> byte c = (92 :: nat) then Unit (byte c) else Raw c)"

lemma pieces_text_char_pieces: "pieces_text (map char_piece s) = s"
proof (induction s)
  case (Cons c s)
  have u: "utf8_of_code (byte c) = [c]" if "byte c < (128 :: nat)"
    using that by (simp add: utf8_of_code_def)
  show ?case
  proof (cases "char_piece c")
    case (Raw d)
    with Cons show ?thesis by (auto simp: char_piece_def split: if_splits)
  next
    case (Unit n)
    then have n: "n = byte c" "n < 128" by (auto simp: char_piece_def split: if_splits)
    then have "\<not> is_high n" by (simp add: is_high_def)
    then have "pieces_text (Unit n # ps) = utf8_of_code n @ pieces_text ps" for ps
      by (cases ps rule: pieces_text.cases) auto
    with Unit n u Cons show ?thesis by simp
  qed
qed simp

lemma digits_value_hex4:
  assumes "n < 65536"
  shows "digits_value 16 0 (hex4 n) = Some n"
proof -
  have "((n div 4096 * 16 + n div 256 mod 16) * 16 + n div 16 mod 16) * 16 + n mod 16 = n"
  proof -
    have "n div 4096 * 16 + n div 256 mod 16 = n div 256"
      using div_mult_mod_eq [of "n div 256" 16] by (simp add: div_mult2_eq [symmetric])
    moreover have "n div 256 * 16 + n div 16 mod 16 = n div 16"
      using div_mult_mod_eq [of "n div 16" 16] by (simp add: div_mult2_eq [symmetric])
    ultimately show ?thesis by simp
  qed
  moreover have "n div 4096 mod 16 = n div 4096" using assms by simp
  moreover have "digits_value 16 0 (hex4 n) =
      Some (((n div 4096 mod 16 * 16 + n div 256 mod 16) * 16 + n div 16 mod 16) * 16 + n mod 16)"
    by (simp add: hex4_def)
  ultimately show ?thesis by simp
qed

lemma parse_string_escape_char:
  "parse_string (escape_char c @ s) =
     map_option (\<lambda>(ps, r). (char_piece c # ps, r)) (parse_string s)"
proof -
  define n :: nat where "n = byte c"
  have c: "c = chr n" by (simp add: n_def)
  consider "n = 34" | "n = 92" | "n = 8" | "n = 9" | "n = 10" | "n = 12" | "n = 13"
    | "n < 32" "n \<notin> {8, 9, 10, 12, 13}" | "32 \<le> n" "n \<noteq> 34" "n \<noteq> 92"
    by (cases "n < 32") auto
  then show ?thesis
  proof cases
    case 8
    then have "digits_value 16 0 (hex4 n) = Some n" by (intro digits_value_hex4) simp
    with 8 n_def [symmetric] show ?thesis
      by (simp add: escape_char_def Let_def escape_unit_def hex4_def char_piece_def)
  next
    case 9
    with n_def [symmetric] show ?thesis
      by (simp add: escape_char_def Let_def char_piece_def)
  qed (simp_all add: c escape_char_def Let_def simple_escape_def char_piece_def)
qed

lemma read_string_quote:
  assumes "surrogate_free s"
  shows "read_string (escape_text s @ chr 34 # r) = Some (s, r)"
proof -
  have "parse_string (concat (map escape_char s) @ chr 34 # r) = Some (map char_piece s, r)"
    by (induction s) (simp_all add: parse_string_escape_char)
  then show ?thesis
    using assms by (simp add: read_string_def escape_text_free pieces_text_char_pieces)
qed

subsection \<open>Numbers\<close>

definition follow :: "string \<Rightarrow> bool" where
  "follow r \<longleftrightarrow> r = [] \<or> \<not> number_char (hd r)"

lemma nat_text_no_leading_zero: "nat_text n = c # d # s \<Longrightarrow> c \<noteq> CHR ''0''"
proof (induction n arbitrary: c d s rule: nat_text.induct)
  case (1 n)
  have n: "\<not> n < 10" using "1.prems" by (subst (asm) nat_text.simps) (auto split: if_splits)
  then have eq: "nat_text (n div 10) @ [digit_char (n mod 10)] = c # d # s"
    using "1.prems" by (subst (asm) nat_text.simps) simp
  show ?case
  proof (cases "nat_text (n div 10)")
    case (Cons a t)
    then have a: "a = c" using eq by simp
    show ?thesis
    proof (cases t)
      case Nil
      then have "n div 10 < 10" using Cons by (subst (asm) nat_text.simps) (auto split: if_splits)
      moreover have "n div 10 \<noteq> 0" using n by auto
      ultimately show ?thesis
        using Cons a by (subst (asm) nat_text.simps) (auto simp: digit_char_def chr_eq_byte)
    qed (use "1.IH" n Cons a in blast)
  qed simp
qed

lemma decimal_value_nat_text: "decimal_value False (nat_text n) = Some (of_nat n)"
proof -
  have "\<not> (length (nat_text n) > 1 \<and> starts_with ''0'' (nat_text n))"
    using nat_text_no_leading_zero [of n]
    by (cases "nat_text n"; cases "tl (nat_text n)") (auto simp: starts_with_def)
  moreover have "list_all is_digit (nat_text n)" using nat_text_digits by (simp add: list_all_iff)
  moreover have "\<not> starts_with ''.'' []" by (simp add: starts_with_def)
  ultimately show ?thesis
    by (simp add: decimal_value_def nat_text_value Let_def)
qed

lemma starts_with_digit: "is_digit (hd s) \<Longrightarrow> s \<noteq> [] \<Longrightarrow> \<not> is_digit c \<Longrightarrow> \<not> starts_with (c # p) s"
  by (cases s) (auto simp: starts_with_def)

lemma json_number_int_text:
  assumes "\<bar>i\<bar> < 2 ^ 53"
  shows "json_number (int_text i) = Some (num_of_int i)"
proof (cases "i < 0")
  case True
  then have "to_double (of_nat (nat (- i))) = num_of_int (- i)"
    using to_double_int [of "- i"] assms by simp
  with True show ?thesis
    by (simp add: json_number_def int_text_def decimal_value_nat_text starts_with_def)
next
  case False
  then have "to_double (of_nat (nat i)) = num_of_int i"
    using to_double_int [of i] assms by simp
  moreover have "\<not> starts_with ''-'' (nat_text (nat i))"
    by (rule starts_with_digit) (simp_all add: nat_text_hd_digit, simp add: is_digit_def)
  ultimately show ?thesis
    using False by (simp add: json_number_def int_text_def decimal_value_nat_text)
qed

lemma int_text_number_chars: "\<forall>c \<in> set (int_text i). number_char c"
  using nat_text_digits by (auto simp: int_text_def number_char_def)

lemma read_number_int_text:
  assumes "\<bar>i\<bar> < 2 ^ 53" and "follow r"
  shows "read_number (int_text i @ r) = Some (num_of_int i, r)"
proof -
  have "takeWhile number_char r = []" "dropWhile number_char r = r"
    using assms(2) by (cases r; simp add: follow_def)+
  then have "takeWhile number_char (int_text i @ r) = int_text i"
      "dropWhile number_char (int_text i @ r) = r"
    using int_text_number_chars by (simp_all add: takeWhile_append2 dropWhile_append2)
  then show ?thesis by (simp add: read_number_def json_number_int_text [OF assms(1)])
qed

subsection \<open>Values\<close>

lemma follow_simps [simp]: "follow []" "follow (CHR '','' # r)" "follow (CHR '']'' # r)" "follow (CHR ''}'' # r)"
  by (simp_all add: follow_def number_char_def is_digit_def)

lemma skip_ws_Cons_id: "\<not> json_space c \<Longrightarrow> skip_ws (c # s) = c # s"
  by (simp add: skip_ws_def)

lemma skip_ws_punct [simp]:
  "skip_ws (CHR '','' # s) = CHR '','' # s" "skip_ws (CHR '']'' # s) = CHR '']'' # s"
  "skip_ws (CHR ''}'' # s) = CHR ''}'' # s" "skip_ws (CHR ''['' # s) = CHR ''['' # s"
  "skip_ws (CHR ''{'' # s) = CHR ''{'' # s" "skip_ws (CHR '':'' # s) = CHR '':'' # s"
  "skip_ws (CHR ''n'' # s) = CHR ''n'' # s" "skip_ws (CHR ''t'' # s) = CHR ''t'' # s"
  "skip_ws (CHR ''f'' # s) = CHR ''f'' # s" "skip_ws (chr 34 # s) = chr 34 # s"
  "skip_ws [] = []"
  by (simp_all add: skip_ws_def json_space_def)

lemma int_text_Cons: "\<exists>c s. int_text i = c # s \<and> (is_digit c \<or> c = CHR ''-'')"
proof (cases "i < 0")
  case False
  then show ?thesis
    using nat_text_hd_digit [of "nat i"] by (cases "nat_text (nat i)") (auto simp: int_text_def)
qed (simp add: int_text_def)

lemma parse_value_number:
  assumes "\<bar>i\<bar> < 2 ^ 53" and "follow r"
  shows "parse_value (Suc n) (int_text i @ r) = Some (JNum (num_of_int i), r)"
proof -
  obtain c s where c: "int_text i = c # s" and d: "is_digit c \<or> c = CHR ''-''"
    using int_text_Cons by blast
  have range: "byte c \<in> {45} \<union> {48..57 :: nat}" using d by (auto simp: is_digit_def)
  then have ws: "\<not> json_space c" by (auto simp: json_space_def)
  have "c \<noteq> CHR ''{''" "c \<noteq> CHR ''[''" "byte c \<noteq> (34 :: nat)"
      "c \<noteq> CHR ''n''" "c \<noteq> CHR ''t''" "c \<noteq> CHR ''f''"
    using range by auto
  moreover have "read_number (c # s @ r) = Some (num_of_int i, r)"
    using read_number_int_text [OF assms] c by simp
  ultimately show ?thesis
    using ws by (simp add: c skip_ws_Cons_id starts_with_def)
qed

lemma parse_mono:
  "(\<forall>s x m. parse_value n s = Some x \<longrightarrow> n \<le> m \<longrightarrow> parse_value m s = Some x) \<and>
   (\<forall>s x m. parse_elems n s = Some x \<longrightarrow> n \<le> m \<longrightarrow> parse_elems m s = Some x) \<and>
   (\<forall>s x m. parse_members n s = Some x \<longrightarrow> n \<le> m \<longrightarrow> parse_members m s = Some x)"
proof (induction n)
  case (Suc n)
  have val: "parse_value m s = Some x" if b: "parse_value (Suc n) s = Some x" "Suc n \<le> m" for s x m
  proof -
    obtain m' where m: "m = Suc m'" "n \<le> m'" using b(2) by (cases m) auto
    then have "parse_elems n t = Some y \<Longrightarrow> parse_elems m' t = Some y"
        "parse_members n t = Some z \<Longrightarrow> parse_members m' t = Some z" for t y z
      using Suc by blast+
    with b(1) m show ?thesis by (auto split: list.splits if_splits)
  qed
  have elems: "parse_elems m s = Some x" if b: "parse_elems (Suc n) s = Some x" "Suc n \<le> m" for s x m
  proof -
    obtain m' where m: "m = Suc m'" "n \<le> m'" using b(2) by (cases m) auto
    then have "parse_elems n t = Some y \<Longrightarrow> parse_elems m' t = Some y"
        "parse_value n t = Some z \<Longrightarrow> parse_value m' t = Some z" for t y z
      using Suc by blast+
    with b(1) m show ?thesis by (auto split: option.splits list.splits if_splits)
  qed
  have members: "parse_members m s = Some x" if b: "parse_members (Suc n) s = Some x" "Suc n \<le> m" for s x m
  proof -
    obtain m' where m: "m = Suc m'" "n \<le> m'" using b(2) by (cases m) auto
    then have "parse_members n t = Some y \<Longrightarrow> parse_members m' t = Some y"
        "parse_value n t = Some z \<Longrightarrow> parse_value m' t = Some z" for t y z
      using Suc by blast+
    with b(1) m show ?thesis by (auto split: option.splits list.splits if_splits)
  qed
  from val elems members show ?case by blast
qed simp

lemma join_Cons: "ts \<noteq> [] \<Longrightarrow> join sep (t # ts) = t @ sep @ join sep ts"
  by (cases ts) auto

lemma elem_texts_Nil [simp]: "elem_texts vs = [] \<longleftrightarrow> vs = []"
  by (cases vs) auto

lemma member_texts_Nil: "\<forall>kv \<in> set kvs. snd kv \<noteq> JUndef \<Longrightarrow> member_texts kvs = [] \<longleftrightarrow> kvs = []"
  by (cases kvs) auto

lemma json_ok_defined: "json_ok v \<Longrightarrow> v \<noteq> JUndef"
  by auto

lemma stringify_first:
  assumes "json_ok v"
  shows "\<exists>c s. stringify v = c # s \<and> \<not> json_space c \<and> c \<noteq> CHR '']'' \<and> c \<noteq> CHR ''}'' \<and>
      byte c < (128 :: nat)"
proof (cases v)
  case (JNum n)
  then obtain i where n: "n = num_of_int i" "\<bar>i\<bar> < 2 ^ 53" using assms by (auto simp: json_ok_num)
  obtain c s where c: "int_text i = c # s" "is_digit c \<or> c = CHR ''-''"
    using int_text_Cons by blast
  then have "byte c \<in> {45} \<union> {48..57 :: nat}" by (auto simp: is_digit_def)
  then have "\<not> json_space c \<and> c \<noteq> CHR '']'' \<and> c \<noteq> CHR ''}'' \<and> byte c < (128 :: nat)"
    by (auto simp: json_space_def)
  then show ?thesis using JNum n num_text_int [OF n(2)] c(1) by simp
next
  case (JStr t)
  then have "stringify v = chr 34 # escape_text t @ [chr 34]" by (simp add: quote_def)
  moreover have "\<not> json_space (chr 34)" "chr 34 \<noteq> CHR '']''" "chr 34 \<noteq> CHR ''}''"
      "byte (chr 34) < (128 :: nat)"
    by (simp_all add: json_space_def)
  ultimately show ?thesis by blast
qed (use assms in \<open>auto simp: quote_def json_space_def\<close>)

lemma parse_elems_step:
  assumes "parse_value m (t @ CHR '','' # u) = Some (v, CHR '','' # u)"
    and "parse_elems n u = Some (vs, r)"
  shows "\<exists>k. parse_elems k (t @ CHR '','' # u) = Some (v # vs, r)"
proof -
  have "parse_value (max m n) (t @ CHR '','' # u) = Some (v, CHR '','' # u)"
      "parse_elems (max m n) u = Some (vs, r)"
    using assms parse_mono by (meson max.cobounded1 max.cobounded2)+
  then have "parse_elems (Suc (max m n)) (t @ CHR '','' # u) = Some (v # vs, r)" by simp
  then show ?thesis by blast
qed

definition member_text :: "string \<Rightarrow> js \<Rightarrow> string" where
  "member_text k v = quote k @ '':'' @ stringify v"

lemma parse_members_last:
  assumes "surrogate_free k" and "parse_value m (stringify v @ CHR ''}'' # r) = Some (v, CHR ''}'' # r)"
  shows "parse_members (Suc m) (member_text k v @ CHR ''}'' # r) = Some ([(k, v)], r)"
  using assms read_string_quote [OF assms(1), of "CHR '':'' # stringify v @ CHR ''}'' # r"]
  by (simp add: member_text_def quote_def starts_with_def)

lemma parse_members_step:
  assumes "surrogate_free k"
    and v: "parse_value m (stringify v @ CHR '','' # u) = Some (v, CHR '','' # u)"
    and u: "parse_members n u = Some (kvs, r)"
  shows "\<exists>j. parse_members j (member_text k v @ CHR '','' # u) = Some ((k, v) # kvs, r)"
proof -
  have "parse_value (max m n) (stringify v @ CHR '','' # u) = Some (v, CHR '','' # u)"
      "parse_members (max m n) u = Some (kvs, r)"
    using v u parse_mono by (meson max.cobounded1 max.cobounded2)+
  then have "parse_members (Suc (max m n)) (member_text k v @ CHR '','' # u) = Some ((k, v) # kvs, r)"
    using read_string_quote [OF assms(1), of "CHR '':'' # stringify v @ CHR '','' # u"]
    by (simp add: member_text_def quote_def starts_with_def)
  then show ?thesis by blast
qed

lemma build_distinct: "distinct (map fst kvs) \<Longrightarrow> build kvs = JObj kvs"
  using spread_fresh [of "[]" kvs] by (simp add: build_def)

lemma parse_value_array:
  assumes "vs \<noteq> []" and "json_ok (hd vs)"
    and "parse_elems n (join '','' (elem_texts vs) @ CHR '']'' # r) = Some (vs, r)"
  shows "parse_value (Suc n) (stringify (JArr vs) @ r) = Some (JArr vs, r)"
proof -
  obtain v vs' where vs: "vs = v # vs'" using assms(1) by (cases vs) auto
  obtain c s where c: "stringify v = c # s" "\<not> json_space c" "c \<noteq> CHR '']''"
    using stringify_first assms(2) vs by force
  have "\<exists>t. join '','' (elem_texts vs) = c # t"
    using vs c by (cases vs') auto
  then obtain t where "join '','' (elem_texts vs) = c # t" by blast
  then show ?thesis
    using assms(3) c by (simp add: skip_ws_Cons_id starts_with_def)
qed

lemma parse_value_object:
  assumes "kvs \<noteq> []" and "distinct (map fst kvs)" and "snd (hd kvs) \<noteq> JUndef"
    and "parse_members n (join '','' (member_texts kvs) @ CHR ''}'' # r) = Some (kvs, r)"
  shows "parse_value (Suc n) (stringify (JObj kvs) @ r) = Some (JObj kvs, r)"
proof -
  obtain k v kvs' where kvs: "kvs = (k, v) # kvs'" using assms(1) by (cases kvs) auto
  have "\<exists>t. join '','' (member_texts kvs) = chr 34 # t"
    using kvs assms(3) by (cases "member_texts kvs'") (auto simp: quote_def)
  then obtain t where "join '','' (member_texts kvs) = chr 34 # t" by blast
  then show ?thesis
    using assms(4) build_distinct [OF assms(2)] by (simp add: starts_with_def)
qed

lemma parse_stringify:
  "json_ok v \<Longrightarrow> follow r \<Longrightarrow> \<exists>n. parse_value n (stringify v @ r) = Some (v, r)"
  "vs \<noteq> [] \<Longrightarrow> \<forall>v \<in> set vs. json_ok v \<Longrightarrow>
     \<exists>n. parse_elems n (join '','' (elem_texts vs) @ CHR '']'' # r) = Some (vs, r)"
  "kvs \<noteq> [] \<Longrightarrow> \<forall>kv \<in> set kvs. utf8_wf (fst kv) \<and> json_ok (snd kv) \<Longrightarrow>
     \<exists>n. parse_members n (join '','' (member_texts kvs) @ CHR ''}'' # r) = Some (kvs, r)"
proof (induction v and vs and kvs arbitrary: r and r and r
    rule: stringify_elem_texts_member_texts.induct)
  case 2
  then show ?case by (intro exI [where x = 1]) (simp add: starts_with_def)
next
  case (3 b)
  then show ?case by (intro exI [where x = 1]) (simp add: starts_with_def)
next
  case (4 n)
  then obtain i where n: "n = num_of_int i" "\<bar>i\<bar> < 2 ^ 53" by (auto simp: json_ok_num)
  then have "stringify (JNum n) = int_text i" using num_text_int [OF n(2)] by simp
  then show ?case using parse_value_number [OF n(2) 4(2)] n(1) by metis
next
  case (5 s)
  then have "read_string (escape_text s @ chr 34 # r) = Some (s, r)"
    by (intro read_string_quote utf8_wf_surrogate_free) simp
  then show ?case by (intro exI [where x = 1]) (simp add: quote_def)
next
  case (6 vs)
  show ?case
  proof (cases "vs = []")
    case True
    then show ?thesis by (intro exI [where x = 1]) (simp add: starts_with_def)
  next
    case False
    then obtain n where "parse_elems n (join '','' (elem_texts vs) @ CHR '']'' # r) = Some (vs, r)"
      using 6 by auto
    moreover have "json_ok (hd vs)" using "6.prems"(1) False by simp
    ultimately have "parse_value (Suc n) (stringify (JArr vs) @ r) = Some (JArr vs, r)"
      by (intro parse_value_array [OF False])
    then show ?thesis by blast
  qed
next
  case (7 kvs)
  show ?case
  proof (cases "kvs = []")
    case True
    then show ?thesis by (intro exI [where x = 1]) (simp add: starts_with_def)
  next
    case False
    then obtain n where "parse_members n (join '','' (member_texts kvs) @ CHR ''}'' # r) = Some (kvs, r)"
      using 7 by auto
    moreover have "snd (hd kvs) \<noteq> JUndef" using "7.prems"(1) False hd_in_set json_ok_defined by fastforce
    moreover have "distinct (map fst kvs)" using "7.prems"(1) by simp
    ultimately have "parse_value (Suc n) (stringify (JObj kvs) @ r) = Some (JObj kvs, r)"
      by (intro parse_value_object [OF False])
    then show ?thesis by blast
  qed
next
  case (9 v vs)
  show ?case
  proof (cases "vs = []")
    case True
    obtain n where "parse_value n (stringify v @ CHR '']'' # r) = Some (v, CHR '']'' # r)"
      using "9.IH"(1) [of "CHR '']'' # r"] "9.prems" by auto
    then show ?thesis using True by (intro exI [where x = "Suc n"]) simp
  next
    case False
    let ?u = "join '','' (elem_texts vs) @ CHR '']'' # r"
    obtain m n where "parse_value m (stringify v @ CHR '','' # ?u) = Some (v, CHR '','' # ?u)"
        "parse_elems n ?u = Some (vs, r)"
      using "9.IH"(1) [of "CHR '','' # ?u"] "9.IH"(2) [OF False, of r] "9.prems" by auto
    from parse_elems_step [OF this] False show ?thesis by (simp add: join_Cons)
  qed
next
  case (11 k v kvs)
  have v: "v \<noteq> JUndef" using 11 json_ok_defined by auto
  have k: "surrogate_free k" using 11 by (simp add: utf8_wf_surrogate_free)
  have nil: "member_texts kvs = [] \<longleftrightarrow> kvs = []"
    using "11.prems" json_ok_defined by (intro member_texts_Nil) fastforce
  show ?case
  proof (cases "kvs = []")
    case True
    obtain n where "parse_value n (stringify v @ CHR ''}'' # r) = Some (v, CHR ''}'' # r)"
      using "11.IH"(1) [OF v, of "CHR ''}'' # r"] "11.prems" by auto
    from parse_members_last [OF k this] True v show ?thesis
      by (intro exI [where x = "Suc n"]) (simp add: member_text_def del: parse_members.simps)
  next
    case False
    let ?u = "join '','' (member_texts kvs) @ CHR ''}'' # r"
    obtain m n where "parse_value m (stringify v @ CHR '','' # ?u) = Some (v, CHR '','' # ?u)"
        "parse_members n ?u = Some (kvs, r)"
      using "11.IH"(1) [OF v, of "CHR '','' # ?u"] "11.IH"(2) [OF False, of r] "11.prems" by auto
    from parse_members_step [OF k this]
    obtain j where "parse_members j (member_text k v @ CHR '','' # ?u) = Some ((k, v) # kvs, r)" by blast
    moreover have "join '','' (member_texts ((k, v) # kvs)) = member_text k v @ CHR '','' # join '','' (member_texts kvs)"
      using False v nil by (simp add: join_Cons member_text_def)
    ultimately show ?thesis by (metis append.assoc append_Cons)
  qed
qed simp_all

theorem json_parse_stringify:
  assumes "json_ok v"
  shows "json_parse (stringify v) = Inr v"
proof -
  obtain n where "parse_value n (stringify v @ []) = Some (v, [])"
    using parse_stringify(1) [OF assms, of "[]"] by auto
  then have "parse_value (max n (json_fuel (stringify v))) (stringify v) = Some (v, [])"
    using parse_mono by (metis append_Nil2 max.cobounded1)
  then have "parse_value (json_fuel (stringify v)) (stringify v) = Some (v, [])"
    using parse_fuel_enough by (metis max.cobounded2)
  then show ?thesis by (simp add: json_parse_def)
qed

text \<open>Printed values are well-formed text that does not open with a byte order mark.\<close>

lemma escape_char_high: "byte c \<ge> (128 :: nat) \<Longrightarrow> escape_char c = [c]"
  by (simp add: escape_char_def Let_def)

lemma digit_char_ascii: "d < 16 \<Longrightarrow> byte (digit_char d) < (128 :: nat)"
  by (simp add: digit_char_def)

lemma escape_char_ascii: "byte c < (128 :: nat) \<Longrightarrow> list_all (\<lambda>c. byte c < (128 :: nat)) (escape_char c)"
  by (simp add: escape_char_def Let_def escape_unit_def hex4_def digit_char_ascii)

lemma utf8_wf_escape: "utf8_wf s \<Longrightarrow> utf8_wf (concat (map escape_char s))"
proof (induction s rule: utf8_wf.induct)
  case (2 b bs)
  show ?case
  proof (cases "byte b < (128 :: nat)")
    case True
    with 2 escape_char_ascii show ?thesis by (simp add: utf8_wf_ascii)
  next
    case False
    with "2.prems" obtain n lo hi t r where lead: "utf8_lead (byte b) = Some (n, lo, hi)"
      and tc: "take_conts n lo hi bs = (t, r, True)" and wf: "utf8_wf r"
      by (auto split: option.splits prod.splits)
    have "128 \<le> lo" using lead by (auto simp: utf8_lead_def split: if_splits)
    then have "\<forall>c \<in> set t. escape_char c = [c]"
      using take_conts_high [OF tc] escape_char_high by blast
    then have "concat (map escape_char t) = t" by (induction t) auto
    moreover have "bs = t @ r" using tc by (rule take_conts_split)
    ultimately have "concat (map escape_char (b # bs)) = b # t @ concat (map escape_char r)"
      using False by (simp add: escape_char_high)
    moreover have "utf8_wf (concat (map escape_char r))" using "2.IH"(2) [OF False lead] tc wf by auto
    ultimately show ?thesis using False lead take_conts_replace [OF tc] by simp
  qed
qed simp

lemma utf8_wf_quote: "utf8_wf s \<Longrightarrow> utf8_wf (quote s)"
proof -
  assume s: "utf8_wf s"
  have q: "utf8_wf [chr 34]" by simp
  have "utf8_wf (escape_text s)"
    using s by (simp add: escape_text_free utf8_wf_surrogate_free utf8_wf_escape)
  with q show ?thesis unfolding quote_def by (intro utf8_wf_append)
qed

lemma utf8_wf_int_text: "utf8_wf (int_text i)"
  using nat_text_digits by (intro utf8_wf_ascii) (fastforce simp: int_text_def list_all_iff is_digit_def)

lemma utf8_wf_join: "utf8_wf sep \<Longrightarrow> \<forall>t \<in> set ts. utf8_wf t \<Longrightarrow> utf8_wf (join sep ts)"
  by (induction sep ts rule: join.induct) auto

lemma utf8_wf_stringify:
  "json_ok v \<Longrightarrow> utf8_wf (stringify v)"
  "\<forall>v \<in> set vs. json_ok v \<Longrightarrow> \<forall>t \<in> set (elem_texts vs). utf8_wf t"
  "\<forall>kv \<in> set kvs. utf8_wf (fst kv) \<and> json_ok (snd kv) \<Longrightarrow> \<forall>t \<in> set (member_texts kvs). utf8_wf t"
proof (induction v and vs and kvs rule: stringify_elem_texts_member_texts.induct)
  case (4 n)
  then obtain i where "n = num_of_int i" "\<bar>i\<bar> < 2 ^ 53" by (auto simp: json_ok_num)
  then have "stringify (JNum n) = int_text i" using num_text_int [of i] by simp
  then show ?case by (simp add: utf8_wf_int_text)
next
  case (6 vs)
  then have "utf8_wf (join '','' (elem_texts vs))" by (intro utf8_wf_join) auto
  then show ?case by simp
next
  case (7 kvs)
  then have "utf8_wf (join '','' (member_texts kvs))" by (intro utf8_wf_join) auto
  then show ?case by simp
next
  case (11 k v kvs)
  have "utf8_wf ('':'' @ stringify v)" if "v \<noteq> JUndef" using 11 that by simp
  then have "utf8_wf (quote k @ '':'' @ stringify v)" if "v \<noteq> JUndef"
    using 11 that by (intro utf8_wf_append utf8_wf_quote) simp_all
  with 11 show ?case by auto
qed (simp_all add: utf8_wf_quote)

lemma plain_text_stringify: "json_ok v \<Longrightarrow> plain_text (stringify v)"
  using stringify_first [of v] utf8_wf_stringify(1) [of v]
  by (fastforce simp: plain_text_def starts_with_def byte_order_mark_def)

end
