(* ===== verification/Wire.thy ===== *)
theory Wire
  imports Json
begin

text \<open>
  The header format: JSON, as UTF-8, as base64.  Each layer interprets the \<open>codec\<close> locale
  on the functions that model it, and \<open>codec_chain\<close> composes two layers, so the round trip
  of the whole follows from the layers' own.
\<close>

locale codec_chain =
  inner: codec enc1 dec1 valid1 + outer: codec enc2 dec2 valid2
  for enc1 :: "'a \<Rightarrow> 'b" and dec1 :: "'b \<Rightarrow> 'e + 'a" and valid1 :: "'a \<Rightarrow> bool"
    and enc2 :: "'b \<Rightarrow> 'c" and dec2 :: "'c \<Rightarrow> 'e + 'b" and valid2 :: "'b \<Rightarrow> bool" +
  assumes inner_valid: "valid1 x \<Longrightarrow> valid2 (enc1 x)"
begin

lemma chain_decode_encode: "valid1 x \<Longrightarrow> and_then (dec2 (enc2 (enc1 x))) dec1 = Inr x"
  by (simp add: inner_valid inner.decode_encode outer.decode_encode)

end

sublocale codec_chain \<subseteq> chain: codec "\<lambda>x. enc2 (enc1 x)" "\<lambda>y. and_then (dec2 y) dec1" valid1
  by unfold_locales (rule chain_decode_encode)

definition base64_bytes :: "string \<Rightarrow> bytes result" where
  "base64_bytes s =
     of_option (Dom_exception ''The string to be decoded is not correctly encoded.'') (atob s)"

definition decode_text :: "bytes \<Rightarrow> string result" where
  "decode_text bs = Inr (text_decode bs)"

interpretation base64: codec btoa base64_bytes "\<lambda>_. True"
  by unfold_locales (simp add: base64_bytes_def)

interpretation utf8: codec utf8_encode decode_text plain_text
  by unfold_locales (simp add: decode_text_def text_decode_encode)

interpretation json: codec stringify json_parse json_ok
  by unfold_locales (rule json_parse_stringify)

interpretation text64: codec_chain utf8_encode decode_text plain_text btoa base64_bytes "\<lambda>_. True"
  by unfold_locales simp

interpretation header: codec_chain stringify json_parse json_ok
  "\<lambda>s. btoa (utf8_encode s)" "\<lambda>h. and_then (base64_bytes h) decode_text" plain_text
  by unfold_locales (rule plain_text_stringify)

lemmas header_round_trip = header.chain_decode_encode
lemmas stringify_inject = json.encode_inj

end
