(* ===== verification/Http.thy ===== *)
theory Http
  imports Wire "HOL-Library.Char_ord" "HOL-Library.List_Lexorder"
begin

text \<open>
  The part of the Fetch standard the services use: header lists, requests and responses.  What
  a \<open>fetch\<close> answers is a parameter of the definitions that call it; a request is a value.
\<close>

section \<open>Headers\<close>

text \<open>A header list in order of insertion.  Names are kept in lower case, as every reader of
  the list sees them.\<close>

type_synonym headers = "(string \<times> string) list"

text \<open>HTTP white space: tab, line feed, carriage return, space.\<close>

definition http_space :: "char \<Rightarrow> bool" where
  "http_space c \<longleftrightarrow> byte c \<in> {9, 10, 13, 32 :: nat}"

definition header_value :: "string \<Rightarrow> string" where
  "header_value v = rev (dropWhile http_space (rev (dropWhile http_space v)))"

definition header_append :: "string \<Rightarrow> string \<Rightarrow> headers \<Rightarrow> headers" where
  "header_append name v hs = hs @ [(to_lower name, header_value v)]"

definition header_values :: "string \<Rightarrow> headers \<Rightarrow> string list" where
  "header_values name hs = map snd (filter (\<lambda>p. fst p = to_lower name) hs)"

definition header_get :: "string \<Rightarrow> headers \<Rightarrow> string option" where
  "header_get name hs =
     (let vs = header_values name hs in if vs = [] then None else Some (join '', '' vs))"

text \<open>\<open>set\<close> overwrites the first entry of that name and removes the others.\<close>

fun header_set :: "string \<Rightarrow> string \<Rightarrow> headers \<Rightarrow> headers" where
  "header_set name v [] = [(to_lower name, header_value v)]"
| "header_set name v (h # hs) =
     (if fst h = to_lower name
      then (to_lower name, header_value v) # filter (\<lambda>p. fst p \<noteq> to_lower name) hs
      else h # header_set name v hs)"

text \<open>Iteration sorts by name and combines the values of a name, cookies excepted.\<close>

definition header_entries :: "headers \<Rightarrow> headers" where
  "header_entries hs =
     concat (map (\<lambda>n. if n = ''set-cookie'' then map (Pair n) (header_values n hs)
                       else [(n, join '', '' (header_values n hs))])
       (sort (remdups (map fst hs))))"

section \<open>Requests and responses\<close>

record http_request =
  rq_method :: string
  rq_url :: string
  rq_headers :: headers
  rq_body :: bytes

record http_response =
  rs_status :: nat
  rs_headers :: headers
  rs_body :: bytes

type_synonym 'w fetch = "http_request \<Rightarrow> ('w, exn, http_response) io"

text \<open>\<open>response.ok\<close>.\<close>

definition response_ok :: "http_response \<Rightarrow> bool" where
  "response_ok r \<longleftrightarrow> 200 \<le> rs_status r \<and> rs_status r \<le> 299"

text \<open>\<open>response.json()\<close>: UTF-8 decoding, then \<open>JSON.parse\<close>.\<close>

definition response_json :: "http_response \<Rightarrow> js result" where
  "response_json r = json_parse (text_decode (rs_body r))"

text \<open>A JSON request or response body as it goes out.\<close>

definition json_body :: "js \<Rightarrow> bytes" where
  "json_body v = utf8_encode (stringify v)"

text \<open>A readable body: its chunks, and the error that ends it when it does not end well.\<close>

record body_stream =
  chunks :: "bytes list"
  broken :: "exn option"

text \<open>The path of an absolute URL in serialised form, without query and fragment.\<close>

fun after_scheme :: "string \<Rightarrow> string" where
  "after_scheme [] = []"
| "after_scheme (c # s) = (if starts_with ''://'' (c # s) then drop 2 s else after_scheme s)"

definition url_pathname :: "string \<Rightarrow> string" where
  "url_pathname url =
     takeWhile (\<lambda>c. c \<noteq> CHR ''?'' \<and> c \<noteq> CHR ''#'') (dropWhile (\<lambda>c. c \<noteq> CHR ''/'') (after_scheme url))"

text \<open>\<open>url.replace(/\/+$/, '')\<close>.\<close>

definition strip_slashes :: "string \<Rightarrow> string" where
  "strip_slashes url = rev (dropWhile (\<lambda>c. c = CHR ''/'') (rev url))"

section \<open>Lemmas\<close>

lemma header_values_simps [simp]:
  "header_values n [] = []"
  "header_values n (h # hs) = (if fst h = to_lower n then [snd h] else []) @ header_values n hs"
  "header_values n (hs @ hs') = header_values n hs @ header_values n hs'"
  by (simp_all add: header_values_def)

lemma header_values_set:
  "header_values n (header_set m v hs) =
     (if to_lower n = to_lower m then [header_value v] else header_values n hs)"
proof (induction hs)
  case (Cons h hs)
  have "filter (\<lambda>p. fst p \<noteq> to_lower m \<and> fst p = to_lower n) hs = filter (\<lambda>p. fst p = to_lower n) hs"
    if "to_lower m \<noteq> to_lower n"
    using that by (intro filter_cong) auto
  with Cons show ?case by (auto simp: header_values_def)
qed simp

lemma header_get_set:
  "header_get n (header_set m v hs) =
     (if to_lower n = to_lower m then Some (header_value v) else header_get n hs)"
  by (simp add: header_get_def header_values_set)

text \<open>White space at the ends is gone from a stored value, so storing it again changes nothing.\<close>

lemma dropWhile_rev_dropWhile:
  "dropWhile P (rev (dropWhile P (rev (dropWhile P s)))) = rev (dropWhile P (rev (dropWhile P s)))"
proof (cases "dropWhile P s")
  case (Cons c r)
  then have c: "\<not> P c" by (metis hd_dropWhile list.distinct(1) list.sel(1))
  have "dropWhile P (rev r @ [c]) = dropWhile P (rev r) @ [c]"
    using c by (induction "rev r" arbitrary: r) (auto simp: dropWhile_append)
  then show ?thesis using Cons c by simp
next
  case Nil
  then show ?thesis by (simp only: rev.simps dropWhile.simps)
qed

lemma dropWhile_idem: "dropWhile P (dropWhile P s) = dropWhile P s"
  by (induction s) auto

lemma header_value_idem [simp]: "header_value (header_value v) = header_value v"
  by (simp add: header_value_def dropWhile_rev_dropWhile dropWhile_idem)

text \<open>A JSON body comes back as the value it was made from.\<close>

lemma json_body_decode: "json_ok v \<Longrightarrow> text_decode (json_body v) = stringify v"
  using text_decode_encode [OF plain_text_stringify] by (simp add: json_body_def)

lemma response_json_body: "json_ok v \<Longrightarrow> response_json \<lparr>rs_status = n, rs_headers = hs, rs_body = json_body v\<rparr> = Inr v"
  by (simp add: response_json_def json_body_decode json_parse_stringify)

end
