(* ===== verification/Js_Date.thy ===== *)
theory Js_Date
  imports Js_Value
begin

text \<open>
  Dates as the sources use them: time values in milliseconds since 1970, \<open>Date.parse\<close> of
  an RFC 3339 timestamp and \<open>toISOString\<close>.  What an engine makes of any other text (local
  times, its legacy formats) is implementation-defined and stays the parameter \<open>legacy\<close>;
  \<open>None\<close> is NaN.
\<close>

section \<open>The civil calendar\<close>

definition days_from_civil :: "int \<Rightarrow> int \<Rightarrow> int \<Rightarrow> int" where
  "days_from_civil y m d =
     (let y' = (if m \<le> 2 then y - 1 else y); era = y' div 400; yoe = y' - era * 400;
          mp = (m + 9) mod 12; doy = (153 * mp + 2) div 5 + d - 1;
          doe = yoe * 365 + yoe div 4 - yoe div 100 + doy
      in era * 146097 + doe - 719468)"

definition civil_from_days :: "int \<Rightarrow> int \<times> int \<times> int" where
  "civil_from_days z =
     (let z' = z + 719468; era = z' div 146097; doe = z' - era * 146097;
          yoe = (doe - doe div 1460 + doe div 36524 - doe div 146096) div 365;
          doy = doe - (365 * yoe + yoe div 4 - yoe div 100);
          mp = (5 * doy + 2) div 153; d = doy - (153 * mp + 2) div 5 + 1;
          m = (if mp < 10 then mp + 3 else mp - 9)
      in (yoe + era * 400 + (if m \<le> 2 then 1 else 0), m, d))"

definition time_value :: "int \<Rightarrow> int \<Rightarrow> int \<Rightarrow> int \<Rightarrow> int \<Rightarrow> int \<Rightarrow> int \<Rightarrow> int" where
  "time_value y mo d h mi s ms =
     (((days_from_civil y mo d * 24 + h) * 60 + mi) * 60 + s) * 1000 + ms"

section \<open>\<open>Date.parse\<close>\<close>

definition fixed :: "nat \<Rightarrow> string \<Rightarrow> (int \<times> string) option" where
  "fixed n s =
     (if length s < n then None
      else map_option (\<lambda>v. (int v, drop n s))
        (if list_all is_digit (take n s) then digits_value 10 0 (take n s) else None))"

definition expect :: "string \<Rightarrow> string \<Rightarrow> string option" where
  "expect p s = (if starts_with p s then Some (drop (length p) s) else None)"

text \<open>The date part \<open>YYYY-MM-DD\<close> and the time part \<open>Thh:mm:ss\<close>.\<close>

definition iso_date :: "string \<Rightarrow> ((int \<times> int \<times> int) \<times> string) option" where
  "iso_date s =
     Option.bind (fixed 4 s) (\<lambda>(y, s1).
     Option.bind (expect ''-'' s1) (\<lambda>s2.
     Option.bind (fixed 2 s2) (\<lambda>(m, s3).
     Option.bind (expect ''-'' s3) (\<lambda>s4.
     Option.bind (fixed 2 s4) (\<lambda>(d, s5).
       if 1 \<le> m \<and> m \<le> 12 \<and> 1 \<le> d \<and> d \<le> 31 then Some ((y, m, d), s5) else None)))))"

text \<open>Fraction digits beyond the third are dropped.\<close>

definition iso_fraction :: "string \<Rightarrow> (int \<times> string) option" where
  "iso_fraction s =
     (if starts_with ''.'' s
      then (let ds = takeWhile is_digit (drop 1 s); r = dropWhile is_digit (drop 1 s)
            in if ds = [] then None
               else map_option (\<lambda>v. (int v, r)) (digits_value 10 0 (take 3 (ds @ ''00''))))
      else Some (0, s))"

definition iso_time :: "string \<Rightarrow> ((int \<times> int \<times> int \<times> int) \<times> string) option" where
  "iso_time s =
     Option.bind (expect ''T'' s) (\<lambda>s0.
     Option.bind (fixed 2 s0) (\<lambda>(h, s1).
     Option.bind (expect '':'' s1) (\<lambda>s2.
     Option.bind (fixed 2 s2) (\<lambda>(mi, s3).
     Option.bind (expect '':'' s3) (\<lambda>s4.
     Option.bind (fixed 2 s4) (\<lambda>(sec, s5).
     Option.bind (iso_fraction s5) (\<lambda>(ms, s6).
       if (h \<le> 23 \<and> mi \<le> 59 \<and> sec \<le> 59) \<or> (h = 24 \<and> mi = 0 \<and> sec = 0 \<and> ms = 0)
       then Some ((h, mi, sec, ms), s6) else None)))))))"

text \<open>\<open>Z\<close> or a signed \<open>hh:mm\<close>, in minutes.\<close>

definition iso_offset :: "string \<Rightarrow> int option" where
  "iso_offset s =
     (if s = ''Z'' then Some 0
      else if starts_with ''+'' s \<or> starts_with ''-'' s then
        Option.bind (fixed 2 (drop 1 s)) (\<lambda>(h, s1).
        Option.bind (expect '':'' s1) (\<lambda>s2.
        Option.bind (fixed 2 s2) (\<lambda>(mi, s3).
          if s3 = [] \<and> h \<le> 23 \<and> mi \<le> 59
          then Some ((if starts_with ''-'' s then - 1 else 1) * (h * 60 + mi)) else None)))
      else None)"

definition iso_parse :: "string \<Rightarrow> int option" where
  "iso_parse s =
     Option.bind (iso_date s) (\<lambda>((y, mo, d), s1).
     Option.bind (iso_time s1) (\<lambda>((h, mi, sec, ms), s2).
     Option.bind (iso_offset s2) (\<lambda>off.
       Some (time_value y mo d h mi sec ms - off * 60000))))"

definition date_parse :: "(string \<Rightarrow> int option) \<Rightarrow> string \<Rightarrow> int option" where
  "date_parse legacy s = (case iso_parse s of Some t \<Rightarrow> Some t | None \<Rightarrow> legacy s)"

section \<open>\<open>toISOString\<close>\<close>

definition pad :: "nat \<Rightarrow> string \<Rightarrow> string" where
  "pad n s = replicate (n - length s) (CHR ''0'') @ s"

definition year_text :: "int \<Rightarrow> string" where
  "year_text y =
     (if 0 \<le> y \<and> y \<le> 9999 then pad 4 (nat_text (nat y))
      else (if y < 0 then ''-'' else ''+'') @ pad 6 (nat_text (nat \<bar>y\<bar>)))"

definition two :: "int \<Rightarrow> string" where
  "two n = pad 2 (nat_text (nat n))"

definition iso_text :: "int \<Rightarrow> string" where
  "iso_text t =
     (case civil_from_days (t div 86400000) of
        (y, mo, d) \<Rightarrow>
          (let r = t mod 86400000
           in year_text y @ ''-'' @ two mo @ ''-'' @ two d @ ''T'' @ two (r div 3600000) @ '':'' @
              two (r div 60000 mod 60) @ '':'' @ two (r div 1000 mod 60) @ ''.'' @
              pad 3 (nat_text (nat (r mod 1000))) @ ''Z''))"

text \<open>A printed date is made of digits and seven other ASCII characters.\<close>

definition date_char :: "char \<Rightarrow> bool" where
  "date_char c \<longleftrightarrow> is_digit c \<or> c \<in> set ''-+T:.Z''"

lemma date_char_nat_text: "list_all date_char (nat_text n)"
  using all_digits_nat_text [of n] by (auto simp: all_digits_def list_all_iff date_char_def)

lemma date_char_pad: "list_all date_char s \<Longrightarrow> list_all date_char (pad n s)"
  by (auto simp: pad_def list_all_iff date_char_def is_digit_def)

lemma iso_text_chars: "list_all date_char (iso_text t)"
proof -
  have "date_char CHR ''-''" "date_char CHR ''+''" "date_char CHR ''T''" "date_char CHR '':''" "date_char CHR ''.''"
    "date_char CHR ''Z''"
    by (simp_all add: date_char_def)
  then show ?thesis
    by (auto simp: iso_text_def Let_def year_text_def two_def date_char_pad date_char_nat_text split: prod.splits)
qed

lemma date_char_ascii: "date_char c \<Longrightarrow> byte c < (128 :: nat)"
  by (auto simp: date_char_def is_digit_def)

lemma iso_parse_fixture: "iso_parse ''2026-07-30T13:00:00Z'' = Some 1785416400000"
  by code_simp

lemma iso_text_fixture: "iso_text 1785416400000 = ''2026-07-30T13:00:00.000Z''"
  by code_simp

end
