(* ===== verification/Assertion.thy ===== *)
theory Assertion
  imports Wire Js_Date "HOL-Library.Word" "HOL-Library.Signed_Division"
begin

text \<open>
  \<open>packages/types/src/index.ts\<close>: the assertion and what is computed from it.  Values read
  from a header are dynamic (\<open>js\<close>); the record \<open>assertion\<close> is the TypeScript interface.
  The canonical form that gets signed is shown to determine every signed field, and the
  floating-point commission split to be exact; \<open>Commission\<close> compares it with the settlement service.
\<close>

section \<open>Constants\<close>

definition ASSERTION_TTL_SECONDS :: int where
  "ASSERTION_TTL_SECONDS = 3600"

definition BASIS_POINTS_DIVISOR :: number where
  "BASIS_POINTS_DIVISOR = Fin 10000"

definition PLATFORM_FEE_SHARE_BPS :: number where
  "PLATFORM_FEE_SHARE_BPS = Fin 3000"

definition SIGNATURE_PREFIX :: string where
  "SIGNATURE_PREFIX = ''ed25519:''"

section \<open>The assertion\<close>

record assertion =
  assertion_id :: string
  publisher_id :: string
  product_id :: string
  search_request_id :: string
  issued_at :: string
  expires_at :: string
  commission_bps :: number
  signature :: string

definition assertion_js :: "assertion \<Rightarrow> js" where
  "assertion_js a = JObj
     [(''assertion_id'', JStr (assertion_id a)), (''publisher_id'', JStr (publisher_id a)),
      (''product_id'', JStr (product_id a)), (''search_request_id'', JStr (search_request_id a)),
      (''issued_at'', JStr (issued_at a)), (''expires_at'', JStr (expires_at a)),
      (''commission_bps'', JNum (commission_bps a)), (''signature'', JStr (signature a))]"

text \<open>Well-formed text and an exactly represented rate: what a JSON header carries intact.\<close>

definition assertion_ok :: "assertion \<Rightarrow> bool" where
  "assertion_ok a \<longleftrightarrow> json_ok (assertion_js a)"

section \<open>\<open>canonicalizeForSigning\<close>\<close>

definition signed_fields :: "string list" where
  "signed_fields = [''assertion_id'', ''publisher_id'', ''product_id'', ''search_request_id'',
     ''issued_at'', ''expires_at'', ''commission_bps'']"

fun read_fields :: "js \<Rightarrow> string list \<Rightarrow> (string \<times> js) list result" where
  "read_fields a [] = Inr []"
| "read_fields a (k # ks) =
     and_then (get a k) (\<lambda>v. and_then (read_fields a ks) (\<lambda>r. Inr ((k, v) # r)))"

text \<open>
  The object literal reads the fields in this order (the first read of null or undefined
  throws) and \<open>JSON.stringify\<close> prints them in it.
\<close>

definition canonicalizeForSigning :: "js \<Rightarrow> string result" where
  "canonicalizeForSigning a =
     and_then (read_fields a signed_fields) (\<lambda>ordered. Inr (stringify (JObj ordered)))"

lemma signed_fields_distinct: "distinct signed_fields"
  by (simp add: signed_fields_def)

lemma read_fields_Obj: "read_fields (JObj kvs) ks = Inr (map (\<lambda>k. (k, own kvs k)) ks)"
  by (induction ks) auto

lemma canonicalize_Obj:
  "canonicalizeForSigning (JObj kvs) =
     Inr (stringify (JObj (map (\<lambda>k. (k, own kvs k)) signed_fields)))"
  by (simp add: canonicalizeForSigning_def read_fields_Obj)

text \<open>An assertion whose signed fields are all present and carried exactly.\<close>

definition signable :: "(string \<times> js) list \<Rightarrow> bool" where
  "signable kvs \<longleftrightarrow> (\<forall>k \<in> set signed_fields. json_ok (own kvs k))"

lemma signed_fields_wf: "k \<in> set signed_fields \<Longrightarrow> utf8_wf k"
  by (intro utf8_wf_ascii) (auto simp: signed_fields_def)

lemma canonical_ok:
  "signable kvs \<Longrightarrow> json_ok (JObj (map (\<lambda>k. (k, own kvs k)) signed_fields))"
  using signed_fields_distinct signed_fields_wf by (auto simp: signable_def comp_def)

lemma canonical_determines_fields:
  assumes "signable kvs" and "signable kvs'"
    and "canonicalizeForSigning (JObj kvs) = canonicalizeForSigning (JObj kvs')"
    and "k \<in> set signed_fields"
  shows "own kvs k = own kvs' k"
proof -
  have "JObj (map (\<lambda>k. (k, own kvs k)) signed_fields) = JObj (map (\<lambda>k. (k, own kvs' k)) signed_fields)"
    using assms(3) by (intro stringify_inject canonical_ok assms(1,2)) (simp add: canonicalize_Obj)
  then show ?thesis using assms(4) by simp
qed

definition unsigned_part :: "assertion \<Rightarrow> assertion" where
  "unsigned_part a = a\<lparr>signature := []\<rparr>"

lemma own_assertion_js:
  "assertion_js a = JObj kvs \<Longrightarrow>
     own kvs ''assertion_id'' = JStr (assertion_id a) \<and> own kvs ''publisher_id'' = JStr (publisher_id a) \<and>
     own kvs ''product_id'' = JStr (product_id a) \<and> own kvs ''search_request_id'' = JStr (search_request_id a) \<and>
     own kvs ''issued_at'' = JStr (issued_at a) \<and> own kvs ''expires_at'' = JStr (expires_at a) \<and>
     own kvs ''commission_bps'' = JNum (commission_bps a) \<and> own kvs ''signature'' = JStr (signature a)"
  by (auto simp: assertion_js_def)

lemma assertion_ok_signable: "assertion_ok a \<Longrightarrow> assertion_js a = JObj kvs \<Longrightarrow> signable kvs"
  by (auto simp: assertion_ok_def assertion_js_def signable_def signed_fields_def)

section \<open>\<open>isExpired\<close>\<close>

text \<open>\<open>new Date(v).getTime()\<close>: a string is parsed, anything else converted to a number.\<close>

definition date_value :: "(string \<Rightarrow> int option) \<Rightarrow> js \<Rightarrow> int option" where
  "date_value legacy v =
     (case v of
        JStr s \<Rightarrow> date_parse legacy s
      | JArr vs \<Rightarrow> date_parse legacy (to_text v)
      | JObj kvs \<Rightarrow> date_parse legacy (to_text v)
      | _ \<Rightarrow> (case to_number v of
               Fin x \<Rightarrow> if \<bar>x\<bar> \<le> 8640000000000000 then Some (if x < 0 then - \<lfloor>- x\<rfloor> else \<lfloor>x\<rfloor>) else None
             | _ \<Rightarrow> None))"

definition isExpired :: "(string \<Rightarrow> int option) \<Rightarrow> js \<Rightarrow> int \<Rightarrow> bool result" where
  "isExpired legacy a now =
     and_then (get a ''expires_at'') (\<lambda>v.
       Inr (case date_value legacy v of None \<Rightarrow> False | Some t \<Rightarrow> t \<le> now))"

section \<open>\<open>calculateCommission\<close>\<close>

record commission_split =
  commission_amount_cents :: number
  platform_fee_cents :: number
  publisher_amount_cents :: number

definition calculateCommission :: "number \<Rightarrow> number \<Rightarrow> commission_split" where
  "calculateCommission grossAmountCents commissionBps =
     (let commission = math_floor (num_div (num_mul grossAmountCents commissionBps) BASIS_POINTS_DIVISOR);
          platformFee = math_floor (num_div (num_mul commission PLATFORM_FEE_SHARE_BPS) BASIS_POINTS_DIVISOR)
      in \<lparr>commission_amount_cents = commission, platform_fee_cents = platformFee,
          publisher_amount_cents = num_sub commission platformFee\<rparr>)"

text \<open>The quotient is rounded to a double before \<open>Math.floor\<close> sees it; below \<open>2^53\<close> the
  rounding is too small to reach the next integer.\<close>

lemma floor_round_div:
  assumes "0 < p" and "p < 2 ^ 53"
  shows "\<lfloor>round_pos (of_int p / 10000)\<rfloor> = p div 10000"
proof -
  let ?x = "of_int p / 10000 :: rat"
  have p: "(of_int p :: rat) \<ge> 1" "(of_int p :: rat) < 2 ^ 53"
    using int_rat_bounds [OF assms] by simp_all
  have err: "\<bar>round_pos ?x - ?x\<bar> \<le> ?x / 2 ^ 53" using p by (intro round_pos_error) simp
  also have "\<dots> < 1 / 10000" using p by simp
  finally have err: "\<bar>round_pos ?x - ?x\<bar> < 1 / 10000" .
  define n k where "n = p div 10000" and "k = p mod 10000"
  have "p = 10000 * n + k" by (simp add: n_def k_def)
  then have x: "?x = of_int n + of_int k / 10000" by (simp add: field_simps)
  have k: "0 \<le> k" "k < 10000" by (simp_all add: k_def)
  define y where "y = round_pos ?x"
  have y: "y < of_int n + of_int k / 10000 + 1 / 10000" "of_int n + of_int k / 10000 < y + 1 / 10000"
  proof -
    have "\<bar>y - (of_int n + of_int k / 10000)\<bar> < 1 / 10000" using err x by (simp only: y_def)
    then show "y < of_int n + of_int k / 10000 + 1 / 10000" "of_int n + of_int k / 10000 < y + 1 / 10000"
      by linarith+
  qed
  have "(of_int k :: rat) \<le> of_int 9999" using k(2) by (simp only: of_int_le_iff)
  then have upper: "y < of_int n + 1" using y(1) by simp
  have lower: "of_int n \<le> y"
  proof (cases "k = 0")
    case True
    then have "n > 0" using assms(1) \<open>p = 10000 * n + k\<close> by simp
    moreover have "n < 2 ^ 53" using assms(2) \<open>p = 10000 * n + k\<close> k by simp
    moreover have "?x = of_int n" using x True by simp
    ultimately show ?thesis using round_pos_int by (simp add: y_def)
  next
    case False
    then have "of_int 1 \<le> (of_int k :: rat)" using k(1) by (simp only: of_int_le_iff)
    then show ?thesis using y(2) by simp
  qed
  show ?thesis using floor_unique [OF lower upper] by (simp add: y_def n_def)
qed

lemma floor_num_div:
  assumes "0 \<le> p" and "p < 2 ^ 53"
  shows "math_floor (num_div (num_of_int p) BASIS_POINTS_DIVISOR) = num_of_int (p div 10000)"
proof (cases "p = 0")
  case False
  then have p: "0 < p" using assms(1) by simp
  have "(of_int p :: rat) / 10000 < 2 powi 53" "0 < (of_int p :: rat)"
    using int_rat_bounds [OF p assms(2)] by simp_all
  moreover have "(2 :: rat) powi 53 \<le> 2 powi 1000" by (intro power_int_increasing) auto
  ultimately have "\<not> overflows (of_int p / 10000)" by (intro not_overflows) auto
  then show ?thesis
    using p floor_round_div [OF p assms(2)] by (simp add: BASIS_POINTS_DIVISOR_def to_double_def)
qed (simp add: BASIS_POINTS_DIVISOR_def to_double_def)

lemma num_mul_int: "\<bar>x * y\<bar> < 2 ^ 53 \<Longrightarrow> num_mul (num_of_int x) (num_of_int y) = num_of_int (x * y)"
  using to_double_int [of "x * y"] by simp

lemma num_sub_int: "\<bar>x - y\<bar> < 2 ^ 53 \<Longrightarrow> num_sub (num_of_int x) (num_of_int y) = num_of_int (x - y)"
  using to_double_int [of "x - y"] by (simp add: num_sub_def)

lemma calculateCommission_int:
  assumes "0 \<le> gross" and "0 \<le> bps" and "gross * bps < 2 ^ 53"
  shows "calculateCommission (num_of_int gross) (num_of_int bps) =
    (let c = gross * bps div 10000; f = c * 3000 div 10000
     in \<lparr>commission_amount_cents = num_of_int c, platform_fee_cents = num_of_int f,
         publisher_amount_cents = num_of_int (c - f)\<rparr>)"
proof -
  define p c f where "p = gross * bps" and "c = p div 10000" and "f = c * 3000 div 10000"
  have p: "0 \<le> p" "p < 2 ^ 53" using assms by (simp_all add: p_def)
  have c: "0 \<le> c" "c * 3000 < 2 ^ 53" using p by (simp_all add: c_def)
  have f: "0 \<le> f" "f \<le> c" using c(1) by (simp_all add: f_def)
  have 1: "math_floor (num_div (num_mul (num_of_int gross) (num_of_int bps)) BASIS_POINTS_DIVISOR) = num_of_int c"
    using num_mul_int [of gross bps] floor_num_div [OF p] p by (simp add: p_def c_def del: num_mul.simps num_div.simps)
  have "num_mul (num_of_int c) PLATFORM_FEE_SHARE_BPS = num_of_int (c * 3000)"
    using num_mul_int [of c 3000] c by (simp add: PLATFORM_FEE_SHARE_BPS_def)
  then have 2: "math_floor (num_div (num_mul (num_of_int c) PLATFORM_FEE_SHARE_BPS) BASIS_POINTS_DIVISOR) = num_of_int f"
    using floor_num_div [of "c * 3000"] c by (simp add: f_def del: num_mul.simps num_div.simps)
  have 3: "num_sub (num_of_int c) (num_of_int f) = num_of_int (c - f)"
    using c f by (intro num_sub_int) simp
  show ?thesis
    unfolding calculateCommission_def Let_def 1 2 3 by (simp add: p_def c_def f_def)
qed

section \<open>Properties\<close>

text \<open>C24: The signed form identifies what is signed: two objects whose seven signed fields are
  carried exactly have the same canonical text if and only if they agree on all seven fields,
  whatever else they carry.\<close>

theorem canonical_form_injective:
  assumes "signable kvs" and "signable kvs'"
  shows "canonicalizeForSigning (JObj kvs) = canonicalizeForSigning (JObj kvs') \<longleftrightarrow>
     list_all (\<lambda>k. own kvs k = own kvs' k) [''assertion_id'', ''publisher_id'', ''product_id'',
       ''search_request_id'', ''issued_at'', ''expires_at'', ''commission_bps'']"
proof -
  have "list_all (\<lambda>k. own kvs k = own kvs' k) signed_fields \<longleftrightarrow>
      canonicalizeForSigning (JObj kvs) = canonicalizeForSigning (JObj kvs')"
  proof
    assume "list_all (\<lambda>k. own kvs k = own kvs' k) signed_fields"
    then have "map (\<lambda>k. (k, own kvs k)) signed_fields = map (\<lambda>k. (k, own kvs' k)) signed_fields"
      by (simp add: list_all_iff)
    then show "canonicalizeForSigning (JObj kvs) = canonicalizeForSigning (JObj kvs')"
      by (simp only: canonicalize_Obj)
  qed (use canonical_determines_fields [OF assms] in \<open>simp add: list_all_iff\<close>)
  then show ?thesis by (simp only: signed_fields_def)
qed

definition sample_fields :: "string \<Rightarrow> (string \<times> js) list" where
  "sample_fields publisher =
     [(''assertion_id'', JStr ''a1''), (''publisher_id'', JStr publisher), (''product_id'', JStr ''d1''),
      (''search_request_id'', JStr ''s1''), (''issued_at'', JStr ''2026-07-30T12:00:00Z''),
      (''expires_at'', JStr ''2026-07-30T13:00:00Z''), (''commission_bps'', jint 750)]"

lemma sample_fields_signable: "signable (sample_fields ''p1'')" "signable (sample_fields ''p2'')"
  unfolding signable_def by code_simp+

lemma canonical_form_injective_witness:
  "canonicalizeForSigning (JObj (sample_fields ''p1'')) = canonicalizeForSigning (JObj (sample_fields ''p2'')) \<longleftrightarrow>
     list_all (\<lambda>k. own (sample_fields ''p1'') k = own (sample_fields ''p2'') k) [''assertion_id'', ''publisher_id'',
       ''product_id'', ''search_request_id'', ''issued_at'', ''expires_at'', ''commission_bps'']"
  by (rule canonical_form_injective [OF sample_fields_signable])

end
