(* ===== verification/Verify.thy ===== *)
theory Verify
  imports Assertion
begin

text \<open>
  \<open>packages/types/src/verify.ts\<close>: the verifier the gateway and the merchant share.
  \<open>crypto.subtle.verify\<close> for Ed25519 belongs to the platform and is the parameter
  \<open>ed25519 key signature payload\<close>; an imported key is its raw bytes.  The locale
  \<open>assertion_verifier\<close> is what the two services rely on: acceptance means an authentic
  assertion before its deadline.  It is interpreted on \<open>verifyAssertion\<close>.
\<close>

type_synonym crypto_key = bytes
type_synonym ed25519_check = "crypto_key \<Rightarrow> bytes \<Rightarrow> bytes \<Rightarrow> bool"

definition ED25519_PUBLIC_KEY_BYTES :: nat where
  "ED25519_PUBLIC_KEY_BYTES = 32"

definition ED25519_SIGNATURE_BYTES :: nat where
  "ED25519_SIGNATURE_BYTES = 64"

text \<open>\<open>atob\<close>, then a loop that copies the character codes into a byte array.\<close>

definition base64ToBytes :: "string \<Rightarrow> bytes result" where
  "base64ToBytes encoded = base64_bytes encoded"

definition importVerificationKey :: "string \<Rightarrow> crypto_key result" where
  "importVerificationKey base64Key =
     and_then (base64ToBytes (trim base64Key)) (\<lambda>raw.
       if length raw \<noteq> ED25519_PUBLIC_KEY_BYTES
       then Inl (Plain_error (''public key holds '' @ nat_text (length raw) @ '' bytes, expected '' @
              nat_text ED25519_PUBLIC_KEY_BYTES))
       else Inr raw)"

definition verifyAssertion ::
    "ed25519_check \<Rightarrow> (string \<Rightarrow> int option) \<Rightarrow> js \<Rightarrow> crypto_key \<Rightarrow> int \<Rightarrow> unit result" where
  "verifyAssertion ed25519 legacy a key now =
     and_then (and_then (get a ''signature'') (as_string_for ''assertion.signature'' ''startsWith'')) (\<lambda>sig.
       if \<not> starts_with SIGNATURE_PREFIX sig
       then Inl (Assertion_verification_error Malformed_signature
              (''signature missing the '' @ SIGNATURE_PREFIX @ '' prefix''))
       else
         case base64ToBytes (drop (length SIGNATURE_PREFIX) sig) of
           Inl _ \<Rightarrow> Inl (Assertion_verification_error Malformed_signature ''signature is not valid base64'')
         | Inr s \<Rightarrow>
             if length s \<noteq> ED25519_SIGNATURE_BYTES
             then Inl (Assertion_verification_error Malformed_signature
                    (''signature holds '' @ nat_text (length s) @ '' bytes, expected '' @
                     nat_text ED25519_SIGNATURE_BYTES))
             else
               and_then (canonicalizeForSigning a) (\<lambda>canonical.
                 if \<not> ed25519 key s (utf8_encode canonical)
                 then Inl (Assertion_verification_error Invalid_signature
                        ''signature does not verify against the public key'')
                 else
                   and_then (get a ''expires_at'') (\<lambda>v.
                     case date_parse legacy (to_text v) of
                       None \<Rightarrow> Inl (Assertion_verification_error Malformed_signature
                         (''expires_at is not a parseable timestamp: '' @ to_text v))
                     | Some expires \<Rightarrow>
                         if now \<ge> expires
                         then Inl (Assertion_verification_error Expired
                                (''assertion expired at '' @ to_text v))
                         else Inr ())))"

section \<open>The contract\<close>

locale assertion_verifier =
  fixes verify :: "js \<Rightarrow> int \<Rightarrow> unit result"
    and authentic :: "js \<Rightarrow> bool" and deadline :: "js \<Rightarrow> int option"
  assumes accepts_iff: "verify a now = Inr () \<longleftrightarrow> authentic a \<and> (\<exists>t. deadline a = Some t \<and> now < t)"
    and expired_iff: "(\<exists>m. verify a now = Inl (Assertion_verification_error Expired m)) \<longleftrightarrow>
        authentic a \<and> (\<exists>t. deadline a = Some t \<and> t \<le> now)"
    and invalid_not_authentic:
      "verify a now = Inl (Assertion_verification_error Invalid_signature m) \<Longrightarrow> \<not> authentic a"
begin

lemma accepted_authentic: "verify a now = Inr () \<Longrightarrow> authentic a"
  by (simp add: accepts_iff)

lemma accepted_earlier: "verify a now = Inr () \<Longrightarrow> now' \<le> now \<Longrightarrow> verify a now' = Inr ()"
  by (auto simp: accepts_iff)

lemma not_accepted_after:
  "deadline a = Some t \<Longrightarrow> t \<le> now \<Longrightarrow> verify a now \<noteq> Inr ()"
  by (auto simp: accepts_iff)

lemma accepted_then_expires:
  assumes "verify a now = Inr ()"
  shows "\<exists>t > now. \<forall>n. (verify a n = Inr () \<longleftrightarrow> n < t) \<and>
    ((\<exists>m. verify a n = Inl (Assertion_verification_error Expired m)) \<longleftrightarrow> t \<le> n)"
proof -
  from assms obtain t where "authentic a" "deadline a = Some t" "now < t"
    by (auto simp: accepts_iff)
  then show ?thesis by (intro exI [where x = t]) (simp add: accepts_iff expired_iff)
qed

lemma inauthentic_rejected: "\<not> authentic a \<Longrightarrow> \<exists>e. verify a now = Inl e"
  using accepts_iff [of a now] by (cases "verify a now") auto

end

section \<open>What the verifier establishes\<close>

text \<open>The signature bytes, when the field holds a prefixed base64 text of 64 bytes.\<close>

definition signature_bytes :: "js \<Rightarrow> bytes option" where
  "signature_bytes a =
     (case get a ''signature'' of
        Inr (JStr sig) \<Rightarrow>
          if starts_with SIGNATURE_PREFIX sig
          then (case base64ToBytes (drop (length SIGNATURE_PREFIX) sig) of
                  Inr s \<Rightarrow> if length s = ED25519_SIGNATURE_BYTES then Some s else None
                | Inl _ \<Rightarrow> None)
          else None
      | _ \<Rightarrow> None)"

definition authentic :: "ed25519_check \<Rightarrow> crypto_key \<Rightarrow> js \<Rightarrow> bool" where
  "authentic ed25519 key a \<longleftrightarrow>
     (\<exists>s c. signature_bytes a = Some s \<and> canonicalizeForSigning a = Inr c \<and> ed25519 key s (utf8_encode c))"

definition deadline :: "(string \<Rightarrow> int option) \<Rightarrow> js \<Rightarrow> int option" where
  "deadline legacy a =
     (case get a ''expires_at'' of Inl _ \<Rightarrow> None | Inr v \<Rightarrow> date_parse legacy (to_text v))"

lemma verify_no_bytes:
  "signature_bytes a = None \<Longrightarrow>
     (\<exists>m. verifyAssertion ed legacy a key now = Inl (Assertion_verification_error Malformed_signature m)) \<or>
     (\<exists>m. verifyAssertion ed legacy a key now = Inl (Type_error m))"
  by (cases "get a ''signature''"; cases a)
    (auto simp: signature_bytes_def verifyAssertion_def cannot_read_def split: js.splits if_splits sum.splits
       dest: as_string_for_Inl [OF sym])

lemma verify_with_bytes:
  "signature_bytes a = Some s \<Longrightarrow>
     verifyAssertion ed legacy a key now =
       and_then (canonicalizeForSigning a) (\<lambda>c.
         if \<not> ed key s (utf8_encode c)
         then Inl (Assertion_verification_error Invalid_signature ''signature does not verify against the public key'')
         else and_then (get a ''expires_at'') (\<lambda>v.
           case date_parse legacy (to_text v) of
             None \<Rightarrow> Inl (Assertion_verification_error Malformed_signature
               (''expires_at is not a parseable timestamp: '' @ to_text v))
           | Some t \<Rightarrow> if now \<ge> t then Inl (Assertion_verification_error Expired (''assertion expired at '' @ to_text v))
                     else Inr ()))"
  by (auto simp: signature_bytes_def verifyAssertion_def split: sum.splits js.splits if_splits)

lemma signature_bytes_object: "signature_bytes a = Some s \<Longrightarrow> \<exists>kvs. a = JObj kvs"
  by (cases a) (auto simp: signature_bytes_def)

lemma verify_cases:
  obtains (no_bytes) "signature_bytes a = None"
    | (bytes) kvs s c where "a = JObj kvs" "signature_bytes a = Some s" "canonicalizeForSigning a = Inr c"
proof (cases "signature_bytes a")
  case (Some s)
  then obtain kvs where "a = JObj kvs" using signature_bytes_object by blast
  then show thesis using bytes Some by (simp add: canonicalize_Obj)
qed (rule no_bytes)

interpretation verifier: assertion_verifier
  "\<lambda>a now. verifyAssertion ed legacy a key now" "authentic ed key" "deadline legacy"
proof
  fix a now m
  show "verifyAssertion ed legacy a key now = Inr () \<longleftrightarrow>
      authentic ed key a \<and> (\<exists>t. deadline legacy a = Some t \<and> now < t)"
  proof (cases a rule: verify_cases)
    case no_bytes
    then show ?thesis using verify_no_bytes [OF no_bytes, of ed legacy key now] by (auto simp: authentic_def)
  next
    case (bytes kvs s c)
    then show ?thesis
      by (auto simp: verify_with_bytes authentic_def deadline_def split: option.splits)
  qed
  show "(\<exists>m. verifyAssertion ed legacy a key now = Inl (Assertion_verification_error Expired m)) \<longleftrightarrow>
      authentic ed key a \<and> (\<exists>t. deadline legacy a = Some t \<and> t \<le> now)"
  proof (cases a rule: verify_cases)
    case no_bytes
    then show ?thesis using verify_no_bytes [OF no_bytes, of ed legacy key now] by (auto simp: authentic_def)
  next
    case (bytes kvs s c)
    then show ?thesis
      by (auto simp: verify_with_bytes authentic_def deadline_def split: option.splits)
  qed
  show "\<not> authentic ed key a"
    if "verifyAssertion ed legacy a key now = Inl (Assertion_verification_error Invalid_signature m)"
  proof (cases a rule: verify_cases)
    case (bytes kvs s c)
    then show ?thesis using that
      by (auto simp: verify_with_bytes authentic_def split: option.splits if_splits)
  qed (simp add: authentic_def)
qed

text \<open>The reason, as a function of the assertion and the clock, once the field shapes are right.\<close>

lemma verify_result:
  assumes "signature_bytes a = Some s" and "canonicalizeForSigning a = Inr c"
  shows "verifyAssertion ed legacy a key now =
    (if \<not> ed key s (utf8_encode c)
     then Inl (Assertion_verification_error Invalid_signature ''signature does not verify against the public key'')
     else case deadline legacy a of
       None \<Rightarrow> Inl (Assertion_verification_error Malformed_signature
         (''expires_at is not a parseable timestamp: '' @ to_text (get_opt a ''expires_at'')))
     | Some t \<Rightarrow> if t \<le> now
         then Inl (Assertion_verification_error Expired (''assertion expired at '' @ to_text (get_opt a ''expires_at'')))
         else Inr ())"
proof -
  obtain kvs where "a = JObj kvs" using signature_bytes_object [OF assms(1)] by blast
  then show ?thesis
    using assms by (simp add: verify_with_bytes deadline_def get_opt_def split: option.splits)
qed

lemma typed_verify_no_throw:
  "\<exists>r. verifyAssertion ed legacy (assertion_js a) key now = Inr () \<or>
     (\<exists>m. verifyAssertion ed legacy (assertion_js a) key now = Inl (Assertion_verification_error r m))"
proof (cases "assertion_js a" rule: verify_cases)
  case no_bytes
  then show ?thesis
    by (auto simp: signature_bytes_def verifyAssertion_def assertion_js_def split: sum.splits if_splits)
next
  case (bytes kvs s c)
  then show ?thesis by (auto simp: verify_result split: option.splits)
qed

text \<open>A signature for one payload verifies no other.\<close>

lemma tampered_rejected:
  assumes "signature_bytes (JObj kvs) = Some s" and "canonicalizeForSigning (JObj kvs) = Inr c"
    and "signable kvs" and "signable kvs'" and "own kvs' ''signature'' = own kvs ''signature''"
    and "k \<in> set signed_fields" and "own kvs' k \<noteq> own kvs k"
    and only: "\<And>p. ed key s p \<Longrightarrow> p = utf8_encode c"
  shows "verifyAssertion ed legacy (JObj kvs') key now = Inl (Assertion_verification_error Invalid_signature
     ''signature does not verify against the public key'')"
proof -
  have bytes: "signature_bytes (JObj kvs') = Some s"
    using assms(1,5) by (simp add: signature_bytes_def)
  obtain c' where c': "canonicalizeForSigning (JObj kvs') = Inr c'" by (simp add: canonicalize_Obj)
  have ne: "c' \<noteq> c"
    using canonical_determines_fields [OF assms(3,4) _ assms(6)] assms(2,7) c' by auto
  have wf: "utf8_wf c" "utf8_wf c'"
    using plain_text_stringify [OF canonical_ok [OF assms(3)]] plain_text_stringify [OF canonical_ok [OF assms(4)]]
      assms(2) c' by (auto simp: canonicalize_Obj plain_text_def)
  then have "\<not> ed key s (utf8_encode c')" using only [of "utf8_encode c'"] ne by auto
  then show ?thesis using verify_result [OF bytes c'] by simp
qed

section \<open>Properties\<close>

text \<open>C19: The verifier accepts exactly the authentic assertions before their deadline: a prefixed
  base64 signature of 64 bytes that verifies over the canonical form, and a parseable expiry later
  than the clock.\<close>

theorem assertion_accepted_iff:
  "verifyAssertion ed legacy a key now = Inr () \<longleftrightarrow>
     authentic ed key a \<and> (\<exists>t. deadline legacy a = Some t \<and> now < t)"
  by (rule verifier.accepts_iff)

text \<open>C20: Changing any signed field is detected, and before the expiry is looked at: when the
  signature verifies for no payload but the original's, an object with the same signature text that
  differs in a signed field is refused as \<open>invalid_signature\<close> at every time.\<close>

theorem tampered_assertion_rejected:
  assumes "signature_bytes (JObj kvs) = Some s" and "canonicalizeForSigning (JObj kvs) = Inr c"
    and "signable kvs" and "signable kvs'" and "own kvs' ''signature'' = own kvs ''signature''"
    and "k \<in> set signed_fields" and "own kvs' k \<noteq> own kvs k"
    and only: "\<And>p. ed key s p \<Longrightarrow> p = utf8_encode c"
  shows "\<exists>m. verifyAssertion ed legacy (JObj kvs') key now = Inl (Assertion_verification_error Invalid_signature m)"
  using tampered_rejected [OF assms] by blast

definition signed_sample :: "string \<Rightarrow> (string \<times> js) list" where
  "signed_sample publisher =
     (''signature'', JStr (SIGNATURE_PREFIX @ btoa (replicate 64 (chr 7)))) # sample_fields publisher"

lemma signed_sample_signable: "signable (signed_sample p) = signable (sample_fields p)"
  by (simp add: signable_def signed_sample_def signed_fields_def)

definition sample_canonical :: string where
  "sample_canonical = (case canonicalizeForSigning (JObj (signed_sample ''p1'')) of Inl _ \<Rightarrow> [] | Inr c \<Rightarrow> c)"

lemma tampered_assertion_rejected_witness:
  "\<exists>m. verifyAssertion (\<lambda>k s p. p = utf8_encode sample_canonical) (\<lambda>_. None) (JObj (signed_sample ''p2''))
     (replicate 32 (chr 9)) 0 = Inl (Assertion_verification_error Invalid_signature m)"
proof (rule tampered_assertion_rejected [where kvs = "signed_sample ''p1''" and k = "''publisher_id''"])
  show "signature_bytes (JObj (signed_sample ''p1'')) = Some (replicate 64 (chr 7))" by code_simp
  show "canonicalizeForSigning (JObj (signed_sample ''p1'')) = Inr sample_canonical"
    by (simp add: sample_canonical_def canonicalize_Obj)
  show "signable (signed_sample ''p1'')" "signable (signed_sample ''p2'')"
    by (simp_all add: signed_sample_signable sample_fields_signable)
qed (simp_all add: signed_sample_def sample_fields_def signed_fields_def)

text \<open>Acceptance is stable up to the deadline and ends there for good: an accepted assertion was
  acceptable at every earlier time, stays so until its expiry, and from that instant on is refused as
  \<open>expired\<close>.\<close>

theorem accepted_until_deadline:
  assumes "verifyAssertion ed legacy a key now = Inr ()"
  shows "\<exists>t > now. \<forall>n. (verifyAssertion ed legacy a key n = Inr () \<longleftrightarrow> n < t) \<and>
    ((\<exists>m. verifyAssertion ed legacy a key n = Inl (Assertion_verification_error Expired m)) \<longleftrightarrow> t \<le> n)"
  by (rule verifier.accepted_then_expires [OF assms])

lemma accepted_until_deadline_witness:
  "\<exists>t > 0. \<forall>n.
     (verifyAssertion (\<lambda>k s p. True) (\<lambda>_. None) (JObj (signed_sample ''p1'')) [] n = Inr () \<longleftrightarrow> n < t) \<and>
     ((\<exists>m. verifyAssertion (\<lambda>k s p. True) (\<lambda>_. None) (JObj (signed_sample ''p1'')) [] n =
        Inl (Assertion_verification_error Expired m)) \<longleftrightarrow> t \<le> n)"
  by (rule accepted_until_deadline) code_simp

end
