(* ===== verification/Gateway.thy ===== *)
theory Gateway
  imports Http Verify
begin

text \<open>
  \<open>gateway/src/handler.ts\<close>: the edge proxy.  Its state is the cached verification key and the
  reports it sent without awaiting them, over a world \<open>'w\<close> that \<open>fetch\<close> acts on.  A handler is
  a state transformer whose steps come in the order of the code's awaits.
\<close>

record gateway_env =
  SEARCH_URL :: string
  MERCHANT_URL :: string
  SETTLEMENT_URL :: "string option"
  ATTRIBUTION_PUBLIC_KEY :: string

definition ROUTE_Search :: string where
  "ROUTE_Search = ''/search''"

definition ROUTE_Purchase :: string where
  "ROUTE_Purchase = ''/purchase''"

definition ROUTE_GatewayHealth :: string where
  "ROUTE_GatewayHealth = ''/healthz''"

lemmas gateway_routes = ROUTE_Search_def ROUTE_Purchase_def ROUTE_GatewayHealth_def

definition ASSERTION_HEADER :: string where
  "ASSERTION_HEADER = ''x-attribution-assertion''"

definition PAYMENT_HEADER :: string where
  "PAYMENT_HEADER = ''payment-signature''"

definition JSON_HEADERS :: headers where
  "JSON_HEADERS = [(''content-type'', ''application/json'')]"

definition STRIPPED_REQUEST_HEADERS :: "string list" where
  "STRIPPED_REQUEST_HEADERS = [''host'', ''content-length'', ''connection'']"

definition GATEWAY_MAX_BODY_BYTES :: nat where
  "GATEWAY_MAX_BODY_BYTES = 256 * 1024"

definition UNKNOWN_PUBLISHER :: string where
  "UNKNOWN_PUBLISHER = ''unknown''"

text \<open>The incoming request: its body may be absent and arrives in chunks.\<close>

record gateway_request =
  gr_method :: string
  gr_url :: string
  gr_headers :: headers
  gr_body :: "body_stream option"

definition gateway_json :: "js \<Rightarrow> nat \<Rightarrow> http_response" where
  "gateway_json body status =
     \<lparr>rs_status = status, rs_headers = JSON_HEADERS, rs_body = json_body body\<rparr>"

definition gateway_decodeHeaderJson :: "string \<Rightarrow> js result" where
  "gateway_decodeHeaderJson encoded =
     and_then (base64_bytes encoded) (\<lambda>bytes. json_parse (text_decode bytes))"

section \<open>Reading the body\<close>

text \<open>The read loop: \<open>n\<close> bytes counted and \<open>acc\<close> chunks kept so far.\<close>

fun read_chunks :: "exn option \<Rightarrow> nat \<Rightarrow> bytes list \<Rightarrow> bytes list \<Rightarrow> bytes option result" where
  "read_chunks err n acc [] =
     (case err of Some e \<Rightarrow> Inl e | None \<Rightarrow> Inr (Some (concat acc)))"
| "read_chunks err n acc (c # cs) =
     (if n + length c > GATEWAY_MAX_BODY_BYTES then Inr None
      else read_chunks err (n + length c) (acc @ [c]) cs)"

definition declared_too_large :: "headers \<Rightarrow> bool" where
  "declared_too_large hs =
     (case header_get ''content-length'' hs of
        None \<Rightarrow> False
      | Some declared \<Rightarrow> num_less (num_of_int (int GATEWAY_MAX_BODY_BYTES)) (string_to_number declared))"

definition readBoundedText :: "gateway_request \<Rightarrow> string option result" where
  "readBoundedText request =
     (if declared_too_large (gr_headers request) then Inr None
      else
        case gr_body request of
          None \<Rightarrow> Inr (Some [])
        | Some stream \<Rightarrow>
            and_then (read_chunks (broken stream) 0 [] (chunks stream))
              (\<lambda>r. Inr (map_option text_decode r)))"

section \<open>Forwarding\<close>

definition forwardableHeaders :: "headers \<Rightarrow> headers" where
  "forwardableHeaders source =
     foldl (\<lambda>hs (name, v). if to_lower name \<in> set STRIPPED_REQUEST_HEADERS then hs else header_set name v hs)
       [] (header_entries source)"

record 'w gateway =
  outside :: 'w
  cachedKey :: "crypto_key option"
  cachedKeyMaterial :: "string option"
  reports :: "http_request list"

text \<open>An awaited \<open>fetch\<close> acts on the world inside the gateway's state.\<close>

definition await_fetch :: "'w fetch \<Rightarrow> http_request \<Rightarrow> ('w gateway, exn, http_response) io" where
  "await_fetch fetch rq = (\<lambda>g. case fetch rq (outside g) of (r, w) \<Rightarrow> (r, g\<lparr>outside := w\<rparr>))"

definition forwarded :: "gateway_request \<Rightarrow> string \<Rightarrow> string \<Rightarrow> http_request" where
  "forwarded request targetUrl body =
     \<lparr>rq_method = gr_method request, rq_url = targetUrl,
      rq_headers = forwardableHeaders (gr_headers request), rq_body = utf8_encode body\<rparr>"

definition proxy :: "'w fetch \<Rightarrow> gateway_request \<Rightarrow> string \<Rightarrow> string \<Rightarrow> ('w gateway, exn, http_response) io" where
  "proxy fetch request targetUrl body =
     bind_io (await_fetch fetch (forwarded request targetUrl body)) (\<lambda>response.
       ret \<lparr>rs_status = rs_status response, rs_headers = rs_headers response, rs_body = rs_body response\<rparr>)"

section \<open>The key cache\<close>

definition verificationKey :: "gateway_env \<Rightarrow> ('w gateway, exn, crypto_key) io" where
  "verificationKey env = (\<lambda>g.
     case (cachedKey g, cachedKeyMaterial g = Some (ATTRIBUTION_PUBLIC_KEY env)) of
       (Some k, True) \<Rightarrow> (Inr k, g)
     | _ \<Rightarrow>
         case importVerificationKey (ATTRIBUTION_PUBLIC_KEY env) of
           Inl e \<Rightarrow> (Inl e, g)
         | Inr k \<Rightarrow>
             (Inr k, g\<lparr>cachedKey := Some k, cachedKeyMaterial := Some (ATTRIBUTION_PUBLIC_KEY env)\<rparr>))"

definition resetKeyCache :: "'w gateway \<Rightarrow> 'w gateway" where
  "resetKeyCache g = g\<lparr>cachedKey := None, cachedKeyMaterial := None\<rparr>"

section \<open>Reporting\<close>

definition rejection_report :: "js \<Rightarrow> js \<Rightarrow> string \<Rightarrow> string \<Rightarrow> js" where
  "rejection_report publisher aid reason detail =
     JObj [(''publisher_id'', publisher), (''assertion_id'', aid), (''merchant_id'', JStr []),
           (''reason'', JStr reason), (''detail'', JStr detail)]"

definition reportRejection :: "gateway_env \<Rightarrow> js \<Rightarrow> 'w gateway \<Rightarrow> 'w gateway" where
  "reportRejection env report g =
     (case SETTLEMENT_URL env of
        None \<Rightarrow> g
      | Some url \<Rightarrow>
          if url = [] then g
          else g\<lparr>reports := reports g @
            [\<lparr>rq_method = ''POST'', rq_url = strip_slashes url @ ''/rejections'',
              rq_headers = [(''content-type'', ''application/json'')], rq_body = json_body report\<rparr>]\<rparr>)"

section \<open>The handler\<close>

text \<open>\<open>!header\<close>: absent or empty.\<close>

definition given :: "string option \<Rightarrow> string option" where
  "given h = (if h = Some [] then None else h)"

text \<open>Refusing: a report, then the answer.\<close>

definition refuse ::
    "gateway_env \<Rightarrow> js \<Rightarrow> js \<Rightarrow> string \<Rightarrow> string \<Rightarrow> nat \<Rightarrow> ('w gateway, exn, http_response) io" where
  "refuse env publisher aid reason detail status = (\<lambda>g.
     (Inr (gateway_json (JObj [(''error'', JStr detail), (''reason'', JStr reason)]) status),
      reportRejection env (rejection_report publisher aid reason detail) g))"

definition paid_purchase ::
    "ed25519_check \<Rightarrow> (string \<Rightarrow> int option) \<Rightarrow> 'w fetch \<Rightarrow> gateway_env \<Rightarrow> int \<Rightarrow> gateway_request
      \<Rightarrow> string \<Rightarrow> string \<Rightarrow> ('w gateway, exn, http_response) io" where
  "paid_purchase ed25519 legacy fetch env now request body assertionHeader =
     (case gateway_decodeHeaderJson assertionHeader of
        Inl _ \<Rightarrow>
          refuse env (JStr UNKNOWN_PUBLISHER) (JStr []) ''malformed_headers''
            ''assertion header is not base64 JSON'' 400
      | Inr assertion \<Rightarrow>
          bind_io (verificationKey env) (\<lambda>key.
            case verifyAssertion ed25519 legacy assertion key now of
              Inr _ \<Rightarrow> proxy fetch request (MERCHANT_URL env @ ROUTE_Purchase) body
            | Inl (Assertion_verification_error r m) \<Rightarrow>
                refuse env (js_or (get_opt assertion ''publisher_id'') (JStr UNKNOWN_PUBLISHER))
                  (nullish (get_opt assertion ''assertion_id'') (JStr [])) (failure_text r) m 401
            | Inl e \<Rightarrow> lift (Inl e)))"

definition gateway_handle ::
    "ed25519_check \<Rightarrow> (string \<Rightarrow> int option) \<Rightarrow> 'w fetch \<Rightarrow> gateway_request \<Rightarrow> gateway_env \<Rightarrow> int
      \<Rightarrow> ('w gateway, exn, http_response) io" where
  "gateway_handle ed25519 legacy fetch request env now =
     (let pathname = url_pathname (gr_url request) in
      if gr_method request = ''GET'' \<and> pathname = ROUTE_GatewayHealth
      then ret (gateway_json (JObj [(''status'', JStr ''ok'')]) 200)
      else if gr_method request \<noteq> ''POST''
      then ret (gateway_json (JObj [(''error'', JStr ''method not allowed'')]) 405)
      else
        bind_io (lift (readBoundedText request)) (\<lambda>read.
          case read of
            None \<Rightarrow>
              ret (gateway_json
                (JObj [(''error'', JStr (''request body exceeds '' @ nat_text GATEWAY_MAX_BODY_BYTES @ '' bytes'')),
                       (''reason'', JStr ''body_too_large'')]) 413)
          | Some body \<Rightarrow>
              if pathname = ROUTE_Search then proxy fetch request (SEARCH_URL env @ ROUTE_Search) body
              else if pathname \<noteq> ROUTE_Purchase
              then ret (gateway_json (JObj [(''error'', JStr ''not found'')]) 404)
              else
                let assertionHeader = given (header_get ASSERTION_HEADER (gr_headers request));
                    paymentHeader = given (header_get PAYMENT_HEADER (gr_headers request)) in
                case paymentHeader of
                  None \<Rightarrow> proxy fetch request (MERCHANT_URL env @ ROUTE_Purchase) body
                | Some _ \<Rightarrow>
                    case assertionHeader of
                      None \<Rightarrow>
                        refuse env (JStr UNKNOWN_PUBLISHER) (JStr []) ''assertion_missing''
                          ''payment supplied without an assertion'' 400
                    | Some h \<Rightarrow> paid_purchase ed25519 legacy fetch env now request body h))"

section \<open>Reading and forwarding, in closed form\<close>

lemma read_chunks_Inr:
  "read_chunks err n acc cs = Inr (Some t) \<Longrightarrow>
     t = concat acc @ concat cs \<and> err = None \<and> (cs \<noteq> [] \<longrightarrow> n + length (concat cs) \<le> GATEWAY_MAX_BODY_BYTES)"
proof (induction err n acc cs rule: read_chunks.induct)
  case (2 err n acc c cs)
  then show ?case by (cases cs) (auto split: if_splits)
qed (auto split: option.splits)

lemma read_chunks_within:
  "n + length (concat cs) \<le> GATEWAY_MAX_BODY_BYTES \<Longrightarrow>
     read_chunks None n acc cs = Inr (Some (concat acc @ concat cs))"
  by (induction cs arbitrary: n acc) auto

lemma read_chunks_beyond:
  "n + length (concat cs) > GATEWAY_MAX_BODY_BYTES \<Longrightarrow> n \<le> GATEWAY_MAX_BODY_BYTES \<Longrightarrow>
     read_chunks err n acc cs = Inr None"
  by (induction cs arbitrary: n acc) auto

text \<open>The bytes of a body, none when it is absent.\<close>

definition body_bytes :: "gateway_request \<Rightarrow> bytes" where
  "body_bytes request = (case gr_body request of None \<Rightarrow> [] | Some s \<Rightarrow> concat (chunks s))"

definition body_broken :: "gateway_request \<Rightarrow> exn option" where
  "body_broken request = (case gr_body request of None \<Rightarrow> None | Some s \<Rightarrow> broken s)"

lemma text_decode_Nil [simp]: "text_decode [] = []"
  by (simp add: text_decode_def byte_order_mark_def starts_with_def)

lemma readBoundedText_eq:
  "readBoundedText request =
     (if declared_too_large (gr_headers request) \<or> length (body_bytes request) > GATEWAY_MAX_BODY_BYTES
      then Inr None
      else case body_broken request of
        Some e \<Rightarrow> Inl e
      | None \<Rightarrow> Inr (Some (text_decode (body_bytes request))))"
proof -
  have broken: "length (concat cs) + n \<le> GATEWAY_MAX_BODY_BYTES \<Longrightarrow> read_chunks (Some e) n acc cs = Inl e"
    for e n acc cs
    by (induction cs arbitrary: n acc) auto
  show ?thesis
    by (cases "declared_too_large (gr_headers request)")
      (auto simp: readBoundedText_def body_bytes_def body_broken_def not_less read_chunks_within read_chunks_beyond
        broken [where n = 0, simplified] GATEWAY_MAX_BODY_BYTES_def [symmetric] split: option.splits)
qed

text \<open>Forwarding drops the stripped names and keeps what every other name reads as.\<close>

definition lower_names :: "headers \<Rightarrow> bool" where
  "lower_names hs \<longleftrightarrow> (\<forall>h \<in> set hs. to_lower (fst h) = fst h)"

lemma header_get_fold:
  "header_get n (foldl (\<lambda>hs (name, v). if to_lower name \<in> set STRIPPED_REQUEST_HEADERS then hs
       else header_set name v hs) acc es) =
     (let vs = map snd (filter (\<lambda>e. to_lower (fst e) = to_lower n) es) in
      if to_lower n \<in> set STRIPPED_REQUEST_HEADERS \<or> vs = [] then header_get n acc
      else Some (header_value (last vs)))"
proof (induction es rule: rev_induct)
  case (snoc e es)
  then show ?case by (cases e) (auto simp: header_get_set Let_def)
qed simp

lemma to_lower_stripped: "n \<in> set STRIPPED_REQUEST_HEADERS \<Longrightarrow> to_lower n = n"
  by (auto simp: STRIPPED_REQUEST_HEADERS_def to_lower_def lower_char_def)

lemma header_values_empty: "header_values n hs = [] \<longleftrightarrow> to_lower n \<notin> fst ` set hs"
  by (auto simp: header_values_def filter_empty_conv image_iff)

lemma entries_of:
  assumes low: "lower_names hs" and n: "to_lower n = n" "n \<noteq> ''set-cookie''"
  shows "map snd (filter (\<lambda>e. to_lower (fst e) = n) (header_entries hs)) =
     (if header_values n hs = [] then [] else [join '', '' (header_values n hs)])"
proof -
  let ?e = "\<lambda>m. if m = ''set-cookie'' then map (Pair m) (header_values m hs)
                       else [(m, join '', '' (header_values m hs))]"
  have block: "to_lower m = m \<Longrightarrow> map snd (filter (\<lambda>e. to_lower (fst e) = n) (?e m)) =
      (if m = n then [join '', '' (header_values n hs)] else [])" for m
    using n by (auto simp: filter_empty_conv)
  have "distinct ms \<Longrightarrow> (\<forall>m \<in> set ms. to_lower m = m) \<Longrightarrow>
     map snd (filter (\<lambda>e. to_lower (fst e) = n) (concat (map ?e ms))) =
       (if n \<in> set ms then [join '', '' (header_values n hs)] else [])" for ms
    by (induction ms) (auto simp: block)
  from this [of "sort (remdups (map fst hs))"] low show ?thesis
    unfolding header_entries_def by (auto simp: header_values_empty lower_names_def n)
qed

lemma forwarded_header:
  assumes "lower_names hs" and "to_lower n \<noteq> ''set-cookie''"
  shows "header_get n (forwardableHeaders hs) =
     (if to_lower n \<in> set STRIPPED_REQUEST_HEADERS then None else map_option header_value (header_get n hs))"
proof -
  have "header_values (to_lower n) hs = header_values n hs" by (simp add: header_values_def)
  with entries_of [OF assms(1) to_lower_idem assms(2)]
  have "map snd (filter (\<lambda>e. to_lower (fst e) = to_lower n) (header_entries hs)) =
     (if header_values n hs = [] then [] else [join '', '' (header_values n hs)])" by simp
  then show ?thesis
    unfolding forwardableHeaders_def header_get_fold by (simp add: header_get_def Let_def)
qed

section \<open>The cache is transparent\<close>

definition cache_ok :: "'w gateway \<Rightarrow> bool" where
  "cache_ok g \<longleftrightarrow> (\<forall>k m. cachedKey g = Some k \<longrightarrow> cachedKeyMaterial g = Some m \<longrightarrow> importVerificationKey m = Inr k)"

lemma verificationKey_result:
  assumes "cache_ok g" and "verificationKey env g = (r, g')"
  shows "r = importVerificationKey (ATTRIBUTION_PUBLIC_KEY env)" and "cache_ok g'"
    and "outside g' = outside g" and "reports g' = reports g"
  using assms by (auto simp: verificationKey_def cache_ok_def split: option.splits sum.splits if_splits bool.splits)

lemma report_outside [simp]: "outside (reportRejection env r g) = outside g"
  by (simp add: reportRejection_def split: option.splits)

lemma report_cache [simp]: "cache_ok (reportRejection env r g) = cache_ok g"
  by (simp add: reportRejection_def cache_ok_def split: option.splits)

lemma proxy_apply:
  "proxy fetch request url body g =
     (case fetch (forwarded request url body) (outside g) of (r, w) \<Rightarrow> (r, g\<lparr>outside := w\<rparr>))"
  by (auto simp: proxy_def io_simps await_fetch_def split: prod.splits sum.splits)

lemma proxy_cache: "cache_ok g \<Longrightarrow> proxy fetch request url body g = (r, g') \<Longrightarrow> cache_ok g'"
  by (auto simp: proxy_apply cache_ok_def split: prod.splits)

section \<open>Paid purchases\<close>

definition forwards_paid :: "ed25519_check \<Rightarrow> (string \<Rightarrow> int option) \<Rightarrow> gateway_env \<Rightarrow> int \<Rightarrow> string \<Rightarrow> bool" where
  "forwards_paid ed legacy env now h \<longleftrightarrow>
     (\<exists>a k t. gateway_decodeHeaderJson h = Inr a \<and> importVerificationKey (ATTRIBUTION_PUBLIC_KEY env) = Inr k \<and>
        authentic ed k a \<and> deadline legacy a = Some t \<and> now < t)"

lemma paid_purchase_forwards:
  assumes "cache_ok g" and "forwards_paid ed legacy env now h"
  shows "\<exists>g1. outside g1 = outside g \<and> reports g1 = reports g \<and>
     paid_purchase ed legacy fetch env now request body h g =
       proxy fetch request (MERCHANT_URL env @ ROUTE_Purchase) body g1"
proof -
  from assms(2) obtain a k where a: "gateway_decodeHeaderJson h = Inr a"
    "importVerificationKey (ATTRIBUTION_PUBLIC_KEY env) = Inr k" "verifyAssertion ed legacy a k now = Inr ()"
    unfolding forwards_paid_def by (auto simp: verifier.accepts_iff)
  obtain r g1 where key: "verificationKey env g = (r, g1)" by force
  with verificationKey_result [OF assms(1) key] a show ?thesis
    by (intro exI [of _ g1]) (simp add: paid_purchase_def io_simps)
qed

lemma paid_purchase_stays:
  assumes "cache_ok g" and "\<not> forwards_paid ed legacy env now h"
    and "paid_purchase ed legacy fetch env now request body h g = (r, g')"
  shows "outside g' = outside g \<and> (\<forall>resp. r = Inr resp \<longrightarrow> rs_status resp \<in> {400, 401})"
proof (cases "gateway_decodeHeaderJson h")
  case (Inl e)
  then show ?thesis using assms(3) by (auto simp: paid_purchase_def refuse_def gateway_json_def)
next
  case (Inr a)
  obtain q g1 where key: "verificationKey env g = (q, g1)" by force
  note k = verificationKey_result [OF assms(1) key]
  show ?thesis
  proof (cases q)
    case (Inl e)
    then show ?thesis using assms(3) Inr key k by (auto simp: paid_purchase_def io_simps)
  next
    case (Inr kk)
    then have "verifyAssertion ed legacy a kk now \<noteq> Inr ()"
      using assms(2) k \<open>gateway_decodeHeaderJson h = Inr a\<close> by (auto simp: forwards_paid_def verifier.accepts_iff)
    then show ?thesis using assms(3) Inr key k \<open>gateway_decodeHeaderJson h = Inr a\<close>
      by (auto simp: paid_purchase_def io_simps refuse_def gateway_json_def split: sum.splits exn.splits)
  qed
qed

section \<open>The whole handler on a paid purchase\<close>

definition pays :: "gateway_request \<Rightarrow> bool" where
  "pays request \<longleftrightarrow> gr_method request = ''POST'' \<and> url_pathname (gr_url request) = ROUTE_Purchase \<and>
     given (header_get PAYMENT_HEADER (gr_headers request)) \<noteq> None"

lemma gateway_handle_paid:
  assumes "pays request"
  shows "gateway_handle ed legacy fetch request env now g =
    (case readBoundedText request of
       Inl e \<Rightarrow> (Inl e, g)
     | Inr None \<Rightarrow> (Inr (gateway_json
                (JObj [(''error'', JStr (''request body exceeds '' @ nat_text GATEWAY_MAX_BODY_BYTES @ '' bytes'')),
                       (''reason'', JStr ''body_too_large'')]) 413), g)
     | Inr (Some body) \<Rightarrow>
         (case given (header_get ASSERTION_HEADER (gr_headers request)) of
            None \<Rightarrow> refuse env (JStr UNKNOWN_PUBLISHER) (JStr []) ''assertion_missing''
                          ''payment supplied without an assertion'' 400 g
          | Some h \<Rightarrow> paid_purchase ed legacy fetch env now request body h g))"
  using assms
  by (auto simp: gateway_handle_def Let_def pays_def gateway_routes io_simps split: sum.splits option.splits)

lemma gateway_paid_cases:
  assumes "pays request" and "cache_ok g" and "gateway_handle ed legacy fetch request env now g = (r, g')"
  shows "outside g' = outside g \<or>
    (\<exists>h. given (header_get ASSERTION_HEADER (gr_headers request)) = Some h \<and> forwards_paid ed legacy env now h)"
  using assms(3)
  by (auto simp: gateway_handle_paid [OF assms(1)] refuse_def split: sum.splits option.splits
      dest: paid_purchase_stays [OF assms(2), THEN conjunct1])

lemma paid_purchase_cache:
  assumes "cache_ok g" and "paid_purchase ed legacy fetch env now request body h g = (r, g')"
  shows "cache_ok g'"
proof (cases "forwards_paid ed legacy env now h")
  case True
  obtain q g1 where key: "verificationKey env g = (q, g1)" by force
  from verificationKey_result [OF assms(1) this] assms(2) True show ?thesis
    by (auto simp: paid_purchase_def io_simps key forwards_paid_def refuse_def intro: proxy_cache
        split: sum.splits exn.splits)
next
  case False
  obtain q g1 where key: "verificationKey env g = (q, g1)" by force
  from verificationKey_result [OF assms(1) this] assms show ?thesis
    by (auto simp: paid_purchase_def io_simps key refuse_def intro: proxy_cache
        split: sum.splits exn.splits)
qed

lemma handle_cache:
  assumes "cache_ok g" and "gateway_handle ed legacy fetch request env now g = (r, g')"
  shows "cache_ok g'"
  using assms
  by (auto simp: gateway_handle_def Let_def io_simps refuse_def intro: proxy_cache paid_purchase_cache
      split: if_splits sum.splits option.splits)

text \<open>Why the gateway refuses a paid purchase, and what it then says of it: the publisher, the assertion, the reason, the
  detail and the status.\<close>

inductive refusal ::
    "ed25519_check \<Rightarrow> (string \<Rightarrow> int option) \<Rightarrow> gateway_env \<Rightarrow> int \<Rightarrow> string option \<Rightarrow> js \<Rightarrow> js \<Rightarrow> string \<Rightarrow> string \<Rightarrow> nat \<Rightarrow> bool"
  for ed legacy env now where
  no_assertion: "refusal ed legacy env now None (JStr ''unknown'') (JStr [])
    ''assertion_missing'' ''payment supplied without an assertion'' 400"
| unreadable: "gateway_decodeHeaderJson h = Inl e \<Longrightarrow>
    refusal ed legacy env now (Some h) (JStr ''unknown'') (JStr []) ''malformed_headers'' ''assertion header is not base64 JSON'' 400"
| unverified: "gateway_decodeHeaderJson h = Inr a \<Longrightarrow> importVerificationKey (ATTRIBUTION_PUBLIC_KEY env) = Inr key \<Longrightarrow>
    verifyAssertion ed legacy a key now = Inl (Assertion_verification_error r m) \<Longrightarrow>
    publisher = (if truthy (get_opt a ''publisher_id'') then get_opt a ''publisher_id'' else JStr ''unknown'') \<Longrightarrow>
    aid = (if get_opt a ''assertion_id'' \<in> {JNull, JUndef} then JStr [] else get_opt a ''assertion_id'') \<Longrightarrow>
    refusal ed legacy env now (Some h) publisher aid (failure_text r) m 401"

text \<open>The state after a refusal: one report more, where a settlement service is configured.\<close>

definition refused_with_report :: "gateway_env \<Rightarrow> js \<Rightarrow> js \<Rightarrow> string \<Rightarrow> string \<Rightarrow> nat \<Rightarrow> 'w gateway \<Rightarrow> http_response \<Rightarrow> 'w gateway \<Rightarrow> bool" where
  "refused_with_report env publisher aid reason detail status g resp g' \<longleftrightarrow>
     resp = gateway_json (JObj [(''error'', JStr detail), (''reason'', JStr reason)]) status \<and>
     reports g' = reports g @
       (case SETTLEMENT_URL env of
          None \<Rightarrow> []
        | Some url \<Rightarrow> if url = [] then [] else
            [\<lparr>rq_method = ''POST'', rq_url = strip_slashes url @ ''/rejections'', rq_headers = [(''content-type'', ''application/json'')],
              rq_body = json_body (JObj [(''publisher_id'', publisher), (''assertion_id'', aid), (''merchant_id'', JStr []),
                (''reason'', JStr reason), (''detail'', JStr detail)])\<rparr>])"

lemma refuse_reports:
  assumes "refuse env publisher aid reason detail status g = (Inr resp, g')"
  shows "refused_with_report env publisher aid reason detail status g resp g'"
  using assms
  by (auto simp: refuse_def refused_with_report_def reportRejection_def rejection_report_def split: option.splits)

lemma paid_purchase_refused:
  assumes "cache_ok g" and "\<not> forwards_paid ed legacy env now h"
    and "paid_purchase ed legacy fetch env now request body h g = (Inr resp, g')"
  shows "\<exists>publisher aid reason detail status. refusal ed legacy env now (Some h) publisher aid reason detail status \<and>
     refused_with_report env publisher aid reason detail status g resp g'"
proof (cases "gateway_decodeHeaderJson h")
  case (Inl e)
  then have "refuse env (JStr UNKNOWN_PUBLISHER) (JStr []) ''malformed_headers'' ''assertion header is not base64 JSON'' 400 g = (Inr resp, g')"
    using assms(3) by (simp add: paid_purchase_def)
  from refuse_reports [OF this] unreadable [OF Inl] show ?thesis by (fastforce simp: UNKNOWN_PUBLISHER_def)
next
  case a: (Inr a)
  obtain q g1 where key: "verificationKey env g = (q, g1)" by force
  note k = verificationKey_result [OF assms(1) key]
  obtain key where q: "q = Inr key" "importVerificationKey (ATTRIBUTION_PUBLIC_KEY env) = Inr key"
  proof (cases q)
    case (Inl e)
    then have "paid_purchase ed legacy fetch env now request body h g = (Inl e, g1)"
      using a key by (simp add: paid_purchase_def io_simps)
    with assms(3) that show ?thesis by simp
  next
    case (Inr x)
    show ?thesis by (rule that [OF Inr]) (use k(1) Inr in simp)
  qed
  then have "verifyAssertion ed legacy a key now \<noteq> Inr ()" using assms(2) a by (auto simp: forwards_paid_def verifier.accepts_iff)
  then obtain r m where v: "verifyAssertion ed legacy a key now = Inl (Assertion_verification_error r m)"
    and run: "refuse env (js_or (get_opt a ''publisher_id'') (JStr UNKNOWN_PUBLISHER)) (nullish (get_opt a ''assertion_id'') (JStr []))
      (failure_text r) m 401 g1 = (Inr resp, g')"
    using assms(3) a key q by (auto simp: paid_purchase_def io_simps split: sum.splits exn.splits)
  have said: "js_or (get_opt a ''publisher_id'') (JStr UNKNOWN_PUBLISHER) =
      (if truthy (get_opt a ''publisher_id'') then get_opt a ''publisher_id'' else JStr ''unknown'')"
    "nullish (get_opt a ''assertion_id'') (JStr []) =
      (if get_opt a ''assertion_id'' \<in> {JNull, JUndef} then JStr [] else get_opt a ''assertion_id'')"
    by (auto simp: js_or_def nullish_def UNKNOWN_PUBLISHER_def)
  have "refused_with_report env (if truthy (get_opt a ''publisher_id'') then get_opt a ''publisher_id'' else JStr ''unknown'')
      (if get_opt a ''assertion_id'' \<in> {JNull, JUndef} then JStr [] else get_opt a ''assertion_id'') (failure_text r) m 401 g resp g'"
    using refuse_reports [OF run] k(4) unfolding said by (simp add: refused_with_report_def)
  with unverified [OF a q(2) v refl refl] show ?thesis by blast
qed

section \<open>A concrete purchase\<close>

definition sample_assertion :: js where
  "sample_assertion = JObj
     [(''assertion_id'', JStr ''a-1''), (''publisher_id'', JStr ''pub''), (''expires_at'', JStr ''2030-01-01T00:00:00Z''),
      (''signature'', JStr (SIGNATURE_PREFIX @ btoa (replicate 64 (chr 7))))]"

definition sample_env :: gateway_env where
  "sample_env = \<lparr>SEARCH_URL = ''http://s'', MERCHANT_URL = ''http://m'', SETTLEMENT_URL = Some ''http://l/'',
     ATTRIBUTION_PUBLIC_KEY = btoa (replicate 32 (chr 9))\<rparr>"

definition sample_request :: gateway_request where
  "sample_request = \<lparr>gr_method = ''POST'', gr_url = ''http://g/purchase'',
     gr_headers = [(''host'', ''g''), (ASSERTION_HEADER, btoa (json_body sample_assertion)),
       (PAYMENT_HEADER, ''p'')],
     gr_body = Some \<lparr>chunks = [''{}''], broken = None\<rparr>\<rparr>"

definition idle :: "nat gateway" where
  "idle = \<lparr>outside = 0, cachedKey = None, cachedKeyMaterial = None, reports = []\<rparr>"

text \<open>An origin that counts its calls and answers 200.\<close>

definition counting_fetch :: "nat fetch" where
  "counting_fetch rq n = (Inr \<lparr>rs_status = 200, rs_headers = [], rs_body = rq_body rq\<rparr>, Suc n)"

lemma sample_pays: "pays sample_request"
  by code_simp

lemma sample_assertion_header:
  "given (header_get ASSERTION_HEADER (gr_headers sample_request)) = Some (btoa (json_body sample_assertion))"
  by code_simp

lemma sample_decodes: "gateway_decodeHeaderJson (btoa (json_body sample_assertion)) = Inr sample_assertion"
  by code_simp

lemma sample_key: "importVerificationKey (ATTRIBUTION_PUBLIC_KEY sample_env) = Inr (replicate 32 (chr 9))"
  by code_simp

lemma sample_forwarded:
  "gateway_handle (\<lambda>k s m. True) (\<lambda>_. None) counting_fetch sample_request sample_env 0 idle =
     (Inr \<lparr>rs_status = 200, rs_headers = [], rs_body = ''{}''\<rparr>,
      \<lparr>outside = 1, cachedKey = Some (replicate 32 (chr 9)), cachedKeyMaterial = Some (btoa (replicate 32 (chr 9))),
       reports = []\<rparr>)"
  by code_simp

lemma sample_forwards: "forwards_paid (\<lambda>k s m. True) (\<lambda>_. None) sample_env 0 (btoa (json_body sample_assertion))"
proof -
  have "deadline (\<lambda>_. None) sample_assertion = Some 1893456000000" by code_simp
  moreover have "authentic (\<lambda>k s m. True) (replicate 32 (chr 9)) sample_assertion"
  proof -
    have "is_ok (canonicalizeForSigning sample_assertion)" by code_simp
    moreover have "signature_bytes sample_assertion = Some (replicate 64 (chr 7))" by code_simp
    ultimately show ?thesis by (auto simp: authentic_def is_ok_iff)
  qed
  ultimately show ?thesis unfolding forwards_paid_def using sample_decodes sample_key by force
qed

lemma idle_ok: "cache_ok idle"
  by (simp add: cache_ok_def idle_def)

lemma sample_body: "readBoundedText sample_request = Inr (Some ''{}'')"
  by code_simp

section \<open>Properties\<close>

text \<open>C2: A request that presents a payment reaches the merchant only when its assertion header
  decodes to an assertion that is authentic under the configured key and not yet expired.  In
  every other case nothing is fetched, so the merchant never sees the request.\<close>

theorem gateway_forwards_only_authentic:
  assumes "pays request" and "cache_ok g"
    and "gateway_handle ed legacy fetch request env now g = (r, g')" and "outside g' \<noteq> outside g"
  shows "\<exists>h a k t. given (header_get ASSERTION_HEADER (gr_headers request)) = Some h \<and>
     gateway_decodeHeaderJson h = Inr a \<and> importVerificationKey (ATTRIBUTION_PUBLIC_KEY env) = Inr k \<and>
     authentic ed k a \<and> deadline legacy a = Some t \<and> now < t"
  using gateway_paid_cases [OF assms(1-3)] assms(4) unfolding forwards_paid_def by blast

lemma gateway_forwards_only_authentic_witness:
  "\<exists>h a k t. given (header_get ASSERTION_HEADER (gr_headers sample_request)) = Some h \<and>
     gateway_decodeHeaderJson h = Inr a \<and> importVerificationKey (ATTRIBUTION_PUBLIC_KEY sample_env) = Inr k \<and>
     authentic (\<lambda>k s m. True) k a \<and> deadline (\<lambda>_. None) a = Some t \<and> 0 < t"
  by (rule gateway_forwards_only_authentic [OF sample_pays idle_ok sample_forwarded]) (simp add: idle_def)

text \<open>C22: An authentic, unexpired assertion lets the purchase through: the merchant is called once,
  with the body as read and the forwardable headers, its answer is returned unchanged, and nothing
  is reported.\<close>

theorem gateway_passes_authentic:
  assumes "pays request" and "cache_ok g" and "readBoundedText request = Inr (Some body)"
    and "given (header_get ASSERTION_HEADER (gr_headers request)) = Some h" and "forwards_paid ed legacy env now h"
    and "gateway_handle ed legacy fetch request env now g = (r, g')"
  shows "(r, outside g') = fetch (forwarded request (MERCHANT_URL env @ ''/purchase'') body) (outside g) \<and>
     reports g' = reports g"
proof -
  obtain g1 where "outside g1 = outside g" "reports g1 = reports g"
    "paid_purchase ed legacy fetch env now request body h g =
       proxy fetch request (MERCHANT_URL env @ ROUTE_Purchase) body g1"
    using paid_purchase_forwards [OF assms(2,5)] by blast
  then show ?thesis
    using assms(3,4,6) by (auto simp: gateway_handle_paid [OF assms(1)] proxy_apply ROUTE_Purchase_def split: prod.splits)
qed

lemma gateway_passes_authentic_witness:
  "(Inr \<lparr>rs_status = 200, rs_headers = [], rs_body = ''{}''\<rparr>, 1) =
     counting_fetch (forwarded sample_request (MERCHANT_URL sample_env @ ''/purchase'') ''{}'') (outside idle) \<and>
   [] = reports idle"
  using gateway_passes_authentic [OF sample_pays idle_ok sample_body sample_assertion_header sample_forwards
      sample_forwarded]
  by simp

text \<open>C23: A paid purchase that answers without reaching the merchant was refused in one of four ways.  Without an assertion,
  or with one that does not read, with 400; with one that does not verify, with 401; each of these is reported to the
  settlement service, when one is configured, with the publisher and the assertion it named, the reason and the detail that
  are also the answer.  A body over the limit is refused with 413, and that refusal is not reported.\<close>

theorem gateway_refusals_reported:
  assumes "pays request" and "cache_ok g"
    and "\<forall>h. given (header_get ASSERTION_HEADER (gr_headers request)) = Some h \<longrightarrow> \<not> forwards_paid ed legacy env now h"
    and "gateway_handle ed legacy fetch request env now g = (Inr resp, g')"
  shows "outside g' = outside g \<and>
     (if readBoundedText request = Inr None
      then g' = g \<and> rs_status resp = 413
      else \<exists>publisher aid reason detail status.
        refusal ed legacy env now (given (header_get ASSERTION_HEADER (gr_headers request))) publisher aid reason detail status \<and>
        status \<in> {400, 401} \<and> refused_with_report env publisher aid reason detail status g resp g')"
proof (cases "readBoundedText request")
  case (Inl e)
  then show ?thesis using assms(4) by (simp add: gateway_handle_paid [OF assms(1)])
next
  case read: (Inr body)
  show ?thesis
  proof (cases body)
    case None
    then show ?thesis using assms(4) read by (auto simp: gateway_handle_paid [OF assms(1)] gateway_json_def)
  next
    case body: (Some b)
    show ?thesis
    proof (cases "given (header_get ASSERTION_HEADER (gr_headers request))")
      case None
      then have run: "refuse env (JStr UNKNOWN_PUBLISHER) (JStr []) ''assertion_missing'' ''payment supplied without an assertion'' 400 g =
          (Inr resp, g')"
        using assms(4) read body by (simp add: gateway_handle_paid [OF assms(1)])
      have "outside g' = outside g" using run by (auto simp: refuse_def)
      then show ?thesis using refuse_reports [OF run] no_assertion [of ed legacy env now] read body None
        by (fastforce simp: UNKNOWN_PUBLISHER_def)
    next
      case (Some h)
      then have no: "\<not> forwards_paid ed legacy env now h"
        and run: "paid_purchase ed legacy fetch env now request b h g = (Inr resp, g')"
        using assms(3,4) read body by (simp_all add: gateway_handle_paid [OF assms(1)])
      have "status \<in> {400, 401}" if "refusal ed legacy env now (Some h) publisher aid reason detail status" for publisher aid reason detail status
        using that by cases auto
      then show ?thesis
        using paid_purchase_refused [OF assms(2) no run] paid_purchase_stays [OF assms(2) no run] read body Some by force
    qed
  qed
qed

lemma gateway_refusals_reported_witness:
  "\<exists>resp g'. gateway_handle (\<lambda>k s m. False) (\<lambda>_. None) counting_fetch sample_request sample_env 0 idle = (Inr resp, g') \<and>
     outside g' = outside idle \<and>
     (\<exists>publisher aid reason detail status.
        refusal (\<lambda>k s m. False) (\<lambda>_. None) sample_env 0 (Some (btoa (json_body sample_assertion))) publisher aid reason detail status \<and>
        status \<in> {400, 401} \<and> refused_with_report sample_env publisher aid reason detail status idle resp g')"
proof -
  let ?run = "gateway_handle (\<lambda>k s m. False) (\<lambda>_. None) counting_fetch sample_request sample_env 0 idle"
  have "is_ok (fst ?run)" by code_simp
  then obtain resp g' where run: "?run = (Inr resp, g')" by (cases ?run) (auto simp: is_ok_iff)
  have "\<forall>h. given (header_get ASSERTION_HEADER (gr_headers sample_request)) = Some h \<longrightarrow>
      \<not> forwards_paid (\<lambda>k s m. False) (\<lambda>_. None) sample_env 0 h"
    by (simp add: forwards_paid_def authentic_def)
  from gateway_refusals_reported [OF sample_pays idle_ok this run] run show ?thesis
    unfolding sample_body sample_assertion_header by auto
qed

text \<open>The key cache changes nothing but the cost: with a cache the handler filled itself, looking a key up
  gives exactly what importing the configured key gives, for any sequence of configurations, and
  every request keeps the cache in that state.\<close>

theorem gateway_key_cache:
  assumes "cache_ok g"
  shows "fst (verificationKey env g) = importVerificationKey (ATTRIBUTION_PUBLIC_KEY env) \<and>
     cache_ok (snd (verificationKey env g)) \<and>
     cache_ok (snd (gateway_handle ed legacy fetch request env now g))"
  using verificationKey_result [OF assms prod.collapse [symmetric]] handle_cache [OF assms prod.collapse [symmetric]]
  by blast

lemma gateway_key_cache_witness:
  "fst (verificationKey sample_env idle) = importVerificationKey (ATTRIBUTION_PUBLIC_KEY sample_env) \<and>
     cache_ok (snd (verificationKey sample_env idle)) \<and>
     cache_ok (snd (gateway_handle (\<lambda>k s m. True) (\<lambda>_. None) counting_fetch sample_request sample_env 0 idle))"
  by (rule gateway_key_cache [OF idle_ok])

text \<open>C36: A body is read in full or refused: what is read is the decoding of all its bytes, at most 262144
  of them however it is cut into chunks; a longer one is refused even when it breaks off later, and a
  stream error within the limit is raised.\<close>

theorem gateway_body_bound:
  "readBoundedText request =
     (if declared_too_large (gr_headers request) \<or> length (body_bytes request) > 262144
      then Inr None
      else case body_broken request of
        Some e \<Rightarrow> Inl e
      | None \<Rightarrow> Inr (Some (text_decode (body_bytes request))))"
  by (simp add: readBoundedText_eq GATEWAY_MAX_BODY_BYTES_def)

text \<open>An origin reads no Host, Content-Length or Connection header from the gateway, and every
  other header but a cookie setting as the caller sent it, trimmed.\<close>

theorem gateway_forwards_headers:
  assumes "lower_names hs" and "to_lower n \<noteq> ''set-cookie''"
  shows "header_get n (forwardableHeaders hs) =
     (if to_lower n \<in> {''host'', ''content-length'', ''connection''} then None
      else map_option header_value (header_get n hs))"
  using forwarded_header [OF assms] by (simp add: STRIPPED_REQUEST_HEADERS_def)

lemma gateway_forwards_headers_witness:
  "header_get ''Payment-Signature'' (forwardableHeaders (gr_headers sample_request)) =
     (if to_lower ''Payment-Signature'' \<in> {''host'', ''content-length'', ''connection''} then None
      else map_option header_value (header_get ''Payment-Signature'' (gr_headers sample_request)))"
proof (rule gateway_forwards_headers)
  show "lower_names (gr_headers sample_request)"
    unfolding lower_names_def by code_simp
  show "to_lower ''Payment-Signature'' \<noteq> ''set-cookie''" by code_simp
qed

end
