(* ===== verification/Gateway_Node.thy ===== *)
theory Gateway_Node
  imports Gateway
begin

text \<open>
  \<open>gateway/src/node.ts\<close>: the adapter that lets \<open>node:http\<close> speak Request and Response.  A node
  request holds its header object (lower-case names; an array only where node makes one) and its
  body stream.  \<open>new URL(target, base)\<close> is the parameter \<open>absolute_url base target\<close>: the platform's
  URL parser, \<open>None\<close> where it throws.
\<close>

definition HTTP_PAYLOAD_TOO_LARGE :: nat where
  "HTTP_PAYLOAD_TOO_LARGE = 413"

definition NODE_MAX_BODY_BYTES :: nat where
  "NODE_MAX_BODY_BYTES = 256 * 1024"

definition DEFAULT_GATEWAY_PORT :: nat where
  "DEFAULT_GATEWAY_PORT = 8080"

section \<open>Configuration\<close>

type_synonym process_env = "string \<Rightarrow> string option"

definition envOr :: "process_env \<Rightarrow> string \<Rightarrow> string \<Rightarrow> string" where
  "envOr penv name fallback =
     (case map_option trim (penv name) of None \<Rightarrow> fallback | Some v \<Rightarrow> if v = [] then fallback else v)"

definition requiredEnv :: "process_env \<Rightarrow> string \<Rightarrow> string result" where
  "requiredEnv penv name =
     (let v = map_option trim (penv name) in
      if v = None \<or> v = Some []
      then Inl (Plain_error (name @ '' not set. See docs/RUNNING.md for the local environment.''))
      else Inr (the v))"

definition gateway_env_of :: "process_env \<Rightarrow> gateway_env result" where
  "gateway_env_of penv =
     and_then (requiredEnv penv ''ATTRIBUTION_PUBLIC_KEY'') (\<lambda>key.
       Inr \<lparr>SEARCH_URL = envOr penv ''SEARCH_URL'' ''http://localhost:8081'',
            MERCHANT_URL = envOr penv ''MERCHANT_URL'' ''http://localhost:8090'',
            SETTLEMENT_URL = Some (envOr penv ''SETTLEMENT_URL'' ''http://localhost:8082''),
            ATTRIBUTION_PUBLIC_KEY = key\<rparr>)"

definition gateway_port :: "process_env \<Rightarrow> number" where
  "gateway_port penv = string_to_number (envOr penv ''GATEWAY_PORT'' (nat_text DEFAULT_GATEWAY_PORT))"

section \<open>Requests\<close>

datatype node_header = One string | Many "string list"

record node_request =
  nr_method :: "string option"
  nr_url :: "string option"
  nr_headers :: "(string \<times> node_header) list"
  nr_body :: body_stream

fun node_chunks :: "exn option \<Rightarrow> nat \<Rightarrow> bytes list \<Rightarrow> bytes list \<Rightarrow> bytes result" where
  "node_chunks err n acc [] = (case err of Some e \<Rightarrow> Inl e | None \<Rightarrow> Inr (concat acc))"
| "node_chunks err n acc (c # cs) =
     (if n + length c > NODE_MAX_BODY_BYTES
      then Inl (Request_too_large (''request body exceeds '' @ nat_text NODE_MAX_BODY_BYTES @ '' bytes''))
      else node_chunks err (n + length c) (acc @ [c]) cs)"

definition readBody :: "node_request \<Rightarrow> bytes option result" where
  "readBody req =
     (if nr_method req = Some ''GET'' \<or> nr_method req = Some ''HEAD'' then Inr None
      else and_then (node_chunks (broken (nr_body req)) 0 [] (chunks (nr_body req))) (\<lambda>b. Inr (Some b)))"

definition node_headers :: "(string \<times> node_header) list \<Rightarrow> headers" where
  "node_headers entries =
     foldl (\<lambda>hs (name, v).
       case v of
         Many items \<Rightarrow> foldl (\<lambda>hs item. header_append name item hs) hs items
       | One item \<Rightarrow> header_set name item hs) [] entries"

definition node_host :: "string \<Rightarrow> (string \<times> node_header) list \<Rightarrow> string" where
  "node_host port entries =
     (case map_of entries ''host'' of Some (One h) \<Rightarrow> h | _ \<Rightarrow> ''localhost:'' @ port)"

text \<open>The Request constructor refuses three methods.\<close>

definition forbidden_methods :: "string list" where
  "forbidden_methods = [''CONNECT'', ''TRACE'', ''TRACK'']"

definition toRequest ::
    "(string \<Rightarrow> string \<Rightarrow> string option) \<Rightarrow> string \<Rightarrow> node_request \<Rightarrow> bytes option \<Rightarrow> gateway_request result" where
  "toRequest absolute_url port req body =
     and_then (of_option (Type_error ''Invalid URL'')
       (absolute_url (''http://'' @ node_host port (nr_headers req)) (case nr_url req of None \<Rightarrow> ''/'' | Some u \<Rightarrow> u)))
       (\<lambda>url.
     let method = (case nr_method req of None \<Rightarrow> ''GET'' | Some m \<Rightarrow> m) in
     if method \<in> set forbidden_methods
     then Inl (Type_error (quoted_name method @ '' HTTP method is unsupported.''))
     else Inr \<lparr>gr_method = method, gr_url = url, gr_headers = node_headers (nr_headers req),
            gr_body = (case body of
               Some b \<Rightarrow> if b = [] then None else Some \<lparr>chunks = [b], broken = None\<rparr>
             | None \<Rightarrow> None)\<rparr>)"

section \<open>Responses\<close>

record node_reply =
  np_status :: nat
  np_headers :: "(string \<times> string) list"
  np_body :: bytes

text \<open>The header object is filled in iteration order, a repeated name keeping its last value.\<close>

fun put_header :: "(string \<times> string) list \<Rightarrow> string \<Rightarrow> string \<Rightarrow> (string \<times> string) list" where
  "put_header [] k v = [(k, v)]"
| "put_header ((k', v') # r) k v = (if k = k' then (k, v) # r else (k', v') # put_header r k v)"

definition writeResponse :: "http_response \<Rightarrow> node_reply" where
  "writeResponse response =
     \<lparr>np_status = rs_status response,
      np_headers = foldl (\<lambda>o' (name, v). put_header o' name v) [] (header_entries (rs_headers response)),
      np_body = rs_body response\<rparr>"

definition gateway_error_reply :: "exn \<Rightarrow> node_reply" where
  "gateway_error_reply e =
     (let tooLarge = (case e of Request_too_large _ \<Rightarrow> True | _ \<Rightarrow> False) in
      \<lparr>np_status = (if tooLarge then HTTP_PAYLOAD_TOO_LARGE else 502),
       np_headers = [(''Content-Type'', ''application/json'')],
       np_body = json_body (JObj [(''error'', JStr (message e)),
         (''reason'', JStr (if tooLarge then ''body_too_large'' else ''gateway_error''))])\<rparr>)"

definition gateway_serve ::
    "ed25519_check \<Rightarrow> (string \<Rightarrow> int option) \<Rightarrow> 'w fetch \<Rightarrow> (string \<Rightarrow> string \<Rightarrow> string option) \<Rightarrow> string
      \<Rightarrow> gateway_env \<Rightarrow> int \<Rightarrow> node_request \<Rightarrow> 'w gateway \<Rightarrow> node_reply \<times> 'w gateway" where
  "gateway_serve ed25519 legacy fetch absolute_url port env now req g =
     (case bind_io (lift (and_then (readBody req) (toRequest absolute_url port req)))
            (\<lambda>request. gateway_handle ed25519 legacy fetch request env now) g of
        (Inr response, g') \<Rightarrow> (writeResponse response, g')
      | (Inl e, g') \<Rightarrow> (gateway_error_reply e, g'))"

section \<open>Lemmas\<close>

lemma node_chunks_eq:
  "n \<le> NODE_MAX_BODY_BYTES \<Longrightarrow>
   node_chunks err n acc cs =
     (if n + length (concat cs) > NODE_MAX_BODY_BYTES
      then Inl (Request_too_large (''request body exceeds '' @ nat_text NODE_MAX_BODY_BYTES @ '' bytes''))
      else case err of Some e \<Rightarrow> Inl e | None \<Rightarrow> Inr (concat acc @ concat cs))"
  by (induction cs arbitrary: n acc) (auto split: option.splits)

text \<open>Whatever the adapter hands over fits the handler's own limit, so its 413 stays for the header
  that declares too much.\<close>

lemma toRequest_body_small:
  assumes "and_then (readBody req) (toRequest absolute_url port req) = Inr request"
  shows "length (body_bytes request) \<le> GATEWAY_MAX_BODY_BYTES"
  using assms
  by (auto simp: result_simps readBody_def toRequest_def Let_def body_bytes_def node_chunks_eq NODE_MAX_BODY_BYTES_def
      GATEWAY_MAX_BODY_BYTES_def split: if_splits option.splits)

end
