(* ===== verification/Eip3009.thy ===== *)
theory Eip3009
  imports Assertion
begin

text \<open>
  \<open>packages/types/src/eip3009.ts\<close>: the typed-data structure the agent signs and the
  facilitator verifies, the network table and the conversion of the wire authorization into
  big integers.
\<close>

definition EIP3009_PRIMARY_TYPE :: string where
  "EIP3009_PRIMARY_TYPE = ''TransferWithAuthorization''"

definition EIP3009_TYPES :: "(string \<times> (string \<times> string) list) list" where
  "EIP3009_TYPES =
     [(''TransferWithAuthorization'',
       [(''from'', ''address''), (''to'', ''address''), (''value'', ''uint256''),
        (''validAfter'', ''uint256''), (''validBefore'', ''uint256''), (''nonce'', ''bytes32'')])]"

record eip3009_message =
  msg_from :: js
  msg_to :: js
  msg_value :: int
  msg_validAfter :: int
  msg_validBefore :: int
  msg_nonce :: js

record network_parameters =
  chainId :: int
  usdcAddress :: string
  domainName :: string
  domainVersion :: string

definition BASE_SEPOLIA :: network_parameters where
  "BASE_SEPOLIA = \<lparr>chainId = 84532, usdcAddress = ''0x036CbD53842c5426634e7929541eC2318f3dCF7e'',
     domainName = ''USDC'', domainVersion = ''2''\<rparr>"

definition NETWORKS :: "(string \<times> network_parameters) list" where
  "NETWORKS = [(''base-sepolia'', BASE_SEPOLIA)]"

section \<open>The network table\<close>

text \<open>
  \<open>NETWORKS\<close> is an object literal, so an indexed read also finds what the literal inherits
  from \<open>Object.prototype\<close>: a value that is truthy and has none of the parameter fields.
\<close>

datatype network_entry = Parameters network_parameters | Inherited string

definition object_prototype_names :: "string list" where
  "object_prototype_names =
     [''constructor'', ''__defineGetter__'', ''__defineSetter__'', ''hasOwnProperty'',
      ''__lookupGetter__'', ''__lookupSetter__'', ''isPrototypeOf'', ''propertyIsEnumerable'',
      ''toString'', ''valueOf'', ''__proto__'', ''toLocaleString'']"

definition network_entry_of :: "string \<Rightarrow> network_entry option" where
  "network_entry_of k =
     (case map_of NETWORKS k of
        Some p \<Rightarrow> Some (Parameters p)
      | None \<Rightarrow> if k \<in> set object_prototype_names then Some (Inherited k) else None)"

definition networkParameters :: "js \<Rightarrow> network_entry result" where
  "networkParameters network =
     of_option
       (Plain_error (''unknown network '' @ to_text network @ ''; known networks are '' @
          join '', '' (map fst NETWORKS)))
       (network_entry_of (to_text network))"

text \<open>The four fields of the domain; reading them off an inherited value gives undefined.\<close>

record eip712_domain =
  dom_name :: js
  dom_version :: js
  dom_chainId :: js
  dom_verifyingContract :: js

fun entry_domain :: "network_entry \<Rightarrow> eip712_domain" where
  "entry_domain (Parameters p) =
     \<lparr>dom_name = JStr (domainName p), dom_version = JStr (domainVersion p),
      dom_chainId = jint (chainId p), dom_verifyingContract = JStr (usdcAddress p)\<rparr>"
| "entry_domain (Inherited k) =
     \<lparr>dom_name = JUndef, dom_version = JUndef, dom_chainId = JUndef, dom_verifyingContract = JUndef\<rparr>"

definition eip712Domain :: "js \<Rightarrow> eip712_domain result" where
  "eip712Domain network = and_then (networkParameters network) (\<lambda>p. Inr (entry_domain p))"

lemma eip712Domain_known:
  "eip712Domain (JStr ''base-sepolia'') = Inr (entry_domain (Parameters BASE_SEPOLIA))"
  by (simp add: eip712Domain_def networkParameters_def network_entry_of_def NETWORKS_def)

section \<open>\<open>toUint256\<close> and \<open>toTypedMessage\<close>\<close>

definition MAX_UINT256 :: int where
  "MAX_UINT256 = 2 ^ 256 - 1"

text \<open>\<open>BigInt(raw)\<close> sits in a try whose catch rethrows with the field's name.\<close>

definition toUint256 :: "js \<Rightarrow> string \<Rightarrow> int result" where
  "toUint256 raw field =
     and_then (as_string_for ''raw'' ''trim'' raw) (\<lambda>s.
       if trim s = [] then Inl (Type_error (field @ '' is empty; a uint256 field needs a decimal string''))
       else
         case string_to_bigint s of
           None \<Rightarrow> Inl (Type_error (field @ '' is not a valid uint256: '' @ stringify raw))
         | Some v \<Rightarrow>
             if v < 0 then Inl (Type_error (field @ '' is negative: '' @ s))
             else if v > MAX_UINT256 then Inl (Type_error (field @ '' exceeds uint256: '' @ s))
             else Inr v)"

definition toTypedMessage :: "js \<Rightarrow> eip3009_message result" where
  "toTypedMessage authorization =
     and_then (get authorization ''from'') (\<lambda>f.
     and_then (get authorization ''to'') (\<lambda>t.
     and_then (and_then (get authorization ''value'') (\<lambda>r. toUint256 r ''value'')) (\<lambda>v.
     and_then (and_then (get authorization ''validAfter'') (\<lambda>r. toUint256 r ''validAfter'')) (\<lambda>va.
     and_then (and_then (get authorization ''validBefore'') (\<lambda>r. toUint256 r ''validBefore'')) (\<lambda>vb.
     and_then (get authorization ''nonce'') (\<lambda>n.
       Inr \<lparr>msg_from = f, msg_to = t, msg_value = v, msg_validAfter = va, msg_validBefore = vb,
            msg_nonce = n\<rparr>))))))"

lemma toUint256_Inr:
  "toUint256 raw field = Inr v \<longleftrightarrow>
     (\<exists>s. raw = JStr s \<and> trim s \<noteq> [] \<and> string_to_bigint s = Some v \<and> 0 \<le> v \<and> v \<le> MAX_UINT256)"
  by (auto simp: toUint256_def result_simps split: option.splits if_splits)

lemma toUint256_error:
  "toUint256 raw field = Inl e \<Longrightarrow> \<exists>t. e = Type_error t"
  by (auto simp: toUint256_def result_simps split: option.splits if_splits dest: as_string_for_Inl)

text \<open>Plain decimal text of a representable value comes through unchanged.\<close>

lemma toUint256_decimal:
  assumes "0 \<le> v" and "v \<le> MAX_UINT256"
  shows "toUint256 (JStr (int_text v)) field = Inr v"
proof -
  have "int_text v = nat_text (nat v)" using assms by (simp add: int_text_def)
  moreover have "trim (nat_text (nat v)) = nat_text (nat v)" by (simp add: trim_all_digits)
  ultimately show ?thesis
    using assms by (simp add: toUint256_Inr)
qed

lemma toTypedMessage_Inr:
  "toTypedMessage a = Inr m \<longleftrightarrow>
     (\<exists>kvs. (a = JObj kvs) \<and> msg_from m = own kvs ''from'' \<and> msg_to m = own kvs ''to'' \<and>
        msg_nonce m = own kvs ''nonce'' \<and>
        toUint256 (own kvs ''value'') ''value'' = Inr (msg_value m) \<and>
        toUint256 (own kvs ''validAfter'') ''validAfter'' = Inr (msg_validAfter m) \<and>
        toUint256 (own kvs ''validBefore'') ''validBefore'' = Inr (msg_validBefore m))"
proof (cases a)
  case (JObj kvs)
  then show ?thesis
    by (cases m) (auto simp: toTypedMessage_def result_simps)
qed (auto simp: toTypedMessage_def result_simps toUint256_Inr)

section \<open>The typed data a signature covers\<close>

record typed_data =
  td_domain :: eip712_domain
  td_types :: "(string \<times> (string \<times> string) list) list"
  td_primaryType :: string
  td_message :: eip3009_message

section \<open>Properties\<close>

text \<open>A uint256 field is taken over exactly when it is a text that is not blank and that
  \<open>BigInt\<close> reads as a number from 0 to \<open>2^256 - 1\<close>; the value is then the one \<open>BigInt\<close> reads, and
  every other input is refused with a TypeError.\<close>

theorem uint256_accepts_iff:
  "toUint256 raw field = Inr v \<longleftrightarrow>
     (\<exists>s. raw = JStr s \<and> trim s \<noteq> [] \<and> string_to_bigint s = Some v \<and> 0 \<le> v \<and> v < 2 ^ 256)"
  by (auto simp: toUint256_Inr MAX_UINT256_def)

text \<open>Amounts survive the wire: the decimal text of a number from 0 to \<open>2^256 - 1\<close> converts back to
  that number.\<close>

theorem uint256_round_trip:
  assumes "0 \<le> v" and "v < 2 ^ 256"
  shows "toUint256 (JStr (int_text v)) field = Inr v"
  by (rule toUint256_decimal) (use assms in \<open>simp_all add: MAX_UINT256_def\<close>)

lemma uint256_round_trip_witness:
  "toUint256 (JStr (int_text (2 ^ 256 - 1))) ''value'' = Inr (2 ^ 256 - 1)"
  by (rule uint256_round_trip) simp_all

end
