(* ===== verification/Facilitator_Verify.thy ===== *)
theory Facilitator_Verify
  imports Eip3009
begin

text \<open>
  \<open>facilitator/src/verify.ts\<close>: the payment check.  viem's \<open>verifyTypedData\<close> and
  \<open>keccak256(toHex(_))\<close> are the parameters \<open>verify_typed address data signature\<close> (which may
  throw) and \<open>keccak\<close>.  Payload and requirements are the parsed request body, so every field
  read and every string method can fail.
\<close>

type_synonym verify_typed_data = "js \<Rightarrow> typed_data \<Rightarrow> js \<Rightarrow> bool result"

datatype invalid_reason =
    Unsupported_scheme
  | Network_mismatch
  | Asset_mismatch
  | Payee_mismatch
  | Insufficient_amount
  | Authorization_not_yet_valid
  | Authorization_expired
  | Invalid_payment_signature
  | Malformed_payload

fun reason_text :: "invalid_reason \<Rightarrow> string" where
  "reason_text Unsupported_scheme = ''unsupported_scheme''"
| "reason_text Network_mismatch = ''network_mismatch''"
| "reason_text Asset_mismatch = ''asset_mismatch''"
| "reason_text Payee_mismatch = ''payee_mismatch''"
| "reason_text Insufficient_amount = ''insufficient_amount''"
| "reason_text Authorization_not_yet_valid = ''authorization_not_yet_valid''"
| "reason_text Authorization_expired = ''authorization_expired''"
| "reason_text Invalid_payment_signature = ''invalid_signature''"
| "reason_text Malformed_payload = ''malformed_payload''"

text \<open>\<open>{ isValid: false, invalidReason }\<close> or \<open>{ isValid: true, payer }\<close>.\<close>

datatype verify_outcome = Invalid invalid_reason | Valid js

definition SCHEME_EXACT :: js where
  "SCHEME_EXACT = JStr ''exact''"

definition sameAddress :: "js \<Rightarrow> js \<Rightarrow> bool result" where
  "sameAddress left right =
     and_then (as_string_for ''left'' ''toLowerCase'' left) (\<lambda>l.
     and_then (as_string_for ''right'' ''toLowerCase'' right) (\<lambda>r.
       Inr (to_lower l = to_lower r)))"

text \<open>\<open>===\<close> between two parts of a parsed body: objects are distinct references.\<close>

fun strict_eq :: "js \<Rightarrow> js \<Rightarrow> bool" where
  "strict_eq (JArr vs) w = False"
| "strict_eq (JObj kvs) w = False"
| "strict_eq (JNum n) w = (w = JNum n \<and> n \<noteq> NaN)"
| "strict_eq v w = (v = w)"

text \<open>\<open>BigInt(v)\<close> of a value that need not be a string.\<close>

fun to_bigint :: "js \<Rightarrow> int result" where
  "to_bigint (JStr s) =
     of_option (Syntax_error (''Cannot convert '' @ s @ '' to a BigInt'')) (string_to_bigint s)"
| "to_bigint (JBool b) = Inr (if b then 1 else 0)"
| "to_bigint (JNum (Fin x)) =
     (if of_int \<lfloor>x\<rfloor> = x then Inr \<lfloor>x\<rfloor>
      else Inl (Plain_error (''The number '' @ num_text (Fin x) @
             '' cannot be converted to a BigInt because it is not an integer'')))"
| "to_bigint (JNum n) =
     Inl (Plain_error (''The number '' @ num_text n @
            '' cannot be converted to a BigInt because it is not an integer''))"
| "to_bigint (JArr vs) =
     of_option (Syntax_error (''Cannot convert '' @ to_text (JArr vs) @ '' to a BigInt''))
       (string_to_bigint (to_text (JArr vs)))"
| "to_bigint v =
     Inl (Type_error (''Cannot convert '' @ to_text v @ '' to a BigInt''))"

definition verifyPayment ::
    "verify_typed_data \<Rightarrow> js \<Rightarrow> js \<Rightarrow> int \<Rightarrow> verify_outcome result" where
  "verifyPayment verify_typed payload requirements nowSeconds =
     and_then (get payload ''scheme'') (\<lambda>ps.
     and_then (if ps \<noteq> SCHEME_EXACT then Inr True
               else and_then (get requirements ''scheme'') (\<lambda>rs. Inr (rs \<noteq> SCHEME_EXACT))) (\<lambda>unsupported.
     if unsupported then Inr (Invalid Unsupported_scheme)
     else
     and_then (get payload ''network'') (\<lambda>pn.
     and_then (get requirements ''network'') (\<lambda>rn.
     if \<not> strict_eq pn rn then Inr (Invalid Network_mismatch)
     else
       case and_then (and_then (get payload ''authorization'') toTypedMessage) (\<lambda>m.
              and_then (eip712Domain pn) (\<lambda>d. Inr (m, d))) of
         Inl _ \<Rightarrow> Inr (Invalid Malformed_payload)
       | Inr (m, d) \<Rightarrow>
           and_then (and_then (get requirements ''asset'')
             (\<lambda>asset. sameAddress asset (dom_verifyingContract d))) (\<lambda>same.
           if \<not> same then Inr (Invalid Asset_mismatch)
           else
           and_then (and_then (and_then (get payload ''authorization'') (\<lambda>a. get a ''to'')) (\<lambda>to.
             and_then (get requirements ''payTo'') (\<lambda>payTo. sameAddress to payTo))) (\<lambda>same.
           if \<not> same then Inr (Invalid Payee_mismatch)
           else
           and_then (and_then (get requirements ''maxAmountRequired'') to_bigint) (\<lambda>amount.
           if msg_value m \<noteq> amount then Inr (Invalid Insufficient_amount)
           else if nowSeconds < msg_validAfter m then Inr (Invalid Authorization_not_yet_valid)
           else if nowSeconds \<ge> msg_validBefore m then Inr (Invalid Authorization_expired)
           else
             and_then (get payload ''signature'') (\<lambda>sig.
             case verify_typed (msg_from m)
                    \<lparr>td_domain = d, td_types = EIP3009_TYPES, td_primaryType = EIP3009_PRIMARY_TYPE,
                     td_message = m\<rparr> sig of
               Inl _ \<Rightarrow> Inr (Invalid Malformed_payload)
             | Inr ok \<Rightarrow>
                 if \<not> ok then Inr (Invalid Invalid_payment_signature)
                 else Inr (Valid (msg_from m))))))))))"

text \<open>The simulated hash: \<open>keccak256\<close> of the six fields joined with bars.  \<open>join\<close> prints a
  missing field as the empty text.\<close>

definition bar_text :: "js \<Rightarrow> string" where
  "bar_text v = (if v = JUndef \<or> v = JNull then [] else to_text v)"

definition simulatedTransactionHash :: "(string \<Rightarrow> string) \<Rightarrow> js \<Rightarrow> string result" where
  "simulatedTransactionHash keccak authorization =
     and_then (get authorization ''from'') (\<lambda>f.
     and_then (get authorization ''to'') (\<lambda>t.
     and_then (get authorization ''value'') (\<lambda>v.
     and_then (get authorization ''validAfter'') (\<lambda>va.
     and_then (get authorization ''validBefore'') (\<lambda>vb.
     and_then (get authorization ''nonce'') (\<lambda>n.
       Inr (keccak (join ''|'' (map bar_text [f, t, v, va, vb, n])))))))))"

section \<open>Acceptance\<close>

lemma get_Inr_own: "get v k = Inr x \<Longrightarrow> x \<noteq> JUndef \<Longrightarrow> \<exists>kvs. v = JObj kvs \<and> own kvs k = x"
  by (cases v) auto

lemma sameAddress_Inr:
  "sameAddress a b = Inr r \<longleftrightarrow> (\<exists>s t. a = JStr s \<and> b = JStr t \<and> r = (to_lower s = to_lower t))"
  by (auto simp: sameAddress_def result_simps)

text \<open>What an accepted payment satisfies, read off the two objects.\<close>

definition payment_matches :: "(string \<times> js) list \<Rightarrow> (string \<times> js) list \<Rightarrow> eip3009_message \<Rightarrow> eip712_domain \<Rightarrow> bool" where
  "payment_matches p r m d \<longleftrightarrow>
     own p ''scheme'' = JStr ''exact'' \<and> own r ''scheme'' = JStr ''exact'' \<and>
     strict_eq (own p ''network'') (own r ''network'') \<and>
     toTypedMessage (own p ''authorization'') = Inr m \<and> eip712Domain (own p ''network'') = Inr d \<and>
     sameAddress (own r ''asset'') (dom_verifyingContract d) = Inr True \<and>
     sameAddress (msg_to m) (own r ''payTo'') = Inr True \<and>
     to_bigint (own r ''maxAmountRequired'') = Inr (msg_value m)"

definition signature_verifies :: "verify_typed_data \<Rightarrow> (string \<times> js) list \<Rightarrow> eip3009_message \<Rightarrow> eip712_domain \<Rightarrow> bool" where
  "signature_verifies verify_typed p m d \<longleftrightarrow>
     verify_typed (msg_from m)
       \<lparr>td_domain = d, td_types = EIP3009_TYPES, td_primaryType = EIP3009_PRIMARY_TYPE, td_message = m\<rparr>
       (own p ''signature'') = Inr True"

lemma verifyPayment_Valid_iff:
  "verifyPayment vt (JObj p) (JObj r) now = Inr (Valid payer) \<longleftrightarrow>
     (\<exists>m d. payment_matches p r m d \<and> signature_verifies vt p m d \<and>
        msg_validAfter m \<le> now \<and> now < msg_validBefore m \<and> payer = msg_from m)"
  (is "?L \<longleftrightarrow> ?R")
proof
  assume ?L
  then show ?R
    by (auto simp: verifyPayment_def SCHEME_EXACT_def payment_matches_def signature_verifies_def result_simps
        toTypedMessage_Inr not_less not_le split: if_splits sum.splits prod.splits)
next
  assume ?R
  then obtain m d where match: "payment_matches p r m d" and sig: "signature_verifies vt p m d"
    and time: "msg_validAfter m \<le> now" "now < msg_validBefore m" and payer: "payer = msg_from m"
    by blast
  then obtain a where auth: "own p ''authorization'' = JObj a" "msg_to m = own a ''to''"
    unfolding payment_matches_def toTypedMessage_Inr by blast
  show ?L
    using match sig time payer auth
    by (simp add: verifyPayment_def SCHEME_EXACT_def payment_matches_def signature_verifies_def)
qed

lemma to_bigint_digits: "all_digits s \<Longrightarrow> \<exists>n. to_bigint (JStr s) = Inr (int n)"
  using digits_value_all_digits [of s 0] by (auto simp: string_to_bigint_digits all_digits_def)

text \<open>Once the requirements are well shaped, only two reads outside the try blocks can throw.\<close>

lemma verifyPayment_throws:
  assumes "own r ''asset'' = JStr asset" and "own r ''payTo'' = JStr payTo"
    and "own r ''maxAmountRequired'' = JStr amount" and "all_digits amount"
    and "verifyPayment vt (JObj p) (JObj r) now = Inl e"
  shows "to_text (own p ''network'') \<in> set object_prototype_names \<or>
     (\<forall>s. get_opt (own p ''authorization'') ''to'' \<noteq> JStr s)"
proof (rule ccontr)
  assume "\<not> ?thesis"
  then obtain t where known: "to_text (own p ''network'') \<notin> set object_prototype_names"
    and t: "get_opt (own p ''authorization'') ''to'' = JStr t" by auto
  from assms(4) obtain n where n: "to_bigint (JStr amount) = Inr (int n)" using to_bigint_digits by blast
  have dom: "\<exists>v. dom_verifyingContract d = JStr v" if "eip712Domain (own p ''network'') = Inr d" for d
    using that known
    by (auto simp: eip712Domain_def networkParameters_def network_entry_of_def result_simps
        split: option.splits if_splits)
  have to: "get (own p ''authorization'') ''to'' = Inr (JStr t)"
    using t by (cases "own p ''authorization''") (auto simp: get_opt_def)
  show False
    using assms(5) n to
    by (auto simp: verifyPayment_def result_simps assms(1-3) sameAddress_def
        split: if_splits sum.splits prod.splits dest: dom)
qed

section \<open>Properties\<close>

definition sample_authorization :: "string \<Rightarrow> (string \<times> js) list" where
  "sample_authorization nonce =
     [(''from'', JStr ''0xA''), (''to'', JStr ''0xB''), (''value'', JStr ''100''), (''validAfter'', JStr ''5''),
      (''validBefore'', JStr ''10''), (''nonce'', JStr nonce)]"

definition sample_payload :: "js \<Rightarrow> (string \<times> js) list" where
  "sample_payload authorization =
     [(''scheme'', JStr ''exact''), (''network'', JStr ''base-sepolia''), (''authorization'', authorization),
      (''signature'', JStr ''0xS'')]"

definition sample_requirements :: "(string \<times> js) list" where
  "sample_requirements =
     [(''scheme'', JStr ''exact''), (''network'', JStr ''base-sepolia''),
      (''asset'', JStr ''0x036cbd53842c5426634e7929541ec2318f3dcf7e''), (''payTo'', JStr ''0xb''),
      (''maxAmountRequired'', JStr ''100'')]"

text \<open>C18: A payment is accepted exactly when scheme and network agree and are supported, the asset is
  the network's token, the authorized payee is the required one up to case, the authorized value is
  the required amount (neither less nor more), the clock is in the half-open window
  [validAfter, validBefore), and the signature verifies over the typed data built from that very
  authorization; the payer reported is then its \<open>from\<close>.\<close>

theorem payment_accepted_iff:
  "verifyPayment vt (JObj p) (JObj r) now = Inr (Valid payer) \<longleftrightarrow>
     (\<exists>m d. own p ''scheme'' = JStr ''exact'' \<and> own r ''scheme'' = JStr ''exact'' \<and>
        strict_eq (own p ''network'') (own r ''network'') \<and>
        toTypedMessage (own p ''authorization'') = Inr m \<and> eip712Domain (own p ''network'') = Inr d \<and>
        sameAddress (own r ''asset'') (dom_verifyingContract d) = Inr True \<and>
        sameAddress (msg_to m) (own r ''payTo'') = Inr True \<and>
        to_bigint (own r ''maxAmountRequired'') = Inr (msg_value m) \<and>
        vt (msg_from m) \<lparr>td_domain = d, td_types = EIP3009_TYPES, td_primaryType = EIP3009_PRIMARY_TYPE,
             td_message = m\<rparr> (own p ''signature'') = Inr True \<and>
        msg_validAfter m \<le> now \<and> now < msg_validBefore m \<and> payer = msg_from m)"
  unfolding verifyPayment_Valid_iff payment_matches_def signature_verifies_def by blast

text \<open>With requirements that passed the handler's validation, checking a payment answers a
  verdict except in two cases: the authorization's payee is not a text, or the network is a name
  every JavaScript object inherits.\<close>

theorem payment_check_throws_only:
  assumes "own r ''asset'' = JStr asset" and "own r ''payTo'' = JStr payTo"
    and "own r ''maxAmountRequired'' = JStr amount" and "all_digits amount"
    and "to_text (own p ''network'') \<notin> set object_prototype_names"
    and "get_opt (own p ''authorization'') ''to'' = JStr t"
  shows "\<exists>outcome. verifyPayment vt (JObj p) (JObj r) now = Inr outcome"
proof (cases "verifyPayment vt (JObj p) (JObj r) now")
  case (Inl e)
  with verifyPayment_throws [OF assms(1-4) this] assms(5,6) show ?thesis by simp
qed blast

lemma payment_check_throws_only_witness:
  "\<exists>outcome. verifyPayment (\<lambda>_ _ _. Inr True) (JObj (sample_payload (JObj (sample_authorization ''0xn''))))
     (JObj sample_requirements) 7 = Inr outcome"
  by (rule payment_check_throws_only [where asset = "''0x036cbd53842c5426634e7929541ec2318f3dcf7e''" and payTo = "''0xb''"
        and amount = "''100''" and t = "''0xB''"]) code_simp+

text \<open>An authorization without a payee is the first of those cases: when everything read before it
  is in order, the check throws a TypeError instead of answering \<open>malformed_payload\<close>.\<close>

theorem missing_payee_throws:
  assumes "own p ''scheme'' = JStr ''exact''" and "own r ''scheme'' = JStr ''exact''"
    and "own p ''network'' = JStr ''base-sepolia''" and "own r ''network'' = JStr ''base-sepolia''"
    and "own r ''asset'' = JStr asset" and "to_lower asset = to_lower (usdcAddress BASE_SEPOLIA)"
    and "own p ''authorization'' = JObj a" and "own a ''to'' = JUndef" and "toTypedMessage (JObj a) = Inr m"
  shows "\<exists>text. verifyPayment vt (JObj p) (JObj r) now = Inl (Type_error text)"
  using assms by (simp add: verifyPayment_def SCHEME_EXACT_def eip712Domain_known sameAddress_def cannot_read_def)

lemma missing_payee_throws_witness:
  "\<exists>text. verifyPayment (\<lambda>_ _ _. Inr True) (JObj (sample_payload (JObj
       [(''from'', JStr ''0xA''), (''value'', JStr ''100''), (''validAfter'', JStr ''5''), (''validBefore'', JStr ''10'')])))
     (JObj sample_requirements) 7 = Inl (Type_error text)"
proof (rule missing_payee_throws [where asset = "''0x036cbd53842c5426634e7929541ec2318f3dcf7e''"])
  show "toTypedMessage (JObj
       [(''from'', JStr ''0xA''), (''value'', JStr ''100''), (''validAfter'', JStr ''5''), (''validBefore'', JStr ''10'')]) =
     Inr \<lparr>msg_from = JStr ''0xA'', msg_to = JUndef, msg_value = 100, msg_validAfter = 5, msg_validBefore = 10,
       msg_nonce = JUndef\<rparr>" by code_simp
qed code_simp+

end
