(* ===== verification/Facilitator.thy ===== *)
theory Facilitator
  imports Facilitator_Verify
begin

text \<open>
  \<open>facilitator/src/handler.ts\<close>: the nonce ledger, fault injection, request validation and the
  two-step handler.  \<open>handle\<close> awaits once, at \<open>verifyPayment\<close>; \<open>admit\<close> is what runs before
  that point and \<open>finish\<close> what runs after, so that requests can interleave between the two.
  The locale \<open>single_use\<close> is the ledger's contract.
\<close>

definition MAX_BODY_BYTES :: nat where
  "MAX_BODY_BYTES = 64 * 1024"

definition ROUTE_Verify :: string where
  "ROUTE_Verify = ''/verify''"

definition ROUTE_Settle :: string where
  "ROUTE_Settle = ''/settle''"

definition ROUTE_Health :: string where
  "ROUTE_Health = ''/healthz''"

definition ROUTE_Fault :: string where
  "ROUTE_Fault = ''/fault''"

lemmas route_defs = ROUTE_Verify_def ROUTE_Settle_def ROUTE_Health_def ROUTE_Fault_def

datatype fault_mode = Fault_none | Verify_rejects | Settle_fails | Unavailable

fun fault_text :: "fault_mode \<Rightarrow> string" where
  "fault_text Fault_none = ''none''"
| "fault_text Verify_rejects = ''verify_rejects''"
| "fault_text Settle_fails = ''settle_fails''"
| "fault_text Unavailable = ''unavailable''"

definition FAULT :: "fault_mode list" where
  "FAULT = [Fault_none, Verify_rejects, Settle_fails, Unavailable]"

text \<open>The requested mode, when it is one of \<open>Object.values(FAULT)\<close>.\<close>

definition fault_of :: "js \<Rightarrow> fault_mode option" where
  "fault_of requested = List.find (\<lambda>f. JStr (fault_text f) = requested) FAULT"

record facilitator_response =
  fr_status :: nat
  fr_body :: js

definition fr :: "nat \<Rightarrow> (string \<times> js) list \<Rightarrow> facilitator_response" where
  "fr s kvs = \<lparr>fr_status = s, fr_body = JObj kvs\<rparr>"

record settlement_record =
  sr_payer :: js
  sr_to :: js
  sr_value :: js
  sr_transaction :: string

section \<open>The nonce ledger\<close>

text \<open>
  A JavaScript \<open>Set\<close> compares with SameValueZero.  Two parsed objects are never the same
  reference, so an object is never found; everything else compares by value.
\<close>

fun same_value_zero :: "js \<Rightarrow> js \<Rightarrow> bool" where
  "same_value_zero (JArr vs) w = False"
| "same_value_zero (JObj kvs) w = False"
| "same_value_zero v w = (v = w)"

type_synonym nonce_ledger = "js list"

definition nonce_has :: "js \<Rightarrow> nonce_ledger \<Rightarrow> bool" where
  "nonce_has nonce consumed \<longleftrightarrow> list_ex (same_value_zero nonce) consumed"

definition nonce_claim :: "js \<Rightarrow> nonce_ledger \<Rightarrow> bool \<times> nonce_ledger" where
  "nonce_claim nonce consumed =
     (if nonce_has nonce consumed then (False, consumed) else (True, consumed @ [nonce]))"

definition nonce_size :: "nonce_ledger \<Rightarrow> nat" where
  "nonce_size consumed = length consumed"

text \<open>\<open>BigInt(Math.floor(clock() / 1000))\<close>.\<close>

definition nowSeconds :: "number \<Rightarrow> int result" where
  "nowSeconds clock = to_bigint (JNum (math_floor (num_div clock (Fin 1000))))"

section \<open>Request validation\<close>

definition THROWING_REQUIREMENT_FIELDS :: "string list" where
  "THROWING_REQUIREMENT_FIELDS = [''asset'', ''payTo'', ''maxAmountRequired'']"

definition first_missing :: "js \<Rightarrow> string option" where
  "first_missing requirements =
     List.find (\<lambda>field. type_of (get_opt requirements field) \<noteq> ''string'') THROWING_REQUIREMENT_FIELDS"

fun amount_text :: "js \<Rightarrow> string" where
  "amount_text (JStr s) = s"
| "amount_text v = to_text v"

text \<open>\<open>Inl\<close> the error text, or \<open>Inr\<close> the request.\<close>

definition validateRequest :: "js \<Rightarrow> string + js" where
  "validateRequest body =
     (if \<not> is_object body then Inl ''request body is not an object''
      else
        let payload = get_opt body ''paymentPayload'' in
        if \<not> is_object payload then Inl ''request carries no paymentPayload''
        else
          let requirements = get_opt body ''paymentRequirements'' in
          if \<not> is_object requirements then Inl ''request carries no paymentRequirements''
          else if \<not> is_object (get_opt payload ''authorization'')
          then Inl ''paymentPayload carries no authorization''
          else
            case first_missing requirements of
              Some field \<Rightarrow> Inl (''paymentRequirements.'' @ field @ '' is missing or not a string'')
            | None \<Rightarrow>
                if \<not> all_digits (amount_text (get_opt requirements ''maxAmountRequired''))
                then Inl ''paymentRequirements.maxAmountRequired is not a decimal integer''
                else Inr body)"

section \<open>The handler\<close>

record facilitator =
  consumed :: nonce_ledger
  fault :: "fault_mode option"
  settled :: "settlement_record list"

definition not_found :: facilitator_response where
  "not_found = fr 404 [(''error'', JStr ''not found'')]"

definition handle_fault :: "string \<Rightarrow> js \<Rightarrow> facilitator \<Rightarrow> facilitator_response \<times> facilitator" where
  "handle_fault method body st =
     (case fault st of
        None \<Rightarrow> (not_found, st)
      | Some mode \<Rightarrow>
          if method = ''GET'' then (fr 200 [(''mode'', JStr (fault_text mode))], st)
          else if method = ''POST'' then
            (case fault_of (get_opt body ''mode'') of
               None \<Rightarrow>
                 (fr 400 [(''error'', JStr ''unknown fault mode''),
                          (''known'', JArr (map (\<lambda>f. JStr (fault_text f)) FAULT))], st)
             | Some f \<Rightarrow> (fr 200 [(''mode'', JStr (fault_text f))], st\<lparr>fault := Some f\<rparr>))
          else (not_found, st))"

text \<open>An armed fault's answer, when it has one for this path.\<close>

definition injected :: "fault_mode option \<Rightarrow> string \<Rightarrow> facilitator_response option" where
  "injected armed path =
     (case armed of
        Some Unavailable \<Rightarrow>
          Some (fr 503 [(''error'', JStr ''facilitator unavailable''), (''injected'', JBool True)])
      | Some Verify_rejects \<Rightarrow>
          if path = ROUTE_Verify
          then Some (fr 200 [(''isValid'', JBool False), (''invalidReason'', JStr ''injected_fault''),
                             (''injected'', JBool True)])
          else None
      | Some Settle_fails \<Rightarrow>
          if path = ROUTE_Settle
          then Some (fr 200 [(''success'', JBool False), (''errorReason'', JStr ''injected_fault''),
                             (''injected'', JBool True)])
          else None
      | _ \<Rightarrow> None)"

fun outcome_js :: "verify_outcome \<Rightarrow> js" where
  "outcome_js (Invalid r) = JObj [(''isValid'', JBool False), (''invalidReason'', JStr (reason_text r))]"
| "outcome_js (Valid payer) = JObj [(''isValid'', JBool True), (''payer'', payer)]"

text \<open>A request that has reached \<open>await verifyPayment(...)\<close>.\<close>

record pending =
  pd_path :: string
  pd_request :: js
  pd_now :: int

datatype admission = Answered facilitator_response | Verifying pending

definition admit :: "string \<Rightarrow> string \<Rightarrow> js \<Rightarrow> number \<Rightarrow> facilitator \<Rightarrow> admission result \<times> facilitator" where
  "admit method path body clock st =
     (if method = ''GET'' \<and> path = ROUTE_Health then
        (Inr (Answered (fr 200 ([(''status'', JStr ''ok''), (''mode'', JStr ''mock'')] @
           (case fault st of None \<Rightarrow> [] | Some f \<Rightarrow> [(''fault'', JStr (fault_text f))])))), st)
      else if path = ROUTE_Fault then
        (let (r, st') = handle_fault method body st in (Inr (Answered r), st'))
      else
        case injected (fault st) path of
          Some r \<Rightarrow> (Inr (Answered r), st)
        | None \<Rightarrow>
            if method \<noteq> ''POST'' \<or> path \<noteq> ROUTE_Verify \<and> path \<noteq> ROUTE_Settle
            then (Inr (Answered not_found), st)
            else
              case validateRequest body of
                Inl e \<Rightarrow>
                  (Inr (Answered (fr 400 [(''error'', JStr e), (''reason'', JStr ''malformed_request'')])), st)
              | Inr request \<Rightarrow>
                  (and_then (nowSeconds clock) (\<lambda>now.
                     Inr (Verifying \<lparr>pd_path = path, pd_request = request, pd_now = now\<rparr>)), st))"

definition settle :: "(string \<Rightarrow> string) \<Rightarrow> js \<Rightarrow> js \<Rightarrow> facilitator \<Rightarrow> facilitator_response result \<times> facilitator" where
  "settle keccak payload payer st =
     (let authorization = get_opt payload ''authorization'';
          (fresh, ledger) = nonce_claim (get_opt authorization ''nonce'') (consumed st);
          st' = st\<lparr>consumed := ledger\<rparr> in
      if \<not> fresh
      then (Inr (fr 200 [(''success'', JBool False), (''errorReason'', JStr ''nonce_already_used'')]), st')
      else
        case simulatedTransactionHash keccak authorization of
          Inl e \<Rightarrow> (Inl e, st')
        | Inr transaction \<Rightarrow>
            (Inr (fr 200 [(''success'', JBool True), (''transaction'', JStr transaction),
                          (''network'', get_opt payload ''network''), (''payer'', payer)]),
             st'\<lparr>settled := settled st' @
               [\<lparr>sr_payer = nullish payer (JStr []), sr_to = get_opt authorization ''to'',
                 sr_value = get_opt authorization ''value'', sr_transaction = transaction\<rparr>]\<rparr>))"

definition finish ::
    "verify_typed_data \<Rightarrow> (string \<Rightarrow> string) \<Rightarrow> pending \<Rightarrow> facilitator
      \<Rightarrow> facilitator_response result \<times> facilitator" where
  "finish verify_typed keccak p st =
     (let payload = get_opt (pd_request p) ''paymentPayload'';
          requirements = get_opt (pd_request p) ''paymentRequirements'' in
      case verifyPayment verify_typed payload requirements (pd_now p) of
        Inl e \<Rightarrow> (Inl e, st)
      | Inr outcome \<Rightarrow>
          if pd_path p = ROUTE_Verify
          then (Inr \<lparr>fr_status = 200, fr_body = outcome_js outcome\<rparr>, st)
          else
            case outcome of
              Invalid r \<Rightarrow>
                (Inr (fr 200 [(''success'', JBool False), (''errorReason'', JStr (reason_text r))]), st)
            | Valid payer \<Rightarrow> settle keccak payload payer st)"

definition handle ::
    "verify_typed_data \<Rightarrow> (string \<Rightarrow> string) \<Rightarrow> string \<Rightarrow> string \<Rightarrow> js \<Rightarrow> number \<Rightarrow> facilitator
      \<Rightarrow> facilitator_response result \<times> facilitator" where
  "handle verify_typed keccak method path body clock st =
     (case admit method path body clock st of
        (Inl e, st') \<Rightarrow> (Inl e, st')
      | (Inr (Answered r), st') \<Rightarrow> (Inr r, st')
      | (Inr (Verifying p), st') \<Rightarrow> finish verify_typed keccak p st')"

section \<open>Single use\<close>

text \<open>A sequence of claims: the granted keys, in order, and the final state.\<close>

fun run_claims :: "('n \<Rightarrow> 's \<Rightarrow> bool \<times> 's) \<Rightarrow> 'n list \<Rightarrow> 's \<Rightarrow> 'n list \<times> 's" where
  "run_claims claim [] s = ([], s)"
| "run_claims claim (n # ns) s =
     (let (ok, s') = claim n s; (granted, s'') = run_claims claim ns s' in
      (if ok then n # granted else granted, s''))"

lemma run_claims_Cons:
  "fst (run_claims claim (n # ns) s) =
     (if fst (claim n s) then [n] else []) @ fst (run_claims claim ns (snd (claim n s)))"
  "snd (run_claims claim (n # ns) s) = snd (run_claims claim ns (snd (claim n s)))"
  by (simp_all add: Let_def split: prod.splits)

lemma run_claims_append:
  "run_claims claim (ns @ ms) s =
     (let (g, s') = run_claims claim ns s; (g', s'') = run_claims claim ms s' in (g @ g', s''))"
  by (induction ns arbitrary: s) (auto simp: Let_def split: prod.splits)

locale single_use =
  fixes claim :: "'n \<Rightarrow> 's \<Rightarrow> bool \<times> 's" and used :: "'n \<Rightarrow> 's \<Rightarrow> bool" and tracked :: "'n \<Rightarrow> bool"
  assumes claim_iff: "fst (claim n s) \<longleftrightarrow> \<not> used n s"
    and used_after: "tracked m \<Longrightarrow> used m (snd (claim n s)) \<longleftrightarrow> m = n \<or> used m s"
begin

lemma used_after_run:
  "tracked m \<Longrightarrow> used m (snd (run_claims claim ns s)) \<longleftrightarrow> m \<in> set ns \<or> used m s"
  by (induction ns arbitrary: s) (auto simp: run_claims_Cons used_after simp del: run_claims.simps(2))

lemma granted_unused:
  "tracked m \<Longrightarrow> m \<in> set (fst (run_claims claim ns s)) \<longleftrightarrow> m \<in> set ns \<and> \<not> used m s"
  by (induction ns arbitrary: s)
    (auto simp: run_claims_Cons used_after claim_iff simp del: run_claims.simps(2) split: if_splits)

lemma granted_once: "distinct (filter tracked (fst (run_claims claim ns s)))"
  by (induction ns arbitrary: s)
    (auto simp: run_claims_Cons used_after granted_unused simp del: run_claims.simps(2))

end

fun scalar :: "js \<Rightarrow> bool" where
  "scalar (JArr vs) = False"
| "scalar (JObj kvs) = False"
| "scalar v = True"

lemma same_value_scalar: "scalar v \<Longrightarrow> same_value_zero v w \<longleftrightarrow> v = w"
  by (cases v) auto

lemma nonce_has_scalar: "scalar n \<Longrightarrow> nonce_has n ledger \<longleftrightarrow> n \<in> set ledger"
  by (auto simp: nonce_has_def list_ex_iff same_value_scalar)

interpretation nonces: single_use nonce_claim nonce_has scalar
  by unfold_locales (auto simp: nonce_claim_def nonce_has_scalar)

text \<open>The ledger is the list of what it granted.\<close>

lemma nonce_run_ledger: "run_claims nonce_claim ns s = (granted, s') \<Longrightarrow> s' = s @ granted"
proof (induction ns arbitrary: s granted)
  case (Cons n ns)
  obtain ok t where c: "nonce_claim n s = (ok, t)" by force
  obtain g where g: "run_claims nonce_claim ns t = (g, s')" "granted = (if ok then n # g else g)"
    using Cons.prems c by (auto split: prod.splits)
  with Cons.IH [OF g(1)] c show ?case by (auto simp: nonce_claim_def split: if_splits)
qed simp

section \<open>Admission and settlement\<close>

lemma get_object: "is_object v \<Longrightarrow> get v k = Inr (get_opt v k)"
  by (cases v) (auto simp: get_opt_def)

definition well_formed :: "js \<Rightarrow> bool" where
  "well_formed request \<longleftrightarrow>
     is_object (get_opt request ''paymentPayload'') \<and>
     is_object (get_opt (get_opt request ''paymentPayload'') ''authorization'') \<and>
     is_object (get_opt request ''paymentRequirements'') \<and>
     (\<forall>f \<in> set THROWING_REQUIREMENT_FIELDS. \<exists>s. get_opt (get_opt request ''paymentRequirements'') f = JStr s) \<and>
     all_digits (amount_text (get_opt (get_opt request ''paymentRequirements'') ''maxAmountRequired''))"

lemma find_Some_not_all: "List.find P xs = Some x \<Longrightarrow> \<not> (\<forall>x \<in> set xs. \<not> P x)"
  by (auto simp: find_Some_iff)

lemma find_None_all: "List.find P xs = None \<longleftrightarrow> (\<forall>x \<in> set xs. \<not> P x)"
  by (auto simp: find_None_iff)

lemma validateRequest_Inr:
  "validateRequest body = Inr r \<longleftrightarrow> r = body \<and> is_object body \<and> well_formed body"
  by (auto simp: validateRequest_def Let_def well_formed_def first_missing_def find_None_all
      type_of_string dest!: find_Some_not_all split: option.splits if_splits)

lemma simulated_hash_object:
  "is_object a \<Longrightarrow> \<exists>t. simulatedTransactionHash keccak a = Inr t"
  by (simp add: simulatedTransactionHash_def get_object)

lemma admit_cases:
  assumes "admit method path body clock st = (res, st')"
  shows "(\<exists>r. res = Inr (Answered r)) \<and> consumed st' = consumed st \<and> settled st' = settled st \<or>
     st' = st \<and> (\<exists>e. res = Inl e) \<or>
     st' = st \<and> (\<exists>p. res = Inr (Verifying p) \<and> pd_request p = body \<and> is_object body \<and> well_formed body \<and>
        pd_path p = path \<and> path \<in> {ROUTE_Verify, ROUTE_Settle} \<and> nowSeconds clock = Inr (pd_now p))"
  using assms
  by (cases "nowSeconds clock")
    (auto simp: admit_def handle_fault_def validateRequest_Inr split: if_splits option.splits prod.splits sum.splits)

definition request_nonce :: "pending \<Rightarrow> js" where
  "request_nonce p = get_opt (get_opt (get_opt (pd_request p) ''paymentPayload'') ''authorization'') ''nonce''"

definition verified :: "verify_typed_data \<Rightarrow> pending \<Rightarrow> verify_outcome result" where
  "verified vt p = verifyPayment vt (get_opt (pd_request p) ''paymentPayload'')
     (get_opt (pd_request p) ''paymentRequirements'') (pd_now p)"

fun paid :: "facilitator_response result \<Rightarrow> bool" where
  "paid (Inr r) = (get_opt (fr_body r) ''success'' = JBool True)"
| "paid (Inl e) = False"

lemma outcome_not_paid: "get_opt (outcome_js oc) ''success'' = JUndef"
  by (cases oc) (auto simp: get_opt_def)

lemma finish_result:
  assumes "well_formed (pd_request p)" and "finish vt keccak p st = (res, st')"
  shows "paid res \<longleftrightarrow> pd_path p \<noteq> ROUTE_Verify \<and> (\<exists>payer. verified vt p = Inr (Valid payer)) \<and>
           \<not> nonce_has (request_nonce p) (consumed st)"
    and "\<not> paid res \<Longrightarrow> st' = st"
    and "paid res \<Longrightarrow> nonce_claim (request_nonce p) (consumed st) = (True, consumed st') \<and>
           (\<exists>r sr. res = Inr r \<and> settled st' = settled st @ [sr] \<and>
              get_opt (fr_body r) ''transaction'' = JStr (sr_transaction sr))"
proof -
  obtain t where t: "simulatedTransactionHash keccak
      (get_opt (get_opt (pd_request p) ''paymentPayload'') ''authorization'') = Inr t"
    using assms(1) simulated_hash_object unfolding well_formed_def by blast
  note unfold = finish_def settle_def verified_def request_nonce_def nonce_claim_def Let_def fr_def
  note reads = outcome_not_paid get_opt_def [of "JObj _"]
  show "paid res \<longleftrightarrow> pd_path p \<noteq> ROUTE_Verify \<and> (\<exists>payer. verified vt p = Inr (Valid payer)) \<and>
           \<not> nonce_has (request_nonce p) (consumed st)"
    using assms(2) t by (auto simp: unfold reads split: sum.splits if_splits verify_outcome.splits)
  show "st' = st" if "\<not> paid res"
    using that assms(2) t by (auto simp: unfold reads split: sum.splits if_splits verify_outcome.splits)
  show "nonce_claim (request_nonce p) (consumed st) = (True, consumed st') \<and>
           (\<exists>r sr. res = Inr r \<and> settled st' = settled st @ [sr] \<and>
              get_opt (fr_body r) ''transaction'' = JStr (sr_transaction sr))" if "paid res"
    using that assms(2) t by (auto simp: unfold reads split: sum.splits if_splits verify_outcome.splits)
qed

section \<open>Interleaved requests\<close>

text \<open>
  The server holds requests suspended at the await; \<open>answers\<close> records, for each one resumed,
  what it was answered.  Any suspended request may be resumed next.
\<close>

record facilitator_server =
  fac :: facilitator
  waiting :: "pending list"
  answers :: "(pending \<times> facilitator_response result) list"

definition fresh_server :: "fault_mode option \<Rightarrow> facilitator_server" where
  "fresh_server f = \<lparr>fac = \<lparr>consumed = [], fault = f, settled = []\<rparr>, waiting = [], answers = []\<rparr>"

inductive facilitator_step ::
    "verify_typed_data \<Rightarrow> (string \<Rightarrow> string) \<Rightarrow> facilitator_server \<Rightarrow> facilitator_server \<Rightarrow> bool"
  for vt :: verify_typed_data and keccak :: "string \<Rightarrow> string" where
  arrive: "admit method path body clock (fac s) = (res, f) \<Longrightarrow>
     facilitator_step vt keccak s
       (s\<lparr>fac := f, waiting := waiting s @ (case res of Inr (Verifying p) \<Rightarrow> [p] | _ \<Rightarrow> [])\<rparr>)"
| resume: "i < length (waiting s) \<Longrightarrow> finish vt keccak (waiting s ! i) (fac s) = (res, f) \<Longrightarrow>
     facilitator_step vt keccak s
       (s\<lparr>fac := f, waiting := take i (waiting s) @ drop (Suc i) (waiting s),
          answers := answers s @ [(waiting s ! i, res)]\<rparr>)"

inductive facilitator_run ::
    "verify_typed_data \<Rightarrow> (string \<Rightarrow> string) \<Rightarrow> facilitator_server \<Rightarrow> facilitator_server \<Rightarrow> bool"
  for vt :: verify_typed_data and keccak :: "string \<Rightarrow> string" and s0 :: facilitator_server where
  run_start: "facilitator_run vt keccak s0 s0"
| run_step: "facilitator_run vt keccak s0 s \<Longrightarrow> facilitator_step vt keccak s s' \<Longrightarrow>
     facilitator_run vt keccak s0 s'"

definition payments :: "facilitator_server \<Rightarrow> (pending \<times> facilitator_response result) list" where
  "payments s = filter (\<lambda>(p, r). paid r) (answers s)"

definition answered_transaction :: "facilitator_response result \<Rightarrow> js" where
  "answered_transaction r = (case r of Inl e \<Rightarrow> JUndef | Inr a \<Rightarrow> get_opt (fr_body a) ''transaction'')"

definition server_ok :: "verify_typed_data \<Rightarrow> facilitator_server \<Rightarrow> bool" where
  "server_ok vt s \<longleftrightarrow>
     (\<forall>p \<in> set (waiting s). well_formed (pd_request p)) \<and>
     (\<forall>(p, r) \<in> set (payments s). pd_path p \<noteq> ROUTE_Verify \<and> (\<exists>payer. verified vt p = Inr (Valid payer))) \<and>
     (\<exists>ns. run_claims nonce_claim ns [] = (map (request_nonce \<circ> fst) (payments s), consumed (fac s))) \<and>
     map (JStr \<circ> sr_transaction) (settled (fac s)) = map (answered_transaction \<circ> snd) (payments s)"

lemma server_ok_fresh: "server_ok vt (fresh_server f)"
  unfolding server_ok_def by (auto simp: fresh_server_def payments_def intro: exI [where x = "[]"])

lemma server_ok_arrive:
  assumes ok: "server_ok vt s" and admit: "admit method path body clock (fac s) = (res, f)"
  shows "server_ok vt (s\<lparr>fac := f, waiting := waiting s @ (case res of Inr (Verifying p) \<Rightarrow> [p] | _ \<Rightarrow> [])\<rparr>)"
  using ok admit_cases [OF admit] by (auto simp: server_ok_def payments_def)

lemma set_remove_nth: "set (take i xs @ drop (Suc i) xs) \<subseteq> set xs"
  using set_take_subset [of i xs] set_drop_subset [of "Suc i" xs] by auto

lemma server_ok_resume:
  assumes ok: "server_ok vt s" and i: "i < length (waiting s)"
    and fin: "finish vt keccak (waiting s ! i) (fac s) = (res, f)"
  shows "server_ok vt (s\<lparr>fac := f, waiting := take i (waiting s) @ drop (Suc i) (waiting s),
          answers := answers s @ [(waiting s ! i, res)]\<rparr>)"
    (is "server_ok vt ?s")
proof -
  let ?p = "waiting s ! i"
  have wf: "well_formed (pd_request ?p)" using ok i by (simp add: server_ok_def)
  note result = finish_result [OF wf fin]
  have waiting: "\<forall>p \<in> set (waiting ?s). well_formed (pd_request p)"
    using ok set_remove_nth [of i "waiting s"] by (auto simp: server_ok_def)
  from ok obtain ns where ns:
    "run_claims nonce_claim ns [] = (map (request_nonce \<circ> fst) (payments s), consumed (fac s))"
    by (auto simp: server_ok_def)
  show ?thesis
  proof (cases "paid res")
    case False
    then have "payments ?s = payments s" "f = fac s" using result(2) by (simp_all add: payments_def)
    then show ?thesis using ok waiting unfolding server_ok_def by simp
  next
    case True
    then have pay: "payments ?s = payments s @ [(?p, res)]" by (simp add: payments_def)
    from result(3) [OF True] obtain r sr where c: "nonce_claim (request_nonce ?p) (consumed (fac s)) = (True, consumed f)"
      and r: "res = Inr r" "settled f = settled (fac s) @ [sr]"
        "get_opt (fr_body r) ''transaction'' = JStr (sr_transaction sr)"
      by blast
    have "run_claims nonce_claim (ns @ [request_nonce ?p]) [] =
        (map (request_nonce \<circ> fst) (payments ?s), consumed f)"
      by (simp add: run_claims_append ns c pay)
    moreover have "map (JStr \<circ> sr_transaction) (settled f) = map (answered_transaction \<circ> snd) (payments ?s)"
      unfolding pay using ok r by (simp add: server_ok_def answered_transaction_def)
    moreover have "\<forall>(p, r) \<in> set (payments ?s). pd_path p \<noteq> ROUTE_Verify \<and>
        (\<exists>payer. verified vt p = Inr (Valid payer))"
      using ok result(1) True by (auto simp: server_ok_def pay)
    ultimately show ?thesis using waiting unfolding server_ok_def by auto
  qed
qed

lemma server_ok_run:
  assumes "facilitator_run vt keccak (fresh_server f) s"
  shows "server_ok vt s"
  using assms
proof induction
  case run_start
  show ?case by (rule server_ok_fresh)
next
  case (run_step s s')
  from run_step.hyps(2) run_step.IH show ?case
    by cases (auto intro: server_ok_arrive server_ok_resume)
qed

text \<open>A nonce's uses across every interleaving.\<close>

lemma run_nonces_once:
  assumes "facilitator_run vt keccak (fresh_server f) s"
  shows "distinct (filter scalar (map (request_nonce \<circ> fst) (payments s)))"
proof -
  from server_ok_run [OF assms] obtain ns where
    "run_claims nonce_claim ns [] = (map (request_nonce \<circ> fst) (payments s), consumed (fac s))"
    by (auto simp: server_ok_def)
  with nonces.granted_once [of ns "[]"] show ?thesis by simp
qed

text \<open>The two steps as functions, to run examples.\<close>

definition arrive_at :: "string \<Rightarrow> string \<Rightarrow> js \<Rightarrow> number \<Rightarrow> facilitator_server \<Rightarrow> facilitator_server" where
  "arrive_at method path body clock s =
     (let (res, f) = admit method path body clock (fac s) in
      s\<lparr>fac := f, waiting := waiting s @ (case res of Inr (Verifying p) \<Rightarrow> [p] | _ \<Rightarrow> [])\<rparr>)"

definition resume_at ::
    "verify_typed_data \<Rightarrow> (string \<Rightarrow> string) \<Rightarrow> nat \<Rightarrow> facilitator_server \<Rightarrow> facilitator_server" where
  "resume_at vt keccak i s =
     (if i < length (waiting s)
      then let (res, f) = finish vt keccak (waiting s ! i) (fac s) in
        s\<lparr>fac := f, waiting := take i (waiting s) @ drop (Suc i) (waiting s),
          answers := answers s @ [(waiting s ! i, res)]\<rparr>
      else s)"

lemma run_arrive_at:
  "facilitator_run vt keccak s0 s \<Longrightarrow> facilitator_run vt keccak s0 (arrive_at method path body clock s)"
  by (auto simp: arrive_at_def split: prod.splits intro: run_step facilitator_step.arrive)

lemma run_resume_at:
  "facilitator_run vt keccak s0 s \<Longrightarrow> facilitator_run vt keccak s0 (resume_at vt keccak i s)"
  by (auto simp: resume_at_def split: prod.splits intro: run_step facilitator_step.resume)

section \<open>Properties\<close>

definition sample_body :: "string \<Rightarrow> js" where
  "sample_body nonce = JObj
     [(''paymentPayload'', JObj (sample_payload (JObj (sample_authorization nonce)))),
      (''paymentRequirements'', JObj sample_requirements)]"

text \<open>Two settlements of one nonce arrive before either resumes, then the second resumes first.\<close>

definition sample_race :: facilitator_server where
  "sample_race =
     resume_at (\<lambda>_ _ _. Inr True) id 0 (resume_at (\<lambda>_ _ _. Inr True) id 1
       (arrive_at ''POST'' ''/settle'' (sample_body ''0xn'') (Fin 7000)
         (arrive_at ''POST'' ''/settle'' (sample_body ''0xn'') (Fin 7500) (fresh_server None))))"

lemma sample_race_run: "facilitator_run (\<lambda>_ _ _. Inr True) id (fresh_server None) sample_race"
  unfolding sample_race_def by (intro run_resume_at run_arrive_at run_start)

lemma sample_race_answers:
  "map (\<lambda>(p, r). (request_nonce p, paid r)) (answers sample_race) = [(JStr ''0xn'', True), (JStr ''0xn'', False)]"
  by code_simp

text \<open>C3: In every interleaving of concurrent requests, no text nonce is paid for twice: among all
  settlements answered with success, the nonces that are compared by value are pairwise distinct.\<close>

theorem nonce_settles_once:
  assumes "facilitator_run vt keccak (fresh_server f) s"
  shows "distinct (filter scalar (map (request_nonce \<circ> fst) (payments s)))"
  by (rule run_nonces_once [OF assms])

lemma nonce_settles_once_witness:
  "map (\<lambda>(p, r). (request_nonce p, paid r)) (answers sample_race) = [(JStr ''0xn'', True), (JStr ''0xn'', False)] \<and>
     distinct (filter scalar (map (request_nonce \<circ> fst) (payments sample_race)))"
  using sample_race_answers nonce_settles_once [OF sample_race_run] by simp

text \<open>Every success is accounted for: in every interleaving each settlement answered with success
  was for a payment that verifies at the time it was admitted, the ledger holds exactly the nonces
  of those settlements in order, and the settlement log carries the transactions they were answered
  with, one for one.\<close>

theorem settlements_accounted:
  assumes "facilitator_run vt keccak (fresh_server f) s"
  shows "list_all (\<lambda>(p, r). pd_path p \<noteq> ROUTE_Verify \<and> (\<exists>payer. verified vt p = Inr (Valid payer))) (payments s) \<and>
     consumed (fac s) = map (request_nonce \<circ> fst) (payments s) \<and>
     map (JStr \<circ> sr_transaction) (settled (fac s)) = map (answered_transaction \<circ> snd) (payments s)"
  using server_ok_run [OF assms] nonce_run_ledger by (fastforce simp: server_ok_def list_all_iff)

lemma settlements_accounted_witness:
  "list_all (\<lambda>(p, r). pd_path p \<noteq> ROUTE_Verify \<and>
      (\<exists>payer. verified (\<lambda>_ _ _. Inr True) p = Inr (Valid payer))) (payments sample_race) \<and>
   consumed (fac sample_race) = map (request_nonce \<circ> fst) (payments sample_race) \<and>
   map (JStr \<circ> sr_transaction) (settled (fac sample_race)) = map (answered_transaction \<circ> snd) (payments sample_race)"
  by (rule settlements_accounted [OF sample_race_run])

text \<open>C21: Settling a well-formed request with no fault armed succeeds exactly when the payment verifies
  and its nonce is unused; a success records the nonce and anything else leaves the facilitator as it
  was, so a failed settlement can be retried.\<close>

theorem settle_exactly_when:
  assumes "is_object body" and "well_formed body" and "injected (fault st) ''/settle'' = None"
    and "nowSeconds clock = Inr now"
    and "handle vt keccak ''POST'' ''/settle'' body clock st = (res, st')"
  shows "(paid res \<longleftrightarrow>
      (\<exists>payer. verifyPayment vt (get_opt body ''paymentPayload'') (get_opt body ''paymentRequirements'') now = Inr (Valid payer)) \<and>
      \<not> nonce_has (get_opt (get_opt (get_opt body ''paymentPayload'') ''authorization'') ''nonce'') (consumed st)) \<and>
    consumed st' = consumed st @
      (if paid res then [get_opt (get_opt (get_opt body ''paymentPayload'') ''authorization'') ''nonce''] else []) \<and>
    (\<not> paid res \<longrightarrow> st' = st)"
proof -
  let ?p = "\<lparr>pd_path = ''/settle'', pd_request = body, pd_now = now\<rparr>"
  have "validateRequest body = Inr body" using assms(1,2) by (simp add: validateRequest_Inr)
  then have fin: "finish vt keccak ?p st = (res, st')"
    using assms(3-5) by (simp add: handle_def admit_def route_defs)
  have wf: "well_formed (pd_request ?p)" using assms(2) by simp
  note result = finish_result [OF wf fin, unfolded verified_def request_nonce_def, simplified]
  show ?thesis
    using result by (auto simp: route_defs nonce_claim_def split: if_splits)
qed

lemma settle_exactly_when_witness:
  "paid (fst (handle (\<lambda>_ _ _. Inr True) id ''POST'' ''/settle'' (sample_body ''0xn'') (Fin 7000) (fac (fresh_server None)))) \<longleftrightarrow>
    (\<exists>payer. verifyPayment (\<lambda>_ _ _. Inr True) (get_opt (sample_body ''0xn'') ''paymentPayload'')
       (get_opt (sample_body ''0xn'') ''paymentRequirements'') 7 = Inr (Valid payer)) \<and>
    \<not> nonce_has (get_opt (get_opt (get_opt (sample_body ''0xn'') ''paymentPayload'') ''authorization'') ''nonce'')
        (consumed (fac (fresh_server None)))"
proof -
  have wf: "validateRequest (sample_body ''0xn'') = Inr (sample_body ''0xn'')" by code_simp
  have armed: "injected (fault (fac (fresh_server None))) ''/settle'' = None" by code_simp
  have clock: "nowSeconds (Fin 7000) = Inr 7" by code_simp
  show ?thesis
    using settle_exactly_when [OF _ _ armed clock prod.collapse [symmetric]] wf
    by (simp add: validateRequest_Inr)
qed

text \<open>Only a settlement or a fault command changes the facilitator: every other request, verification
  included, leaves ledger, log and armed fault untouched.\<close>

theorem verification_pure:
  assumes "path \<notin> {''/settle'', ''/fault''}"
  shows "snd (handle vt keccak method path body clock st) = st"
proof -
  obtain res st' where adm: "admit method path body clock st = (res, st')" by force
  have "st' = st" using adm assms by (auto simp: admit_def route_defs split: if_splits option.splits sum.splits)
  then show ?thesis using admit_cases [OF adm] adm assms
    by (auto simp: handle_def finish_def Let_def route_defs split: sum.splits admission.splits)
qed

lemma verification_pure_witness:
  "snd (handle (\<lambda>_ _ _. Inr True) id ''POST'' ''/verify'' (sample_body ''0xn'') (Fin 7000) (fac (fresh_server None))) =
     fac (fresh_server None)"
  by (rule verification_pure) simp

text \<open>A deployment without fault injection answers \<open>/fault\<close> with the very response it gives any
  unknown route, whatever the method and body, and never acquires a fault.\<close>

theorem fault_control_hidden:
  assumes "fault st = None" and "unknown \<notin> {''/verify'', ''/settle'', ''/healthz'', ''/fault''}"
  shows "handle vt keccak method ''/fault'' body clock st = handle vt keccak method unknown body' clock' st \<and>
     fault (snd (handle vt keccak method path body clock st)) = None"
proof
  show "handle vt keccak method ''/fault'' body clock st = handle vt keccak method unknown body' clock' st"
    using assms by (simp add: handle_def admit_def handle_fault_def route_defs injected_def)
  obtain res st' where adm: "admit method path body clock st = (res, st')" by force
  then have "fault st' = None"
    using assms(1) by (auto simp: admit_def handle_fault_def split: if_splits option.splits sum.splits)
  moreover have "fault (snd (settle keccak payload payer st')) = fault st'" for payload payer
    by (simp add: settle_def Let_def split: prod.splits sum.splits)
  ultimately show "fault (snd (handle vt keccak method path body clock st)) = None"
    by (simp add: handle_def adm finish_def Let_def split: sum.splits admission.splits verify_outcome.splits)
qed

lemma fault_control_hidden_witness:
  "handle (\<lambda>_ _ _. Inr True) id ''POST'' ''/fault'' JNull (Fin 0) (fac (fresh_server None)) =
     handle (\<lambda>_ _ _. Inr True) id ''POST'' ''/nowhere'' JNull (Fin 0) (fac (fresh_server None)) \<and>
   fault (snd (handle (\<lambda>_ _ _. Inr True) id ''POST'' ''/settle'' JNull (Fin 0) (fac (fresh_server None)))) = None"
  by (rule fault_control_hidden) (simp_all add: fresh_server_def)

end
