(* ===== verification/Facilitator_Server.thy ===== *)
theory Facilitator_Server
  imports Facilitator Http
begin

text \<open>
  \<open>facilitator/src/index.ts\<close>: the server around the handler.  A request is its method, its target,
  and its body stream; whatever the handler throws becomes a 500.
\<close>

record server_request =
  sq_method :: "string option"
  sq_url :: "string option"
  sq_body :: body_stream

text \<open>\<open>Buffer.toString('utf8')\<close> keeps a byte order mark, unlike \<open>TextDecoder\<close>; a failed parse and a
  broken stream both give null.\<close>

fun json_chunks :: "exn option \<Rightarrow> nat \<Rightarrow> bytes list \<Rightarrow> bytes list \<Rightarrow> js" where
  "json_chunks err n acc [] =
     (case err of
        Some e \<Rightarrow> JNull
      | None \<Rightarrow> (case json_parse (utf8_replace (concat acc)) of Inl _ \<Rightarrow> JNull | Inr v \<Rightarrow> v))"
| "json_chunks err n acc (c # cs) =
     (if n + length c > MAX_BODY_BYTES then JNull else json_chunks err (n + length c) (acc @ [c]) cs)"

definition readJson :: "body_stream \<Rightarrow> js" where
  "readJson req = json_chunks (broken req) 0 [] (chunks req)"

definition faultInjectionEnabled :: "(string \<Rightarrow> string option) \<Rightarrow> bool" where
  "faultInjectionEnabled penv \<longleftrightarrow>
     map_option (\<lambda>v. to_lower (trim v)) (penv ''FACILITATOR_FAULT_INJECTION'') = Some ''true''"

definition start_facilitator :: "(string \<Rightarrow> string option) \<Rightarrow> facilitator" where
  "start_facilitator penv =
     \<lparr>consumed = [], fault = (if faultInjectionEnabled penv then Some Fault_none else None), settled = []\<rparr>"

definition DEFAULT_FACILITATOR_PORT :: nat where
  "DEFAULT_FACILITATOR_PORT = 8095"

definition facilitator_port :: "(string \<Rightarrow> string option) \<Rightarrow> number" where
  "facilitator_port penv =
     (case map_option trim (penv ''FACILITATOR_PORT'') of
        None \<Rightarrow> string_to_number (nat_text DEFAULT_FACILITATOR_PORT)
      | Some v \<Rightarrow> string_to_number (if v = [] then nat_text DEFAULT_FACILITATOR_PORT else v))"

text \<open>What is written: the status and the JSON text.\<close>

definition facilitator_serve ::
    "verify_typed_data \<Rightarrow> (string \<Rightarrow> string) \<Rightarrow> number \<Rightarrow> server_request \<Rightarrow> facilitator
      \<Rightarrow> (nat \<times> string) \<times> facilitator" where
  "facilitator_serve verify_typed keccak clock req st =
     (let body = (if sq_method req = Some ''POST'' then readJson (sq_body req) else JNull);
          method = (case sq_method req of None \<Rightarrow> ''GET'' | Some m \<Rightarrow> m);
          url = (case sq_url req of None \<Rightarrow> ''/'' | Some u \<Rightarrow> u) in
      case handle verify_typed keccak method url body clock st of
        (Inr response, st') \<Rightarrow> ((fr_status response, stringify (fr_body response)), st')
      | (Inl e, st') \<Rightarrow>
          ((500, stringify (JObj [(''error'', JStr ''facilitator error''), (''reason'', JStr ''facilitator_error'')])), st'))"

section \<open>Lemmas\<close>

lemma json_chunks_eq:
  "n \<le> MAX_BODY_BYTES \<Longrightarrow>
   json_chunks err n acc cs =
     (if n + length (concat cs) > MAX_BODY_BYTES \<or> err \<noteq> None then JNull
      else case json_parse (utf8_replace (concat acc @ concat cs)) of Inl _ \<Rightarrow> JNull | Inr v \<Rightarrow> v)"
  by (induction cs arbitrary: n acc) (auto split: option.splits)

lemma readJson_encoded:
  assumes "json_ok v" and "length (json_body v) \<le> MAX_BODY_BYTES"
    and "concat (chunks req) = json_body v" and "broken req = None"
  shows "readJson req = v"
proof -
  have "utf8_wf (stringify v)"
    using plain_text_stringify [OF assms(1)] by (simp add: plain_text_def)
  then show ?thesis
    using assms json_parse_stringify [OF assms(1)] by (simp add: readJson_def json_chunks_eq json_body_def)
qed

end
