(* ===== verification/X402.thy ===== *)
theory X402
  imports Wire
begin

text \<open>
  \<open>merchant/src/x402.ts\<close>: the header codec and the decoding of a payment payload.  Header
  encoding interprets \<open>codec\<close> through the layers of \<open>Wire\<close>.
\<close>

definition X402_PaymentRequired :: string where
  "X402_PaymentRequired = ''payment-required''"

definition X402_PaymentSignature :: string where
  "X402_PaymentSignature = ''payment-signature''"

definition X402_PaymentResponse :: string where
  "X402_PaymentResponse = ''payment-response''"

definition X402_AttributionAssertion :: string where
  "X402_AttributionAssertion = ''x-attribution-assertion''"

lemmas x402_headers = X402_PaymentRequired_def X402_PaymentSignature_def X402_PaymentResponse_def
  X402_AttributionAssertion_def

definition encodeHeaderJson :: "js \<Rightarrow> string" where
  "encodeHeaderJson v = btoa (utf8_encode (stringify v))"

definition decodeHeaderJson :: "string \<Rightarrow> js result" where
  "decodeHeaderJson encoded =
     and_then (base64_bytes encoded) (\<lambda>bytes. json_parse (text_decode bytes))"

definition decodeAssertionHeader :: "string \<Rightarrow> js result" where
  "decodeAssertionHeader encoded = decodeHeaderJson encoded"

definition AUTHORIZATION_FIELDS :: "string list" where
  "AUTHORIZATION_FIELDS = [''from'', ''to'', ''value'', ''validAfter'', ''validBefore'', ''nonce'']"

definition missing_field :: "js \<Rightarrow> string option" where
  "missing_field authorization =
     List.find (\<lambda>field. type_of (get_opt authorization field) \<noteq> ''string'') AUTHORIZATION_FIELDS"

definition decodePaymentHeader :: "string \<Rightarrow> js result" where
  "decodePaymentHeader encoded =
     and_then (decodeHeaderJson encoded) (\<lambda>decoded.
       if \<not> is_object decoded then Inl (Malformed_payment_error ''payment payload is not an object'')
       else
         let authorization = get_opt decoded ''authorization'' in
         if \<not> is_object authorization
         then Inl (Malformed_payment_error ''payment payload carries no authorization'')
         else
           case missing_field authorization of
             Some field \<Rightarrow>
               Inl (Malformed_payment_error (''authorization.'' @ field @ '' is missing or not a string''))
           | None \<Rightarrow>
               if type_of (get_opt decoded ''signature'') \<noteq> ''string'' \<or> get_opt decoded ''signature'' = JStr []
               then Inl (Malformed_payment_error ''payment payload carries no signature'')
               else Inr decoded)"

section \<open>Lemmas\<close>

lemma decodeHeaderJson_chain:
  "decodeHeaderJson h = and_then (and_then (base64_bytes h) decode_text) json_parse"
  by (cases "base64_bytes h") (simp_all add: decodeHeaderJson_def decode_text_def)

interpretation header_json: codec encodeHeaderJson decodeHeaderJson json_ok
  by unfold_locales (simp add: encodeHeaderJson_def decodeHeaderJson_chain header_round_trip)

text \<open>A payload with every field the merchant reads.\<close>

definition payment_shaped :: "js \<Rightarrow> bool" where
  "payment_shaped payment \<longleftrightarrow>
     is_object payment \<and> is_object (get_opt payment ''authorization'') \<and>
     (\<forall>f \<in> set AUTHORIZATION_FIELDS. \<exists>s. get_opt (get_opt payment ''authorization'') f = JStr s) \<and>
     (\<exists>s. get_opt payment ''signature'' = JStr s \<and> s \<noteq> [])"

lemma missing_field_None:
  "missing_field a = None \<longleftrightarrow> (\<forall>f \<in> set AUTHORIZATION_FIELDS. \<exists>s. get_opt a f = JStr s)"
  by (auto simp: missing_field_def find_None_iff type_of_string)

lemma decodePaymentHeader_Inr:
  "decodePaymentHeader h = Inr payment \<longleftrightarrow> decodeHeaderJson h = Inr payment \<and> payment_shaped payment"
proof (cases "decodeHeaderJson h")
  case (Inr v)
  have "missing_field (get_opt v ''authorization'') = None \<or> (\<exists>f. missing_field (get_opt v ''authorization'') = Some f)"
    by (cases "missing_field (get_opt v ''authorization'')") auto
  then show ?thesis
    using missing_field_None [of "get_opt v ''authorization''"]
    by (auto simp: decodePaymentHeader_def Inr Let_def payment_shaped_def type_of_string)
qed (simp add: decodePaymentHeader_def)

lemma payment_header_error:
  "decodePaymentHeader h = Inl e \<Longrightarrow>
     decodeHeaderJson h = Inl e \<or> (\<exists>m. e = Malformed_payment_error m)"
  by (cases "decodeHeaderJson h") (auto simp: decodePaymentHeader_def Let_def split: if_splits option.splits)

text \<open>An encoded value is a header that is present.\<close>

lemma decode_empty: "\<not> is_ok (decodeHeaderJson [])"
  by code_simp

lemma encodeHeaderJson_nonempty: "json_ok v \<Longrightarrow> encodeHeaderJson v \<noteq> []"
  using header_json.decode_encode [of v] decode_empty by (auto simp: is_ok_iff)

lemma decode_error_kind: "decodeHeaderJson h = Inl e \<Longrightarrow> e \<noteq> Malformed_payment_error m"
  by (auto simp: decodeHeaderJson_def result_simps base64_bytes_def json_parse_def
      split: option.splits prod.splits if_splits)

section \<open>Properties\<close>

text \<open>Headers carry JSON intact: any value with well-formed text, exactly represented numbers and
  no repeated key decodes from its encoding to itself, so quotes, commas and non-ASCII text survive.\<close>

theorem header_json_round_trip:
  assumes "json_ok v"
  shows "decodeHeaderJson (encodeHeaderJson v) = Inr v"
  by (rule header_json.decode_encode [OF assms])

lemma header_json_round_trip_witness:
  "decodeHeaderJson (encodeHeaderJson (JObj [(''title'', JStr [CHR ''a'', CHR 0x22, chr 195, chr 169]), (''cents'', jint 1299)])) =
     Inr (JObj [(''title'', JStr [CHR ''a'', CHR 0x22, chr 195, chr 169]), (''cents'', jint 1299)])"
  by (rule header_json_round_trip) code_simp

text \<open>A payment header is accepted exactly when it decodes to an object carrying an authorization
  whose six fields are texts and a non-empty signature; a decodable header of any other shape is
  refused as a malformed payment and never by a TypeError.\<close>

theorem payment_header_accepted_iff:
  "(decodePaymentHeader h = Inr payment \<longleftrightarrow>
      decodeHeaderJson h = Inr payment \<and> is_object payment \<and> is_object (get_opt payment ''authorization'') \<and>
      list_all (\<lambda>f. type_of (get_opt (get_opt payment ''authorization'') f) = ''string'')
        [''from'', ''to'', ''value'', ''validAfter'', ''validBefore'', ''nonce''] \<and>
      type_of (get_opt payment ''signature'') = ''string'' \<and> get_opt payment ''signature'' \<noteq> JStr []) \<and>
   ((\<exists>e. decodePaymentHeader h = Inl e \<and> (\<nexists>m. e = Malformed_payment_error m)) \<longleftrightarrow> \<not> is_ok (decodeHeaderJson h))"
proof
  show "decodePaymentHeader h = Inr payment \<longleftrightarrow>
      decodeHeaderJson h = Inr payment \<and> is_object payment \<and> is_object (get_opt payment ''authorization'') \<and>
      list_all (\<lambda>f. type_of (get_opt (get_opt payment ''authorization'') f) = ''string'')
        [''from'', ''to'', ''value'', ''validAfter'', ''validBefore'', ''nonce''] \<and>
      type_of (get_opt payment ''signature'') = ''string'' \<and> get_opt payment ''signature'' \<noteq> JStr []"
    unfolding decodePaymentHeader_Inr payment_shaped_def AUTHORIZATION_FIELDS_def
    by (auto simp: type_of_string)
  show "(\<exists>e. decodePaymentHeader h = Inl e \<and> (\<nexists>m. e = Malformed_payment_error m)) \<longleftrightarrow> \<not> is_ok (decodeHeaderJson h)"
    using decode_error_kind [of h] by (cases "decodeHeaderJson h")
      (auto simp: decodePaymentHeader_def Let_def split: if_splits option.splits)
qed

end
