(* ===== verification/Catalog.thy ===== *)
theory Catalog
  imports Json
begin

text \<open>
  \<open>merchant/src/catalog.ts\<close>: the listing query.  node-postgres is the parameter
  \<open>query text parameters\<close>, which answers rows or fails; \<open>findListing\<close> builds the statement and
  its parameters and takes the first row.  The locale \<open>listing_source\<close> is what the merchant
  relies on, interpreted on \<open>findListing\<close> over \<open>select_listings\<close>, the meaning of the statement
  on a table.
\<close>

record listing_row =
  row_listing_id :: string
  row_product_id :: string
  row_merchant_id :: string
  row_listing_title :: string
  row_price_cents :: string
  row_currency :: string
  row_in_stock :: bool

record listing =
  listingId :: string
  productId :: string
  merchantId :: string
  listingTitle :: string
  priceCents :: number
  currency :: string
  inStock :: bool

type_synonym 'w pg_query = "string \<Rightarrow> js list \<Rightarrow> ('w, exn, listing_row list) io"

text \<open>The statement's text, its line breaks and indentation apart.\<close>

definition listing_statement :: "bool \<Rightarrow> string" where
  "listing_statement filtered =
     ''SELECT listing_id, product_id, merchant_id, listing_title, price_cents, currency, in_stock'' @
     '' FROM listings WHERE product_id = $1'' @ (if filtered then '' AND merchant_id = $2'' else []) @
     '' ORDER BY in_stock DESC, price_cents ASC LIMIT 1''"

definition listing_of :: "listing_row \<Rightarrow> listing" where
  "listing_of row =
     \<lparr>listingId = row_listing_id row, productId = row_product_id row, merchantId = row_merchant_id row,
      listingTitle = row_listing_title row, priceCents = string_to_number (row_price_cents row),
      currency = row_currency row, inStock = row_in_stock row\<rparr>"

definition findListing :: "'w pg_query \<Rightarrow> string \<Rightarrow> js \<Rightarrow> ('w, exn, listing option) io" where
  "findListing query merchant wanted =
     (let filtered = (merchant \<noteq> []);
          parameters = wanted # (if filtered then [JStr merchant] else []) in
      bind_io (query (listing_statement filtered) parameters) (\<lambda>rows.
        ret (case rows of [] \<Rightarrow> None | row # _ \<Rightarrow> Some (listing_of row))))"

section \<open>The statement on a table\<close>

text \<open>The table in scan order, its prices as integers.  Rows equal in stock and price come in scan
  order, which PostgreSQL does not promise; any scan order is some list.\<close>

record stored_listing =
  st_listing_id :: string
  st_product_id :: string
  st_merchant_id :: string
  st_listing_title :: string
  st_price_cents :: int
  st_currency :: string
  st_in_stock :: bool

definition row_of :: "stored_listing \<Rightarrow> listing_row" where
  "row_of r =
     \<lparr>row_listing_id = st_listing_id r, row_product_id = st_product_id r, row_merchant_id = st_merchant_id r,
      row_listing_title = st_listing_title r, row_price_cents = int_text (st_price_cents r),
      row_currency = st_currency r, row_in_stock = st_in_stock r\<rparr>"

text \<open>\<open>ORDER BY in_stock DESC, price_cents ASC\<close>: earlier in the order.\<close>

definition listed_before :: "stored_listing \<Rightarrow> stored_listing \<Rightarrow> bool" where
  "listed_before r s \<longleftrightarrow>
     st_in_stock r \<and> \<not> st_in_stock s \<or> st_in_stock r = st_in_stock s \<and> st_price_cents r < st_price_cents s"

fun first_listed :: "stored_listing list \<Rightarrow> stored_listing option" where
  "first_listed [] = None"
| "first_listed (r # rs) =
     (case first_listed rs of None \<Rightarrow> Some r | Some s \<Rightarrow> Some (if listed_before s r then s else r))"

definition select_listings :: "stored_listing list \<Rightarrow> 'w pg_query" where
  "select_listings table text parameters =
     (let wanted = (\<lambda>r. case parameters of
            [p] \<Rightarrow> JStr (st_product_id r) = p
          | [p, m] \<Rightarrow> JStr (st_product_id r) = p \<and> JStr (st_merchant_id r) = m
          | _ \<Rightarrow> False) in
      ret (case first_listed (filter wanted table) of None \<Rightarrow> [] | Some r \<Rightarrow> [row_of r]))"

lemma first_listed_None: "first_listed rs = None \<longleftrightarrow> rs = []"
  by (cases rs) (auto split: option.splits)

lemma first_listed_Some:
  "first_listed rs = Some r \<Longrightarrow> r \<in> set rs \<and> (\<forall>s \<in> set rs. \<not> listed_before s r)"
proof (induction rs arbitrary: r)
  case (Cons q rs)
  show ?case
  proof (cases "first_listed rs")
    case None
    then show ?thesis using Cons.prems by (auto simp: first_listed_None listed_before_def)
  next
    case (Some s)
    then show ?thesis using Cons.prems Cons.IH [OF Some]
      by (fastforce simp: listed_before_def split: if_splits)
  qed
qed simp

text \<open>A price that is an exact double reads back.\<close>

lemma string_to_number_int_text:
  assumes "0 \<le> n" and "n < 2 ^ 53"
  shows "string_to_number (int_text n) = num_of_int n"
proof -
  let ?s = "nat_text (nat n)"
  have shown: "int_text n = ?s" using assms(1) by (simp add: int_text_def)
  have prefixes: "\<not> starts_with p ?s" if "p \<in> {''0x'', ''0X'', ''0o'', ''0O'', ''0b'', ''0B'', ''-'', ''+''}" for p
    using that by (intro all_digits_no_prefix all_digits_nat_text) (auto simp: is_digit_def)
  have "?s \<noteq> ''Infinity''"
  proof
    assume infinite: "?s = ''Infinity''"
    have "all_digits ?s" by simp
    then show False unfolding infinite by (simp add: all_digits_def is_digit_def)
  qed
  moreover have "?s \<noteq> []" by simp
  moreover have "decimal_value True ?s = Some (of_int n)"
    using assms(1) by (simp add: decimal_value_loose_digits nat_text_value)
  moreover have "to_double (of_int n) = num_of_int n" using assms by (intro to_double_int) simp
  ultimately show ?thesis
    using prefixes by (simp add: string_to_number_def shown trim_all_digits Let_def)
qed

section \<open>The contract\<close>

locale listing_source =
  fixes find :: "string \<Rightarrow> string \<Rightarrow> listing option" and offers :: "listing set"
  assumes sound: "find m p = Some l \<Longrightarrow> l \<in> offers \<and> productId l = p \<and> (m \<noteq> [] \<longrightarrow> merchantId l = m)"
    and best: "find m p = Some l \<Longrightarrow> l' \<in> offers \<Longrightarrow> productId l' = p \<Longrightarrow> (m \<noteq> [] \<Longrightarrow> merchantId l' = m) \<Longrightarrow>
        inStock l' \<Longrightarrow> inStock l \<and> \<not> num_less (priceCents l') (priceCents l)"
    and complete: "find m p = None \<Longrightarrow> l \<in> offers \<Longrightarrow> productId l = p \<Longrightarrow> m \<noteq> [] \<and> merchantId l \<noteq> m"
begin

lemma unpinned_found: "l \<in> offers \<Longrightarrow> \<exists>l'. find [] (productId l) = Some l' \<and> productId l' = productId l"
  using complete [of "[]" "productId l" l] sound by (cases "find [] (productId l)") auto

lemma out_of_stock: "find [] p = Some l \<Longrightarrow> \<not> inStock l \<Longrightarrow> l' \<in> offers \<Longrightarrow> productId l' = p \<Longrightarrow> \<not> inStock l'"
  using best [of "[]" p l l'] by auto

end

definition found_listing :: "stored_listing list \<Rightarrow> string \<Rightarrow> string \<Rightarrow> listing option" where
  "found_listing table merchant product =
     (case fst (findListing (select_listings table) merchant (JStr product) ()) of
        Inr l \<Rightarrow> l | Inl _ \<Rightarrow> None)"

definition priced :: "stored_listing list \<Rightarrow> bool" where
  "priced table \<longleftrightarrow> (\<forall>r \<in> set table. 0 \<le> st_price_cents r \<and> st_price_cents r < 2 ^ 53)"

definition wanted_row :: "string \<Rightarrow> string \<Rightarrow> stored_listing \<Rightarrow> bool" where
  "wanted_row merchant product r \<longleftrightarrow>
     st_product_id r = product \<and> (merchant \<noteq> [] \<longrightarrow> st_merchant_id r = merchant)"

lemma findListing_table:
  "findListing (select_listings table) merchant (JStr product) w =
     (Inr (map_option (listing_of \<circ> row_of) (first_listed (filter (wanted_row merchant product) table))), w)"
proof -
  have "(\<lambda>r. JStr (st_product_id r) = JStr product) = wanted_row merchant product" if "merchant = []"
    using that by (simp add: wanted_row_def fun_eq_iff)
  moreover have "(\<lambda>r. JStr (st_product_id r) = JStr product \<and> JStr (st_merchant_id r) = JStr merchant) =
      wanted_row merchant product" if "merchant \<noteq> []"
    using that by (simp add: wanted_row_def fun_eq_iff)
  ultimately show ?thesis
    by (auto simp: findListing_def select_listings_def Let_def io_simps bind_io_def ret_def split: option.splits)
qed

lemma found_listing_eq:
  "found_listing table merchant product =
     map_option (listing_of \<circ> row_of) (first_listed (filter (wanted_row merchant product) table))"
  by (simp add: found_listing_def findListing_table)

lemma listing_of_row [simp]:
  "productId (listing_of (row_of r)) = st_product_id r"
  "merchantId (listing_of (row_of r)) = st_merchant_id r"
  "inStock (listing_of (row_of r)) = st_in_stock r"
  by (simp_all add: listing_of_def row_of_def)

lemma price_of_row:
  "0 \<le> st_price_cents r \<Longrightarrow> st_price_cents r < 2 ^ 53 \<Longrightarrow>
     priceCents (listing_of (row_of r)) = num_of_int (st_price_cents r)"
  by (simp add: listing_of_def row_of_def string_to_number_int_text)

lemma found_listing_source:
  assumes "priced table"
  shows "listing_source (found_listing table) ((listing_of \<circ> row_of) ` set table)"
proof
  fix m p l
  assume "found_listing table m p = Some l"
  then obtain r where r: "first_listed (filter (wanted_row m p) table) = Some r" and l: "l = listing_of (row_of r)"
    by (auto simp: found_listing_eq)
  note first = first_listed_Some [OF r]
  show "l \<in> (listing_of \<circ> row_of) ` set table \<and> productId l = p \<and> (m \<noteq> [] \<longrightarrow> merchantId l = m)"
    using first l by (auto simp: wanted_row_def)
  fix l'
  assume l': "l' \<in> (listing_of \<circ> row_of) ` set table" "productId l' = p" "m \<noteq> [] \<Longrightarrow> merchantId l' = m" "inStock l'"
  then obtain s where s: "s \<in> set table" "l' = listing_of (row_of s)" by auto
  with l' have "wanted_row m p s" by (auto simp: wanted_row_def)
  with first s have "\<not> listed_before s r" by auto
  with s l' have "st_in_stock r" "st_price_cents r \<le> st_price_cents s"
    by (auto simp: listed_before_def)
  moreover have "0 \<le> st_price_cents r" "st_price_cents r < 2 ^ 53" "0 \<le> st_price_cents s" "st_price_cents s < 2 ^ 53"
    using assms s first by (auto simp: priced_def)
  ultimately show "inStock l \<and> \<not> num_less (priceCents l') (priceCents l)"
    using l s by (simp add: price_of_row)
next
  fix m p l
  assume "found_listing table m p = None" "l \<in> (listing_of \<circ> row_of) ` set table" "productId l = p"
  then show "m \<noteq> [] \<and> merchantId l \<noteq> m"
    by (auto simp: found_listing_eq first_listed_None filter_empty_conv wanted_row_def)
qed

text \<open>Prices a double carries exactly.\<close>

definition in_range :: "stored_listing \<Rightarrow> bool" where
  "in_range r \<longleftrightarrow> 0 \<le> st_price_cents r \<and> st_price_cents r < 2 ^ 53"

interpretation table: listing_source
  "found_listing (filter in_range table)" "(listing_of \<circ> row_of) ` set (filter in_range table)" for table
  by (rule found_listing_source) (auto simp: priced_def in_range_def)

section \<open>Properties\<close>

text \<open>The merchant sells the best offer: over a table of exactly represented prices the listing
  found is one of the product's rows (of the configured merchant when one is set), and when any such
  row is in stock it is in stock and none of those is cheaper; no listing is found only when no row
  qualifies.\<close>

theorem finds_best_listing:
  assumes "priced table"
  shows "case fst (findListing (select_listings table) merchant (JStr product) w) of
      Inl e \<Rightarrow> False
    | Inr None \<Rightarrow> filter (wanted_row merchant product) table = []
    | Inr (Some l) \<Rightarrow> \<exists>r. r \<in> set (filter (wanted_row merchant product) table) \<and> l = listing_of (row_of r) \<and>
        priceCents l = num_of_int (st_price_cents r) \<and>
        filter (\<lambda>s. wanted_row merchant product s \<and> st_in_stock s \<and>
          (\<not> st_in_stock r \<or> st_price_cents s < st_price_cents r)) table = []"
proof (cases "first_listed (filter (wanted_row merchant product) table)")
  case None
  then show ?thesis by (simp add: findListing_table first_listed_None)
next
  case (Some r)
  note first = first_listed_Some [OF Some]
  have "priceCents (listing_of (row_of r)) = num_of_int (st_price_cents r)"
    using first assms by (intro price_of_row) (auto simp: priced_def)
  moreover have "filter (\<lambda>s. wanted_row merchant product s \<and> st_in_stock s \<and>
          (\<not> st_in_stock r \<or> st_price_cents s < st_price_cents r)) table = []"
    using first by (fastforce simp: filter_empty_conv listed_before_def)
  ultimately show ?thesis using first by (auto simp: findListing_table Some intro!: exI [where x = r])
qed

definition sample_table :: "stored_listing list" where
  "sample_table =
     [\<lparr>st_listing_id = ''l1'', st_product_id = ''d1'', st_merchant_id = ''m1'', st_listing_title = ''t'',
       st_price_cents = 900, st_currency = ''USD'', st_in_stock = False\<rparr>,
      \<lparr>st_listing_id = ''l2'', st_product_id = ''d1'', st_merchant_id = ''m2'', st_listing_title = ''t'',
       st_price_cents = 1200, st_currency = ''USD'', st_in_stock = True\<rparr>,
      \<lparr>st_listing_id = ''l3'', st_product_id = ''d1'', st_merchant_id = ''m1'', st_listing_title = ''t'',
       st_price_cents = 1100, st_currency = ''USD'', st_in_stock = True\<rparr>]"

lemma finds_best_listing_witness:
  "case fst (findListing (select_listings sample_table) [] (JStr ''d1'') ()) of
      Inl e \<Rightarrow> False
    | Inr None \<Rightarrow> filter (wanted_row [] ''d1'') sample_table = []
    | Inr (Some l) \<Rightarrow> \<exists>r. r \<in> set (filter (wanted_row [] ''d1'') sample_table) \<and> l = listing_of (row_of r) \<and>
        priceCents l = num_of_int (st_price_cents r) \<and>
        filter (\<lambda>s. wanted_row [] ''d1'' s \<and> st_in_stock s \<and>
          (\<not> st_in_stock r \<or> st_price_cents s < st_price_cents r)) sample_table = []"
  by (rule finds_best_listing) (simp add: priced_def sample_table_def)

end
