(* ===== verification/Settlement_Client.thy ===== *)
theory Settlement_Client
  imports Http
begin

text \<open>
  \<open>merchant/src/settlement.ts\<close>: the client of the settlement service.  A refused settlement comes
  back as data, a failed call as an exception; a report's own failure is swallowed.
\<close>

datatype settlement_outcome = Settled js | Settlement_rejected nat js

record settlement_request =
  sq_assertion :: js
  sq_merchant_id :: string
  sq_gross_amount_cents :: number
  sq_currency :: string
  sq_payment_payload :: js
  sq_payment_requirements :: js

definition settlement_request_js :: "settlement_request \<Rightarrow> js" where
  "settlement_request_js r = JObj
     [(''assertion'', sq_assertion r), (''merchant_id'', JStr (sq_merchant_id r)),
      (''gross_amount_cents'', JNum (sq_gross_amount_cents r)), (''currency'', JStr (sq_currency r)),
      (''payment_payload'', sq_payment_payload r), (''payment_requirements'', sq_payment_requirements r)]"

text \<open>The constructor's \<open>baseUrl.replace(/\/+$/, '')\<close>.\<close>

definition settlement_base :: "string \<Rightarrow> string" where
  "settlement_base baseUrl = strip_slashes baseUrl"

definition settlement_post :: "string \<Rightarrow> string \<Rightarrow> js \<Rightarrow> http_request" where
  "settlement_post baseUrl path body =
     \<lparr>rq_method = ''POST'', rq_url = settlement_base baseUrl @ path,
      rq_headers = [(''content-type'', ''application/json'')], rq_body = json_body body\<rparr>"

definition reportRejectionTo :: "'w fetch \<Rightarrow> string \<Rightarrow> js \<Rightarrow> ('w, exn, unit) io" where
  "reportRejectionTo fetch baseUrl rejection =
     catch_io (bind_io (fetch (settlement_post baseUrl ''/rejections'' rejection)) (\<lambda>_. ret ())) (\<lambda>_. ret ())"

definition settle_call :: "'w fetch \<Rightarrow> string \<Rightarrow> settlement_request \<Rightarrow> ('w, exn, settlement_outcome) io" where
  "settle_call fetch baseUrl request =
     bind_io (fetch (settlement_post baseUrl ''/settle'' (settlement_request_js request))) (\<lambda>response.
       if response_ok response
       then bind_io (lift (response_json response)) (\<lambda>result. ret (Settled result))
       else
         ret (Settlement_rejected (rs_status response)
           (case response_json response of
              Inr rejection \<Rightarrow> rejection
            | Inl _ \<Rightarrow>
                JObj [(''error'', JStr (''settlement service returned '' @ nat_text (rs_status response))),
                      (''reason'', JStr ''settlement_unavailable'')])))"

section \<open>Lemmas\<close>

lemma report_never_fails: "\<exists>w'. reportRejectionTo fetch baseUrl rejection w = (Inr (), w')"
  by (auto simp: reportRejectionTo_def io_simps split: prod.splits sum.splits)

text \<open>A status outside 2xx is never a success, and a success carries a 2xx answer's JSON.\<close>

lemma settle_call_cases:
  "settle_call fetch baseUrl request w = (r, w') \<longleftrightarrow>
     (case fetch (settlement_post baseUrl ''/settle'' (settlement_request_js request)) w of
        (Inl e, w1) \<Rightarrow> r = Inl e \<and> w' = w1
      | (Inr response, w1) \<Rightarrow> w' = w1 \<and>
          (if response_ok response
           then r = and_then (response_json response) (\<lambda>v. Inr (Settled v))
           else \<exists>v. r = Inr (Settlement_rejected (rs_status response) v) \<and>
             (response_json response = Inr v \<or> \<not> is_ok (response_json response) \<and>
                v = JObj [(''error'', JStr (''settlement service returned '' @ nat_text (rs_status response))),
                      (''reason'', JStr ''settlement_unavailable'')])))"
  by (auto simp: settle_call_def io_simps split: prod.splits sum.splits)

end
