(* ===== verification/Purchase.thy ===== *)
theory Purchase
  imports Verify Merchant_Config X402 Catalog Settlement_Client
begin

text \<open>
  \<open>merchant/src/handler.ts\<close>: the purchase handler.  The catalog query and \<open>fetch\<close> act on a
  world \<open>'w\<close>; the body is whatever JSON arrived and the headers are node's, by name.
\<close>

record merchant_response =
  mr_status :: nat
  mr_body :: js
  mr_headers :: "(string \<times> string) list"

definition mr :: "nat \<Rightarrow> (string \<times> js) list \<Rightarrow> merchant_response" where
  "mr s kvs = \<lparr>mr_status = s, mr_body = JObj kvs, mr_headers = []\<rparr>"

record 'w merchant =
  m_config :: merchant_config
  m_query :: "'w pg_query"
  m_fetch :: "'w fetch"
  m_key :: crypto_key

definition requirementsFor :: "merchant_config \<Rightarrow> listing \<Rightarrow> js result" where
  "requirementsFor config l =
     and_then (centsToAtomicUnits (priceCents l)) (\<lambda>units. Inr (JObj
       [(''scheme'', JStr MERCHANT_SCHEME_EXACT), (''network'', JStr (mc_network config)),
        (''asset'', JStr (mc_assetAddress config)), (''maxAmountRequired'', JStr units),
        (''payTo'', JStr (mc_payToAddress config)), (''maxTimeoutSeconds'', jint PAYMENT_TIMEOUT_SECONDS),
        (''resource'', JStr (''/purchase/'' @ productId l)), (''description'', JStr (listingTitle l))]))"

definition header_of :: "(string \<times> string) list \<Rightarrow> string \<Rightarrow> string option" where
  "header_of headers name = (case map_of headers name of Some [] \<Rightarrow> None | h \<Rightarrow> h)"

definition challenge_for :: "js \<Rightarrow> js" where
  "challenge_for requirements =
     JObj [(''x402Version'', jint X402_VERSION), (''accepts'', JArr [requirements])]"

text \<open>The two header decodings share one try block.\<close>

definition decode_both :: "string \<Rightarrow> string \<Rightarrow> merchant_response + js \<times> js" where
  "decode_both assertionHeader paymentHeader =
     (case and_then (decodeAssertionHeader assertionHeader) (\<lambda>a.
             and_then (decodePaymentHeader paymentHeader) (\<lambda>p. Inr (a, p))) of
        Inr ap \<Rightarrow> Inr ap
      | Inl (Malformed_payment_error m) \<Rightarrow>
          Inl (mr 400 [(''error'', JStr m), (''reason'', JStr ''malformed_payment'')])
      | Inl _ \<Rightarrow>
          Inl (mr 400 [(''error'', JStr ''headers are not base64-encoded JSON''),
                       (''reason'', JStr ''malformed_headers'')]))"

text \<open>The three checks after verification; \<open>None\<close> lets the purchase through.\<close>

definition mismatch :: "merchant_config \<Rightarrow> listing \<Rightarrow> js \<Rightarrow> js \<Rightarrow> merchant_response option result" where
  "mismatch config l a payment =
     and_then (get a ''product_id'') (\<lambda>product.
     if product \<noteq> JStr (productId l)
     then Inr (Some (mr 422 [(''error'', JStr (''assertion covers '' @ to_text product @ '', purchase covers '' @ productId l)),
                       (''reason'', JStr ''assertion_product_mismatch'')]))
     else
       and_then (centsToAtomicUnits (priceCents l)) (\<lambda>expectedAmount.
       let authorization = get_opt payment ''authorization'' in
       if get_opt authorization ''value'' \<noteq> JStr expectedAmount
       then Inr (Some (mr 422 [(''error'', JStr (''authorization pays '' @ to_text (get_opt authorization ''value'') @
                            '', listing requires '' @ expectedAmount)),
                         (''reason'', JStr ''amount_mismatch'')]))
       else
         and_then (as_string_for ''payment.authorization.to'' ''toLowerCase'' (get_opt authorization ''to'')) (\<lambda>to.
           if to_lower to \<noteq> to_lower (mc_payToAddress config)
           then Inr (Some (mr 422 [(''error'', JStr ''authorization pays a different address''),
                             (''reason'', JStr ''payee_mismatch'')]))
           else Inr None)))"

definition fulfillment_for :: "listing \<Rightarrow> js \<Rightarrow> js \<Rightarrow> js result" where
  "fulfillment_for l a outcome =
     and_then (get outcome ''settlement_id'') (\<lambda>settlement_id.
     and_then (get a ''publisher_id'') (\<lambda>publisher. Inr (JObj
       [(''order_id'', settlement_id), (''product_id'', JStr (productId l)), (''listing_title'', JStr (listingTitle l)),
        (''amount_cents'', JNum (priceCents l)), (''currency'', JStr (currency l)), (''settlement_id'', settlement_id),
        (''tx_hash'', get_opt outcome ''tx_hash''), (''network'', get_opt outcome ''network''),
        (''attributed_publisher_id'', publisher),
        (''publisher_commission_cents'', get_opt outcome ''publisher_amount_cents'')])))"

definition settle_purchase ::
    "'w merchant \<Rightarrow> listing \<Rightarrow> js \<Rightarrow> js \<Rightarrow> js \<Rightarrow> ('w, exn, merchant_response) io" where
  "settle_purchase m l a payment requirements =
     bind_io (settle_call (m_fetch m) (mc_settlementUrl (m_config m))
       \<lparr>sq_assertion = a, sq_merchant_id = merchantId l, sq_gross_amount_cents = priceCents l,
        sq_currency = currency l, sq_payment_payload = payment, sq_payment_requirements = requirements\<rparr>)
       (\<lambda>outcome.
         case outcome of
           Settlement_rejected status rejection \<Rightarrow>
             ret \<lparr>mr_status = status, mr_body = rejection, mr_headers = []\<rparr>
         | Settled v \<Rightarrow>
             lift (and_then (fulfillment_for l a v) (\<lambda>fulfillment.
               Inr \<lparr>mr_status = 200, mr_body = fulfillment,
                    mr_headers = [(X402_PaymentResponse, encodeHeaderJson v)]\<rparr>)))"

definition paid_request ::
    "ed25519_check \<Rightarrow> (string \<Rightarrow> int option) \<Rightarrow> 'w merchant \<Rightarrow> listing \<Rightarrow> js \<Rightarrow> string \<Rightarrow> string \<Rightarrow> int
      \<Rightarrow> ('w, exn, merchant_response) io" where
  "paid_request ed25519 legacy m l requirements assertionHeader paymentHeader now =
     (case decode_both assertionHeader paymentHeader of
        Inl response \<Rightarrow> ret response
      | Inr (a, payment) \<Rightarrow>
          (case verifyAssertion ed25519 legacy a (m_key m) now of
             Inl (Assertion_verification_error r msg) \<Rightarrow>
               ret (mr 401 [(''error'', JStr msg), (''reason'', JStr (failure_text r))])
           | Inl e \<Rightarrow> lift (Inl e)
           | Inr _ \<Rightarrow>
               bind_io (lift (mismatch (m_config m) l a payment)) (\<lambda>problem.
                 case problem of
                   Some response \<Rightarrow> ret response
                 | None \<Rightarrow> settle_purchase m l a payment requirements)))"

definition purchase ::
    "ed25519_check \<Rightarrow> (string \<Rightarrow> int option) \<Rightarrow> 'w merchant \<Rightarrow> js \<Rightarrow> (string \<times> string) list \<Rightarrow> int
      \<Rightarrow> ('w, exn, merchant_response) io" where
  "purchase ed25519 legacy m body headers now =
     (let product = get_opt body ''product_id'' in
      if \<not> truthy product then ret (mr 400 [(''error'', JStr ''product_id required'')])
      else
        bind_io (findListing (m_query m) (mc_merchantId (m_config m)) product) (\<lambda>found.
          case found of
            None \<Rightarrow> ret (mr 404 [(''error'', JStr (''no listing for '' @ to_text product))])
          | Some l \<Rightarrow>
              if \<not> inStock l then ret (mr 422 [(''error'', JStr ''listing out of stock'')])
              else
                bind_io (lift (requirementsFor (m_config m) l)) (\<lambda>requirements.
                  case header_of headers X402_PaymentSignature of
                    None \<Rightarrow>
                      ret \<lparr>mr_status = 402, mr_body = challenge_for requirements,
                           mr_headers = [(X402_PaymentRequired, encodeHeaderJson (challenge_for requirements))]\<rparr>
                  | Some paymentHeader \<Rightarrow>
                      case header_of headers X402_AttributionAssertion of
                        None \<Rightarrow>
                          ret (mr 400 [(''error'', JStr (''payment supplied without '' @ X402_AttributionAssertion)),
                                       (''reason'', JStr ''assertion_missing'')])
                      | Some assertionHeader \<Rightarrow>
                          paid_request ed25519 legacy m l requirements assertionHeader paymentHeader now)))"

section \<open>What a settlement call presupposes\<close>

text \<open>The checks a paid request passes before money moves.\<close>

definition cleared ::
    "ed25519_check \<Rightarrow> (string \<Rightarrow> int option) \<Rightarrow> 'w merchant \<Rightarrow> listing \<Rightarrow> string \<Rightarrow> string \<Rightarrow> int \<Rightarrow> js \<Rightarrow> js \<Rightarrow> bool" where
  "cleared ed legacy m l ah ph now a payment \<longleftrightarrow>
     decodeHeaderJson ah = Inr a \<and> decodeHeaderJson ph = Inr payment \<and> payment_shaped payment \<and>
     verifyAssertion ed legacy a (m_key m) now = Inr () \<and> get a ''product_id'' = Inr (JStr (productId l)) \<and>
     (\<exists>units to. centsToAtomicUnits (priceCents l) = Inr units \<and>
        get_opt (get_opt payment ''authorization'') ''value'' = JStr units \<and>
        get_opt (get_opt payment ''authorization'') ''to'' = JStr to \<and>
        to_lower to = to_lower (mc_payToAddress (m_config m)))"

lemma decode_both_Inr:
  "decode_both ah ph = Inr (a, p) \<longleftrightarrow>
     decodeHeaderJson ah = Inr a \<and> decodeHeaderJson ph = Inr p \<and> payment_shaped p"
  unfolding decodePaymentHeader_Inr [symmetric]
  by (cases "decodeHeaderJson ah"; cases "decodePaymentHeader ph")
    (auto simp: decode_both_def decodeAssertionHeader_def split: exn.splits)

lemma decode_both_Inl: "decode_both ah ph = Inl r \<Longrightarrow> mr_status r = 400"
  by (auto simp: decode_both_def mr_def split: sum.splits exn.splits)

lemma mismatch_None:
  "mismatch config l a payment = Inr None \<longleftrightarrow>
     get a ''product_id'' = Inr (JStr (productId l)) \<and>
     (\<exists>units to. centsToAtomicUnits (priceCents l) = Inr units \<and>
        get_opt (get_opt payment ''authorization'') ''value'' = JStr units \<and>
        get_opt (get_opt payment ''authorization'') ''to'' = JStr to \<and>
        to_lower to = to_lower (mc_payToAddress config))"
  by (auto simp: mismatch_def result_simps Let_def)

lemma mismatch_Some: "mismatch config l a payment = Inr (Some r) \<Longrightarrow> mr_status r = 422"
  by (auto simp: mismatch_def result_simps Let_def mr_def split: if_splits)

lemma paid_request_cleared:
  "cleared ed legacy m l ah ph now a payment \<Longrightarrow>
     paid_request ed legacy m l req ah ph now = settle_purchase m l a payment req"
  by (auto simp: cleared_def paid_request_def decode_both_Inr [THEN iffD2] mismatch_None [THEN iffD2] lift_def bind_io_def)

lemma paid_request_refused:
  assumes "\<nexists>a payment. cleared ed legacy m l ah ph now a payment"
    and "paid_request ed legacy m l req ah ph now w = (r, w')"
  shows "w' = w \<and> (\<forall>resp. r = Inr resp \<longrightarrow> mr_status resp \<in> {400, 401, 422})"
proof (cases "decode_both ah ph")
  case (Inl resp)
  then show ?thesis using assms(2) decode_both_Inl by (auto simp: paid_request_def io_simps)
next
  case (Inr ap)
  obtain a p where ap: "ap = (a, p)" by force
  show ?thesis
  proof (cases "verifyAssertion ed legacy a (m_key m) now")
    case (Inl e)
    then show ?thesis using assms(2) Inr ap
      by (auto simp: paid_request_def io_simps mr_def split: exn.splits)
  next
    case ok: (Inr u)
    have "mismatch (m_config m) l a p \<noteq> Inr None"
      using assms(1) Inr ap ok by (auto simp: cleared_def decode_both_Inr mismatch_None)
    then show ?thesis using assms(2) Inr ap ok
      by (auto simp: paid_request_def io_simps dest: mismatch_Some split: sum.splits option.splits)
  qed
qed

text \<open>A request for a listing in stock at a valid price.\<close>

definition listed ::
    "'w merchant \<Rightarrow> js \<Rightarrow> 'w \<Rightarrow> listing \<Rightarrow> js \<Rightarrow> 'w \<Rightarrow> bool" where
  "listed m body w l requirements w1 \<longleftrightarrow>
     truthy (get_opt body ''product_id'') \<and>
     findListing (m_query m) (mc_merchantId (m_config m)) (get_opt body ''product_id'') w = (Inr (Some l), w1) \<and>
     inStock l \<and> requirementsFor (m_config m) l = Inr requirements"

lemma purchase_listed:
  assumes "listed m body w l requirements w1"
  shows "purchase ed legacy m body headers now w =
    (case header_of headers X402_PaymentSignature of
       None \<Rightarrow> (Inr \<lparr>mr_status = 402, mr_body = challenge_for requirements,
                   mr_headers = [(X402_PaymentRequired, encodeHeaderJson (challenge_for requirements))]\<rparr>, w1)
     | Some ph \<Rightarrow>
         (case header_of headers X402_AttributionAssertion of
            None \<Rightarrow> (Inr (mr 400 [(''error'', JStr (''payment supplied without '' @ X402_AttributionAssertion)),
                                       (''reason'', JStr ''assertion_missing'')]), w1)
          | Some ah \<Rightarrow> paid_request ed legacy m l requirements ah ph now w1))"
  using assms by (simp add: purchase_def listed_def io_simps Let_def split: option.split)

lemma purchase_unlisted:
  assumes "purchase ed legacy m body headers now w = (r, w')"
    and "\<nexists>l requirements w1. listed m body w l requirements w1"
  shows "(if truthy (get_opt body ''product_id'')
          then w' = snd (findListing (m_query m) (mc_merchantId (m_config m)) (get_opt body ''product_id'') w)
          else w' = w) \<and>
     (\<forall>resp. r = Inr resp \<longrightarrow> mr_status resp \<in> {400, 404, 422})"
proof (cases "truthy (get_opt body ''product_id'')")
  case True
  obtain q w1 where q: "findListing (m_query m) (mc_merchantId (m_config m)) (get_opt body ''product_id'') w = (q, w1)"
    by force
  have no: "\<not> is_ok (requirementsFor (m_config m) l)" if "q = Inr (Some l)" "inStock l" for l
    using assms(2) True q that by (auto simp: listed_def is_ok_iff)
  show ?thesis
    using assms(1) True q no
    by (auto simp: purchase_def io_simps Let_def mr_def split: sum.splits option.splits if_splits)
next
  case False
  then show ?thesis using assms(1) by (auto simp: purchase_def io_simps mr_def)
qed

lemma settle_purchase_cases:
  assumes "settle_purchase m l a payment requirements w = (r, w')"
  shows "(\<exists>e. r = Inl e) \<or>
    (\<exists>http. m_fetch m (settlement_post (mc_settlementUrl (m_config m)) ''/settle'' (settlement_request_js
        \<lparr>sq_assertion = a, sq_merchant_id = merchantId l, sq_gross_amount_cents = priceCents l,
         sq_currency = currency l, sq_payment_payload = payment, sq_payment_requirements = requirements\<rparr>)) w =
        (Inr http, w') \<and>
      (if response_ok http
       then \<exists>v f. response_json http = Inr v \<and> fulfillment_for l a v = Inr f \<and>
          r = Inr \<lparr>mr_status = 200, mr_body = f, mr_headers = [(X402_PaymentResponse, encodeHeaderJson v)]\<rparr>
       else \<exists>v. r = Inr \<lparr>mr_status = rs_status http, mr_body = v, mr_headers = []\<rparr> \<and>
          (is_ok (response_json http) \<longrightarrow> response_json http = Inr v)))"
proof -
  let ?rq = "settlement_post (mc_settlementUrl (m_config m)) ''/settle'' (settlement_request_js
        \<lparr>sq_assertion = a, sq_merchant_id = merchantId l, sq_gross_amount_cents = priceCents l,
         sq_currency = currency l, sq_payment_payload = payment, sq_payment_requirements = requirements\<rparr>)"
  obtain q w1 where q: "m_fetch m ?rq w = (q, w1)" by force
  note unfold = settle_purchase_def settle_call_def io_simps q
  show ?thesis
  proof (cases q)
    case (Inl e)
    then show ?thesis using assms by (auto simp: unfold)
  next
    case (Inr http)
    show ?thesis
    proof (cases "response_ok http")
      case True
      show ?thesis
      proof (cases "and_then (response_json http) (fulfillment_for l a)")
        case (Inl e)
        then show ?thesis using assms \<open>q = Inr http\<close> True
          by (cases "response_json http") (auto simp: unfold)
      next
        case (Inr f)
        then obtain v where v: "response_json http = Inr v" "fulfillment_for l a v = Inr f" by (auto simp: result_simps)
        then show ?thesis using assms \<open>q = Inr http\<close> True by (simp add: unfold)
      qed
    next
      case False
      then show ?thesis using assms \<open>q = Inr http\<close>
        by (cases "response_json http") (auto simp: unfold)
    qed
  qed
qed

section \<open>A concrete merchant\<close>

definition sample_merchant :: "nat merchant" where
  "sample_merchant = \<lparr>m_config = \<lparr>mc_merchantId = [], mc_port = Fin 8090, mc_postgresDsn = [],
       mc_settlementUrl = ''http://l/'', mc_publicKey = [], mc_payToAddress = ''0xB'', mc_assetAddress = ''0xC'',
       mc_network = ''base-sepolia''\<rparr>,
     m_query = select_listings sample_table,
     m_fetch = (\<lambda>rq n. (Inr \<lparr>rs_status = 200, rs_headers = [],
       rs_body = json_body (JObj [(''settlement_id'', JStr ''s1''), (''tx_hash'', JStr ''0xt'')])\<rparr>, Suc n)),
     m_key = []\<rparr>"

definition sample_buy :: js where
  "sample_buy = JObj [(''product_id'', JStr ''d1'')]"

definition sample_payment :: js where
  "sample_payment = JObj [(''authorization'', JObj [(''from'', JStr ''0xA''), (''to'', JStr ''0xb''),
     (''value'', JStr ''11000000''), (''validAfter'', JStr ''0''), (''validBefore'', JStr ''9''), (''nonce'', JStr ''0xn'')]),
     (''signature'', JStr ''0xS'')]"

definition sample_headers :: "(string \<times> string) list" where
  "sample_headers = [(''payment-signature'', encodeHeaderJson sample_payment),
     (''x-attribution-assertion'', encodeHeaderJson (JObj (signed_sample ''p1'')))]"

definition sample_purchase :: "merchant_response result \<times> nat" where
  "sample_purchase = purchase (\<lambda>k s p. True) (\<lambda>_. None) sample_merchant sample_buy sample_headers 0 0"

definition sample_listing :: listing where
  "sample_listing = listing_of (row_of (sample_table ! 2))"

definition sample_requirement :: js where
  "sample_requirement = (case requirementsFor (m_config sample_merchant) sample_listing of Inr r \<Rightarrow> r | Inl _ \<Rightarrow> JNull)"

lemma sample_listed: "listed sample_merchant sample_buy 0 sample_listing sample_requirement 0"
  unfolding listed_def by code_simp

lemma sample_ok: "json_ok (JObj (signed_sample ''p1''))" "json_ok sample_payment"
  by code_simp+

lemma sample_decoded:
  "decodeHeaderJson (encodeHeaderJson (JObj (signed_sample ''p1''))) = Inr (JObj (signed_sample ''p1''))"
  "decodeHeaderJson (encodeHeaderJson sample_payment) = Inr sample_payment"
  by (rule header_json.decode_encode [OF sample_ok(1)], rule header_json.decode_encode [OF sample_ok(2)])

lemma sample_cleared:
  "cleared (\<lambda>k s p. True) (\<lambda>_. None) sample_merchant sample_listing (encodeHeaderJson (JObj (signed_sample ''p1'')))
     (encodeHeaderJson sample_payment) 0 (JObj (signed_sample ''p1'')) sample_payment"
proof -
  have "payment_shaped sample_payment"
    by (simp add: payment_shaped_def sample_payment_def AUTHORIZATION_FIELDS_def get_opt_def)
  moreover have "verifyAssertion (\<lambda>k s p. True) (\<lambda>_. None) (JObj (signed_sample ''p1'')) (m_key sample_merchant) 0 = Inr ()"
    by code_simp
  moreover have "get (JObj (signed_sample ''p1'')) ''product_id'' = Inr (JStr (productId sample_listing))" by code_simp
  moreover have "centsToAtomicUnits (priceCents sample_listing) = Inr ''11000000''" by code_simp
  moreover have "get_opt (get_opt sample_payment ''authorization'') ''value'' = JStr ''11000000''" by code_simp
  moreover have "get_opt (get_opt sample_payment ''authorization'') ''to'' = JStr ''0xb''" by code_simp
  moreover have "to_lower ''0xb'' = to_lower (mc_payToAddress (m_config sample_merchant))" by code_simp
  ultimately show ?thesis unfolding cleared_def using sample_decoded by blast
qed

lemma header_of_Some: "header_of headers name = Some h \<longleftrightarrow> map_of headers name = Some h \<and> h \<noteq> []"
  by (auto simp: header_of_def split: option.splits list.splits)

lemma sample_header_values:
  "header_of sample_headers X402_PaymentSignature = Some (encodeHeaderJson sample_payment)"
  "header_of sample_headers X402_AttributionAssertion = Some (encodeHeaderJson (JObj (signed_sample ''p1'')))"
  using encodeHeaderJson_nonempty [OF sample_ok(1)] encodeHeaderJson_nonempty [OF sample_ok(2)]
  by (simp_all add: header_of_Some sample_headers_def x402_headers)

lemma sample_purchase_result: "\<exists>r. sample_purchase = (Inr r, 1) \<and> mr_status r = 200"
proof -
  let ?settle = "settle_purchase sample_merchant sample_listing (JObj (signed_sample ''p1'')) sample_payment
      sample_requirement 0"
  have eq: "sample_purchase = ?settle"
    unfolding sample_purchase_def purchase_listed [OF sample_listed] sample_header_values
    by (simp only: option.case paid_request_cleared [OF sample_cleared])
  have "case ?settle of (Inr r, n) \<Rightarrow> mr_status r = 200 \<and> n = 1 | _ \<Rightarrow> False"
    by code_simp
  moreover obtain q n where "?settle = (q, n)" by force
  ultimately show ?thesis unfolding eq by (cases q) auto
qed

section \<open>Properties\<close>

text \<open>C4: A purchase is fulfilled only after every check and a confirmed settlement: an answer with
  status 200 means the product's best listing was in stock, the assertion is authentic, unexpired and
  issued for that product, the payment authorizes exactly the listing's price to the configured
  address, and the settlement service confirmed that very request; the order handed out is the one it
  confirmed.\<close>

theorem fulfils_only_settled:
  assumes "purchase ed legacy m body headers now w = (Inr resp, w')" and "mr_status resp = 200"
  shows "\<exists>l requirements w1 ah ph a payment http v.
     listed m body w l requirements w1 \<and>
     header_of headers ''payment-signature'' = Some ph \<and> header_of headers ''x-attribution-assertion'' = Some ah \<and>
     cleared ed legacy m l ah ph now a payment \<and>
     m_fetch m (settlement_post (mc_settlementUrl (m_config m)) ''/settle'' (settlement_request_js
        \<lparr>sq_assertion = a, sq_merchant_id = merchantId l, sq_gross_amount_cents = priceCents l,
         sq_currency = currency l, sq_payment_payload = payment, sq_payment_requirements = requirements\<rparr>)) w1 =
        (Inr http, w') \<and> response_ok http \<and> response_json http = Inr v \<and>
     fulfillment_for l a v = Inr (mr_body resp)"
proof -
  have "\<exists>l requirements w1. listed m body w l requirements w1"
    using purchase_unlisted [OF assms(1)] assms(2) by fastforce
  then obtain l req w1 where l: "listed m body w l req w1" by blast
  note run = assms(1) [unfolded purchase_listed [OF l]]
  from run assms(2) obtain ph ah where h: "header_of headers X402_PaymentSignature = Some ph"
    "header_of headers X402_AttributionAssertion = Some ah"
    "paid_request ed legacy m l req ah ph now w1 = (Inr resp, w')"
    by (auto simp: mr_def split: option.splits)
  obtain a payment where c: "cleared ed legacy m l ah ph now a payment"
    using paid_request_refused [OF _ h(3)] assms(2) by fastforce
  have "settle_purchase m l a payment req w1 = (Inr resp, w')"
    using h(3) paid_request_cleared [OF c] by metis
  from settle_purchase_cases [OF this] obtain http v where
    "m_fetch m (settlement_post (mc_settlementUrl (m_config m)) ''/settle'' (settlement_request_js
        \<lparr>sq_assertion = a, sq_merchant_id = merchantId l, sq_gross_amount_cents = priceCents l,
         sq_currency = currency l, sq_payment_payload = payment, sq_payment_requirements = req\<rparr>)) w1 =
        (Inr http, w')"
    "response_ok http \<and> response_json http = Inr v \<and> fulfillment_for l a v = Inr (mr_body resp)"
    using assms(2) by (fastforce simp: response_ok_def split: if_splits)
  with l h c show ?thesis unfolding x402_headers by blast
qed

lemma fulfils_only_settled_witness:
  "\<exists>l requirements w1 ah ph a payment http v f.
     listed sample_merchant sample_buy 0 l requirements w1 \<and>
     header_of sample_headers ''payment-signature'' = Some ph \<and>
     header_of sample_headers ''x-attribution-assertion'' = Some ah \<and>
     cleared (\<lambda>k s p. True) (\<lambda>_. None) sample_merchant l ah ph 0 a payment \<and>
     m_fetch sample_merchant (settlement_post (mc_settlementUrl (m_config sample_merchant)) ''/settle''
       (settlement_request_js
        \<lparr>sq_assertion = a, sq_merchant_id = merchantId l, sq_gross_amount_cents = priceCents l,
         sq_currency = currency l, sq_payment_payload = payment, sq_payment_requirements = requirements\<rparr>)) w1 =
        (Inr http, 1) \<and> response_ok http \<and> response_json http = Inr v \<and> fulfillment_for l a v = Inr f"
proof -
  obtain r where r: "sample_purchase = (Inr r, 1)" "mr_status r = 200"
    using sample_purchase_result by blast
  from fulfils_only_settled [OF r(1) [unfolded sample_purchase_def] r(2)] show ?thesis by blast
qed

text \<open>C5: Money moves only for a cleared purchase: unless the listing is in stock, both headers are
  present and every check passes, nothing is sent to the settlement service; the world ends as the
  catalog query left it.\<close>

theorem settles_only_cleared:
  assumes "purchase ed legacy m body headers now w = (r, w')"
    and "\<nexists>l requirements w1 ah ph a payment. listed m body w l requirements w1 \<and>
       header_of headers ''payment-signature'' = Some ph \<and> header_of headers ''x-attribution-assertion'' = Some ah \<and>
       cleared ed legacy m l ah ph now a payment"
  shows "w' = (if truthy (get_opt body ''product_id'')
      then snd (findListing (m_query m) (mc_merchantId (m_config m)) (get_opt body ''product_id'') w) else w)"
proof (cases "\<exists>l requirements w1. listed m body w l requirements w1")
  case False
  then show ?thesis using purchase_unlisted [OF assms(1)] by (simp split: if_splits)
next
  case True
  then obtain l req w1 where l: "listed m body w l req w1" by blast
  have w1: "w1 = (if truthy (get_opt body ''product_id'')
      then snd (findListing (m_query m) (mc_merchantId (m_config m)) (get_opt body ''product_id'') w) else w)"
    using l by (simp add: listed_def)
  note run = assms(1) [unfolded purchase_listed [OF l]]
  show ?thesis
  proof (cases "header_of headers X402_PaymentSignature = None \<or> header_of headers X402_AttributionAssertion = None")
    case True
    then show ?thesis using run w1 by (auto split: option.splits)
  next
    case False
    then obtain ph ah where h: "header_of headers X402_PaymentSignature = Some ph"
      "header_of headers X402_AttributionAssertion = Some ah" by auto
    have "\<nexists>a payment. cleared ed legacy m l ah ph now a payment"
      using assms(2) l h unfolding x402_headers by blast
    from paid_request_refused [OF this, of req w1 r w'] run h w1 show ?thesis by simp
  qed
qed

lemma settles_only_cleared_witness:
  "snd (purchase (\<lambda>k s p. False) (\<lambda>_. None) sample_merchant sample_buy sample_headers 0 0) =
     (if truthy (get_opt sample_buy ''product_id'')
      then snd (findListing (m_query sample_merchant) (mc_merchantId (m_config sample_merchant))
             (get_opt sample_buy ''product_id'') 0) else 0)"
  by (rule settles_only_cleared [OF prod.collapse [symmetric]])
    (simp add: cleared_def verifier.accepts_iff authentic_def)

text \<open>A request without payment is challenged, not refused: for a listing in stock the answer is a
  402 whose body asks for exactly the listing's price in atomic units, to the configured address,
  network and asset, and whose header decodes to that same body.\<close>

theorem unpaid_challenged:
  assumes "listed m body w l requirements w1" and "header_of headers ''payment-signature'' = None"
    and "priceCents l = num_of_int n"
    and "json_ok (challenge_for requirements)"
  shows "\<exists>resp. purchase ed legacy m body headers now w = (Inr resp, w1) \<and> mr_status resp = 402 \<and>
     mr_body resp = JObj [(''x402Version'', jint 1), (''accepts'', JArr [JObj
       [(''scheme'', JStr ''exact''), (''network'', JStr (mc_network (m_config m))),
        (''asset'', JStr (mc_assetAddress (m_config m))), (''maxAmountRequired'', JStr (int_text (n * 10000))),
        (''payTo'', JStr (mc_payToAddress (m_config m))), (''maxTimeoutSeconds'', jint 120),
        (''resource'', JStr (''/purchase/'' @ productId l)), (''description'', JStr (listingTitle l))]])] \<and>
     (\<exists>h. mr_headers resp = [(''payment-required'', h)] \<and> decodeHeaderJson h = Inr (mr_body resp))"
proof -
  have "requirementsFor (m_config m) l = Inr requirements" using assms(1) by (simp add: listed_def)
  then obtain units where "centsToAtomicUnits (priceCents l) = Inr units" and
    req: "requirements = JObj [(''scheme'', JStr MERCHANT_SCHEME_EXACT), (''network'', JStr (mc_network (m_config m))),
        (''asset'', JStr (mc_assetAddress (m_config m))), (''maxAmountRequired'', JStr units),
        (''payTo'', JStr (mc_payToAddress (m_config m))), (''maxTimeoutSeconds'', jint PAYMENT_TIMEOUT_SECONDS),
        (''resource'', JStr (''/purchase/'' @ productId l)), (''description'', JStr (listingTitle l))]"
    by (auto simp: requirementsFor_def result_simps)
  then have "units = int_text (n * 10000)" using assms(3) by (auto simp: centsToAtomicUnits_Inr)
  then show ?thesis
    using purchase_listed [OF assms(1), of ed legacy headers now] assms(2) header_json.decode_encode [OF assms(4)]
    by (simp add: x402_headers req challenge_for_def MERCHANT_SCHEME_EXACT_def PAYMENT_TIMEOUT_SECONDS_def X402_VERSION_def)
qed

lemma unpaid_challenged_witness:
  "\<exists>resp. purchase (\<lambda>k s p. True) (\<lambda>_. None) sample_merchant sample_buy [] 0 0 = (Inr resp, 0) \<and> mr_status resp = 402 \<and>
     mr_body resp = JObj [(''x402Version'', jint 1), (''accepts'', JArr [JObj
       [(''scheme'', JStr ''exact''), (''network'', JStr (mc_network (m_config sample_merchant))),
        (''asset'', JStr (mc_assetAddress (m_config sample_merchant))), (''maxAmountRequired'', JStr (int_text (1100 * 10000))),
        (''payTo'', JStr (mc_payToAddress (m_config sample_merchant))), (''maxTimeoutSeconds'', jint 120),
        (''resource'', JStr (''/purchase/'' @ productId sample_listing)),
        (''description'', JStr (listingTitle sample_listing))]])] \<and>
     (\<exists>h. mr_headers resp = [(''payment-required'', h)] \<and> decodeHeaderJson h = Inr (mr_body resp))"
proof (rule unpaid_challenged [OF sample_listed])
  show "json_ok (challenge_for sample_requirement)" by code_simp
  show "priceCents sample_listing = num_of_int 1100" by code_simp
qed (simp add: header_of_def)

text \<open>The settlement service's verdict passes through: when a cleared purchase is refused with a JSON
  body, status and body reach the buyer unchanged, and a body that is not JSON becomes
  \<open>settlement_unavailable\<close> under the same status.\<close>

theorem settlement_verdict_passed_on:
  assumes "cleared ed legacy m l ah ph now a payment"
    and "m_fetch m (settlement_post (mc_settlementUrl (m_config m)) ''/settle'' (settlement_request_js
        \<lparr>sq_assertion = a, sq_merchant_id = merchantId l, sq_gross_amount_cents = priceCents l,
         sq_currency = currency l, sq_payment_payload = payment, sq_payment_requirements = requirements\<rparr>)) w =
        (Inr http, w')"
    and "\<not> response_ok http"
  shows "paid_request ed legacy m l requirements ah ph now w =
    (Inr \<lparr>mr_status = rs_status http,
          mr_body = (case response_json http of
             Inr v \<Rightarrow> v
           | Inl _ \<Rightarrow> JObj [(''error'', JStr (''settlement service returned '' @ nat_text (rs_status http))),
                            (''reason'', JStr ''settlement_unavailable'')]),
          mr_headers = []\<rparr>, w')"
  using assms(2,3)
  by (simp add: paid_request_cleared [OF assms(1)] settle_purchase_def settle_call_def io_simps)

definition refusing_merchant :: "nat merchant" where
  "refusing_merchant = sample_merchant\<lparr>m_fetch := (\<lambda>rq n. (Inr \<lparr>rs_status = 409, rs_headers = [], rs_body = ''gone''\<rparr>, Suc n))\<rparr>"

lemma settlement_verdict_passed_on_witness:
  "paid_request (\<lambda>k s p. True) (\<lambda>_. None) refusing_merchant sample_listing JNull
     (encodeHeaderJson (JObj (signed_sample ''p1''))) (encodeHeaderJson sample_payment) 0 0 =
    (Inr \<lparr>mr_status = rs_status \<lparr>rs_status = 409, rs_headers = [], rs_body = ''gone''\<rparr>,
          mr_body = (case response_json \<lparr>rs_status = 409, rs_headers = [], rs_body = ''gone''\<rparr> of
             Inr v \<Rightarrow> v
           | Inl _ \<Rightarrow> JObj [(''error'', JStr (''settlement service returned '' @
                              nat_text (rs_status \<lparr>rs_status = 409, rs_headers = [], rs_body = ''gone''\<rparr>))),
                            (''reason'', JStr ''settlement_unavailable'')]),
          mr_headers = []\<rparr>, 1)"
proof (rule settlement_verdict_passed_on)
  show "cleared (\<lambda>k s p. True) (\<lambda>_. None) refusing_merchant sample_listing (encodeHeaderJson (JObj (signed_sample ''p1'')))
     (encodeHeaderJson sample_payment) 0 (JObj (signed_sample ''p1'')) sample_payment"
    using sample_cleared by (simp add: cleared_def refusing_merchant_def)
qed (simp_all add: refusing_merchant_def response_ok_def)

end
