(* ===== verification/Merchant_Server.thy ===== *)
theory Merchant_Server
  imports Purchase
begin

text \<open>
  \<open>merchant/src/index.ts\<close>: the server around the purchase handler and the journalling of what it
  refused.  \<open>Buffer.from(raw, 'base64')\<close>, node's lenient decoder, is the parameter
  \<open>buffer_base64\<close>.  The report is not awaited: it acts on the world after the reply is fixed.
\<close>

definition MERCHANT_MAX_BODY_BYTES :: nat where
  "MERCHANT_MAX_BODY_BYTES = 64 * 1024"

definition MERCHANT_UNKNOWN_PUBLISHER :: string where
  "MERCHANT_UNKNOWN_PUBLISHER = ''unknown''"

record merchant_http =
  mh_method :: "string option"
  mh_url :: "string option"
  mh_headers :: "(string \<times> string) list"
  mh_body :: body_stream

record merchant_reply =
  reply_status :: nat
  reply_headers :: "(string \<times> string) list"
  reply_body :: string

fun merchant_chunks :: "exn option \<Rightarrow> nat \<Rightarrow> bytes list \<Rightarrow> bytes list \<Rightarrow> js result" where
  "merchant_chunks err n acc [] =
     (case err of Some e \<Rightarrow> Inl e | None \<Rightarrow> json_parse (utf8_replace (concat acc)))"
| "merchant_chunks err n acc (c # cs) =
     (if n + length c > MERCHANT_MAX_BODY_BYTES then Inl (Plain_error ''request body too large'')
      else merchant_chunks err (n + length c) (acc @ [c]) cs)"

definition readJsonBody :: "body_stream \<Rightarrow> js result" where
  "readJsonBody req = merchant_chunks (broken req) 0 [] (chunks req)"

definition writeJson :: "nat \<Rightarrow> js \<Rightarrow> (string \<times> string) list \<Rightarrow> merchant_reply" where
  "writeJson status body headers =
     \<lparr>reply_status = status, reply_headers = (''Content-Type'', ''application/json'') # headers,
      reply_body = stringify body\<rparr>"

definition decodeAssertionForReporting :: "(string \<Rightarrow> bytes) \<Rightarrow> (string \<times> string) list \<Rightarrow> js" where
  "decodeAssertionForReporting buffer_base64 headers =
     (case header_of headers X402_AttributionAssertion of
        None \<Rightarrow> JNull
      | Some raw \<Rightarrow>
          (case json_parse (utf8_replace (buffer_base64 raw)) of Inl _ \<Rightarrow> JNull | Inr v \<Rightarrow> v))"

text \<open>The report a result calls for, if any.\<close>

definition refusal_report ::
    "(string \<Rightarrow> bytes) \<Rightarrow> string \<Rightarrow> merchant_response \<Rightarrow> (string \<times> string) list \<Rightarrow> js option" where
  "refusal_report buffer_base64 merchant result headers =
     (if mr_status result < 400 \<or> mr_status result = 402 then None
      else
        let reason = get_opt (mr_body result) ''reason'' in
        if \<not> truthy reason then None
        else
          let a = decodeAssertionForReporting buffer_base64 headers in
          Some (JObj
            [(''publisher_id'', nullish (get_opt a ''publisher_id'') (JStr MERCHANT_UNKNOWN_PUBLISHER)),
             (''assertion_id'', nullish (get_opt a ''assertion_id'') (JStr [])),
             (''merchant_id'', JStr merchant), (''reason'', reason),
             (''detail'', nullish (get_opt (mr_body result) ''error'') (JStr []))]))"

definition reportRefusal ::
    "(string \<Rightarrow> bytes) \<Rightarrow> 'w merchant \<Rightarrow> merchant_response \<Rightarrow> (string \<times> string) list \<Rightarrow> 'w \<Rightarrow> 'w" where
  "reportRefusal buffer_base64 m result headers w =
     (case refusal_report buffer_base64 (mc_merchantId (m_config m)) result headers of
        None \<Rightarrow> w
      | Some report \<Rightarrow> snd (reportRejectionTo (m_fetch m) (mc_settlementUrl (m_config m)) report w))"

definition merchant_serve ::
    "ed25519_check \<Rightarrow> (string \<Rightarrow> int option) \<Rightarrow> (string \<Rightarrow> bytes) \<Rightarrow> 'w merchant \<Rightarrow> merchant_http \<Rightarrow> int
      \<Rightarrow> 'w \<Rightarrow> merchant_reply \<times> 'w" where
  "merchant_serve ed25519 legacy buffer_base64 m req now w =
     (if mh_method req = Some ''GET'' \<and> mh_url req = Some ''/healthz''
      then (writeJson 200 (JObj [(''status'', JStr ''ok''), (''merchant_id'', JStr (mc_merchantId (m_config m)))]) [], w)
      else if mh_method req \<noteq> Some ''POST'' \<or> mh_url req \<noteq> Some ''/purchase''
      then (writeJson 404 (JObj [(''error'', JStr ''not found'')]) [], w)
      else
        case bind_io (lift (readJsonBody (mh_body req)))
               (\<lambda>body. purchase ed25519 legacy m body (mh_headers req) now) w of
          (Inr result, w') \<Rightarrow>
            (writeJson (mr_status result) (mr_body result) (mr_headers result),
             reportRefusal buffer_base64 m result (mh_headers req) w')
        | (Inl e, w') \<Rightarrow>
            (writeJson 502 (JObj [(''error'', JStr (message e)), (''reason'', JStr ''merchant_error'')]) [], w'))"

definition start_merchant ::
    "(string \<Rightarrow> string option) \<Rightarrow> (merchant_config \<Rightarrow> 'w pg_query) \<Rightarrow> 'w fetch \<Rightarrow> 'w merchant result" where
  "start_merchant penv connect fetch =
     and_then (loadConfig penv) (\<lambda>config.
     and_then (importVerificationKey (mc_publicKey config)) (\<lambda>key.
       Inr \<lparr>m_config = config, m_query = connect config, m_fetch = fetch, m_key = key\<rparr>))"

section \<open>Lemmas\<close>

lemma merchant_chunks_eq:
  "n \<le> MERCHANT_MAX_BODY_BYTES \<Longrightarrow>
   merchant_chunks err n acc cs =
     (if n + length (concat cs) > MERCHANT_MAX_BODY_BYTES then Inl (Plain_error ''request body too large'')
      else case err of Some e \<Rightarrow> Inl e | None \<Rightarrow> json_parse (utf8_replace (concat acc @ concat cs)))"
  by (induction cs arbitrary: n acc) (auto split: option.splits)

lemma serve_purchase:
  assumes "mh_method req = Some ''POST''" and "mh_url req = Some ''/purchase''"
    and "readJsonBody (mh_body req) = Inr body"
  shows "merchant_serve ed legacy b64 m req now w =
    (case purchase ed legacy m body (mh_headers req) now w of
       (Inr result, w') \<Rightarrow>
            (writeJson (mr_status result) (mr_body result) (mr_headers result),
             reportRefusal b64 m result (mh_headers req) w')
        | (Inl e, w') \<Rightarrow>
            (writeJson 502 (JObj [(''error'', JStr (message e)), (''reason'', JStr ''merchant_error'')]) [], w'))"
  using assms by (simp add: merchant_serve_def io_simps)

lemma paid_purchase_run:
  assumes "listed m body w l requirements w1"
    and "header_of headers X402_PaymentSignature = Some ph" and "header_of headers X402_AttributionAssertion = Some ah"
  shows "purchase ed legacy m body headers now w = paid_request ed legacy m l requirements ah ph now w1"
  using assms by (simp add: purchase_listed [OF assms(1)])

text \<open>A cleared purchase the settlement service refuses: the service's answer is passed on, and reported unless it is a 402.\<close>

lemma merchant_reports_rejection:
  assumes "mh_method req = Some ''POST''" and "mh_url req = Some ''/purchase''"
    and "readJsonBody (mh_body req) = Inr body" and "listed m body w l requirements w1"
    and "header_of (mh_headers req) ''payment-signature'' = Some ph"
    and "header_of (mh_headers req) ''x-attribution-assertion'' = Some ah"
    and "cleared ed legacy m l ah ph now a payment"
    and "m_fetch m (settlement_post (mc_settlementUrl (m_config m)) ''/settle'' (settlement_request_js
        \<lparr>sq_assertion = a, sq_merchant_id = merchantId l, sq_gross_amount_cents = priceCents l,
         sq_currency = currency l, sq_payment_payload = payment, sq_payment_requirements = requirements\<rparr>)) w1 =
        (Inr http, w2)"
    and "400 \<le> rs_status http"
    and "response_json http = Inr (JObj [(''error'', JStr t), (''reason'', JStr reason)])" and "reason \<noteq> []"
    and "json_parse (utf8_replace (buffer ah)) = Inr seen"
  shows "merchant_serve ed legacy buffer m req now w =
     (writeJson (rs_status http) (JObj [(''error'', JStr t), (''reason'', JStr reason)]) [],
      if rs_status http = 402 then w2
      else snd (m_fetch m (settlement_post (mc_settlementUrl (m_config m)) ''/rejections'' (JObj
        [(''publisher_id'', nullish (get_opt seen ''publisher_id'') (JStr ''unknown'')),
         (''assertion_id'', nullish (get_opt seen ''assertion_id'') (JStr [])),
         (''merchant_id'', JStr (mc_merchantId (m_config m))), (''reason'', JStr reason), (''detail'', JStr t)])) w2))"
proof -
  let ?r = "\<lparr>mr_status = rs_status http, mr_body = JObj [(''error'', JStr t), (''reason'', JStr reason)], mr_headers = []\<rparr>"
  have "\<not> response_ok http" using assms(9) by (simp add: response_ok_def)
  then have "paid_request ed legacy m l requirements ah ph now w1 = (Inr ?r, w2)"
    using assms(8,10) by (simp add: paid_request_cleared [OF assms(7)] settle_purchase_def settle_call_def io_simps)
  then have "merchant_serve ed legacy buffer m req now w =
      (writeJson (mr_status ?r) (mr_body ?r) (mr_headers ?r), reportRefusal buffer m ?r (mh_headers req) w2)"
    using assms(4-6) by (simp add: serve_purchase [OF assms(1-3)] paid_purchase_run x402_headers)
  moreover have "refusal_report buffer (mc_merchantId (m_config m)) ?r (mh_headers req) = (if rs_status http = 402 then None else Some (JObj
        [(''publisher_id'', nullish (get_opt seen ''publisher_id'') (JStr ''unknown'')),
         (''assertion_id'', nullish (get_opt seen ''assertion_id'') (JStr [])),
         (''merchant_id'', JStr (mc_merchantId (m_config m))), (''reason'', JStr reason), (''detail'', JStr t)]))"
    using assms(6,9,11,12)
    by (simp add: refusal_report_def Let_def get_opt_def decodeAssertionForReporting_def x402_headers MERCHANT_UNKNOWN_PUBLISHER_def nullish_def)
  ultimately show ?thesis
    by (auto simp: reportRefusal_def reportRejectionTo_def io_simps split: prod.splits sum.splits)
qed

section \<open>Concrete requests\<close>

definition sample_http :: "(string \<times> string) list \<Rightarrow> merchant_http" where
  "sample_http headers = \<lparr>mh_method = Some ''POST'', mh_url = Some ''/purchase'', mh_headers = headers,
     mh_body = \<lparr>chunks = [json_body sample_buy], broken = None\<rparr>\<rparr>"

definition shapeless_headers :: "(string \<times> string) list" where
  "shapeless_headers = [(''payment-signature'', encodeHeaderJson sample_payment),
     (''x-attribution-assertion'', encodeHeaderJson (JObj []))]"

section \<open>Properties\<close>

text \<open>Opening an exchange is no refusal: a fulfilled purchase and a 402 challenge are never
  reported, and neither is a refusal without a reason; every other refusal is reported once, under
  the publisher its assertion names or \<open>unknown\<close>.\<close>

theorem refusals_reported_once:
  "reportRefusal b64 m result headers w =
     (if mr_status result \<ge> 400 \<and> mr_status result \<noteq> 402 \<and> truthy (get_opt (mr_body result) ''reason'')
      then snd (m_fetch m (settlement_post (mc_settlementUrl (m_config m)) ''/rejections'' (JObj
            [(''publisher_id'', nullish (get_opt (decodeAssertionForReporting b64 headers) ''publisher_id'') (JStr ''unknown'')),
             (''assertion_id'', nullish (get_opt (decodeAssertionForReporting b64 headers) ''assertion_id'') (JStr [])),
             (''merchant_id'', JStr (mc_merchantId (m_config m))), (''reason'', get_opt (mr_body result) ''reason''),
             (''detail'', nullish (get_opt (mr_body result) ''error'') (JStr []))])) w)
      else w)"
  by (auto simp: reportRefusal_def refusal_report_def Let_def MERCHANT_UNKNOWN_PUBLISHER_def reportRejectionTo_def io_simps
      split: prod.splits sum.splits)

text \<open>An assertion header that decodes to an object without a text signature is answered as a broken
  merchant: the verifier's TypeError escapes, the reply is 502 \<open>merchant_error\<close> and nothing is
  reported.\<close>

theorem shapeless_assertion_502:
  assumes "mh_method req = Some ''POST''" and "mh_url req = Some ''/purchase''"
    and "readJsonBody (mh_body req) = Inr body" and "listed m body w l requirements w1"
    and "header_of (mh_headers req) ''payment-signature'' = Some ph"
    and "header_of (mh_headers req) ''x-attribution-assertion'' = Some ah"
    and "decodePaymentHeader ph = Inr payment"
    and "decodeHeaderJson ah = Inr (JObj kvs)" and "type_of (own kvs ''signature'') \<noteq> ''string''"
  shows "\<exists>m'. merchant_serve ed legacy b64 m req now w =
     (writeJson 502 (JObj [(''error'', JStr m'), (''reason'', JStr ''merchant_error'')]) [], w1)"
proof -
  obtain t where t: "as_string_for ''assertion.signature'' ''startsWith'' (own kvs ''signature'') = Inl (Type_error t)"
  proof (cases "as_string_for ''assertion.signature'' ''startsWith'' (own kvs ''signature'')")
    case (Inl e)
    then show thesis using that as_string_for_Inl by blast
  qed (use assms(9) in auto)
  have "decode_both ah ph = Inr (JObj kvs, payment)"
    using assms(7,8) by (simp add: decode_both_Inr decodePaymentHeader_Inr)
  then have "paid_request ed legacy m l requirements ah ph now w1 = (Inl (Type_error t), w1)"
    using t by (simp add: paid_request_def verifyAssertion_def io_simps)
  then show ?thesis
    using assms(4-6)
    by (intro exI [of _ t]) (simp add: serve_purchase [OF assms(1-3)] paid_purchase_run x402_headers)
qed

lemma shapeless_assertion_502_witness:
  "\<exists>m'. merchant_serve (\<lambda>k s p. True) (\<lambda>_. None) id sample_merchant (sample_http shapeless_headers) 0 0 =
     (writeJson 502 (JObj [(''error'', JStr m'), (''reason'', JStr ''merchant_error'')]) [], 0)"
proof (rule shapeless_assertion_502 [OF _ _ _ sample_listed])
  show "readJsonBody (mh_body (sample_http shapeless_headers)) = Inr sample_buy" by code_simp
  have "encodeHeaderJson (JObj []) \<noteq> []" by code_simp
  then show "header_of (mh_headers (sample_http shapeless_headers)) ''payment-signature'' = Some (encodeHeaderJson sample_payment)"
    "header_of (mh_headers (sample_http shapeless_headers)) ''x-attribution-assertion'' = Some (encodeHeaderJson (JObj []))"
    using encodeHeaderJson_nonempty [OF sample_ok(2)]
    by (simp_all add: header_of_Some sample_http_def shapeless_headers_def)
  show "decodePaymentHeader (encodeHeaderJson sample_payment) = Inr sample_payment"
    using sample_cleared by (simp add: decodePaymentHeader_Inr cleared_def)
  show "decodeHeaderJson (encodeHeaderJson (JObj [])) = Inr (JObj [])" by code_simp
qed (simp_all add: sample_http_def)

end
