(* ===== verification/Agent.thy ===== *)
theory Agent
  imports Http Facilitator_Verify
begin

text \<open>
  \<open>simulator/src/agent.ts\<close>: the buying agent.  viem's account is its address and the parameter
  \<open>sign\<close>, which may throw; the clock and the random bytes are arguments.  What the services
  answer is dynamic; the two \<open>for ... of\<close> loops and \<open>map\<close> are modelled on arrays, and anything
  else they are given is a TypeError.
\<close>

definition AGENT_ASSERTION_HEADER :: string where
  "AGENT_ASSERTION_HEADER = ''x-attribution-assertion''"

definition AGENT_PAYMENT_HEADER :: string where
  "AGENT_PAYMENT_HEADER = ''payment-signature''"

definition VALID_AFTER_BACKDATE_SECONDS :: int where
  "VALID_AFTER_BACKDATE_SECONDS = 60"

definition readErrorBody :: "http_response \<Rightarrow> js" where
  "readErrorBody response =
     (let t = text_decode (rs_body response) in case json_parse t of Inr v \<Rightarrow> v | Inl _ \<Rightarrow> JStr t)"

definition agent_encodeHeaderJson :: "js \<Rightarrow> string" where
  "agent_encodeHeaderJson v = btoa (utf8_encode (stringify v))"

section \<open>Selection\<close>

record selection =
  sel_product :: js
  sel_offer :: js
  sel_assertion :: js

fun elements :: "string \<Rightarrow> js \<Rightarrow> js list result" where
  "elements what (JArr vs) = Inr vs"
| "elements what JUndef = Inl (cannot_read ''undefined'' what)"
| "elements what JNull = Inl (cannot_read ''null'' what)"
| "elements what v = Inl (Type_error (what @ '' is not iterable''))"

text \<open>\<open>a < b\<close> on two values: two strings by their text, anything else by number.\<close>

fun primitive :: "js \<Rightarrow> js" where
  "primitive (JArr vs) = JStr (to_text (JArr vs))"
| "primitive (JObj kvs) = JStr (to_text (JObj kvs))"
| "primitive v = v"

fun text_less :: "string \<Rightarrow> string \<Rightarrow> bool" where
  "text_less s [] = False"
| "text_less [] (c # t) = True"
| "text_less (b # s) (c # t) = (byte b < (byte c :: nat) \<or> b = c \<and> text_less s t)"

definition js_less :: "js \<Rightarrow> js \<Rightarrow> bool" where
  "js_less a b =
     (case (primitive a, primitive b) of
        (JStr s, JStr t) \<Rightarrow> text_less s t
      | (x, y) \<Rightarrow> num_less (to_number x) (to_number y))"

text \<open>A \<open>Map\<close> from the assertions' product ids: a later entry replaces an earlier one, keys compare
  with SameValueZero.\<close>

fun same_key :: "js \<Rightarrow> js \<Rightarrow> bool" where
  "same_key (JArr vs) w = False"
| "same_key (JObj kvs) w = False"
| "same_key v w = (v = w)"

fun keyed :: "js list \<Rightarrow> (js \<times> js) list result" where
  "keyed [] = Inr []"
| "keyed (a # as) =
     and_then (get a ''product_id'') (\<lambda>k. and_then (keyed as) (\<lambda>r. Inr ((k, a) # r)))"

definition by_product :: "(js \<times> js) list \<Rightarrow> js \<Rightarrow> js" where
  "by_product entries k =
     (case List.find (\<lambda>e. same_key (fst e) k) (rev entries) of None \<Rightarrow> JUndef | Some e \<Rightarrow> snd e)"

fun consider_offers :: "js \<Rightarrow> js \<Rightarrow> js list \<Rightarrow> selection option \<Rightarrow> selection option result" where
  "consider_offers product a [] best = Inr best"
| "consider_offers product a (offer # offers) best =
     and_then (get offer ''in_stock'') (\<lambda>in_stock.
     if \<not> truthy in_stock then consider_offers product a offers best
     else
       consider_offers product a offers
         (case best of
            None \<Rightarrow> Some \<lparr>sel_product = product, sel_offer = offer, sel_assertion = a\<rparr>
          | Some b \<Rightarrow>
              if js_less (get_opt offer ''price_cents'') (get_opt (sel_offer b) ''price_cents'')
              then Some \<lparr>sel_product = product, sel_offer = offer, sel_assertion = a\<rparr> else best))"

fun consider_products :: "(js \<times> js) list \<Rightarrow> js list \<Rightarrow> selection option \<Rightarrow> selection option result" where
  "consider_products entries [] best = Inr best"
| "consider_products entries (product # products) best =
     and_then (get product ''product_id'') (\<lambda>k.
     let a = by_product entries k in
     if \<not> truthy a then consider_products entries products best
     else
       and_then (and_then (get product ''offers'') (elements ''product.offers'')) (\<lambda>offers.
       and_then (consider_offers product a offers best) (consider_products entries products)))"

definition selectCheapestInStock :: "js \<Rightarrow> selection option result" where
  "selectCheapestInStock response =
     and_then (and_then (get response ''assertions'') (elements ''response.assertions'')) (\<lambda>as.
     and_then (keyed as) (\<lambda>entries.
     and_then (and_then (get response ''products'') (elements ''response.products'')) (\<lambda>products.
       consider_products entries products None)))"

section \<open>The agent\<close>

fun hex_byte :: "char \<Rightarrow> string" where
  "hex_byte b = [digit_char (byte b div 16), digit_char (byte b mod 16)]"

text \<open>The nonce of 32 random bytes.\<close>

definition randomNonce :: "bytes \<Rightarrow> string" where
  "randomNonce bytes = ''0x'' @ concat (map hex_byte bytes)"

record agent =
  ag_gatewayUrl :: string
  ag_address :: string
  ag_sign :: "typed_data \<Rightarrow> string result"

definition new_agent :: "string \<Rightarrow> string \<Rightarrow> (typed_data \<Rightarrow> string result) \<Rightarrow> agent" where
  "new_agent gatewayUrl address sign =
     \<lparr>ag_gatewayUrl = strip_slashes gatewayUrl, ag_address = address, ag_sign = sign\<rparr>"

definition agent_post :: "agent \<Rightarrow> string \<Rightarrow> headers \<Rightarrow> js \<Rightarrow> http_request" where
  "agent_post agent path extra body =
     \<lparr>rq_method = ''POST'', rq_url = ag_gatewayUrl agent @ path,
      rq_headers = (''content-type'', ''application/json'') # extra, rq_body = json_body body\<rparr>"

definition search :: "'w fetch \<Rightarrow> agent \<Rightarrow> string \<Rightarrow> js \<Rightarrow> int \<Rightarrow> ('w, exn, js) io" where
  "search fetch agent query publisherId limit =
     bind_io (fetch (agent_post agent ''/search'' [] (JObj
       [(''query'', JStr query), (''publisher_id'', publisherId), (''size'', jint limit)]))) (\<lambda>response.
       if \<not> response_ok response
       then lift (Inl (Agent_error ''search failed'' (rs_status response) (readErrorBody response)))
       else lift (response_json response))"

definition first_element :: "js \<Rightarrow> js result" where
  "first_element v =
     (case v of
        JArr vs \<Rightarrow> Inr (case vs of [] \<Rightarrow> JUndef | x # _ \<Rightarrow> x)
      | _ \<Rightarrow> get v ''0'')"

definition requestChallenge :: "'w fetch \<Rightarrow> agent \<Rightarrow> js \<Rightarrow> ('w, exn, js) io" where
  "requestChallenge fetch agent productId =
     bind_io (fetch (agent_post agent ''/purchase'' [] (JObj [(''product_id'', productId)]))) (\<lambda>response.
       if rs_status response \<noteq> 402
       then lift (Inl (Agent_error (''expected 402 Payment Required, got '' @ nat_text (rs_status response))
              (rs_status response) (readErrorBody response)))
       else
         lift (and_then (response_json response) (\<lambda>body.
           and_then (and_then (get body ''accepts'') first_element) (\<lambda>requirements.
             if truthy requirements then Inr requirements
             else Inl (Agent_error ''402 carried no payment requirements'' 402 body)))))"

definition agent_seconds :: "number \<Rightarrow> int result" where
  "agent_seconds now = to_bigint (JNum (math_floor (num_div now (Fin 1000))))"

definition authorization_for :: "agent \<Rightarrow> js \<Rightarrow> int \<Rightarrow> int \<Rightarrow> bytes \<Rightarrow> js" where
  "authorization_for agent requirements seconds timeout bytes = JObj
     [(''from'', JStr (ag_address agent)), (''to'', get_opt requirements ''payTo''),
      (''value'', get_opt requirements ''maxAmountRequired''),
      (''validAfter'', JStr (int_text (seconds - VALID_AFTER_BACKDATE_SECONDS))),
      (''validBefore'', JStr (int_text (seconds + timeout))), (''nonce'', JStr (randomNonce bytes))]"

definition signAuthorization :: "agent \<Rightarrow> js \<Rightarrow> number \<Rightarrow> bytes \<Rightarrow> js result" where
  "signAuthorization agent requirements now bytes =
     and_then (agent_seconds now) (\<lambda>seconds.
     and_then (and_then (get requirements ''maxTimeoutSeconds'') to_bigint) (\<lambda>timeout.
     let authorization = authorization_for agent requirements seconds timeout bytes in
     and_then (eip712Domain (get_opt requirements ''network'')) (\<lambda>domain.
     and_then (toTypedMessage authorization) (\<lambda>m.
     and_then (ag_sign agent \<lparr>td_domain = domain, td_types = EIP3009_TYPES,
         td_primaryType = EIP3009_PRIMARY_TYPE, td_message = m\<rparr>) (\<lambda>signature.
       Inr (JObj [(''x402Version'', jint 1), (''scheme'', get_opt requirements ''scheme''),
         (''network'', get_opt requirements ''network''), (''authorization'', authorization),
         (''signature'', JStr signature)]))))))"

definition completePurchase :: "'w fetch \<Rightarrow> agent \<Rightarrow> js \<Rightarrow> js \<Rightarrow> js \<Rightarrow> ('w, exn, js) io" where
  "completePurchase fetch agent productId assertion payment =
     bind_io (fetch (agent_post agent ''/purchase''
       [(AGENT_PAYMENT_HEADER, agent_encodeHeaderJson payment),
        (AGENT_ASSERTION_HEADER, agent_encodeHeaderJson assertion)]
       (JObj [(''product_id'', productId)]))) (\<lambda>response.
       if \<not> response_ok response
       then lift (Inl (Agent_error ''purchase rejected'' (rs_status response) (readErrorBody response)))
       else lift (response_json response))"

definition agent_purchase ::
    "'w fetch \<Rightarrow> agent \<Rightarrow> string \<Rightarrow> string \<Rightarrow> number \<Rightarrow> bytes \<Rightarrow> ('w, exn, selection \<times> js) io" where
  "agent_purchase fetch agent query publisherId now bytes =
     bind_io (search fetch agent query (JStr publisherId) 10) (\<lambda>results.
     bind_io (lift (selectCheapestInStock results)) (\<lambda>found.
     case found of
       None \<Rightarrow>
         lift (Inl (Agent_error (''no purchasable offer for '' @ [chr 34] @ query @ [chr 34]) 404 results))
     | Some s \<Rightarrow>
         bind_io (requestChallenge fetch agent (get_opt (sel_product s) ''product_id'')) (\<lambda>requirements.
         bind_io (lift (signAuthorization agent requirements now bytes)) (\<lambda>payment.
         bind_io (completePurchase fetch agent (get_opt (sel_product s) ''product_id'') (sel_assertion s) payment)
           (\<lambda>fulfillment. ret (s, fulfillment))))))"

section \<open>The cheapest offer\<close>

text \<open>Every buyable combination, in the order the loops meet them.\<close>

definition offers_of :: "js \<Rightarrow> js list" where
  "offers_of product = (case get_opt product ''offers'' of JArr vs \<Rightarrow> vs | _ \<Rightarrow> [])"

definition buyable :: "(js \<times> js) list \<Rightarrow> js \<Rightarrow> selection list" where
  "buyable entries product =
     (let a = by_product entries (get_opt product ''product_id'') in
      if truthy a
      then map (\<lambda>offer. \<lparr>sel_product = product, sel_offer = offer, sel_assertion = a\<rparr>)
        (filter (\<lambda>offer. truthy (get_opt offer ''in_stock'')) (offers_of product))
      else [])"

definition sel_price :: "selection \<Rightarrow> js" where
  "sel_price s = get_opt (sel_offer s) ''price_cents''"

fun cheapest :: "selection option \<Rightarrow> selection list \<Rightarrow> selection option" where
  "cheapest best [] = best"
| "cheapest best (s # ss) =
     cheapest (case best of None \<Rightarrow> Some s | Some b \<Rightarrow> if js_less (sel_price s) (sel_price b) then Some s else best) ss"

lemma cheapest_append: "cheapest best (ss @ ts) = cheapest (cheapest best ss) ts"
  by (induction best ss rule: cheapest.induct) auto

text \<open>The shape \<open>SearchResponse\<close> declares: arrays of objects where the loops walk.\<close>

definition response_shaped :: "js \<Rightarrow> bool" where
  "response_shaped response \<longleftrightarrow>
     (\<exists>as ps. get response ''assertions'' = Inr (JArr as) \<and> get response ''products'' = Inr (JArr ps) \<and>
        list_all is_object as \<and>
        list_all (\<lambda>p. is_object p \<and> (\<exists>os. get_opt p ''offers'' = JArr os \<and> list_all is_object os)) ps)"

definition entries_of_response :: "js \<Rightarrow> (js \<times> js) list" where
  "entries_of_response response =
     (case get_opt response ''assertions'' of JArr as \<Rightarrow> map (\<lambda>a. (get_opt a ''product_id'', a)) as | _ \<Rightarrow> [])"

definition choices :: "js \<Rightarrow> selection list" where
  "choices response =
     (case get_opt response ''products'' of
        JArr ps \<Rightarrow> concat (map (buyable (entries_of_response response)) ps) | _ \<Rightarrow> [])"

lemma get_of_object: "is_object v \<Longrightarrow> get v k = Inr (get_opt v k)"
  by (cases v) (auto simp: get_opt_def)

lemma keyed_objects: "list_all is_object as \<Longrightarrow> keyed as = Inr (map (\<lambda>a. (get_opt a ''product_id'', a)) as)"
  by (induction as) (auto simp: get_of_object)

lemma consider_offers_eq:
  "list_all is_object os \<Longrightarrow> consider_offers p a os best =
     Inr (cheapest best (map (\<lambda>offer. \<lparr>sel_product = p, sel_offer = offer, sel_assertion = a\<rparr>)
       (filter (\<lambda>offer. truthy (get_opt offer ''in_stock'')) os)))"
  by (induction os arbitrary: best) (auto simp: get_of_object sel_price_def split: option.split)

lemma consider_products_eq:
  "list_all (\<lambda>p. is_object p \<and> (\<exists>os. get_opt p ''offers'' = JArr os \<and> list_all is_object os)) ps \<Longrightarrow>
     consider_products entries ps best = Inr (cheapest best (concat (map (buyable entries) ps)))"
  by (induction ps arbitrary: best)
    (auto simp: get_of_object buyable_def Let_def offers_of_def consider_offers_eq cheapest_append)

lemma selectCheapest_eq:
  assumes "response_shaped response"
  shows "selectCheapestInStock response = Inr (cheapest None (choices response))"
proof -
  obtain as ps where r: "get response ''assertions'' = Inr (JArr as)" "get response ''products'' = Inr (JArr ps)"
    "list_all is_object as"
    "list_all (\<lambda>p. is_object p \<and> (\<exists>os. get_opt p ''offers'' = JArr os \<and> list_all is_object os)) ps"
    using assms by (auto simp: response_shaped_def)
  then have opt: "get_opt response ''assertions'' = JArr as" "get_opt response ''products'' = JArr ps"
    by (simp_all add: get_opt_def)
  show ?thesis
    by (simp add: selectCheapestInStock_def r keyed_objects consider_products_eq choices_def entries_of_response_def opt)
qed

text \<open>On offers priced with numbers the order is the numbers'.\<close>

definition priced_choice :: "selection \<Rightarrow> bool" where
  "priced_choice s = (case sel_price s of JNum (Fin x) \<Rightarrow> True | _ \<Rightarrow> False)"

lemma priced_choice_iff: "priced_choice s \<longleftrightarrow> (\<exists>x. sel_price s = JNum (Fin x))"
  by (auto simp: priced_choice_def split: js.splits number.splits)

definition price_of :: "selection \<Rightarrow> rat" where
  "price_of s = (case sel_price s of JNum (Fin x) \<Rightarrow> x | _ \<Rightarrow> 0)"

lemma priced_less:
  "priced_choice s \<Longrightarrow> priced_choice t \<Longrightarrow> js_less (sel_price s) (sel_price t) \<longleftrightarrow> price_of s < price_of t"
  by (auto simp: priced_choice_iff price_of_def js_less_def)

lemma cheapest_from:
  assumes "list_all priced_choice ss" and "priced_choice b"
  shows "\<exists>s. cheapest (Some b) ss = Some s \<and> s \<in> set (b # ss) \<and> list_all (\<lambda>c. price_of s \<le> price_of c) (b # ss)"
  using assms
proof (induction ss arbitrary: b)
  case (Cons c cs)
  show ?case
  proof (cases "price_of c < price_of b")
    case True
    from Cons.IH [of c] Cons.prems obtain s where "cheapest (Some c) cs = Some s" "s \<in> set (c # cs)"
      "list_all (\<lambda>c. price_of s \<le> price_of c) (c # cs)" by auto
    with True Cons.prems show ?thesis by (auto simp: priced_less)
  next
    case False
    from Cons.IH [of b] Cons.prems obtain s where "cheapest (Some b) cs = Some s" "s \<in> set (b # cs)"
      "list_all (\<lambda>c. price_of s \<le> price_of c) (b # cs)" by auto
    with False Cons.prems show ?thesis by (auto simp: priced_less)
  qed
qed simp

lemma cheapest_best:
  assumes "list_all priced_choice ss" and "cheapest None ss = Some s"
  shows "s \<in> set ss \<and> list_all (\<lambda>c. price_of s \<le> price_of c) ss"
proof (cases ss)
  case (Cons b cs)
  with cheapest_from [of cs b] assms show ?thesis by auto
qed (use assms in simp)

lemma cheapest_None: "cheapest best ss = None \<longleftrightarrow> best = None \<and> ss = []"
  by (induction best ss rule: cheapest.induct) (auto split: option.splits)

section \<open>Properties\<close>

text \<open>The agent picks the cheapest offer it can buy: over a well-shaped response with numeric
  prices the selection is one of the in-stock offers of a product that has an assertion, no such offer
  is cheaper, it is paired with the assertion for its own product, and nothing is selected only when
  no such offer exists.\<close>

theorem selects_cheapest:
  assumes "response_shaped response" and "list_all priced_choice (choices response)"
  shows "case selectCheapestInStock response of
      Inl e \<Rightarrow> False
    | Inr None \<Rightarrow> choices response = []
    | Inr (Some s) \<Rightarrow> s \<in> set (choices response) \<and>
        list_all (\<lambda>c. price_of s \<le> price_of c) (choices response) \<and>
        truthy (get_opt (sel_offer s) ''in_stock'') \<and>
        sel_assertion s = by_product (entries_of_response response) (get_opt (sel_product s) ''product_id'')"
proof (cases "cheapest None (choices response)")
  case None
  then show ?thesis by (simp add: selectCheapest_eq [OF assms(1)] cheapest_None)
next
  case (Some s)
  have "truthy (get_opt (sel_offer s) ''in_stock'') \<and>
      sel_assertion s = by_product (entries_of_response response) (get_opt (sel_product s) ''product_id'')"
    if "s \<in> set (choices response)"
    using that by (auto simp: choices_def buyable_def Let_def split: js.splits if_splits)
  with Some cheapest_best [OF assms(2) Some] show ?thesis
    by (simp add: selectCheapest_eq [OF assms(1)])
qed

definition sample_offer :: "int \<Rightarrow> bool \<Rightarrow> js" where
  "sample_offer price stock = JObj [(''price_cents'', jint price), (''in_stock'', JBool stock)]"

definition sample_response :: js where
  "sample_response = JObj
     [(''products'', JArr
        [JObj [(''product_id'', JStr ''d1''), (''offers'', JArr [sample_offer 900 False, sample_offer 1200 True])],
         JObj [(''product_id'', JStr ''d2''), (''offers'', JArr [sample_offer 1100 True])],
         JObj [(''product_id'', JStr ''d3''), (''offers'', JArr [sample_offer 100 True])]]),
      (''assertions'', JArr
        [JObj [(''product_id'', JStr ''d1'')], JObj [(''product_id'', JStr ''d2'')]])]"

lemma selects_cheapest_witness:
  "case selectCheapestInStock sample_response of
      Inl e \<Rightarrow> False
    | Inr None \<Rightarrow> choices sample_response = []
    | Inr (Some s) \<Rightarrow> s \<in> set (choices sample_response) \<and>
        list_all (\<lambda>c. price_of s \<le> price_of c) (choices sample_response) \<and>
        truthy (get_opt (sel_offer s) ''in_stock'') \<and>
        sel_assertion s = by_product (entries_of_response sample_response) (get_opt (sel_product s) ''product_id'')"
proof (rule selects_cheapest)
  show "response_shaped sample_response"
    by (simp add: response_shaped_def sample_response_def sample_offer_def get_opt_def)
  show "list_all priced_choice (choices sample_response)" by code_simp
qed

text \<open>The message an authorization over these requirements carries.\<close>

definition message_for :: "agent \<Rightarrow> js \<Rightarrow> int \<Rightarrow> int \<Rightarrow> int \<Rightarrow> bytes \<Rightarrow> eip3009_message" where
  "message_for agent payTo amount seconds timeout bytes =
     \<lparr>msg_from = JStr (ag_address agent), msg_to = payTo, msg_value = amount, msg_validAfter = seconds - 60,
      msg_validBefore = seconds + timeout, msg_nonce = JStr (randomNonce bytes)\<rparr>"

lemma authorization_message:
  assumes "own r ''payTo'' = payTo" and "own r ''maxAmountRequired'' = JStr (int_text amount)"
    and "0 \<le> amount" "amount < 2 ^ 256" "60 \<le> seconds" "0 \<le> timeout" "seconds + timeout < 2 ^ 256"
  shows "toTypedMessage (authorization_for agent (JObj r) seconds timeout bytes) =
     Inr (message_for agent payTo amount seconds timeout bytes)"
proof -
  have *: "toUint256 (JStr (int_text v)) field = Inr v" if "0 \<le> v" "v < 2 ^ 256" for v field
    using that by (intro toUint256_decimal) (simp_all add: MAX_UINT256_def)
  show ?thesis
    using assms by (simp add: toTypedMessage_def authorization_for_def get_opt_def message_for_def
        VALID_AFTER_BACKDATE_SECONDS_def *)
qed

text \<open>The payment on the base network for requirements with a decimal amount.\<close>

definition payment_fields :: "agent \<Rightarrow> js \<Rightarrow> int \<Rightarrow> int \<Rightarrow> bytes \<Rightarrow> string \<Rightarrow> (string \<times> js) list" where
  "payment_fields agent requirements seconds timeout bytes sig =
     [(''x402Version'', jint 1), (''scheme'', JStr ''exact''), (''network'', JStr ''base-sepolia''),
      (''authorization'', authorization_for agent requirements seconds timeout bytes), (''signature'', JStr sig)]"

definition typed_payment :: "agent \<Rightarrow> js \<Rightarrow> int \<Rightarrow> int \<Rightarrow> int \<Rightarrow> bytes \<Rightarrow> typed_data" where
  "typed_payment agent payTo amount seconds timeout bytes =
     \<lparr>td_domain = entry_domain (Parameters BASE_SEPOLIA), td_types = EIP3009_TYPES, td_primaryType = EIP3009_PRIMARY_TYPE,
      td_message = message_for agent payTo amount seconds timeout bytes\<rparr>"

definition payable :: "(string \<times> js) list \<Rightarrow> string \<Rightarrow> int \<Rightarrow> int \<Rightarrow> int \<Rightarrow> bool" where
  "payable r payTo amount timeout n \<longleftrightarrow>
     own r ''scheme'' = JStr ''exact'' \<and> own r ''network'' = JStr ''base-sepolia'' \<and>
     own r ''payTo'' = JStr payTo \<and> own r ''maxAmountRequired'' = JStr (int_text amount) \<and>
     own r ''maxTimeoutSeconds'' = jint timeout \<and>
     0 \<le> amount \<and> amount < 2 ^ 256 \<and> 60 \<le> n \<and> 0 \<le> timeout \<and> n + timeout < 2 ^ 256"

lemma signed_payment:
  assumes "payable r payTo amount timeout n" and "agent_seconds now = Inr n"
    and "ag_sign agent (typed_payment agent (JStr payTo) amount n timeout bytes) = Inr s"
  shows "signAuthorization agent (JObj r) now bytes = Inr (JObj (payment_fields agent (JObj r) n timeout bytes s))"
proof -
  have "toTypedMessage (authorization_for agent (JObj r) n timeout bytes) =
      Inr (message_for agent (JStr payTo) amount n timeout bytes)"
    using assms(1) by (intro authorization_message) (simp_all add: payable_def)
  then show ?thesis
    using assms by (simp add: signAuthorization_def get_opt_def eip712Domain_known payment_fields_def Let_def
        payable_def typed_payment_def)
qed

lemma signed_payment_verifies:
  assumes "payable r payTo amount timeout n" and "own r ''asset'' = JStr asset"
    and "to_lower asset = to_lower (usdcAddress BASE_SEPOLIA)" and "n - 60 \<le> later" and "later < n + timeout"
    and "vt (JStr (ag_address agent)) (typed_payment agent (JStr payTo) amount n timeout bytes) (JStr s) = Inr True"
  shows "verifyPayment vt (JObj (payment_fields agent (JObj r) n timeout bytes s)) (JObj r) later =
     Inr (Valid (JStr (ag_address agent)))"
proof -
  let ?m = "message_for agent (JStr payTo) amount n timeout bytes"
  let ?d = "entry_domain (Parameters BASE_SEPOLIA)"
  let ?p = "payment_fields agent (JObj r) n timeout bytes s"
  have "toTypedMessage (authorization_for agent (JObj r) n timeout bytes) = Inr ?m"
    using assms(1) by (intro authorization_message) (simp_all add: payable_def)
  then have "payment_matches ?p r ?m ?d"
    using assms(1-3) by (simp add: payment_matches_def payment_fields_def eip712Domain_known sameAddress_def
        message_for_def string_to_bigint_int_text payable_def)
  moreover have "signature_verifies vt ?p ?m ?d"
    using assms(6) by (simp add: signature_verifies_def payment_fields_def message_for_def typed_payment_def)
  ultimately show ?thesis
    using assms(4,5) unfolding verifyPayment_Valid_iff
    by (intro exI [of _ ?m] exI [of _ ?d]) (simp add: message_for_def)
qed

text \<open>What the agent signs, the facilitator accepts: for supported requirements with a decimal
  amount, and a signer whose signatures the facilitator's verifier recognises, the payment built at
  second \<open>n\<close> verifies against those very requirements from sixty seconds before \<open>n\<close> until the
  timeout has passed, and names the agent as payer.\<close>

theorem signed_payment_accepted:
  assumes "own r ''scheme'' = JStr ''exact''" and "own r ''network'' = JStr ''base-sepolia''"
    and "own r ''asset'' = JStr asset" and "to_lower asset = to_lower (usdcAddress BASE_SEPOLIA)"
    and "own r ''payTo'' = JStr payTo" and "own r ''maxAmountRequired'' = JStr (int_text amount)"
    and "own r ''maxTimeoutSeconds'' = jint timeout"
    and "0 \<le> amount" and "amount < 2 ^ 256" and "60 \<le> n" and "0 \<le> timeout" and "n + timeout < 2 ^ 256"
    and "agent_seconds now = Inr n" and "n - 60 \<le> later" and "later < n + timeout"
    and "\<And>d. \<exists>s. ag_sign agent d = Inr s \<and> vt (JStr (ag_address agent)) d (JStr s) = Inr True"
  shows "\<exists>payment. signAuthorization agent (JObj r) now bytes = Inr payment \<and>
     verifyPayment vt payment (JObj r) later = Inr (Valid (JStr (ag_address agent)))"
proof -
  from assms(16) obtain s where
    s: "ag_sign agent (typed_payment agent (JStr payTo) amount n timeout bytes) = Inr s"
      "vt (JStr (ag_address agent)) (typed_payment agent (JStr payTo) amount n timeout bytes) (JStr s) = Inr True"
    by blast
  have "payable r payTo amount timeout n" using assms(1,2,5-12) by (simp add: payable_def)
  from signed_payment [OF this assms(13) s(1)] signed_payment_verifies [where vt = vt, OF this assms(3,4,14,15) s(2)]
  show ?thesis by blast
qed

lemma signed_payment_accepted_witness:
  "\<exists>payment. signAuthorization (new_agent ''http://g/'' ''0xA'' (\<lambda>d. Inr ''0xS''))
       (JObj (sample_requirements @ [(''maxTimeoutSeconds'', jint 120)])) (Fin 1000000) (replicate 32 (chr 1)) = Inr payment \<and>
     verifyPayment (\<lambda>_ _ s. Inr (s = JStr ''0xS'')) payment (JObj (sample_requirements @ [(''maxTimeoutSeconds'', jint 120)]))
       1100 = Inr (Valid (JStr (ag_address (new_agent ''http://g/'' ''0xA'' (\<lambda>d. Inr ''0xS'')))))"
proof (rule signed_payment_accepted [where asset = "''0x036cbd53842c5426634e7929541ec2318f3dcf7e''" and payTo = "''0xb''"
      and amount = 100 and timeout = 120 and n = 1000])
  show "agent_seconds (Fin 1000000) = Inr 1000" by code_simp
  show "to_lower ''0x036cbd53842c5426634e7929541ec2318f3dcf7e'' = to_lower (usdcAddress BASE_SEPOLIA)" by code_simp
  show "own (sample_requirements @ [(''maxTimeoutSeconds'', jint 120)]) ''maxAmountRequired'' = JStr (int_text 100)"
    by code_simp
qed (simp_all add: sample_requirements_def new_agent_def)

end
