(* ===== verification/Fraud.thy ===== *)
theory Fraud
  imports Verify
begin

text \<open>
  \<open>simulator/src/fraud.ts\<close>: the deliberate attacks.  \<open>Date.now()\<close> and the random draw are
  arguments.
\<close>

datatype fraud_mode =
    Tampered_publisher | Tampered_commission | Expired_mode | Forged_signature | Unknown_publisher

definition FRAUD_MODES :: "fraud_mode list" where
  "FRAUD_MODES = [Tampered_publisher, Tampered_commission, Expired_mode, Forged_signature, Unknown_publisher]"

fun fraud_text :: "fraud_mode \<Rightarrow> string" where
  "fraud_text Tampered_publisher = ''tampered_publisher''"
| "fraud_text Tampered_commission = ''tampered_commission''"
| "fraud_text Expired_mode = ''expired''"
| "fraud_text Forged_signature = ''forged_signature''"
| "fraud_text Unknown_publisher = ''unknown_publisher''"

fun EXPECTED_REJECTION :: "fraud_mode \<Rightarrow> string" where
  "EXPECTED_REJECTION Tampered_publisher = ''assertion_signature_invalid''"
| "EXPECTED_REJECTION Tampered_commission = ''assertion_signature_invalid''"
| "EXPECTED_REJECTION Expired_mode = ''assertion_expired''"
| "EXPECTED_REJECTION Forged_signature = ''assertion_signature_invalid''"
| "EXPECTED_REJECTION Unknown_publisher = ''assertion_signature_invalid''"

definition ATTACKER_PUBLISHER :: string where
  "ATTACKER_PUBLISHER = ''pub_999999''"

definition INFLATED_COMMISSION_BPS :: int where
  "INFLATED_COMMISSION_BPS = 9999"

definition FRAUD_SIGNATURE_PREFIX :: string where
  "FRAUD_SIGNATURE_PREFIX = ''ed25519:''"

definition SIGNATURE_BODY_LENGTH :: nat where
  "SIGNATURE_BODY_LENGTH = 86"

definition MILLIS_PER_HOUR :: int where
  "MILLIS_PER_HOUR = 3600000"

text \<open>\<open>replace(/\.\d{3}Z$/, 'Z')\<close>.\<close>

definition drop_millis :: "string \<Rightarrow> string" where
  "drop_millis s =
     (let n = length s - 5; t = drop n s in
      if length s \<ge> 5 \<and> starts_with ''.'' t \<and> list_all is_digit (take 3 (drop 1 t)) \<and> drop 4 t = ''Z''
      then take n s @ ''Z'' else s)"

definition hoursAgo :: "int \<Rightarrow> int \<Rightarrow> string" where
  "hoursAgo now hours = drop_millis (iso_text (now - hours * MILLIS_PER_HOUR))"

text \<open>\<open>{ ...assertion, ... }\<close> copies the own properties of an object.\<close>

fun own_properties :: "js \<Rightarrow> (string \<times> js) list" where
  "own_properties (JObj kvs) = kvs"
| "own_properties v = []"

definition forged_signature :: string where
  "forged_signature = FRAUD_SIGNATURE_PREFIX @ replicate SIGNATURE_BODY_LENGTH (CHR ''A'') @ ''==''"

fun fraud_changes :: "int \<Rightarrow> fraud_mode \<Rightarrow> (string \<times> js) list" where
  "fraud_changes now Tampered_publisher = [(''publisher_id'', JStr ATTACKER_PUBLISHER)]"
| "fraud_changes now Tampered_commission = [(''commission_bps'', jint INFLATED_COMMISSION_BPS)]"
| "fraud_changes now Expired_mode =
     [(''issued_at'', JStr (hoursAgo now 3)), (''expires_at'', JStr (hoursAgo now 2))]"
| "fraud_changes now Forged_signature = [(''signature'', JStr forged_signature)]"
| "fraud_changes now Unknown_publisher =
     [(''publisher_id'', JStr ATTACKER_PUBLISHER), (''commission_bps'', jint INFLATED_COMMISSION_BPS)]"

definition applyFraud :: "js \<Rightarrow> fraud_mode \<Rightarrow> int \<Rightarrow> js" where
  "applyFraud assertion mode now = JObj (spread (own_properties assertion) (fraud_changes now mode))"

text \<open>\<open>FRAUD_MODES[Math.floor(random() * 5) % 5]\<close>, where an index that is not one of the list's gives
  undefined.\<close>

definition pickFraudMode :: "number \<Rightarrow> fraud_mode option" where
  "pickFraudMode random =
     (case math_floor (num_mul random (num_of_int (int (length FRAUD_MODES)))) of
        Fin x \<Rightarrow> if x < 0 then None else Some (FRAUD_MODES ! (nat \<lfloor>x\<rfloor> mod length FRAUD_MODES))
      | _ \<Rightarrow> None)"

section \<open>Lemmas\<close>

lemma own_spread:
  "own (spread kvs changes) k = (case map_of (rev changes) k of None \<Rightarrow> own kvs k | Some v \<Rightarrow> v)"
proof (induction changes arbitrary: kvs)
  case (Cons c cs)
  then show ?case by (cases c) (auto simp: map_add_def split: option.splits)
qed simp

lemma forged_signature_bytes: "base64ToBytes (drop (length SIGNATURE_PREFIX) forged_signature) = Inr (replicate 64 (chr 0))"
  by code_simp

lemma forged_signature_prefixed: "starts_with SIGNATURE_PREFIX forged_signature"
  by code_simp

lemma hoursAgo_ascii: "list_all (\<lambda>c. byte c < (128 :: nat)) (hoursAgo now h)"
proof -
  have "set (hoursAgo now h) \<subseteq> set (iso_text (now - h * MILLIS_PER_HOUR)) \<union> {CHR ''Z''}"
    by (auto simp: hoursAgo_def drop_millis_def Let_def dest: in_set_takeD)
  then show ?thesis
    using iso_text_chars [of "now - h * MILLIS_PER_HOUR"] date_char_ascii by (auto simp: list_all_iff)
qed

lemma hoursAgo_ok: "json_ok (JStr (hoursAgo now h))"
  using hoursAgo_ascii [of now h] by (simp add: utf8_wf_ascii)

text \<open>The forged signature has the right prefix and length, so only verification can refuse it.\<close>

lemma forged_bytes: "signature_bytes (applyFraud (JObj kvs) Forged_signature now) = Some (replicate 64 (chr 0))"
  using forged_signature_bytes forged_signature_prefixed
  by (simp add: signature_bytes_def applyFraud_def own_spread ED25519_SIGNATURE_BYTES_def)

text \<open>Every other mode keeps the signature.\<close>

lemma fraud_keeps_signature:
  "mode \<noteq> Forged_signature \<Longrightarrow> own (spread kvs (fraud_changes now mode)) ''signature'' = own kvs ''signature''"
  by (cases mode) (simp_all add: own_spread)

lemma fraud_signable:
  assumes "signable kvs"
  shows "signable (spread kvs (fraud_changes now mode))"
proof -
  have "utf8_wf ATTACKER_PUBLISHER" "utf8_wf forged_signature" by code_simp+
  then show ?thesis
    using assms hoursAgo_ok by (cases mode) (auto simp: signable_def own_spread INFLATED_COMMISSION_BPS_def)
qed

text \<open>The attack is a real one: it forges the signature, or some field it writes differs.\<close>

definition attacks :: "(string \<times> js) list \<Rightarrow> fraud_mode \<Rightarrow> int \<Rightarrow> bool" where
  "attacks kvs mode now \<longleftrightarrow>
     mode = Forged_signature \<or> list_ex (\<lambda>(k, v). own kvs k \<noteq> v) (fraud_changes now mode)"

lemma attack_changes_signed:
  assumes "attacks kvs mode now" and "mode \<noteq> Forged_signature"
  shows "\<exists>k \<in> set signed_fields. own (spread kvs (fraud_changes now mode)) k \<noteq> own kvs k"
  using assms by (cases mode) (auto simp: attacks_def own_spread signed_fields_def)

text \<open>Every attack fails the signature check.\<close>

lemma fraud_refused:
  assumes "signature_bytes (JObj kvs) = Some s" and "canonicalizeForSigning (JObj kvs) = Inr c" and "signable kvs"
    and "\<And>p. ed key s p \<Longrightarrow> p = utf8_encode c" and "\<And>p. \<not> ed key (replicate 64 (chr 0)) p"
    and "attacks kvs mode minted"
  shows "verifyAssertion ed legacy (applyFraud (JObj kvs) mode minted) key now =
      Inl (Assertion_verification_error Invalid_signature ''signature does not verify against the public key'')"
proof (cases "mode = Forged_signature")
  case True
  obtain c' where "canonicalizeForSigning (applyFraud (JObj kvs) Forged_signature minted) = Inr c'"
    by (simp add: applyFraud_def canonicalize_Obj)
  from verify_result [OF forged_bytes this] assms(5) True show ?thesis by simp
next
  case False
  obtain k where k: "k \<in> set signed_fields" "own (spread kvs (fraud_changes minted mode)) k \<noteq> own kvs k"
    using attack_changes_signed [OF assms(6) False] by blast
  have "verifyAssertion ed legacy (JObj (spread kvs (fraud_changes minted mode))) key now =
      Inl (Assertion_verification_error Invalid_signature ''signature does not verify against the public key'')"
    using assms(1-3) fraud_signable [OF assms(3)] fraud_keeps_signature [OF False] k assms(4)
    by (rule tampered_rejected)
  then show ?thesis by (simp add: applyFraud_def)
qed

section \<open>Properties\<close>

text \<open>No attack of the simulator gets through, and each is caught by the signature: when the genuine
  signature verifies for no other payload and the all-zero signature for none, every mode that changes
  anything is refused as \<open>invalid_signature\<close>, whatever the clock says; that is never the reason the
  simulator expects.\<close>

theorem fraud_always_refused:
  assumes "signature_bytes (JObj kvs) = Some s" and "canonicalizeForSigning (JObj kvs) = Inr c" and "signable kvs"
    and "\<And>p. ed key s p \<Longrightarrow> p = utf8_encode c" and "\<And>p. \<not> ed key (replicate 64 (chr 0)) p"
    and "attacks kvs mode minted"
  shows "\<exists>m. verifyAssertion ed legacy (applyFraud (JObj kvs) mode minted) key now =
      Inl (Assertion_verification_error Invalid_signature m) \<and>
    failure_text Invalid_signature \<noteq> EXPECTED_REJECTION mode"
proof -
  have "failure_text Invalid_signature \<noteq> EXPECTED_REJECTION mode" by (cases mode) simp_all
  moreover have "verifyAssertion ed legacy (applyFraud (JObj kvs) mode minted) key now =
      Inl (Assertion_verification_error Invalid_signature ''signature does not verify against the public key'')"
    using assms by (rule fraud_refused)
  ultimately show ?thesis by blast
qed

lemma fraud_always_refused_witness:
  "\<exists>m. verifyAssertion (\<lambda>k s p. s = replicate 64 (chr 7) \<and> p = utf8_encode sample_canonical) (\<lambda>_. None)
      (applyFraud (JObj (signed_sample ''p1'')) Expired_mode 1785416400000) [] 0 =
      Inl (Assertion_verification_error Invalid_signature m) \<and>
    failure_text Invalid_signature \<noteq> EXPECTED_REJECTION Expired_mode"
proof (rule fraud_always_refused)
  show "signature_bytes (JObj (signed_sample ''p1'')) = Some (replicate 64 (chr 7))" by code_simp
  show "canonicalizeForSigning (JObj (signed_sample ''p1'')) = Inr sample_canonical"
    by (simp add: sample_canonical_def canonicalize_Obj)
  show "signable (signed_sample ''p1'')" by (simp add: signed_sample_signable sample_fields_signable)
  show "attacks (signed_sample ''p1'') Expired_mode 1785416400000" by code_simp
qed simp_all

end
