(* ===== verification/Runner.thy ===== *)
theory Runner
  imports Agent Fraud
begin

text \<open>
  \<open>simulator/src/runner.ts\<close>: the agent population.  \<open>Math.random\<close>, the clock and the account of
  each attempt are arguments.  \<open>runOnce\<close> suspends at its requests, so it is split into
  \<open>begin_attempt\<close> and \<open>conclude\<close>, with \<open>journey\<close> the awaited calls between them; the loops are
  tasks of a step relation.  \<open>byReason\<close> counts under reasons that no JavaScript object inherits.
\<close>

section \<open>Options and counters\<close>

record runner_options =
  ro_gatewayUrl :: string
  ro_publisherIds :: "js list"
  ro_queries :: "string list"
  ro_concurrency :: number
  ro_fraudRate :: number
  ro_pauseMs :: number

record runner_stats =
  st_started :: nat
  st_settled :: nat
  st_blocked :: nat
  st_failed :: nat
  st_concurrency :: number
  st_fraudRate :: number
  st_lastEvent :: string
  st_byReason :: "(string \<times> nat) list"

record runner =
  rn_options :: runner_options
  rn_running :: bool
  rn_active :: nat
  rn_stats :: runner_stats

definition DEFAULT_PAUSE_MS :: int where
  "DEFAULT_PAUSE_MS = 400"

definition emptyStats :: "runner_options \<Rightarrow> runner_stats" where
  "emptyStats opts =
     \<lparr>st_started = 0, st_settled = 0, st_blocked = 0, st_failed = 0, st_concurrency = ro_concurrency opts,
      st_fraudRate = ro_fraudRate opts, st_lastEvent = ''idle'', st_byReason = []\<rparr>"

text \<open>The constructor, given the gateway and the queries as the driver does.\<close>

definition new_runner :: "string \<Rightarrow> string list \<Rightarrow> runner" where
  "new_runner gatewayUrl queries =
     (let opts = \<lparr>ro_gatewayUrl = gatewayUrl, ro_publisherIds = [], ro_queries = queries,
        ro_concurrency = Fin 4, ro_fraudRate = Fin 0, ro_pauseMs = num_of_int DEFAULT_PAUSE_MS\<rparr> in
      \<lparr>rn_options = opts, rn_running = False, rn_active = 0, rn_stats = emptyStats opts\<rparr>)"

definition stats_js :: "runner \<Rightarrow> js" where
  "stats_js r = (let s = rn_stats r in JObj
     [(''running'', JBool (rn_running r)), (''started'', jint (int (st_started s))),
      (''settled'', jint (int (st_settled s))), (''blocked'', jint (int (st_blocked s))),
      (''failed'', jint (int (st_failed s))), (''concurrency'', JNum (st_concurrency s)),
      (''fraudRate'', JNum (st_fraudRate s)), (''lastEvent'', JStr (st_lastEvent s)),
      (''byReason'', JObj (map (\<lambda>(k, n). (k, jint (int n))) (st_byReason s)))])"

definition setPublishers :: "js list \<Rightarrow> runner \<Rightarrow> runner" where
  "setPublishers ids r = r\<lparr>rn_options := (rn_options r)\<lparr>ro_publisherIds := ids\<rparr>\<rparr>"

definition clamp :: "number \<Rightarrow> number \<Rightarrow> number \<Rightarrow> number" where
  "clamp v low high = math_min high (math_max low v)"

record runner_patch =
  p_concurrency :: "number option"
  p_fraudRate :: "number option"

definition configure_concurrency :: "number option \<Rightarrow> runner \<Rightarrow> runner" where
  "configure_concurrency c r =
     (case c of
        None \<Rightarrow> r
      | Some v \<Rightarrow>
          let k = clamp v (Fin 1) (Fin 32) in
          r\<lparr>rn_options := (rn_options r)\<lparr>ro_concurrency := k\<rparr>, rn_stats := (rn_stats r)\<lparr>st_concurrency := k\<rparr>\<rparr>)"

definition configure_fraud :: "number option \<Rightarrow> runner \<Rightarrow> runner" where
  "configure_fraud c r =
     (case c of
        None \<Rightarrow> r
      | Some v \<Rightarrow>
          let k = clamp v (Fin 0) (Fin 1) in
          r\<lparr>rn_options := (rn_options r)\<lparr>ro_fraudRate := k\<rparr>, rn_stats := (rn_stats r)\<lparr>st_fraudRate := k\<rparr>\<rparr>)"

definition configure :: "runner_patch \<Rightarrow> runner \<Rightarrow> runner" where
  "configure patch r = configure_fraud (p_fraudRate patch) (configure_concurrency (p_concurrency patch) r)"

definition event :: "string \<Rightarrow> runner \<Rightarrow> runner" where
  "event e r = r\<lparr>rn_stats := (rn_stats r)\<lparr>st_lastEvent := e\<rparr>\<rparr>"

definition stop :: "runner \<Rightarrow> runner" where
  "stop r = event ''stopped'' (r\<lparr>rn_running := False\<rparr>)"

text \<open>How often \<open>for (i = 0; i < n; i += 1)\<close> runs.\<close>

fun iterations :: "number \<Rightarrow> nat" where
  "iterations (Fin x) = nat \<lceil>x\<rceil>"
| "iterations n = 0"

section \<open>One attempt\<close>

definition pick :: "'a list \<Rightarrow> number \<Rightarrow> 'a option" where
  "pick items random =
     (case math_floor (num_mul random (num_of_int (int (length items)))) of
        Fin x \<Rightarrow> if 0 \<le> x \<and> nat \<lfloor>x\<rfloor> < length items then Some (items ! nat \<lfloor>x\<rfloor>) else None
      | _ \<Rightarrow> None)"

record draws =
  dr_publisher :: number
  dr_query :: number
  dr_fraud :: number
  dr_mode :: number

record attempt =
  at_publisher :: js
  at_query :: string
  at_mode :: "fraud_mode option"

definition count_failed :: "runner \<Rightarrow> runner" where
  "count_failed r = r\<lparr>rn_stats := (rn_stats r)\<lparr>st_failed := st_failed (rn_stats r) + 1\<rparr>\<rparr>"

definition count_started :: "runner \<Rightarrow> runner" where
  "count_started r = r\<lparr>rn_stats := (rn_stats r)\<lparr>st_started := st_started (rn_stats r) + 1\<rparr>\<rparr>"

definition count_settled :: "runner \<Rightarrow> runner" where
  "count_settled r = r\<lparr>rn_stats := (rn_stats r)\<lparr>st_settled := st_settled (rn_stats r) + 1\<rparr>\<rparr>"

definition count_blocked :: "runner \<Rightarrow> runner" where
  "count_blocked r = r\<lparr>rn_stats := (rn_stats r)\<lparr>st_blocked := st_blocked (rn_stats r) + 1\<rparr>\<rparr>"

fun add_one :: "string \<Rightarrow> (string \<times> nat) list \<Rightarrow> (string \<times> nat) list" where
  "add_one k [] = [(k, 1)]"
| "add_one k ((k', n) # r) = (if k = k' then (k', n + 1) # r else (k', n) # add_one k r)"

definition record_reason :: "string \<Rightarrow> runner \<Rightarrow> runner" where
  "record_reason reason r =
     r\<lparr>rn_stats := (rn_stats r)\<lparr>st_byReason := add_one reason (st_byReason (rn_stats r))\<rparr>\<rparr>"

text \<open>Up to the first request; \<open>None\<close> when there is nobody or nothing to search for.\<close>

definition begin_attempt :: "draws \<Rightarrow> runner \<Rightarrow> attempt option \<times> runner" where
  "begin_attempt d r =
     (let publisher = pick (ro_publisherIds (rn_options r)) (dr_publisher d);
          query = pick (ro_queries (rn_options r)) (dr_query d) in
      case (publisher, query) of
        (Some p, Some q) \<Rightarrow>
          if truthy p \<and> q \<noteq> []
          then (Some \<lparr>at_publisher = p, at_query = q,
                  at_mode = (if num_less (dr_fraud d) (ro_fraudRate (rn_options r)) then pickFraudMode (dr_mode d) else None)\<rparr>,
                count_started r)
          else (None, event ''no publishers or queries configured'' (count_failed r))
      | _ \<Rightarrow> (None, event ''no publishers or queries configured'' (count_failed r)))"

text \<open>The awaited calls; \<open>None\<close> when the search offers nothing to buy.\<close>

definition journey ::
    "'w fetch \<Rightarrow> agent \<Rightarrow> attempt \<Rightarrow> number \<Rightarrow> int \<Rightarrow> bytes \<Rightarrow> ('w, exn, js option) io" where
  "journey fetch agent tr now minted bytes =
     bind_io (search fetch agent (at_query tr) (at_publisher tr) 10) (\<lambda>results.
     bind_io (lift (selectCheapestInStock results)) (\<lambda>found.
     case found of
       None \<Rightarrow> ret None
     | Some s \<Rightarrow>
         bind_io (requestChallenge fetch agent (get_opt (sel_product s) ''product_id'')) (\<lambda>requirements.
         bind_io (lift (signAuthorization agent requirements now bytes)) (\<lambda>payment.
         let a = (case at_mode tr of None \<Rightarrow> sel_assertion s | Some m \<Rightarrow> applyFraud (sel_assertion s) m minted) in
         bind_io (completePurchase fetch agent (get_opt (sel_product s) ''product_id'') a payment)
           (\<lambda>fulfillment. ret (Some fulfillment))))))"

definition cents_text :: "js \<Rightarrow> string" where
  "cents_text v = ''$'' @ to_fixed2 (num_div (to_number v) (Fin 100))"

text \<open>\<open>body?.reason?.trim()\<close>, falling back to the status when blank or absent.\<close>

definition reasonOf :: "nat \<Rightarrow> js \<Rightarrow> string result" where
  "reasonOf status body =
     (let reason = get_opt body ''reason''; fallback = ''http_'' @ nat_text status in
      if reason = JUndef \<or> reason = JNull then Inr fallback
      else and_then (as_string_for ''body?.reason'' ''trim'' reason) (\<lambda>s.
        Inr (if trim s = [] then fallback else trim s)))"

definition failure_reason :: "exn \<Rightarrow> string result" where
  "failure_reason e = (case e of Agent_error m status body \<Rightarrow> reasonOf status body | _ \<Rightarrow> Inr ''transport_error'')"

text \<open>What a failed attempt leaves, and the exception that escapes the catch block, if any.\<close>

definition handleFailure :: "exn \<Rightarrow> attempt \<Rightarrow> runner \<Rightarrow> runner \<times> exn option" where
  "handleFailure e tr r =
     (case failure_reason e of
        Inl escaped \<Rightarrow> (r, Some escaped)
      | Inr reason \<Rightarrow>
          (case at_mode tr of
             Some m \<Rightarrow>
               (event (if reason = EXPECTED_REJECTION m
                       then ''blocked '' @ fraud_text m @ '' on '' @ to_text (at_publisher tr) @ '' ('' @ reason @ '')''
                       else ''blocked '' @ fraud_text m @ '' on '' @ to_text (at_publisher tr) @ '', expected '' @
                            EXPECTED_REJECTION m @ '' got '' @ reason)
                 (record_reason reason (count_blocked r)), None)
           | None \<Rightarrow>
               (event (''failed '' @ to_text (at_publisher tr) @ '': '' @ reason)
                 (record_reason reason (count_failed r)), None)))"

text \<open>The end of the try block; an exception there (a fulfillment that is null) goes to the same
  catch block with the counter already moved.\<close>

definition conclude :: "attempt \<Rightarrow> js option result \<Rightarrow> runner \<Rightarrow> runner \<times> exn option" where
  "conclude tr outcome r =
     (case outcome of
        Inl e \<Rightarrow> handleFailure e tr r
      | Inr None \<Rightarrow>
          (event (''no purchasable offer for '' @ [chr 34] @ at_query tr @ [chr 34]) (count_failed r), None)
      | Inr (Some f) \<Rightarrow>
          (case at_mode tr of
             Some m \<Rightarrow>
               let r' = record_reason (''accepted_fraud_'' @ fraud_text m) (count_failed r) in
               (case get f ''settlement_id'' of
                  Inl e \<Rightarrow> handleFailure e tr r'
                | Inr sid \<Rightarrow> (event (''SECURITY: '' @ fraud_text m @ '' settled as '' @ to_text sid) r', None))
           | None \<Rightarrow>
               let r' = count_settled r in
               (case get f ''publisher_commission_cents'' of
                  Inl e \<Rightarrow> handleFailure e tr r'
                | Inr earned \<Rightarrow>
                    (event (to_text (at_publisher tr) @ '' earned '' @ cents_text earned @ '' on '' @
                       cents_text (get_opt f ''amount_cents'')) r', None))))"

text \<open>\<open>runOnce\<close> without interruption.\<close>

definition runOnce ::
    "'w fetch \<Rightarrow> (string \<Rightarrow> agent) \<Rightarrow> draws \<Rightarrow> number \<Rightarrow> int \<Rightarrow> bytes \<Rightarrow> runner \<Rightarrow> 'w \<Rightarrow> (runner \<times> exn option) \<times> 'w" where
  "runOnce fetch fresh_agent d now minted bytes r w =
     (case begin_attempt d r of
        (None, r') \<Rightarrow> ((r', None), w)
      | (Some tr, r') \<Rightarrow>
          (case journey fetch (fresh_agent (ro_gatewayUrl (rn_options r'))) tr now minted bytes w of
             (outcome, w') \<Rightarrow> (conclude tr outcome r', w')))"

section \<open>The population\<close>

text \<open>
  A loop is in one of three places: awaiting its attempt, just returned from it, or pausing.
  \<open>singles\<close> are attempts fired outside the loops.  The last three fields are not in the code: they
  count attempts that never started for want of publishers or queries, attempts counted twice
  because the answer was null, and attempts whose exception escaped.
\<close>

datatype loop_task = In_flight attempt | Returned | Pausing

record population =
  pop :: runner
  loops :: "loop_task list"
  singles :: "attempt list"
  skipped :: nat
  doubled :: nat
  escaped :: nat

definition fresh_population :: "string \<Rightarrow> string list \<Rightarrow> population" where
  "fresh_population gatewayUrl queries =
     \<lparr>pop = new_runner gatewayUrl queries, loops = [], singles = [], skipped = 0, doubled = 0, escaped = 0\<rparr>"

text \<open>The body of a loop from its test of \<open>running\<close> to its first await.\<close>

definition loop_attempt :: "draws \<Rightarrow> population \<Rightarrow> loop_task \<times> population" where
  "loop_attempt d p =
     (case begin_attempt d (pop p) of
        (Some tr, r) \<Rightarrow> (In_flight tr, p\<lparr>pop := r\<rparr>)
      | (None, r) \<Rightarrow> (Returned, p\<lparr>pop := r, skipped := skipped p + 1\<rparr>))"

definition enter_loop :: "draws \<Rightarrow> population \<Rightarrow> population" where
  "enter_loop d p =
     (let p1 = p\<lparr>pop := (pop p)\<lparr>rn_active := rn_active (pop p) + 1\<rparr>\<rparr>;
          (t, p2) = loop_attempt d p1 in
      p2\<lparr>loops := loops p2 @ [t]\<rparr>)"

definition start :: "runner_patch \<Rightarrow> (nat \<Rightarrow> draws) \<Rightarrow> population \<Rightarrow> population" where
  "start patch d p =
     (let r = configure patch (pop p) in
      if rn_running r then p\<lparr>pop := r\<rparr>
      else fold (\<lambda>i. enter_loop (d i)) [0..<iterations (ro_concurrency (rn_options r))]
             (p\<lparr>pop := event ''started'' (r\<lparr>rn_running := True\<rparr>)\<rparr>))"

text \<open>Leaving a loop runs its \<open>finally\<close>.\<close>

definition leave_loop :: "nat \<Rightarrow> population \<Rightarrow> population" where
  "leave_loop i p =
     p\<lparr>pop := (pop p)\<lparr>rn_active := rn_active (pop p) - 1\<rparr>,
       loops := take i (loops p) @ drop (Suc i) (loops p)\<rparr>"

text \<open>An answer of null is concluded twice.\<close>

definition null_answer :: "js option result \<Rightarrow> bool" where
  "null_answer outcome \<longleftrightarrow> (case outcome of Inr (Some f) \<Rightarrow> f = JNull \<or> f = JUndef | _ \<Rightarrow> False)"

definition concluded :: "js option result \<Rightarrow> runner \<times> exn option \<Rightarrow> population \<Rightarrow> population" where
  "concluded outcome res p =
     p\<lparr>pop := fst res, doubled := doubled p + (if snd res = None \<and> null_answer outcome then 1 else 0),
       escaped := escaped p + (if snd res = None then 0 else 1)\<rparr>"

definition end_attempt :: "nat \<Rightarrow> attempt \<Rightarrow> js option result \<Rightarrow> population \<Rightarrow> population" where
  "end_attempt i tr outcome p =
     (let res = conclude tr outcome (pop p); p' = concluded outcome res p in
      if snd res = None then p'\<lparr>loops := (loops p)[i := Returned]\<rparr> else leave_loop i p')"

definition after_attempt :: "nat \<Rightarrow> population \<Rightarrow> population" where
  "after_attempt i p = (if rn_running (pop p) then p\<lparr>loops := (loops p)[i := Pausing]\<rparr> else leave_loop i p)"

definition after_pause :: "nat \<Rightarrow> draws \<Rightarrow> population \<Rightarrow> population" where
  "after_pause i d p =
     (if rn_running (pop p) then let (t, p') = loop_attempt d p in p'\<lparr>loops := (loops p)[i := t]\<rparr>
      else leave_loop i p)"

inductive loop_step :: "population \<Rightarrow> population \<Rightarrow> bool" where
  attempt_ends: "i < length (loops p) \<Longrightarrow> loops p ! i = In_flight tr \<Longrightarrow> loop_step p (end_attempt i tr outcome p)"
| loop_returns: "i < length (loops p) \<Longrightarrow> loops p ! i = Returned \<Longrightarrow> loop_step p (after_attempt i p)"
| loop_resumes: "i < length (loops p) \<Longrightarrow> loops p ! i = Pausing \<Longrightarrow> loop_step p (after_pause i d p)"

definition begin_single :: "draws \<Rightarrow> population \<Rightarrow> population" where
  "begin_single d p =
     (case begin_attempt d (pop p) of
        (Some tr, r) \<Rightarrow> p\<lparr>pop := r, singles := singles p @ [tr]\<rparr>
      | (None, r) \<Rightarrow> p\<lparr>pop := r, skipped := skipped p + 1\<rparr>)"

definition end_single :: "nat \<Rightarrow> js option result \<Rightarrow> population \<Rightarrow> population" where
  "end_single i outcome p =
     (concluded outcome (conclude (singles p ! i) outcome (pop p)) p)
       \<lparr>singles := take i (singles p) @ drop (Suc i) (singles p)\<rparr>"

inductive pop_step :: "population \<Rightarrow> population \<Rightarrow> bool" where
  by_loop: "loop_step p p' \<Longrightarrow> pop_step p p'"
| by_start: "pop_step p (start patch d p)"
| by_stop: "pop_step p (p\<lparr>pop := stop (pop p)\<rparr>)"
| by_configure: "pop_step p (p\<lparr>pop := configure patch (pop p)\<rparr>)"
| by_publishers: "pop_step p (p\<lparr>pop := setPublishers ids (pop p)\<rparr>)"
| single_begins: "pop_step p (begin_single d p)"
| single_ends: "i < length (singles p) \<Longrightarrow> pop_step p (end_single i outcome p)"

inductive pop_run :: "population \<Rightarrow> population \<Rightarrow> bool" for p0 where
  pop_start: "pop_run p0 p0"
| pop_more: "pop_run p0 p \<Longrightarrow> pop_step p p' \<Longrightarrow> pop_run p0 p'"

section \<open>Counting\<close>

definition tally :: "runner \<Rightarrow> nat" where
  "tally r = st_settled (rn_stats r) + st_blocked (rn_stats r) + st_failed (rn_stats r)"

definition control :: "runner \<Rightarrow> bool \<times> nat \<times> nat" where
  "control r = (rn_running r, rn_active r, st_started (rn_stats r))"

lemmas counters = tally_def control_def event_def count_failed_def count_started_def count_settled_def
  count_blocked_def record_reason_def

lemma handleFailure_counts:
  assumes "handleFailure e tr r = (r', esc)"
  shows "control r' = control r \<and> tally r' = tally r + (if esc = None then 1 else 0)"
  using assms by (auto simp: handleFailure_def counters split: sum.splits option.splits if_splits)

lemma null_reason: "get f k = Inl e \<Longrightarrow> (f = JNull \<or> f = JUndef) \<and> (\<exists>m. e = Type_error m)"
  by (cases f) (auto simp: cannot_read_def)

lemma handleFailure_null: "snd (handleFailure (Type_error m) tr r) = None"
  by (simp add: handleFailure_def failure_reason_def split: option.splits)

lemma conclude_counts:
  assumes "conclude tr outcome r = (r', esc)"
  shows "control r' = control r \<and>
     tally r' = tally r + (if esc = None then if null_answer outcome then 2 else 1 else 0)"
proof (cases outcome)
  case (Inl e)
  then show ?thesis using assms handleFailure_counts [of e tr r r' esc] by (simp add: conclude_def null_answer_def)
next
  case (Inr answer)
  show ?thesis
  proof (cases answer)
    case None
    then show ?thesis using assms Inr by (auto simp: conclude_def null_answer_def counters)
  next
    case (Some f)
    define mid where "mid = (case at_mode tr of
        Some m \<Rightarrow> record_reason (''accepted_fraud_'' @ fraud_text m) (count_failed r) | None \<Rightarrow> count_settled r)"
    have mid: "control mid = control r" "tally mid = tally r + 1"
      by (simp_all add: mid_def counters split: option.splits)
    define k where "k = (case at_mode tr of Some m \<Rightarrow> ''settlement_id'' | None \<Rightarrow> ''publisher_commission_cents'')"
    have split: "conclude tr outcome r = (case get f k of Inl e \<Rightarrow> handleFailure e tr mid | Inr v \<Rightarrow>
        (event (case at_mode tr of
            Some m \<Rightarrow> ''SECURITY: '' @ fraud_text m @ '' settled as '' @ to_text v
          | None \<Rightarrow> to_text (at_publisher tr) @ '' earned '' @ cents_text v @ '' on '' @
                       cents_text (get_opt f ''amount_cents'')) mid, None))"
      unfolding conclude_def \<open>outcome = Inr answer\<close> \<open>answer = option.Some f\<close> mid_def k_def Let_def
      by (cases "at_mode tr") (simp_all cong: sum.case_cong)
    show ?thesis
    proof (cases "get f k")
      case (Inl e)
      then obtain m where m: "e = Type_error m" and null: "null_answer outcome"
        using null_reason [OF Inl] Inr Some by (auto simp: null_answer_def)
      have res: "handleFailure e tr mid = (r', esc)" using assms split Inl by simp
      then have "esc = None" using handleFailure_null [of m tr mid] m by simp
      then show ?thesis using handleFailure_counts [OF res] mid null by simp
    next
      case (Inr v)
      then have "\<not> null_answer outcome"
        using \<open>outcome = Inr answer\<close> Some by (auto simp: null_answer_def)
      then show ?thesis using assms split Inr mid by (auto simp: counters)
    qed
  qed
qed

lemma begin_attempt_counts:
  assumes "begin_attempt d r = (a, r')"
  shows "rn_running r' = rn_running r \<and> rn_active r' = rn_active r \<and>
     st_started (rn_stats r') = st_started (rn_stats r) + (if a = None then 0 else 1) \<and>
     tally r' = tally r + (if a = None then 1 else 0)"
  using assms by (auto simp: begin_attempt_def counters Let_def split: option.splits if_splits)

lemma configure_counts: "control (configure patch r) = control r \<and> tally (configure patch r) = tally r"
  by (simp add: configure_def configure_fraud_def configure_concurrency_def counters Let_def split: option.split)

section \<open>The invariant\<close>

definition flying :: "loop_task list \<Rightarrow> nat" where
  "flying ts = length (filter (\<lambda>t. t \<noteq> Returned \<and> t \<noteq> Pausing) ts)"

lemma flying_simps [simp]:
  "flying [] = 0" "flying (ts @ us) = flying ts + flying us"
  "flying (t # ts) = (if t = Returned \<or> t = Pausing then 0 else 1) + flying ts"
  by (simp_all add: flying_def)

lemma flying_split: "i < length ts \<Longrightarrow> flying ts = flying (take i ts @ drop (Suc i) ts) + flying [ts ! i]"
proof -
  assume "i < length ts"
  then have "ts = take i ts @ ts ! i # drop (Suc i) ts" by (rule id_take_nth_drop)
  then show ?thesis by (metis add.commute add.left_commute flying_simps(2,3) append_Cons append_Nil)
qed

lemma flying_update:
  "i < length ts \<Longrightarrow> flying (ts[i := t]) + flying [ts ! i] = flying ts + flying [t]"
  by (simp add: flying_split [of i ts] upd_conv_take_nth_drop)

definition population_ok :: "population \<Rightarrow> bool" where
  "population_ok p \<longleftrightarrow>
     rn_active (pop p) = length (loops p) \<and>
     tally (pop p) + flying (loops p) + length (singles p) + escaped p =
       st_started (rn_stats (pop p)) + skipped p + doubled p"

lemma control_eq: "control r = control r' \<longleftrightarrow> rn_running r = rn_running r' \<and> rn_active r = rn_active r' \<and>
   st_started (rn_stats r) = st_started (rn_stats r')"
  by (simp add: control_def)

lemma leave_ok:
  "i < length (loops p) \<Longrightarrow> population_ok p \<Longrightarrow> flying [loops p ! i] = 0 \<Longrightarrow> population_ok (leave_loop i p)"
  using flying_split [of i "loops p"] by (auto simp: population_ok_def leave_loop_def tally_def)

lemma loop_attempt_ok:
  assumes "loop_attempt d p = (t, p')"
  shows "rn_running (pop p') = rn_running (pop p) \<and> rn_active (pop p') = rn_active (pop p) \<and> loops p' = loops p \<and>
     singles p' = singles p \<and> escaped p' = escaped p \<and> doubled p' = doubled p \<and> t \<noteq> Pausing \<and>
     tally (pop p') + flying [t] + st_started (rn_stats (pop p)) + skipped p =
       tally (pop p) + st_started (rn_stats (pop p')) + skipped p'"
  using assms begin_attempt_counts [of d "pop p"]
  by (auto simp: loop_attempt_def split: prod.splits option.splits)

lemma enter_ok: "population_ok p \<Longrightarrow> population_ok (enter_loop d p)"
proof -
  assume ok: "population_ok p"
  let ?p1 = "p\<lparr>pop := (pop p)\<lparr>rn_active := rn_active (pop p) + 1\<rparr>\<rparr>"
  obtain t p2 where a: "loop_attempt d ?p1 = (t, p2)" by force
  have "enter_loop d p = p2\<lparr>loops := loops p2 @ [t]\<rparr>"
    by (simp only: enter_loop_def Let_def a prod.case)
  with loop_attempt_ok [OF a] ok show ?thesis
    by (cases t) (simp_all add: population_ok_def tally_def)
qed

lemma fold_enter_ok: "population_ok p \<Longrightarrow> population_ok (fold (\<lambda>i. enter_loop (d i)) is p)"
  by (induction "is" arbitrary: p) (auto intro: enter_ok)

lemma configured_ok: "population_ok p \<Longrightarrow> population_ok (p\<lparr>pop := configure patch (pop p)\<rparr>)"
  using configure_counts [of patch "pop p"] by (simp add: population_ok_def control_eq)

lemma start_ok: "population_ok p \<Longrightarrow> population_ok (start patch d p)"
proof -
  assume ok: "population_ok p"
  have "population_ok (p\<lparr>pop := event ''started'' ((configure patch (pop p))\<lparr>rn_running := True\<rparr>)\<rparr>)"
    using configured_ok [OF ok, of patch] by (simp add: population_ok_def counters)
  note entered = fold_enter_ok [OF this, of d]
  show ?thesis unfolding start_def Let_def
    by (cases "rn_running (configure patch (pop p))") (simp_all only: if_True if_False entered configured_ok [OF ok])
qed

lemma end_attempt_ok:
  assumes ok: "population_ok p" and i: "i < length (loops p)" "loops p ! i = In_flight tr"
  shows "population_ok (end_attempt i tr outcome p)"
proof -
  obtain r esc where c: "conclude tr outcome (pop p) = (r, esc)" by force
  note count = conclude_counts [OF c]
  have fly: "flying (loops p) = flying (take i (loops p) @ drop (Suc i) (loops p)) + 1"
    using flying_split [OF i(1)] i(2) by simp
  show ?thesis
  proof (cases esc)
    case None
    then show ?thesis
      using ok count c flying_update [OF i(1), of Returned] i
      by (auto simp: end_attempt_def concluded_def population_ok_def control_eq Let_def split: if_splits)
  next
    case (Some e)
    then show ?thesis
      using ok count c fly i
      by (auto simp: end_attempt_def concluded_def leave_loop_def population_ok_def control_eq tally_def Let_def)
  qed
qed

lemma loop_step_ok: "loop_step p p' \<Longrightarrow> population_ok p \<Longrightarrow> population_ok p'"
proof (induction rule: loop_step.induct)
  case (attempt_ends i p tr outcome)
  then show ?case by (intro end_attempt_ok)
next
  case (loop_returns i p)
  then show ?case
    using leave_ok [of i p] flying_update [of i "loops p" Pausing]
    by (auto simp: after_attempt_def population_ok_def)
next
  case (loop_resumes i p d)
  obtain t p1 where a: "loop_attempt d p = (t, p1)" by force
  from loop_attempt_ok [OF a] loop_resumes show ?case
    using leave_ok [of i p] flying_update [of i "loops p" t]
    by (auto simp: after_pause_def a population_ok_def split: if_splits)
qed

lemma pop_step_ok: "pop_step p p' \<Longrightarrow> population_ok p \<Longrightarrow> population_ok p'"
proof (induction rule: pop_step.induct)
  case (single_begins p d)
  obtain a r where b: "begin_attempt d (pop p) = (a, r)" by force
  from begin_attempt_counts [OF b] single_begins show ?case
    by (cases a) (simp_all add: begin_single_def b population_ok_def)
next
  case (single_ends i p outcome)
  obtain r esc where c: "conclude (singles p ! i) outcome (pop p) = (r, esc)" by force
  note count = conclude_counts [OF c, unfolded control_eq]
  obtain n where one: "length (singles p) = Suc n"
    using single_ends(1) by (cases "length (singles p)") simp_all
  show ?case
  proof (cases esc)
    case None
    then show ?thesis using count single_ends one
      by (cases "null_answer outcome") (simp_all add: end_single_def c concluded_def population_ok_def)
  next
    case (Some e)
    then show ?thesis using count single_ends one
      by (simp add: end_single_def c concluded_def population_ok_def)
  qed
next
  case (by_stop p)
  then show ?case by (simp add: population_ok_def stop_def event_def tally_def)
next
  case (by_publishers p ids)
  then show ?case by (simp add: population_ok_def setPublishers_def tally_def)
qed (rule loop_step_ok start_ok configured_ok; assumption)+

lemma pop_run_ok: "pop_run (fresh_population g qs) p \<Longrightarrow> population_ok p"
proof (induction rule: pop_run.induct)
  case pop_start
  show ?case by (simp add: population_ok_def fresh_population_def new_runner_def emptyStats_def tally_def Let_def)
qed (rule pop_step_ok)

section \<open>Draining\<close>

text \<open>What a loop still has to do once the runner is stopped: at most two steps.\<close>

fun task_work :: "loop_task \<Rightarrow> nat" where
  "task_work (In_flight tr) = 2"
| "task_work Returned = 1"
| "task_work Pausing = 1"

definition remaining_work :: "population \<Rightarrow> nat" where
  "remaining_work p = sum_list (map task_work (loops p))"

lemma work_update:
  "i < length ts \<Longrightarrow> sum_list (map task_work (ts[i := t])) + task_work (ts ! i) = sum_list (map task_work ts) + task_work t"
  by (induction ts arbitrary: i) (auto split: nat.split simp: nth_Cons')

lemma work_leave:
  "i < length (loops p) \<Longrightarrow> remaining_work (leave_loop i p) + task_work (loops p ! i) = remaining_work p"
proof -
  assume "i < length (loops p)"
  then have "loops p = take i (loops p) @ loops p ! i # drop (Suc i) (loops p)" by (rule id_take_nth_drop)
  then have "remaining_work p =
      sum_list (map task_work (take i (loops p) @ loops p ! i # drop (Suc i) (loops p)))"
    unfolding remaining_work_def by (rule arg_cong)
  then show ?thesis by (simp add: remaining_work_def leave_loop_def)
qed

lemma leave_running [simp]: "rn_running (pop (leave_loop i p)) = rn_running (pop p)"
  by (simp add: leave_loop_def)

lemma stopped_step:
  "loop_step p q \<Longrightarrow> \<not> rn_running (pop p) \<Longrightarrow> \<not> rn_running (pop q) \<and> remaining_work q < remaining_work p"
proof (induction rule: loop_step.induct)
  case (attempt_ends i p tr outcome)
  obtain r esc where c: "conclude tr outcome (pop p) = (r, esc)" by force
  let ?p' = "concluded outcome (r, esc) p"
  have run: "\<not> rn_running (pop ?p')" and same: "loops ?p' = loops p"
    using conclude_counts [OF c] attempt_ends(3) by (simp_all add: control_eq concluded_def)
  have "remaining_work (leave_loop i ?p') < remaining_work p"
    using work_leave [of i ?p'] attempt_ends(1,2) same by (simp add: remaining_work_def)
  moreover have "remaining_work (?p'\<lparr>loops := (loops p)[i := Returned]\<rparr>) < remaining_work p"
    using work_update [OF attempt_ends(1), of Returned] attempt_ends(2) by (simp add: remaining_work_def)
  ultimately show ?case using run by (cases esc) (simp_all add: end_attempt_def c Let_def)
next
  case (loop_returns i p)
  then show ?case using work_leave [of i p] by (simp add: after_attempt_def)
next
  case (loop_resumes i p d)
  then show ?case using work_leave [of i p] by (simp add: after_pause_def)
qed

lemma stopped_steps: "(loop_step ^^ n) p q \<Longrightarrow> \<not> rn_running (pop p) \<Longrightarrow>
   \<not> rn_running (pop q) \<and> n + remaining_work q \<le> remaining_work p"
proof (induction n arbitrary: q)
  case (Suc n)
  then obtain m where m: "(loop_step ^^ n) p m" "loop_step m q" by auto
  from Suc.IH [OF m(1) Suc.prems(2)] stopped_step [OF m(2)] show ?case by auto
qed simp

lemma work_bound: "remaining_work p \<le> 2 * length (loops p)"
proof -
  have "sum_list (map task_work ts) \<le> 2 * length ts" for ts
  proof (induction ts)
    case (Cons t ts)
    then show ?case by (cases t) auto
  qed simp
  then show ?thesis by (simp add: remaining_work_def)
qed

lemma loop_progress: "loops p \<noteq> [] \<Longrightarrow> \<exists>q. loop_step p q"
  by (cases "loops p ! 0") (auto intro: attempt_ends [of 0] loop_returns [of 0] loop_resumes [of 0])

lemma loop_steps_ok: "(loop_step ^^ n) p q \<Longrightarrow> population_ok p \<Longrightarrow> population_ok q"
  by (induction n arbitrary: q) (auto intro: loop_step_ok)

section \<open>How many loops\<close>

lemma clamp_bounds:
  assumes "v \<noteq> NaN" and "a \<le> b"
  shows "\<exists>x. clamp v (Fin a) (Fin b) = Fin x \<and> a \<le> x \<and> x \<le> b"
  using assms by (cases v) (auto simp: clamp_def math_min_def math_max_def)

lemma loop_attempt_loops: "loop_attempt d p = (t, q) \<Longrightarrow> loops q = loops p"
  using loop_attempt_ok by blast

lemma enter_length: "length (loops (enter_loop d p)) = length (loops p) + 1"
  by (auto simp: enter_loop_def Let_def split: prod.split dest!: loop_attempt_loops)

lemma fold_enter_length: "length (loops (fold (\<lambda>i. enter_loop (d i)) is p)) = length (loops p) + length is"
  by (induction "is" arbitrary: p) (simp_all add: enter_length)

lemma start_length:
  "\<not> rn_running (pop p) \<Longrightarrow>
   length (loops (start patch d p)) =
     length (loops p) + iterations (ro_concurrency (rn_options (configure patch (pop p))))"
  using configure_counts [of patch "pop p"] by (simp add: start_def Let_def control_eq fold_enter_length)

section \<open>A concrete run\<close>

definition sample_draws :: draws where
  "sample_draws = \<lparr>dr_publisher = Fin 0, dr_query = Fin 0, dr_fraud = Fin (1 / 2), dr_mode = Fin 0\<rparr>"

definition sample_attempt :: attempt where
  "sample_attempt = \<lparr>at_publisher = JStr ''pub_1'', at_query = ''trail running shoes'', at_mode = None\<rparr>"

definition two_agents :: runner_patch where
  "two_agents = \<lparr>p_concurrency = Some (Fin 2), p_fraudRate = None\<rparr>"

definition ready_population :: population where
  "ready_population =
     (fresh_population ''http://gateway:8080'' [''trail running shoes''])
       \<lparr>pop := setPublishers [JStr ''pub_1''] (pop (fresh_population ''http://gateway:8080'' [''trail running shoes'']))\<rparr>"

definition busy_population :: population where
  "busy_population = start two_agents (\<lambda>_. sample_draws) ready_population"

definition stopped_population :: population where
  "stopped_population = busy_population\<lparr>pop := stop (pop busy_population)\<rparr>"

definition drained_population :: population where
  "drained_population = end_attempt 0 sample_attempt (Inl (Plain_error ''fetch failed'')) stopped_population"

lemma sample_runs:
  "pop_run (fresh_population ''http://gateway:8080'' [''trail running shoes'']) ready_population"
  "pop_run (fresh_population ''http://gateway:8080'' [''trail running shoes'']) busy_population"
  "pop_run (fresh_population ''http://gateway:8080'' [''trail running shoes'']) stopped_population"
proof -
  show ready: "pop_run (fresh_population ''http://gateway:8080'' [''trail running shoes'']) ready_population"
    unfolding ready_population_def by (rule pop_more [OF pop_start]) (rule by_publishers)
  show busy: "pop_run (fresh_population ''http://gateway:8080'' [''trail running shoes'']) busy_population"
    unfolding busy_population_def by (rule pop_more [OF ready]) (rule by_start)
  show "pop_run (fresh_population ''http://gateway:8080'' [''trail running shoes'']) stopped_population"
    unfolding stopped_population_def by (rule pop_more [OF busy]) (rule by_stop)
qed

lemma sample_loops:
  "loops busy_population = [In_flight sample_attempt, In_flight sample_attempt]"
  "loops stopped_population = [In_flight sample_attempt, In_flight sample_attempt]"
  "rn_running (pop ready_population) = False" "loops ready_population = []"
  "rn_running (pop stopped_population) = False"
  by code_simp+

lemma sample_drain: "loop_step stopped_population drained_population"
  unfolding drained_population_def by (rule attempt_ends) (simp_all add: sample_loops)

section \<open>Properties\<close>

text \<open>C32: Whatever the operator and the network do, the runner's counters account for every attempt:
  settled, blocked and failed together with the attempts still in flight and those whose exception
  escaped equal those started, plus the ones refused for want of publishers or queries and the ones
  counted twice because the merchant answered null; and \<open>active\<close> is the number of live loops.\<close>

theorem runner_counts:
  assumes "pop_run (fresh_population gatewayUrl queries) p"
  shows "st_settled (rn_stats (pop p)) + st_blocked (rn_stats (pop p)) + st_failed (rn_stats (pop p)) +
       length (filter (\<lambda>t. t \<noteq> Returned \<and> t \<noteq> Pausing) (loops p)) + length (singles p) + escaped p =
     st_started (rn_stats (pop p)) + skipped p + doubled p \<and>
     rn_active (pop p) = length (loops p)"
  using pop_run_ok [OF assms] by (simp add: population_ok_def tally_def flying_def)

lemma runner_counts_witness:
  "st_settled (rn_stats (pop busy_population)) + st_blocked (rn_stats (pop busy_population)) +
       st_failed (rn_stats (pop busy_population)) + 2 =
     st_started (rn_stats (pop busy_population)) + skipped busy_population + doubled busy_population \<and>
     rn_active (pop busy_population) = 2"
proof -
  have none: "singles busy_population = []" "escaped busy_population = 0" by code_simp+
  show ?thesis using runner_counts [OF sample_runs(2)] by (simp add: sample_loops none)
qed

text \<open>C33: Draining ends: once the runner is stopped, its loops take at most two further steps each,
  however their attempts turn out, and when no loop can move \<open>active\<close> is zero, so the wait in
  \<open>drain\<close> is over.\<close>

theorem drain_terminates:
  assumes "pop_run (fresh_population gatewayUrl queries) p" and "\<not> rn_running (pop p)"
    and "(loop_step ^^ n) p q"
  shows "n \<le> 2 * length (loops p) \<and> ((\<exists>q'. loop_step q q') \<or> rn_active (pop q) = 0)"
proof
  show "n \<le> 2 * length (loops p)" using stopped_steps [OF assms(3,2)] work_bound [of p] by simp
  have "population_ok q" by (rule loop_steps_ok [OF assms(3) pop_run_ok [OF assms(1)]])
  then show "(\<exists>q'. loop_step q q') \<or> rn_active (pop q) = 0"
    using loop_progress [of q] by (cases "loops q = []") (simp_all add: population_ok_def)
qed

lemma drain_terminates_witness:
  "(1::nat) \<le> 2 * length (loops stopped_population) \<and>
   ((\<exists>q'. loop_step drained_population q') \<or> rn_active (pop drained_population) = 0)"
  by (rule drain_terminates [OF sample_runs(3)]) (simp_all add: sample_loops sample_drain eq_OO)

text \<open>Whatever number the operator sends for the concurrency, starting a stopped runner sends out
  between one and thirty-two loops, as many as the stored concurrency, and the same number is what
  \<open>stats\<close> reports.\<close>

theorem start_spawns:
  assumes "\<not> rn_running (pop p)" and "p_concurrency patch = Some v" and "v \<noteq> NaN"
  shows "\<exists>x. st_concurrency (rn_stats (configure patch (pop p))) = Fin x \<and> 1 \<le> x \<and> x \<le> 32 \<and>
     length (loops (start patch d p)) = length (loops p) + nat \<lceil>x\<rceil> \<and> 1 \<le> nat \<lceil>x\<rceil> \<and> nat \<lceil>x\<rceil> \<le> 32"
proof -
  obtain x where x: "clamp v (Fin 1) (Fin 32) = Fin x" "1 \<le> x" "x \<le> 32"
    using clamp_bounds [OF assms(3), of 1 32] by auto
  have both: "ro_concurrency (rn_options (configure patch (pop p))) = Fin x"
    "st_concurrency (rn_stats (configure patch (pop p))) = Fin x"
    using x(1) assms(2)
    by (simp_all add: configure_def configure_fraud_def configure_concurrency_def Let_def split: option.split)
  have "1 \<le> nat \<lceil>x\<rceil>" "nat \<lceil>x\<rceil> \<le> 32" using x(2,3) by linarith+
  with both x start_length [OF assms(1), of patch d] show ?thesis by simp
qed

lemma start_spawns_witness:
  "\<exists>x. st_concurrency (rn_stats (configure two_agents (pop ready_population))) = Fin x \<and> 1 \<le> x \<and> x \<le> 32 \<and>
     length (loops (start two_agents (\<lambda>_. sample_draws) ready_population)) =
       length (loops ready_population) + nat \<lceil>x\<rceil> \<and> 1 \<le> nat \<lceil>x\<rceil> \<and> nat \<lceil>x\<rceil> \<le> 32"
  by (rule start_spawns [of _ _ "Fin 2"]) (simp_all add: sample_loops two_agents_def)

text \<open>The concurrency is no bound on the loops: stopping and starting again before the old loops
  have noticed leaves them all running, so a reachable population with concurrency two has four.\<close>

theorem loops_exceed_concurrency:
  "\<exists>p. pop_run (fresh_population ''http://gateway:8080'' [''trail running shoes'']) p \<and>
     rn_running (pop p) \<and> st_concurrency (rn_stats (pop p)) = Fin 2 \<and> length (loops p) = 4"
proof (intro exI conjI)
  let ?p = "start two_agents (\<lambda>_. sample_draws) stopped_population"
  show "pop_run (fresh_population ''http://gateway:8080'' [''trail running shoes'']) ?p"
    by (rule pop_more [OF sample_runs(3)]) (rule by_start)
  show "rn_running (pop ?p)" "st_concurrency (rn_stats (pop ?p)) = Fin 2" "length (loops ?p) = 4" by code_simp+
qed

end
