(* ===== verification/Driver.thy ===== *)
theory Driver
  imports Runner
begin

text \<open>
  \<open>simulator/src/driver.ts\<close>: the HTTP front of the runner.  \<open>new URL(target, base).pathname\<close> is the
  parameter \<open>path_of base target\<close>, \<open>None\<close> where it throws; the account of an attempt comes with
  \<open>fresh_agent\<close>.  \<open>driver_serve\<close> is the callback run without interruption: its reply, or the
  exception that escapes it (an unhandled rejection, which ends the process).  A request that
  awaits \<open>runOnce\<close> is the attempt's beginning and end on the population of the runner.
\<close>

section \<open>Configuration\<close>

definition DEFAULT_DRIVER_PORT :: nat where
  "DEFAULT_DRIVER_PORT = 8096"

definition DRIVER_DEFAULT_GATEWAY :: string where
  "DRIVER_DEFAULT_GATEWAY = ''http://gateway:8080''"

definition DRIVER_DEFAULT_SETTLEMENT :: string where
  "DRIVER_DEFAULT_SETTLEMENT = ''http://settlement:8082''"

definition QUERIES :: "string list" where
  "QUERIES = [''trail running shoes'', ''waterproof hiking pack'', ''cast iron skillet'', ''insulated water bottle'',
     ''merino wool socks'', ''ultralight tent'', ''noise cancelling headphones'', ''espresso grinder'']"

record driver_config =
  dc_port :: number
  dc_gatewayUrl :: string
  dc_settlementUrl :: string

definition env_or :: "(string \<Rightarrow> string option) \<Rightarrow> string \<Rightarrow> string \<Rightarrow> string" where
  "env_or penv name fallback =
     (case map_option trim (penv name) of None \<Rightarrow> fallback | Some v \<Rightarrow> if v = [] then fallback else v)"

definition driver_config_of :: "(string \<Rightarrow> string option) \<Rightarrow> driver_config" where
  "driver_config_of penv =
     \<lparr>dc_port = string_to_number (env_or penv ''DRIVER_PORT'' (nat_text DEFAULT_DRIVER_PORT)),
      dc_gatewayUrl = env_or penv ''GATEWAY_URL'' DRIVER_DEFAULT_GATEWAY,
      dc_settlementUrl = env_or penv ''SETTLEMENT_URL'' DRIVER_DEFAULT_SETTLEMENT\<rparr>"

record driver =
  dv_population :: population
  dv_publishersLoaded :: bool

definition start_driver :: "driver_config \<Rightarrow> driver" where
  "start_driver cfg =
     \<lparr>dv_population = fresh_population (dc_gatewayUrl cfg) QUERIES, dv_publishersLoaded = False\<rparr>"

section \<open>Publishers\<close>

fun publisher_ids :: "js list \<Rightarrow> js list result" where
  "publisher_ids [] = Inr []"
| "publisher_ids (p # ps) =
     and_then (get p ''publisher_id'') (\<lambda>i. and_then (publisher_ids ps) (\<lambda>is. Inr (i # is)))"

fun mapped_array :: "js \<Rightarrow> js list result" where
  "mapped_array (JArr vs) = Inr vs"
| "mapped_array JUndef = Inl (cannot_read ''undefined'' ''map'')"
| "mapped_array JNull = Inl (cannot_read ''null'' ''map'')"
| "mapped_array v = Inl (Type_error ''body.publishers.map is not a function'')"

definition loadPublishers :: "'w fetch \<Rightarrow> string \<Rightarrow> ('w, exn, js list) io" where
  "loadPublishers fetch settlementUrl =
     bind_io (fetch \<lparr>rq_method = ''GET'', rq_url = settlementUrl @ ''/publishers'', rq_headers = [], rq_body = []\<rparr>)
       (\<lambda>response.
       if \<not> response_ok response
       then lift (Inl (Plain_error (''GET /publishers returned '' @ nat_text (rs_status response))))
       else lift (and_then (and_then (and_then (response_json response) (\<lambda>body. get body ''publishers'')) mapped_array)
              publisher_ids))"

definition set_publishers :: "js list \<Rightarrow> driver \<Rightarrow> driver" where
  "set_publishers ids dv =
     (let p = dv_population dv in
      dv\<lparr>dv_population := p\<lparr>pop := setPublishers ids (pop p)\<rparr>, dv_publishersLoaded := True\<rparr>)"

text \<open>The exception, if any, and the driver as it is then.\<close>

definition ensurePublishers :: "'w fetch \<Rightarrow> string \<Rightarrow> driver \<Rightarrow> 'w \<Rightarrow> (exn option \<times> driver) \<times> 'w" where
  "ensurePublishers fetch settlementUrl dv w =
     (if dv_publishersLoaded dv then ((None, dv), w)
      else
        case loadPublishers fetch settlementUrl w of
          (Inl e, w') \<Rightarrow> ((Some e, dv), w')
        | (Inr ids, w') \<Rightarrow>
            (if ids = [] then ((Some (Plain_error ''no publishers in the catalog; run make seed first''), dv), w')
             else ((None, set_publishers ids dv), w')))"

section \<open>Requests\<close>

record driver_request =
  dr_method :: "string option"
  dr_url :: "string option"
  dr_body :: body_stream

record driver_reply =
  dp_status :: nat
  dp_length :: nat
  dp_body :: bytes

definition driver_json :: "nat \<Rightarrow> js \<Rightarrow> driver_reply" where
  "driver_json status body = (let payload = json_body body in
     \<lparr>dp_status = status, dp_length = length payload, dp_body = payload\<rparr>)"

definition driver_readBody :: "body_stream \<Rightarrow> js result" where
  "driver_readBody req =
     (case broken req of
        Some e \<Rightarrow> Inl e
      | None \<Rightarrow>
          if chunks req = [] then Inr (JObj [])
          else (case json_parse (utf8_replace (concat (chunks req))) of Inl _ \<Rightarrow> Inr (JObj []) | Inr v \<Rightarrow> Inr v))"

definition numberOr :: "js \<Rightarrow> number option" where
  "numberOr v = (case to_number v of Fin x \<Rightarrow> Some (Fin x) | _ \<Rightarrow> None)"

definition patch_of :: "js \<Rightarrow> runner_patch result" where
  "patch_of body =
     and_then (get body ''concurrency'') (\<lambda>c. and_then (get body ''fraud_rate'') (\<lambda>f.
       Inr \<lparr>p_concurrency = numberOr c, p_fraudRate = numberOr f\<rparr>))"

text \<open>What a request draws from the clock and the random source.\<close>

record turn =
  tn_draws :: "nat \<Rightarrow> draws"
  tn_now :: number
  tn_minted :: int
  tn_bytes :: bytes

definition driver_configure :: "runner_patch \<Rightarrow> driver \<Rightarrow> driver" where
  "driver_configure patch dv = (let p = dv_population dv in dv\<lparr>dv_population := p\<lparr>pop := configure patch (pop p)\<rparr>\<rparr>)"

definition status_reply :: "driver \<Rightarrow> driver_reply" where
  "status_reply dv = driver_json 200 (stats_js (pop (dv_population dv)))"

text \<open>\<open>await runner.runOnce()\<close>, on the population.\<close>

definition driver_once ::
    "'w fetch \<Rightarrow> (string \<Rightarrow> agent) \<Rightarrow> turn \<Rightarrow> driver \<Rightarrow> 'w \<Rightarrow> (driver_reply result \<times> driver) \<times> 'w" where
  "driver_once fetch fresh_agent tn dv w =
     (let p = dv_population dv; q = begin_single (tn_draws tn 0) p in
      case fst (begin_attempt (tn_draws tn 0) (pop p)) of
        None \<Rightarrow> ((Inr (status_reply (dv\<lparr>dv_population := q\<rparr>)), dv\<lparr>dv_population := q\<rparr>), w)
      | Some tr \<Rightarrow>
          (case journey fetch (fresh_agent (ro_gatewayUrl (rn_options (pop q)))) tr (tn_now tn) (tn_minted tn) (tn_bytes tn) w of
             (outcome, w') \<Rightarrow>
               let dv' = dv\<lparr>dv_population := end_single (length (singles p)) outcome q\<rparr> in
               (case snd (conclude tr outcome (pop q)) of
                  Some e \<Rightarrow> ((Inl e, dv'), w')
                | None \<Rightarrow> ((Inr (status_reply dv'), dv'), w'))))"

definition driver_start ::
    "'w fetch \<Rightarrow> (string \<Rightarrow> agent) \<Rightarrow> driver_config \<Rightarrow> turn \<Rightarrow> bool \<Rightarrow> body_stream \<Rightarrow> driver \<Rightarrow> 'w
      \<Rightarrow> (driver_reply result \<times> driver) \<times> 'w" where
  "driver_start fetch fresh_agent cfg tn once req dv w =
     (case driver_readBody req of
        Inl e \<Rightarrow> ((Inl e, dv), w)
      | Inr body \<Rightarrow>
          (case ensurePublishers fetch (dc_settlementUrl cfg) dv w of
             ((Some e, dv'), w') \<Rightarrow> ((Inr (driver_json 503 (JObj [(''error'', JStr (message e))])), dv'), w')
           | ((None, dv'), w') \<Rightarrow>
               (case patch_of body of
                  Inl e \<Rightarrow> ((Inl e, dv'), w')
                | Inr patch \<Rightarrow>
                    if once then driver_once fetch fresh_agent tn (driver_configure patch dv') w'
                    else
                      let dv'' = dv'\<lparr>dv_population := start patch (tn_draws tn) (dv_population dv')\<rparr> in
                      ((Inr (status_reply dv''), dv''), w'))))"

definition driver_stop :: "driver \<Rightarrow> driver" where
  "driver_stop dv = (let p = dv_population dv in dv\<lparr>dv_population := p\<lparr>pop := stop (pop p)\<rparr>\<rparr>)"

definition driver_serve ::
    "'w fetch \<Rightarrow> (string \<Rightarrow> string \<Rightarrow> string option) \<Rightarrow> (string \<Rightarrow> agent) \<Rightarrow> driver_config \<Rightarrow> turn
      \<Rightarrow> driver_request \<Rightarrow> driver \<Rightarrow> 'w \<Rightarrow> (driver_reply result \<times> driver) \<times> 'w" where
  "driver_serve fetch path_of fresh_agent cfg tn req dv w =
     (case path_of (''http://localhost:'' @ num_text (dc_port cfg)) (case dr_url req of None \<Rightarrow> ''/'' | Some u \<Rightarrow> u) of
        None \<Rightarrow> ((Inl (Type_error ''Invalid URL''), dv), w)
      | Some path \<Rightarrow>
          if dr_method req = Some ''GET'' \<and> path = ''/healthz''
          then ((Inr (driver_json 200 (JObj [(''status'', JStr ''ok'')])), dv), w)
          else if dr_method req = Some ''GET'' \<and> path = ''/status'' then ((Inr (status_reply dv), dv), w)
          else if dr_method req = Some ''POST'' \<and> (path = ''/start'' \<or> path = ''/once'')
          then driver_start fetch fresh_agent cfg tn (path = ''/once'') (dr_body req) dv w
          else if dr_method req = Some ''POST'' \<and> path = ''/stop''
          then ((Inr (status_reply (driver_stop dv)), driver_stop dv), w)
          else ((Inr (driver_json 404 (JObj [(''error'', JStr ''not found'')])), dv), w))"

section \<open>The driver as a process\<close>

text \<open>Requests and the loops they started take turns.\<close>

inductive driver_step ::
    "'w fetch \<Rightarrow> (string \<Rightarrow> string \<Rightarrow> string option) \<Rightarrow> (string \<Rightarrow> agent) \<Rightarrow> driver_config \<Rightarrow> driver \<Rightarrow> driver \<Rightarrow> bool"
  for fetch path_of fresh_agent cfg where
  driver_answers: "driver_step fetch path_of fresh_agent cfg dv
      (snd (fst (driver_serve fetch path_of fresh_agent cfg tn req dv w)))"
| driver_loops: "loop_step (dv_population dv) p \<Longrightarrow>
    driver_step fetch path_of fresh_agent cfg dv (dv\<lparr>dv_population := p\<rparr>)"

section \<open>Settings\<close>

text \<open>The two numbers an operator sets, as the options and the statistics hold them.\<close>

definition settings :: "runner \<Rightarrow> number \<times> number \<times> number \<times> number" where
  "settings r = (ro_concurrency (rn_options r), st_concurrency (rn_stats r),
     ro_fraudRate (rn_options r), st_fraudRate (rn_stats r))"

definition settings_ok :: "runner \<Rightarrow> bool" where
  "settings_ok r \<longleftrightarrow>
     (case settings r of
        (Fin c, c', Fin f, f') \<Rightarrow> c' = Fin c \<and> f' = Fin f \<and> 1 \<le> c \<and> c \<le> 32 \<and> 0 \<le> f \<and> f \<le> 1
      | _ \<Rightarrow> False)"

lemma settings_simps [simp]:
  "settings (event e r) = settings r" "settings (count_failed r) = settings r"
  "settings (count_started r) = settings r" "settings (count_settled r) = settings r"
  "settings (count_blocked r) = settings r" "settings (record_reason k r) = settings r"
  "settings (stop r) = settings r" "settings (setPublishers ids r) = settings r"
  "settings (r\<lparr>rn_running := b\<rparr>) = settings r" "settings (r\<lparr>rn_active := n\<rparr>) = settings r"
  by (simp_all add: settings_def event_def count_failed_def count_started_def count_settled_def count_blocked_def
      record_reason_def stop_def setPublishers_def)

lemma begin_attempt_settings: "settings (snd (begin_attempt d r)) = settings r"
  by (simp add: begin_attempt_def Let_def split: option.split)

lemma handleFailure_settings: "settings (fst (handleFailure e tr r)) = settings r"
  by (simp add: handleFailure_def split: sum.split option.split)

lemma conclude_settings: "settings (fst (conclude tr outcome r)) = settings r"
  by (simp add: conclude_def Let_def handleFailure_settings split: sum.split option.split)

lemma begin_single_settings: "settings (pop (begin_single d p)) = settings (pop p)"
  using begin_attempt_settings [of d "pop p"]
  by (auto simp: begin_single_def split: prod.split option.split)

lemma end_single_settings: "settings (pop (end_single i outcome p)) = settings (pop p)"
  by (simp add: end_single_def concluded_def conclude_settings)

lemma loop_attempt_settings: "settings (pop (snd (loop_attempt d p))) = settings (pop p)"
  using begin_attempt_settings [of d "pop p"]
  by (auto simp: loop_attempt_def split: prod.split option.split)

lemma enter_loop_settings: "settings (pop (enter_loop d p)) = settings (pop p)"
  using loop_attempt_settings [of d "p\<lparr>pop := (pop p)\<lparr>rn_active := rn_active (pop p) + 1\<rparr>\<rparr>"]
  by (auto simp: enter_loop_def Let_def split: prod.split)

lemma fold_enter_settings: "settings (pop (fold (\<lambda>i. enter_loop (d i)) is p)) = settings (pop p)"
  by (induction "is" arbitrary: p) (simp_all add: enter_loop_settings)

lemma start_settings: "settings (pop (start patch d p)) = settings (configure patch (pop p))"
  by (simp add: start_def Let_def fold_enter_settings)

lemma loop_step_settings: "loop_step p q \<Longrightarrow> settings (pop q) = settings (pop p)"
proof (induction rule: loop_step.induct)
  case (attempt_ends i p tr outcome)
  then show ?case by (simp add: end_attempt_def leave_loop_def concluded_def conclude_settings Let_def)
next
  case (loop_returns i p)
  then show ?case by (simp add: after_attempt_def leave_loop_def)
next
  case (loop_resumes i p d)
  then show ?case using loop_attempt_settings [of d p]
    by (auto simp: after_pause_def leave_loop_def split: prod.split)
qed

text \<open>Only \<open>configure\<close> writes them, and \<open>numberOr\<close> gives it finite numbers only.\<close>

definition finite_patch :: "runner_patch \<Rightarrow> bool" where
  "finite_patch patch \<longleftrightarrow> p_concurrency patch \<noteq> Some NaN \<and> p_fraudRate patch \<noteq> Some NaN"

lemma numberOr_not_NaN: "numberOr v \<noteq> Some NaN"
  by (simp add: numberOr_def split: number.split)

lemma patch_of_finite: "patch_of body = Inr patch \<Longrightarrow> finite_patch patch"
  by (auto simp: patch_of_def finite_patch_def result_simps numberOr_not_NaN)

lemma settings_ok_iff:
  "settings_ok r \<longleftrightarrow> (\<exists>c f. settings r = (Fin c, Fin c, Fin f, Fin f) \<and> 1 \<le> c \<and> c \<le> 32 \<and> 0 \<le> f \<and> f \<le> 1)"
  by (auto simp: settings_ok_def split: prod.splits number.splits)

lemma configure_concurrency_ok:
  assumes "settings_ok r" and "c \<noteq> Some NaN"
  shows "settings_ok (configure_concurrency c r)"
proof (cases c)
  case (Some v)
  with assms(2) clamp_bounds [of v 1 32] obtain x where "clamp v (Fin 1) (Fin 32) = Fin x" "1 \<le> x" "x \<le> 32" by auto
  with assms(1) Some show ?thesis by (auto simp: settings_ok_iff settings_def configure_concurrency_def Let_def)
qed (use assms in \<open>simp add: configure_concurrency_def\<close>)

lemma configure_fraud_ok:
  assumes "settings_ok r" and "f \<noteq> Some NaN"
  shows "settings_ok (configure_fraud f r)"
proof (cases f)
  case (Some v)
  with assms(2) clamp_bounds [of v 0 1] obtain x where "clamp v (Fin 0) (Fin 1) = Fin x" "0 \<le> x" "x \<le> 1" by auto
  with assms(1) Some show ?thesis by (auto simp: settings_ok_iff settings_def configure_fraud_def Let_def)
qed (use assms in \<open>simp add: configure_fraud_def\<close>)

lemma configure_ok: "settings_ok r \<Longrightarrow> finite_patch patch \<Longrightarrow> settings_ok (configure patch r)"
  by (simp add: configure_def finite_patch_def configure_concurrency_ok configure_fraud_ok)

section \<open>What a request does to the runner\<close>

text \<open>A request's effect on the population is a sequence of the population's own steps, and it keeps the
  settings in range.\<close>

definition advances :: "driver \<Rightarrow> driver \<Rightarrow> bool" where
  "advances dv dv' \<longleftrightarrow> pop_step\<^sup>*\<^sup>* (dv_population dv) (dv_population dv') \<and>
     (settings_ok (pop (dv_population dv)) \<longrightarrow> settings_ok (pop (dv_population dv')))"

lemma advances_refl [simp, intro]: "advances dv dv"
  by (simp add: advances_def)

lemma advances_trans [trans]: "advances a b \<Longrightarrow> advances b c \<Longrightarrow> advances a c"
  by (auto simp: advances_def)

lemma settings_ok_cong: "settings r = settings r' \<Longrightarrow> settings_ok r = settings_ok r'"
  by (simp add: settings_ok_def)

lemma advances_step:
  "pop_step (dv_population dv) p \<Longrightarrow> settings (pop p) = settings (pop (dv_population dv)) \<Longrightarrow>
     advances dv (dv\<lparr>dv_population := p, dv_publishersLoaded := b\<rparr>)"
  "pop_step (dv_population dv) p \<Longrightarrow> settings (pop p) = settings (pop (dv_population dv)) \<Longrightarrow>
     advances dv (dv\<lparr>dv_population := p\<rparr>)"
  by (simp_all add: advances_def settings_ok_cong [of "pop p"] r_into_rtranclp)

lemma set_publishers_advances: "advances dv (set_publishers ids dv)"
  unfolding set_publishers_def Let_def by (rule advances_step) (rule by_publishers, simp)

lemma ensurePublishers_advances: "advances dv (snd (fst (ensurePublishers fetch url dv w)))"
  by (simp add: ensurePublishers_def set_publishers_advances split: prod.split sum.split)

lemma driver_stop_advances: "advances dv (driver_stop dv)"
  unfolding driver_stop_def Let_def by (rule advances_step) (rule by_stop, simp)

lemma driver_configure_advances: "finite_patch patch \<Longrightarrow> advances dv (driver_configure patch dv)"
  by (simp add: advances_def driver_configure_def Let_def r_into_rtranclp by_configure configure_ok)

lemma driver_start_advances:
  "finite_patch patch \<Longrightarrow> advances dv (dv\<lparr>dv_population := start patch d (dv_population dv)\<rparr>)"
  by (simp add: advances_def r_into_rtranclp by_start settings_ok_cong [OF start_settings] configure_ok)

lemma single_advances:
  "advances dv (dv\<lparr>dv_population := begin_single d (dv_population dv)\<rparr>)"
  "i < length (singles q) \<Longrightarrow> advances (dv\<lparr>dv_population := q\<rparr>) (dv\<lparr>dv_population := end_single i outcome q\<rparr>)"
  using advances_step(2) [OF single_begins begin_single_settings]
    advances_step(2) [of "dv\<lparr>dv_population := q\<rparr>", OF _ end_single_settings] single_ends by auto

lemma begin_single_started:
  "fst (begin_attempt d (pop p)) = Some tr \<Longrightarrow> length (singles (begin_single d p)) = length (singles p) + 1"
  by (cases "begin_attempt d (pop p)") (simp add: begin_single_def)

lemma driver_once_advances: "advances dv (snd (fst (driver_once fetch fresh_agent tn dv w)))"
proof -
  let ?q = "begin_single (tn_draws tn 0) (dv_population dv)"
  have "advances dv (dv\<lparr>dv_population := end_single (length (singles (dv_population dv))) outcome ?q\<rparr>)"
    if "fst (begin_attempt (tn_draws tn 0) (pop (dv_population dv))) = Some tr" for tr outcome
    using advances_trans [OF single_advances(1) single_advances(2)] begin_single_started [OF that] by simp
  then show ?thesis
    using single_advances(1) [of dv "tn_draws tn 0"]
    by (simp add: driver_once_def Let_def split: option.split prod.split)
qed

lemma driver_start_request_advances:
  "advances dv (snd (fst (driver_start fetch fresh_agent cfg tn once req dv w)))"
proof (cases "driver_readBody req")
  case (Inr body)
  obtain e dv' w' where ens: "ensurePublishers fetch (dc_settlementUrl cfg) dv w = ((e, dv'), w')"
    by (metis prod.exhaust)
  have dv': "advances dv dv'" using ensurePublishers_advances [of dv fetch "dc_settlementUrl cfg" w] ens by simp
  show ?thesis
  proof (cases e)
    case None
    show ?thesis
    proof (cases "patch_of body")
      case (Inr patch)
      note patch_ok = patch_of_finite [OF Inr]
      have "advances dv (snd (fst (driver_once fetch fresh_agent tn (driver_configure patch dv') w')))"
        by (rule advances_trans [OF advances_trans [OF dv' driver_configure_advances [OF patch_ok]] driver_once_advances])
      moreover have "advances dv (dv'\<lparr>dv_population := start patch (tn_draws tn) (dv_population dv')\<rparr>)"
        by (rule advances_trans [OF dv' driver_start_advances [OF patch_ok]])
      ultimately show ?thesis
        by (simp add: driver_start_def \<open>driver_readBody req = Inr body\<close> ens None Inr Let_def)
    qed (simp add: driver_start_def Inr ens None dv')
  qed (simp add: driver_start_def Inr ens dv')
qed (simp add: driver_start_def)

lemma driver_serve_advances: "advances dv (snd (fst (driver_serve fetch path_of fresh_agent cfg tn req dv w)))"
  by (simp add: driver_serve_def driver_start_request_advances driver_stop_advances split: option.split)

lemma driver_step_advances: "driver_step fetch path_of fresh_agent cfg dv dv' \<Longrightarrow> advances dv dv'"
proof (induction rule: driver_step.induct)
  case (driver_loops dv p)
  then show ?case by (intro advances_step by_loop loop_step_settings)
qed (rule driver_serve_advances)

interpretation driving: refinement "driver_step fetch path_of fresh_agent cfg" pop_step dv_population
  "\<lambda>dv. settings_ok (pop (dv_population dv))"
  by unfold_locales (auto simp: advances_def dest!: driver_step_advances)

lemma start_driver_ok: "settings_ok (pop (dv_population (start_driver cfg)))"
  by (simp add: start_driver_def settings_ok_def settings_def fresh_population_def new_runner_def emptyStats_def Let_def)

section \<open>The operator's panel\<close>

text \<open>What an operator controls and sees of a population: whether it runs, how many loops are out, the two
  settings as numbers, and how many attempts were begun or turned away for want of publishers.  An
  operation says what becomes of it; it knows nothing of requests, patches or tasks.\<close>

record panel =
  pl_running :: bool
  pl_loops :: nat
  pl_concurrency :: rat
  pl_fraudRate :: rat
  pl_begun :: nat

datatype operation =
    Starting "rat option" "rat option"
  | Trying "rat option" "rat option"
  | Stopping
  | Watching

definition setting :: "rat option \<Rightarrow> rat \<Rightarrow> rat \<Rightarrow> rat \<Rightarrow> rat" where
  "setting given low high old = (case given of None \<Rightarrow> old | Some x \<Rightarrow> min high (max low x))"

definition tuned :: "rat option \<Rightarrow> rat option \<Rightarrow> panel \<Rightarrow> panel" where
  "tuned c f pl = pl\<lparr>pl_concurrency := setting c 1 32 (pl_concurrency pl), pl_fraudRate := setting f 0 1 (pl_fraudRate pl)\<rparr>"

fun operated :: "operation \<Rightarrow> panel \<Rightarrow> panel" where
  "operated (Starting c f) pl =
     (let tuned_pl = tuned c f pl; n = nat \<lceil>pl_concurrency tuned_pl\<rceil> in
      if pl_running pl then tuned_pl
      else tuned_pl\<lparr>pl_running := True, pl_loops := pl_loops pl + n, pl_begun := pl_begun pl + n\<rparr>)"
| "operated (Trying c f) pl = (tuned c f pl)\<lparr>pl_begun := pl_begun pl + 1\<rparr>"
| "operated Stopping pl = pl\<lparr>pl_running := False\<rparr>"
| "operated Watching pl = pl"

fun finite_part :: "number \<Rightarrow> rat" where
  "finite_part (Fin x) = x"
| "finite_part n = 0"

definition panel_of :: "driver \<Rightarrow> panel" where
  "panel_of dv =
     (let p = dv_population dv; r = pop p in
      \<lparr>pl_running = rn_running r, pl_loops = length (loops p), pl_concurrency = finite_part (ro_concurrency (rn_options r)),
       pl_fraudRate = finite_part (ro_fraudRate (rn_options r)), pl_begun = st_started (rn_stats r) + skipped p\<rparr>)"

text \<open>The operation a request stands for: the number a member of its body holds counts, if there is one, and without
  publishers nothing starts.\<close>

definition number_member :: "js \<Rightarrow> string \<Rightarrow> rat option" where
  "number_member body name =
     (case get body name of Inl _ \<Rightarrow> None | Inr v \<Rightarrow> (case to_number v of Fin x \<Rightarrow> Some x | _ \<Rightarrow> None))"

definition asked_for :: "driver_request \<Rightarrow> string \<Rightarrow> bool \<Rightarrow> operation" where
  "asked_for req path publishers =
     (if dr_method req \<noteq> Some ''POST'' then Watching
      else if path = ''/stop'' then Stopping
      else
        case driver_readBody (dr_body req) of
          Inl _ \<Rightarrow> Watching
        | Inr body \<Rightarrow>
            if body = JNull \<or> body = JUndef \<or> \<not> publishers then Watching
            else if path = ''/start'' then Starting (number_member body ''concurrency'') (number_member body ''fraud_rate'')
            else if path = ''/once'' then Trying (number_member body ''concurrency'') (number_member body ''fraud_rate'')
            else Watching)"

subsection \<open>Lemmas\<close>

definition begun :: "population \<Rightarrow> nat" where
  "begun p = st_started (rn_stats (pop p)) + skipped p"

definition running_loops :: "population \<Rightarrow> bool \<times> nat" where
  "running_loops p = (rn_running (pop p), length (loops p))"

lemma panel_of_eq: "panel_of dv =
  \<lparr>pl_running = fst (running_loops (dv_population dv)), pl_loops = snd (running_loops (dv_population dv)),
   pl_concurrency = finite_part (fst (settings (pop (dv_population dv)))),
   pl_fraudRate = finite_part (fst (snd (snd (settings (pop (dv_population dv)))))), pl_begun = begun (dv_population dv)\<rparr>"
  by (simp add: panel_of_def settings_def begun_def running_loops_def Let_def)

lemma loop_attempt_begun:
  assumes "loop_attempt d p = (t, q)"
  shows "begun q = begun p + 1" and "rn_running (pop q) = rn_running (pop p)" and "loops q = loops p"
  using assms begin_attempt_counts [of d "pop p"]
  by (auto simp: loop_attempt_def begun_def split: prod.splits option.splits)

lemma enter_loop_begun: "begun (enter_loop d p) = begun p + 1" "rn_running (pop (enter_loop d p)) = rn_running (pop p)"
  using loop_attempt_begun [of d "p\<lparr>pop := (pop p)\<lparr>rn_active := rn_active (pop p) + 1\<rparr>\<rparr>"]
  by (auto simp: enter_loop_def begun_def Let_def split: prod.split)

lemma fold_enter_begun:
  "begun (fold (\<lambda>i. enter_loop (d i)) is p) = begun p + length is"
  "rn_running (pop (fold (\<lambda>i. enter_loop (d i)) is p)) = rn_running (pop p)"
  by (induction "is" arbitrary: p) (simp_all add: enter_loop_begun)

lemma start_begun:
  "rn_running (pop (start patch d p))"
  "begun (start patch d p) = begun p +
     (if rn_running (pop p) then 0 else iterations (ro_concurrency (rn_options (configure patch (pop p)))))"
  "length (loops (start patch d p)) = length (loops p) +
     (if rn_running (pop p) then 0 else iterations (ro_concurrency (rn_options (configure patch (pop p)))))"
proof -
  let ?r = "configure patch (pop p)" and ?p = "p\<lparr>pop := event ''started'' ((configure patch (pop p))\<lparr>rn_running := True\<rparr>)\<rparr>"
  have same: "rn_running ?r = rn_running (pop p)" "st_started (rn_stats ?r) = st_started (rn_stats (pop p))"
    using configure_counts [of patch "pop p"] by (simp_all add: control_eq)
  have entered: "rn_running (pop ?p)" "begun ?p = begun p" "loops ?p = loops p"
    by (simp_all add: begun_def event_def same)
  show "rn_running (pop (start patch d p))"
    by (cases "rn_running (pop p)") (simp_all only: start_def Let_def same if_True if_False fold_enter_begun entered, simp_all add: same)
  show "begun (start patch d p) = begun p + (if rn_running (pop p) then 0 else iterations (ro_concurrency (rn_options ?r)))"
    by (cases "rn_running (pop p)")
      (simp_all only: start_def Let_def same if_True if_False fold_enter_begun entered length_upt, simp_all add: begun_def same)
  show "length (loops (start patch d p)) =
       length (loops p) + (if rn_running (pop p) then 0 else iterations (ro_concurrency (rn_options ?r)))"
    by (cases "rn_running (pop p)")
      (simp_all only: start_def Let_def same if_True if_False fold_enter_length entered length_upt, simp_all)
qed

lemma configure_settings:
  assumes "p_concurrency patch = map_option Fin c" and "p_fraudRate patch = map_option Fin f"
  shows "finite_part (ro_concurrency (rn_options (configure patch r))) = setting c 1 32 (finite_part (ro_concurrency (rn_options r)))"
    and "finite_part (ro_fraudRate (rn_options (configure patch r))) = setting f 0 1 (finite_part (ro_fraudRate (rn_options r)))"
  using assms
  by (auto simp: configure_def configure_concurrency_def configure_fraud_def setting_def clamp_def math_min_def math_max_def Let_def
      split: option.split)

lemma iterations_finite: "iterations n = nat \<lceil>finite_part n\<rceil>"
  by (cases n) simp_all

lemma single_begun: "begun (begin_single d p) = begun p + 1" "running_loops (begin_single d p) = running_loops p"
proof -
  obtain a r where b: "begin_attempt d (pop p) = (a, r)" by force
  from begin_attempt_counts [OF b] show "begun (begin_single d p) = begun p + 1" "running_loops (begin_single d p) = running_loops p"
    by (cases a; simp add: begin_single_def b begun_def running_loops_def)+
qed

lemma end_single_begun: "begun (end_single i outcome p) = begun p" "running_loops (end_single i outcome p) = running_loops p"
  using conclude_counts [of "singles p ! i" outcome "pop p" "fst (conclude (singles p ! i) outcome (pop p))"
      "snd (conclude (singles p ! i) outcome (pop p))"]
  by (auto simp: end_single_def concluded_def begun_def running_loops_def control_eq)

lemma once_panel:
  "panel_of (snd (fst (driver_once fetch fresh_agent tn dv w))) = (panel_of dv)\<lparr>pl_begun := pl_begun (panel_of dv) + 1\<rparr>"
proof -
  let ?q = "begin_single (tn_draws tn 0) (dv_population dv)"
  have q: "panel_of (dv\<lparr>dv_population := ?q\<rparr>) = (panel_of dv)\<lparr>pl_begun := pl_begun (panel_of dv) + 1\<rparr>"
    by (simp add: panel_of_eq single_begun begin_single_settings)
  moreover have "panel_of (dv\<lparr>dv_population := end_single i outcome ?q\<rparr>) = panel_of (dv\<lparr>dv_population := ?q\<rparr>)" for i outcome
    by (simp add: panel_of_eq end_single_begun end_single_settings)
  ultimately show ?thesis unfolding driver_once_def Let_def by (simp split: option.split prod.split)
qed

lemma once_loaded: "driver_once fetch fresh_agent tn dv w = ((reply, dv'), w') \<Longrightarrow> dv_publishersLoaded dv' = dv_publishersLoaded dv"
  by (auto simp: driver_once_def Let_def split: option.splits prod.splits)

lemma once_reply: "driver_once fetch fresh_agent tn dv w = ((reply, dv'), w') \<Longrightarrow> reply = Inr r \<Longrightarrow> r = status_reply dv'"
  by (auto simp: driver_once_def Let_def split: option.splits prod.splits)

lemma ensure_panel:
  assumes "ensurePublishers fetch url dv w = ((e, dv'), w')"
  shows "panel_of dv' = panel_of dv" and "e = None \<longleftrightarrow> dv_publishersLoaded dv'"
  using assms by (auto simp: ensurePublishers_def set_publishers_def setPublishers_def panel_of_def Let_def
      split: if_splits prod.splits sum.splits)

lemma patch_members:
  assumes "patch_of body = Inr patch"
  shows "p_concurrency patch = map_option Fin (number_member body ''concurrency'')"
    and "p_fraudRate patch = map_option Fin (number_member body ''fraud_rate'')" and "body \<noteq> JNull \<and> body \<noteq> JUndef"
proof -
  obtain c f where g: "get body ''concurrency'' = Inr c" "get body ''fraud_rate'' = Inr f"
    and patch: "patch = \<lparr>p_concurrency = numberOr c, p_fraudRate = numberOr f\<rparr>"
    using assms by (auto simp: patch_of_def result_simps)
  have "numberOr v = map_option Fin (case to_number v of Fin x \<Rightarrow> Some x | _ \<Rightarrow> None)" for v
    by (simp add: numberOr_def split: number.split)
  then show "p_concurrency patch = map_option Fin (number_member body ''concurrency'')"
    "p_fraudRate patch = map_option Fin (number_member body ''fraud_rate'')"
    by (simp_all add: patch number_member_def g)
  show "body \<noteq> JNull \<and> body \<noteq> JUndef" using g(1) by (cases body) (simp_all add: cannot_read_def)
qed

lemma patch_missing: "patch_of body = Inl e \<Longrightarrow> body = JNull \<or> body = JUndef"
  using null_reason by (auto simp: patch_of_def result_simps)

lemma configure_panel:
  assumes "patch_of body = Inr patch"
  shows "panel_of (driver_configure patch dv) =
    tuned (number_member body ''concurrency'') (number_member body ''fraud_rate'') (panel_of dv)"
  using configure_settings [OF patch_members(1,2) [OF assms], of "pop (dv_population dv)"]
    configure_counts [of patch "pop (dv_population dv)"]
  by (simp add: panel_of_def driver_configure_def tuned_def control_eq Let_def)

lemma start_panel:
  assumes "patch_of body = Inr patch"
  shows "panel_of (dv\<lparr>dv_population := start patch d (dv_population dv)\<rparr>) =
    operated (Starting (number_member body ''concurrency'') (number_member body ''fraud_rate'')) (panel_of dv)"
  using configure_settings [OF patch_members(1,2) [OF assms], of "pop (dv_population dv)"]
    start_begun [of patch d "dv_population dv"] start_settings [of patch d "dv_population dv"]
  by (simp add: panel_of_eq tuned_def iterations_finite running_loops_def settings_def Let_def)

lemma serve_loaded:
  assumes "dv_publishersLoaded dv" and "driver_serve fetch path_of fresh_agent cfg tn req dv w = ((reply, dv'), w')"
  shows "dv_publishersLoaded dv'"
  using assms once_loaded [of fetch fresh_agent tn _ w reply dv' w']
  by (auto simp: driver_serve_def driver_start_def ensurePublishers_def driver_configure_def driver_stop_def Let_def
      split: option.splits if_splits sum.splits)

lemma start_request_panel:
  assumes "driver_start fetch fresh_agent cfg tn once body dv w = ((reply, dv'), w')"
    and "operation = (\<lambda>v. (if once then Trying else Starting) (number_member v ''concurrency'') (number_member v ''fraud_rate''))"
  shows "panel_of dv' = operated
    (case driver_readBody body of Inl _ \<Rightarrow> Watching
     | Inr v \<Rightarrow> if v = JNull \<or> v = JUndef \<or> \<not> dv_publishersLoaded dv' then Watching else operation v) (panel_of dv)"
    and "reply = Inr r \<Longrightarrow> dp_status r = 200 \<Longrightarrow> r = status_reply dv'"
    and "driver_readBody body = Inr v \<Longrightarrow> \<not> dv_publishersLoaded dv' \<Longrightarrow> \<exists>m. reply = Inr (driver_json 503 (JObj [(''error'', JStr m)]))"
proof -
  have "panel_of dv' = operated
    (case driver_readBody body of Inl _ \<Rightarrow> Watching
     | Inr v \<Rightarrow> if v = JNull \<or> v = JUndef \<or> \<not> dv_publishersLoaded dv' then Watching else operation v) (panel_of dv) \<and>
    (\<forall>r. reply = Inr r \<longrightarrow> dp_status r = 200 \<longrightarrow> r = status_reply dv') \<and>
    (\<forall>v. driver_readBody body = Inr v \<longrightarrow> \<not> dv_publishersLoaded dv' \<longrightarrow> (\<exists>m. reply = Inr (driver_json 503 (JObj [(''error'', JStr m)]))))"
    (is ?all)
  proof (cases "driver_readBody body")
    case (Inl e)
    then show ?all using assms(1) by (auto simp: driver_start_def)
  next
    case v: (Inr v)
    obtain e dv1 w1 where ens: "ensurePublishers fetch (dc_settlementUrl cfg) dv w = ((e, dv1), w1)" by (metis prod.exhaust)
    note panel = ensure_panel [OF ens]
    show ?all
    proof (cases e)
      case (Some x)
      then show ?all using assms(1) v ens panel by (auto simp: driver_start_def driver_json_def Let_def)
    next
      case None
      show ?all
      proof (cases "patch_of v")
        case (Inl x)
        then show ?all using assms(1) v ens panel None patch_missing [OF Inl] by (auto simp: driver_start_def)
      next
        case patch: (Inr patch)
        note given = patch_members(3) [OF patch]
        show ?all
        proof (cases once)
          case True
          let ?c = "driver_configure patch dv1"
          have run: "driver_once fetch fresh_agent tn ?c w1 = ((reply, dv'), w')"
            using assms(1) v ens None patch True by (simp add: driver_start_def)
          have "dv_publishersLoaded dv'" using once_loaded [OF run] panel(2) None by (simp add: driver_configure_def Let_def)
          moreover have "panel_of dv' = operated (operation v) (panel_of dv)"
            using once_panel [of fetch fresh_agent tn ?c w1] configure_panel [OF patch, of dv1] panel(1) True
            by (simp add: run assms(2) tuned_def)
          ultimately show ?all using once_reply [OF run] given v by auto
        next
          case False
          then have d: "dv' = dv1\<lparr>dv_population := start patch (tn_draws tn) (dv_population dv1)\<rparr>" "reply = Inr (status_reply dv')"
            using assms(1) v ens None patch by (auto simp: driver_start_def Let_def)
          have "dv_publishersLoaded dv'" using d panel(2) None by simp
          moreover have "panel_of dv' = operated (operation v) (panel_of dv)"
            using start_panel [OF patch, of "tn_draws tn" dv1] panel(1) False by (simp add: d(1) assms(2))
          ultimately show ?all using d(2) given v by auto
        qed
      qed
    qed
  qed
  then show "panel_of dv' = operated
    (case driver_readBody body of Inl _ \<Rightarrow> Watching
     | Inr v \<Rightarrow> if v = JNull \<or> v = JUndef \<or> \<not> dv_publishersLoaded dv' then Watching else operation v) (panel_of dv)"
    and "reply = Inr r \<Longrightarrow> dp_status r = 200 \<Longrightarrow> r = status_reply dv'"
    and "driver_readBody body = Inr v \<Longrightarrow> \<not> dv_publishersLoaded dv' \<Longrightarrow> \<exists>m. reply = Inr (driver_json 503 (JObj [(''error'', JStr m)]))"
    by blast+
qed

section \<open>Concrete requests\<close>

definition sample_driver_config :: driver_config where
  "sample_driver_config = driver_config_of (\<lambda>_. None)"

definition sample_turn :: turn where
  "sample_turn = \<lparr>tn_draws = (\<lambda>_. sample_draws), tn_now = Fin 0, tn_minted = 0, tn_bytes = []\<rparr>"

definition post_to :: "string \<Rightarrow> js \<Rightarrow> driver_request" where
  "post_to target body = \<lparr>dr_method = Some ''POST'', dr_url = Some target,
     dr_body = \<lparr>chunks = [json_body body], broken = None\<rparr>\<rparr>"

definition loaded_driver :: driver where
  "loaded_driver = set_publishers [JStr ''pub_1''] (start_driver sample_driver_config)"

text \<open>A driver that was started with concurrency two; its fetch answers one publisher.\<close>

definition publishers_fetch :: "nat fetch" where
  "publishers_fetch rq n = (Inr \<lparr>rs_status = 200, rs_headers = [],
     rs_body = json_body (JObj [(''publishers'', JArr [JObj [(''publisher_id'', JStr ''pub_1'')]])])\<rparr>, Suc n)"

definition set_up_driver :: driver where
  "set_up_driver = snd (fst (driver_serve publishers_fetch (\<lambda>base target. Some target)
     (\<lambda>url. new_agent url ''0x0'' (\<lambda>_. Inr ''0x'')) sample_driver_config sample_turn
     (post_to ''/start'' (JObj [(''concurrency'', jint 2)])) (start_driver sample_driver_config) 0))"

lemma set_up_run:
  "(driver_step publishers_fetch (\<lambda>base target. Some target) (\<lambda>url. new_agent url ''0x0'' (\<lambda>_. Inr ''0x''))
      sample_driver_config)\<^sup>*\<^sup>* (start_driver sample_driver_config) set_up_driver"
  unfolding set_up_driver_def by (intro r_into_rtranclp driver_answers)

section \<open>Properties\<close>

text \<open>C34: Whatever bodies the requests carry and however the loops interleave with them, the driver's
  settings stay numbers in range: a concurrency between 1 and 32 and a fraud rate between 0 and 1,
  the same in the options that steer the runner and in the statistics that are shown.\<close>

theorem driver_settings_bounded:
  assumes "(driver_step fetch path_of fresh_agent cfg)\<^sup>*\<^sup>* (start_driver cfg) dv"
  shows "\<exists>c f. ro_concurrency (rn_options (pop (dv_population dv))) = Fin c \<and>
     st_concurrency (rn_stats (pop (dv_population dv))) = Fin c \<and> 1 \<le> c \<and> c \<le> 32 \<and>
     ro_fraudRate (rn_options (pop (dv_population dv))) = Fin f \<and>
     st_fraudRate (rn_stats (pop (dv_population dv))) = Fin f \<and> 0 \<le> f \<and> f \<le> 1"
  using driving.run_good [OF assms start_driver_ok] by (auto simp: settings_ok_iff settings_def)

lemma driver_settings_bounded_witness:
  "\<exists>c f. ro_concurrency (rn_options (pop (dv_population set_up_driver))) = Fin c \<and>
     st_concurrency (rn_stats (pop (dv_population set_up_driver))) = Fin c \<and> 1 \<le> c \<and> c \<le> 32 \<and>
     ro_fraudRate (rn_options (pop (dv_population set_up_driver))) = Fin f \<and>
     st_fraudRate (rn_stats (pop (dv_population set_up_driver))) = Fin f \<and> 0 \<le> f \<and> f \<le> 1"
  by (rule driver_settings_bounded [OF set_up_run])

text \<open>C35: Each request does to the operator's panel exactly the operation it stands for: a start sets the numbers its
  body gives, within bounds, and sends out as many loops as the concurrency if none were running, each beginning an
  attempt; once sets them and begins one attempt; stop only clears the running flag; any other request, one without
  publishers to search for or with nothing readable in its body changes nothing.  A 200 that is not the health check
  shows the statistics as they then are, and a start or once without publishers is answered 503.\<close>

theorem driver_refines_panel:
  assumes "path_of (''http://localhost:'' @ num_text (dc_port cfg)) (case dr_url req of None \<Rightarrow> ''/'' | Some u \<Rightarrow> u) = Some path"
    and "driver_serve fetch path_of fresh_agent cfg tn req dv w = ((reply, dv'), w')"
  shows "panel_of dv' = operated (asked_for req path (dv_publishersLoaded dv')) (panel_of dv) \<and>
    (\<forall>r. reply = Inr r \<longrightarrow> dp_status r = 200 \<longrightarrow> path \<noteq> ''/healthz'' \<longrightarrow> r = status_reply dv') \<and>
    (dr_method req = Some ''POST'' \<and> path \<in> {''/start'', ''/once''} \<and> is_ok (driver_readBody (dr_body req)) \<and>
       \<not> dv_publishersLoaded dv' \<longrightarrow> (\<exists>m. reply = Inr (driver_json 503 (JObj [(''error'', JStr m)]))))"
proof (cases "dr_method req = Some ''POST'' \<and> path \<in> {''/start'', ''/once''}")
  case True
  then have run: "driver_start fetch fresh_agent cfg tn (path = ''/once'') (dr_body req) dv w = ((reply, dv'), w')"
    using assms by (auto simp: driver_serve_def)
  note served = start_request_panel [OF run refl]
  have "asked_for req path (dv_publishersLoaded dv') =
    (case driver_readBody (dr_body req) of Inl _ \<Rightarrow> Watching
     | Inr v \<Rightarrow> if v = JNull \<or> v = JUndef \<or> \<not> dv_publishersLoaded dv' then Watching
         else (if path = ''/once'' then Trying else Starting) (number_member v ''concurrency'') (number_member v ''fraud_rate''))"
    using True by (auto simp: asked_for_def split: sum.split)
  then show ?thesis using served by (auto simp: is_ok_iff)
next
  case other: False
  show ?thesis
  proof (cases "dr_method req = Some ''POST'' \<and> path = ''/stop''")
    case True
    then have "dv' = driver_stop dv" "reply = Inr (status_reply dv')" using assms by (auto simp: driver_serve_def)
    moreover have "panel_of (driver_stop dv) = operated Stopping (panel_of dv)"
      by (simp add: panel_of_def driver_stop_def stop_def event_def Let_def)
    ultimately show ?thesis using True by (simp add: asked_for_def)
  next
    case False
    have "asked_for req path (dv_publishersLoaded dv') = Watching"
      using other False by (auto simp: asked_for_def split: sum.split)
    moreover have "dv' = dv \<and> (\<forall>r. reply = Inr r \<longrightarrow> dp_status r = 200 \<longrightarrow> path \<noteq> ''/healthz'' \<longrightarrow> r = status_reply dv)"
      using assms other False by (auto simp: driver_serve_def driver_json_def Let_def split: if_splits)
    ultimately show ?thesis using other by auto
  qed
qed

lemma driver_refines_panel_witness:
  "\<exists>reply dv' w'. driver_serve publishers_fetch (\<lambda>base target. Some target) (\<lambda>url. new_agent url ''0x0'' (\<lambda>_. Inr ''0x''))
       sample_driver_config sample_turn (post_to ''/start'' (JObj [(''concurrency'', jint 2)])) loaded_driver 0 = ((reply, dv'), w') \<and>
     panel_of dv' = operated (Starting (Some 2) None) (panel_of loaded_driver) \<and> pl_running (panel_of dv') \<and> pl_loops (panel_of dv') = 2"
  (is "\<exists>reply dv' w'. ?run = _ \<and> _")
proof -
  let ?req = "post_to ''/start'' (JObj [(''concurrency'', jint 2)])"
  obtain reply dv' w' where run: "?run = ((reply, dv'), w')" by (metis prod.collapse)
  have "dv_publishersLoaded loaded_driver" by (simp add: loaded_driver_def set_publishers_def Let_def)
  from serve_loaded [OF this run] have loaded: "dv_publishersLoaded dv'" .
  have "asked_for ?req ''/start'' True = Starting (Some 2) None" by code_simp
  then have "panel_of dv' = operated (Starting (Some 2) None) (panel_of loaded_driver)"
    using driver_refines_panel [OF _ run, of "''/start''"] loaded by (simp add: post_to_def)
  moreover have "pl_running (operated (Starting (Some 2) None) (panel_of loaded_driver))"
    "pl_loops (operated (Starting (Some 2) None) (panel_of loaded_driver)) = 2" by code_simp+
  ultimately show ?thesis using run by simp
qed

text \<open>A start or once request whose body is the JSON text \<open>null\<close> is never answered: the read of its
  first field throws outside every try block, and the exception leaves the request callback.\<close>

theorem null_body_escapes:
  assumes "dr_method req = Some ''POST''" and "dr_url req = Some target"
    and "path_of (''http://localhost:'' @ num_text (dc_port cfg)) target = Some path" and "path \<in> {''/start'', ''/once''}"
    and "dv_publishersLoaded dv" and "driver_readBody (dr_body req) = Inr JNull"
  shows "driver_serve fetch path_of fresh_agent cfg tn req dv w =
     ((Inl (cannot_read ''null'' ''concurrency''), dv), w)"
  using assms by (auto simp: driver_serve_def driver_start_def ensurePublishers_def patch_of_def)

lemma null_body_escapes_witness:
  "driver_serve (\<lambda>rq (w :: nat). (Inl (Network_error ''fetch failed''), w)) (\<lambda>base target. Some target)
       (\<lambda>url. new_agent url ''0x0'' (\<lambda>_. Inr ''0x'')) sample_driver_config sample_turn (post_to ''/start'' JNull)
       loaded_driver 0 =
     ((Inl (cannot_read ''null'' ''concurrency''), loaded_driver), 0)"
proof (rule null_body_escapes [where target = "''/start''" and path = "''/start''"])
  show "driver_readBody (dr_body (post_to ''/start'' JNull)) = Inr JNull" by code_simp
  show "dv_publishersLoaded loaded_driver" by (simp add: loaded_driver_def set_publishers_def Let_def)
qed (simp_all add: post_to_def)

text \<open>A field that is null is not one left out: a null concurrency turns the population down to one
  agent and a null fraud rate turns fraud off, where a missing field leaves the setting as it was.\<close>

theorem null_field_resets:
  "\<exists>patch. patch_of (JObj kvs) = Inr patch \<and>
     (own kvs ''concurrency'' \<in> {JUndef, JNull} \<longrightarrow>
        ro_concurrency (rn_options (configure patch r)) =
          (if own kvs ''concurrency'' = JNull then Fin 1 else ro_concurrency (rn_options r))) \<and>
     (own kvs ''fraud_rate'' \<in> {JUndef, JNull} \<longrightarrow>
        ro_fraudRate (rn_options (configure patch r)) =
          (if own kvs ''fraud_rate'' = JNull then Fin 0 else ro_fraudRate (rn_options r)))"
proof -
  define patch where "patch = \<lparr>p_concurrency = numberOr (own kvs ''concurrency''), p_fraudRate = numberOr (own kvs ''fraud_rate'')\<rparr>"
  have clamps: "clamp (Fin 0) (Fin 1) (Fin 32) = Fin 1" "clamp (Fin 0) (Fin 0) (Fin 1) = Fin 0"
    by (simp_all add: clamp_def math_min_def math_max_def)
  have "patch_of (JObj kvs) = Inr patch" by (simp add: patch_of_def patch_def)
  moreover have "ro_concurrency (rn_options (configure patch r)) =
      (if own kvs ''concurrency'' = JNull then Fin 1 else ro_concurrency (rn_options r))"
    if "own kvs ''concurrency'' \<in> {JUndef, JNull}"
    using that by (auto simp: patch_def numberOr_def configure_def configure_fraud_def configure_concurrency_def
        clamps Let_def split: option.split)
  moreover have "ro_fraudRate (rn_options (configure patch r)) =
      (if own kvs ''fraud_rate'' = JNull then Fin 0 else ro_fraudRate (rn_options r))"
    if "own kvs ''fraud_rate'' \<in> {JUndef, JNull}"
    using that by (auto simp: patch_def numberOr_def configure_def configure_fraud_def configure_concurrency_def
        clamps Let_def split: option.split)
  ultimately show ?thesis by blast
qed

lemma null_field_resets_witness:
  "\<exists>patch. patch_of (JObj [(''fraud_rate'', JNull)]) = Inr patch \<and>
     ro_concurrency (rn_options (configure patch (new_runner ''http://gateway:8080'' []))) = Fin 4 \<and>
     ro_fraudRate (rn_options (configure patch (new_runner ''http://gateway:8080'' []))) = Fin 0"
  using null_field_resets [of "[(''fraud_rate'', JNull)]" "new_runner ''http://gateway:8080'' []"]
  by (simp add: new_runner_def Let_def)

end
