(* ===== verification/Ledger.thy ===== *)
theory Ledger
  imports Facilitator
begin

text \<open>
  What the facilitator promises, as an atomic ledger: a transfer takes a verified payment and an
  unused nonce and appends one receipt, in a single step.  The concurrent server, which suspends
  every request between checking and recording, refines it: the locale \<open>refinement\<close> is interpreted on
  its step relation.
\<close>

record ledger =
  spent :: "js list"
  receipts :: "string list"

definition empty_ledger :: ledger where
  "empty_ledger = \<lparr>spent = [], receipts = []\<rparr>"

definition transfer :: "js \<Rightarrow> string \<Rightarrow> ledger \<Rightarrow> ledger option" where
  "transfer nonce tx l =
     (if nonce_has nonce (spent l) then None
      else Some \<lparr>spent = spent l @ [nonce], receipts = receipts l @ [tx]\<rparr>)"

definition authorization_of :: "pending \<Rightarrow> js" where
  "authorization_of p = get_opt (get_opt (pd_request p) ''paymentPayload'') ''authorization''"

inductive ledger_step :: "verify_typed_data \<Rightarrow> (string \<Rightarrow> string) \<Rightarrow> ledger \<Rightarrow> ledger \<Rightarrow> bool"
  for vt :: verify_typed_data and keccak :: "string \<Rightarrow> string" where
  transferred: "verified vt p = Inr (Valid payer) \<Longrightarrow> simulatedTransactionHash keccak (authorization_of p) = Inr tx \<Longrightarrow>
     transfer (request_nonce p) tx l = Some l' \<Longrightarrow> ledger_step vt keccak l l'"

inductive_simps ledger_step_iff: "ledger_step vt keccak l l'"

definition ledger_of :: "facilitator_server \<Rightarrow> ledger" where
  "ledger_of s = \<lparr>spent = consumed (fac s), receipts = map sr_transaction (settled (fac s))\<rparr>"

definition awaiting_ok :: "facilitator_server \<Rightarrow> bool" where
  "awaiting_ok s \<longleftrightarrow> (\<forall>p \<in> set (waiting s). well_formed (pd_request p))"

lemma finish_receipt:
  assumes "well_formed (pd_request p)" and "finish vt keccak p st = (res, st')" and "paid res"
  shows "\<exists>payer tx sr. verified vt p = Inr (Valid payer) \<and> simulatedTransactionHash keccak (authorization_of p) = Inr tx \<and>
     \<not> nonce_has (request_nonce p) (consumed st) \<and> consumed st' = consumed st @ [request_nonce p] \<and>
     settled st' = settled st @ [sr] \<and> sr_transaction sr = tx"
proof -
  obtain t where t: "simulatedTransactionHash keccak (authorization_of p) = Inr t"
    using assms(1) simulated_hash_object unfolding well_formed_def authorization_of_def by blast
  from finish_result(1) [OF assms(1,2)] assms(3) obtain payer where v: "verified vt p = Inr (Valid payer)"
    and path: "pd_path p \<noteq> ROUTE_Verify" and new: "\<not> nonce_has (request_nonce p) (consumed st)" by blast
  from assms(2) v path new t show ?thesis
    by (auto simp: finish_def settle_def verified_def request_nonce_def authorization_of_def nonce_claim_def Let_def)
qed

lemma step_ledger:
  assumes "awaiting_ok s" and "facilitator_step vt keccak s s'"
  shows "(ledger_step vt keccak)\<^sup>*\<^sup>* (ledger_of s) (ledger_of s')"
  using assms(2)
proof cases
  case (arrive verb route body clock res f)
  from admit_cases [OF arrive(2)] have "ledger_of s' = ledger_of s" by (auto simp: ledger_of_def arrive(1))
  then show ?thesis by simp
next
  case (resume i res f)
  have wf: "well_formed (pd_request (waiting s ! i))" using assms(1) resume(2) by (simp add: awaiting_ok_def)
  show ?thesis
  proof (cases "paid res")
    case True
    from finish_receipt [OF wf resume(3) True]
    have "ledger_step vt keccak (ledger_of s) (ledger_of s')"
      by (auto simp: ledger_of_def resume(1) transfer_def intro!: transferred)
    then show ?thesis by simp
  next
    case False
    then have "ledger_of s' = ledger_of s" using finish_result(2) [OF wf resume(3)] by (simp add: ledger_of_def resume(1))
    then show ?thesis by simp
  qed
qed

lemma step_awaiting:
  assumes "awaiting_ok s" and "facilitator_step vt keccak s s'"
  shows "awaiting_ok s'"
  using assms(2)
proof cases
  case (arrive verb route body clock res f)
  from admit_cases [OF arrive(2)] assms(1) show ?thesis by (auto simp: awaiting_ok_def arrive(1))
next
  case (resume i res f)
  then show ?thesis using assms(1) set_remove_nth [of i "waiting s"] by (auto simp: awaiting_ok_def)
qed

interpretation concurrent: refinement "facilitator_step vt keccak" "ledger_step vt keccak" ledger_of awaiting_ok
  by unfold_locales (rule step_ledger step_awaiting; assumption)+

lemma run_is_steps: "facilitator_run vt keccak s0 s \<Longrightarrow> (facilitator_step vt keccak)\<^sup>*\<^sup>* s0 s"
  by (induction rule: facilitator_run.induct) auto

lemma fresh_awaiting: "awaiting_ok (fresh_server f)"
  by (simp add: awaiting_ok_def fresh_server_def)

lemma fresh_ledger: "ledger_of (fresh_server f) = empty_ledger"
  by (simp add: ledger_of_def fresh_server_def empty_ledger_def)

section \<open>Properties\<close>

text \<open>C14: The concurrent facilitator refines the atomic ledger: however requests interleave between their
  check and their recording, what has been recorded is the outcome of atomic transfers, one after the
  other, each of a payment that verifies and of a nonce unused at that moment, with the transaction
  hash of that payment's authorization as its receipt.\<close>

theorem facilitator_refines_ledger:
  assumes "facilitator_run vt keccak (fresh_server f) s"
  shows "(ledger_step vt keccak)\<^sup>*\<^sup>* empty_ledger (ledger_of s)"
  using concurrent.run_refines [OF run_is_steps [OF assms] fresh_awaiting] by (simp add: fresh_ledger)

lemma facilitator_refines_ledger_witness:
  "(ledger_step (\<lambda>_ _ _. Inr True) id)\<^sup>*\<^sup>* empty_ledger (ledger_of sample_race) \<and>
     length (receipts (ledger_of sample_race)) = 1"
proof
  show "(ledger_step (\<lambda>_ _ _. Inr True) id)\<^sup>*\<^sup>* empty_ledger (ledger_of sample_race)"
    by (rule facilitator_refines_ledger [OF sample_race_run])
  show "length (receipts (ledger_of sample_race)) = 1" by code_simp
qed

end
