(* ===== verification/Platform.thy ===== *)
theory Platform
  imports Gateway_Node Merchant_Server Driver
begin

text \<open>
  The services put together: the agent talks to the gateway's server, whose \<open>fetch\<close> is the
  merchant's server, whose \<open>fetch\<close> is the settlement service, a parameter.  HTTP itself carries a
  request to the next server unchanged, adding the \<open>Host\<close> header; the state of the whole is the
  gateway's, with the merchant's world outside it.
\<close>

section \<open>Transport\<close>

definition node_request_of :: "string \<Rightarrow> http_request \<Rightarrow> node_request" where
  "node_request_of host rq =
     \<lparr>nr_method = Some (rq_method rq), nr_url = Some (url_pathname (rq_url rq)),
      nr_headers = (''host'', One host) # map (\<lambda>(n, v). (n, One v)) (rq_headers rq),
      nr_body = \<lparr>chunks = [rq_body rq], broken = None\<rparr>\<rparr>"

definition response_of_reply :: "node_reply \<Rightarrow> http_response" where
  "response_of_reply r =
     \<lparr>rs_status = np_status r, rs_headers = map (\<lambda>(n, v). (to_lower n, v)) (np_headers r), rs_body = np_body r\<rparr>"

definition merchant_http_of :: "http_request \<Rightarrow> merchant_http" where
  "merchant_http_of rq =
     \<lparr>mh_method = Some (rq_method rq), mh_url = Some (url_pathname (rq_url rq)), mh_headers = rq_headers rq,
      mh_body = \<lparr>chunks = [rq_body rq], broken = None\<rparr>\<rparr>"

definition response_of_merchant :: "merchant_reply \<Rightarrow> http_response" where
  "response_of_merchant r =
     \<lparr>rs_status = reply_status r, rs_headers = map (\<lambda>(n, v). (to_lower n, v)) (reply_headers r),
      rs_body = utf8_encode (reply_body r)\<rparr>"

record edge =
  ed_url :: "string \<Rightarrow> string \<Rightarrow> string option"
  ed_host :: string
  ed_port :: string
  ed_env :: gateway_env
  ed_now :: int

definition through_gateway ::
    "ed25519_check \<Rightarrow> (string \<Rightarrow> int option) \<Rightarrow> edge \<Rightarrow> 'w fetch \<Rightarrow> ('w gateway) fetch" where
  "through_gateway ed25519 legacy e fetch = (\<lambda>rq g.
     (case gateway_serve ed25519 legacy fetch (ed_url e) (ed_port e) (ed_env e) (ed_now e) (node_request_of (ed_host e) rq) g of
        (reply, g') \<Rightarrow> (Inr (response_of_reply reply), g')))"

definition through_merchant ::
    "ed25519_check \<Rightarrow> (string \<Rightarrow> int option) \<Rightarrow> (string \<Rightarrow> bytes) \<Rightarrow> 'w merchant \<Rightarrow> int \<Rightarrow> 'w fetch" where
  "through_merchant ed25519 legacy buffer_base64 m now = (\<lambda>rq w.
     (case merchant_serve ed25519 legacy buffer_base64 m (merchant_http_of rq) now w of
        (reply, w') \<Rightarrow> (Inr (response_of_merchant reply), w')))"

section \<open>Headers on the way\<close>

lemma sextet_not_space: "n < 64 \<Longrightarrow> \<not> http_space (sextet_char n)"
  using sextet_char_special(1) [of n] by (auto simp: http_space_def b64_space_def)

lemma btoa_no_space: "c \<in> set (btoa bs) \<Longrightarrow> \<not> http_space c"
proof -
  assume "c \<in> set (btoa bs)"
  then consider s where "s \<in> set (to_sextets (map byte bs))" "c = sextet_char s" | "c = CHR ''=''"
    by (auto simp: btoa_def Let_def padding_def)
  then show ?thesis
  proof cases
    case 1
    moreover have "\<forall>s \<in> set (to_sextets (map byte bs)). s < 64" by (rule to_sextets_bound) auto
    ultimately show ?thesis by (simp add: sextet_not_space)
  qed (simp add: http_space_def)
qed

lemma dropWhile_none: "\<forall>c \<in> set s. \<not> P c \<Longrightarrow> dropWhile P s = s"
  by (cases s) auto

lemma header_value_btoa [simp]: "header_value (btoa bs) = btoa bs"
  using btoa_no_space [of _ bs] by (simp add: header_value_def dropWhile_none)

lemma agent_header: "agent_encodeHeaderJson v = encodeHeaderJson v"
  by (simp add: agent_encodeHeaderJson_def encodeHeaderJson_def)

lemma gateway_header: "gateway_decodeHeaderJson = decodeHeaderJson"
  by (rule ext) (simp add: gateway_decodeHeaderJson_def decodeHeaderJson_def)

lemma header_value_encoded [simp]: "header_value (encodeHeaderJson v) = encodeHeaderJson v"
  by (simp add: encodeHeaderJson_def)

text \<open>The header lists of the agent's requests, as the gateway and the merchant see them.\<close>

lemma lower_header_names:
  "to_lower ''host'' = ''host''" "to_lower ''content-type'' = ''content-type''"
  "to_lower ''payment-signature'' = ''payment-signature''"
  "to_lower ''x-attribution-assertion'' = ''x-attribution-assertion''"
  "to_lower ''content-length'' = ''content-length''"
  by code_simp+

definition agent_headers :: "string \<Rightarrow> (string \<times> string) list \<Rightarrow> headers" where
  "agent_headers host extra =
     (''host'', header_value host) # (''content-type'', ''application/json'') # map (\<lambda>(n, v). (n, header_value v)) extra"

definition paying_headers :: "js \<Rightarrow> js \<Rightarrow> headers" where
  "paying_headers payment assertion =
     [(''payment-signature'', encodeHeaderJson payment), (''x-attribution-assertion'', encodeHeaderJson assertion)]"

lemma json_type_value: "header_value ''application/json'' = ''application/json''"
  by code_simp

lemma node_agent_headers:
  "node_headers ((''host'', One host) # (''content-type'', One ''application/json'') #
     map (\<lambda>(n, v). (n, One v)) (paying_headers payment a)) = agent_headers host (paying_headers payment a)"
  "node_headers [(''host'', One host), (''content-type'', One ''application/json'')] = agent_headers host []"
  by (simp_all add: node_headers_def agent_headers_def paying_headers_def lower_header_names json_type_value)

lemma sorted_names:
  "sort (remdups [''host'', ''content-type'', ''payment-signature'', ''x-attribution-assertion'']) =
     [''content-type'', ''host'', ''payment-signature'', ''x-attribution-assertion'']"
  "sort (remdups [''host'', ''content-type'']) = [''content-type'', ''host'']"
  by code_simp+

lemma forwarded_agent_headers:
  "forwardableHeaders (agent_headers host (paying_headers payment a)) =
     (''content-type'', ''application/json'') # paying_headers payment a"
  "forwardableHeaders (agent_headers host []) = [(''content-type'', ''application/json'')]"
proof -
  have "map fst (agent_headers host (paying_headers payment a)) =
      [''host'', ''content-type'', ''payment-signature'', ''x-attribution-assertion'']"
    "map fst (agent_headers host []) = [''host'', ''content-type'']"
    by (simp_all add: agent_headers_def paying_headers_def)
  then show "forwardableHeaders (agent_headers host (paying_headers payment a)) =
     (''content-type'', ''application/json'') # paying_headers payment a"
    "forwardableHeaders (agent_headers host []) = [(''content-type'', ''application/json'')]"
    by (simp_all only: forwardableHeaders_def header_entries_def sorted_names)
      (simp_all add: agent_headers_def paying_headers_def lower_header_names json_type_value STRIPPED_REQUEST_HEADERS_def)
qed

section \<open>The agent's requests at the gateway\<close>

text \<open>The gateway's base URL leads to its purchase route.\<close>

definition reaches :: "edge \<Rightarrow> agent \<Rightarrow> bool" where
  "reaches e agent \<longleftrightarrow>
     (case ed_url e (''http://'' @ ed_host e) ''/purchase'' of
        None \<Rightarrow> False
      | Some u \<Rightarrow> url_pathname u = ''/purchase'' \<and> url_pathname (ag_gatewayUrl agent @ ''/purchase'') = ''/purchase'')"

text \<open>A body the gateway reads whole.\<close>

definition fits :: "js \<Rightarrow> bool" where
  "fits v \<longleftrightarrow> json_ok v \<and> length (json_body v) \<le> 64 * 1024"

definition at_gateway :: "edge \<Rightarrow> headers \<Rightarrow> js \<Rightarrow> gateway_request" where
  "at_gateway e headers body =
     \<lparr>gr_method = ''POST'', gr_url = the (ed_url e (''http://'' @ ed_host e) ''/purchase''), gr_headers = headers,
      gr_body = Some \<lparr>chunks = [json_body body], broken = None\<rparr>\<rparr>"

lemma at_gateway_headers [simp]: "gr_headers (at_gateway e headers body) = headers"
  by (simp add: at_gateway_def)

lemma json_body_nonempty: "json_ok v \<Longrightarrow> json_body v \<noteq> []"
proof
  assume ok: "json_ok v" and "json_body v = []"
  then have "stringify v = []"
    using plain_text_stringify [OF ok] by (simp add: json_body_def plain_text_def)
  then have "json_parse [] = Inr v" using json_parse_stringify [OF ok] by simp
  moreover have "\<not> is_ok (json_parse [])" by code_simp
  ultimately show False by simp
qed

lemma json_body_replace: "json_ok v \<Longrightarrow> utf8_replace (json_body v) = stringify v"
  using plain_text_stringify [of v] by (simp add: json_body_def plain_text_def)

lemma json_body_encode: "json_ok v \<Longrightarrow> utf8_encode (stringify v) = json_body v"
  by (simp add: json_body_def)

lemma agent_request_arrives:
  assumes "reaches e agent" and "fits body"
  shows "and_then (readBody (node_request_of (ed_host e) (agent_post agent ''/purchase'' extra body)))
       (toRequest (ed_url e) (ed_port e) (node_request_of (ed_host e) (agent_post agent ''/purchase'' extra body))) =
     Inr (at_gateway e (node_headers ((''host'', One (ed_host e)) # (''content-type'', One ''application/json'') #
        map (\<lambda>(n, v). (n, One v)) extra)) body)"
proof -
  obtain u where u: "ed_url e (''http://'' @ ed_host e) ''/purchase'' = Some u"
    "url_pathname (ag_gatewayUrl agent @ ''/purchase'') = ''/purchase''"
    using assms(1) by (auto simp: reaches_def split: option.splits)
  have body: "json_body body \<noteq> []" "length (json_body body) \<le> NODE_MAX_BODY_BYTES"
    using assms(2) json_body_nonempty by (auto simp: fits_def NODE_MAX_BODY_BYTES_def)
  show ?thesis
    using u body
    by (simp add: readBody_def node_request_of_def agent_post_def toRequest_def node_host_def Let_def at_gateway_def
        forbidden_methods_def)
qed

lemma through_gateway_agent:
  assumes "reaches e agent" and "fits body"
  shows "through_gateway ed legacy e fetch (agent_post agent ''/purchase'' extra body) g =
    (case gateway_handle ed legacy fetch (at_gateway e (node_headers ((''host'', One (ed_host e)) #
         (''content-type'', One ''application/json'') # map (\<lambda>(n, v). (n, One v)) extra)) body) (ed_env e) (ed_now e) g of
       (Inr response, g') \<Rightarrow> (Inr (response_of_reply (writeResponse response)), g')
     | (Inl x, g') \<Rightarrow> (Inr (response_of_reply (gateway_error_reply x)), g'))"
  by (simp only: through_gateway_def gateway_serve_def agent_request_arrives [OF assms])
    (auto simp: io_simps split: prod.splits sum.splits)

lemma at_gateway_body:
  assumes "fits body" and "header_get ''content-length'' headers = None"
  shows "readBoundedText (at_gateway e headers body) = Inr (Some (stringify body))"
  using assms json_body_decode [of body]
  by (simp add: readBoundedText_eq at_gateway_def body_bytes_def body_broken_def fits_def GATEWAY_MAX_BODY_BYTES_def
      declared_too_large_def)

lemma paying_headers_get:
  assumes "json_ok payment" and "json_ok a"
  shows "given (header_get PAYMENT_HEADER (agent_headers host (paying_headers payment a))) = Some (encodeHeaderJson payment)"
    "given (header_get ASSERTION_HEADER (agent_headers host (paying_headers payment a))) = Some (encodeHeaderJson a)"
    "header_get ''content-length'' (agent_headers host (paying_headers payment a)) = None"
  using encodeHeaderJson_nonempty [OF assms(1)] encodeHeaderJson_nonempty [OF assms(2)]
  by (simp_all add: given_def header_get_def header_values_def agent_headers_def paying_headers_def lower_header_names
      PAYMENT_HEADER_def ASSERTION_HEADER_def)

lemma at_gateway_pays:
  assumes "reaches e agent" and "json_ok payment" and "json_ok a"
  shows "pays (at_gateway e (agent_headers host (paying_headers payment a)) body)"
proof -
  obtain u where "ed_url e (''http://'' @ ed_host e) ''/purchase'' = Some u" "url_pathname u = ''/purchase''"
    using assms(1) by (auto simp: reaches_def split: option.splits)
  then show ?thesis
    using paying_headers_get(1) [OF assms(2,3)] by (simp add: pays_def at_gateway_def gateway_routes)
qed

text \<open>What the agent posts when it pays.\<close>

definition paying_post :: "agent \<Rightarrow> js \<Rightarrow> js \<Rightarrow> js \<Rightarrow> http_request" where
  "paying_post agent product assertion payment =
     agent_post agent ''/purchase'' (paying_headers payment assertion) (JObj [(''product_id'', product)])"

lemma completePurchase_posts:
  "completePurchase fetch agent product assertion payment =
     bind_io (fetch (paying_post agent product assertion payment)) (\<lambda>response.
       if \<not> response_ok response
       then lift (Inl (Agent_error ''purchase rejected'' (rs_status response) (readErrorBody response)))
       else lift (response_json response))"
  by (simp add: completePurchase_def paying_post_def paying_headers_def agent_header AGENT_PAYMENT_HEADER_def
      AGENT_ASSERTION_HEADER_def)

lemma paying_post_at_gateway:
  assumes "reaches e agent" and "fits (JObj [(''product_id'', product)])" and "json_ok payment" and "json_ok a"
  shows "through_gateway ed legacy e fetch (paying_post agent product a payment) g =
    (case paid_purchase ed legacy fetch (ed_env e) (ed_now e)
         (at_gateway e (agent_headers (ed_host e) (paying_headers payment a)) (JObj [(''product_id'', product)]))
         (stringify (JObj [(''product_id'', product)])) (encodeHeaderJson a) g of
       (Inr response, g') \<Rightarrow> (Inr (response_of_reply (writeResponse response)), g')
     | (Inl x, g') \<Rightarrow> (Inr (response_of_reply (gateway_error_reply x)), g'))"
  by (simp add: paying_post_def through_gateway_agent [OF assms(1,2)] node_agent_headers(1)
      gateway_handle_paid [OF at_gateway_pays [OF assms(1,3,4)]]
      at_gateway_body [OF assms(2) paying_headers_get(3) [OF assms(3,4)]] paying_headers_get [OF assms(3,4)]
      del: stringify.simps)

lemma writeResponse_simps [simp]:
  "rs_status (response_of_reply (writeResponse r)) = rs_status r"
  "rs_body (response_of_reply (writeResponse r)) = rs_body r"
  by (simp_all add: response_of_reply_def writeResponse_def)

section \<open>An attack, end to end\<close>

lemma json_ok_put: "json_ok (JObj kvs) \<Longrightarrow> utf8_wf k \<Longrightarrow> json_ok v \<Longrightarrow> json_ok (JObj (put kvs k v))"
proof (induction kvs k v rule: put.induct)
  case (2 k' v' r k v)
  then show ?case using keys_put [of r k v] by (auto simp: image_iff)
qed simp

lemma json_ok_spread:
  "json_ok (JObj kvs) \<Longrightarrow> list_all (\<lambda>(k, v). utf8_wf k \<and> json_ok v) changes \<Longrightarrow> json_ok (JObj (spread kvs changes))"
proof (induction changes arbitrary: kvs)
  case (Cons c cs)
  obtain k v where "c = (k, v)" by force
  with Cons json_ok_put [of kvs k v] show ?case by (simp del: json_ok.simps)
qed simp

lemma fraud_changes_ok: "list_all (\<lambda>(k, v). utf8_wf k \<and> json_ok v) (fraud_changes now mode)"
proof -
  have "utf8_wf ''publisher_id''" "utf8_wf ''commission_bps''" "utf8_wf ''issued_at''" "utf8_wf ''expires_at''"
    "utf8_wf ''signature''" "utf8_wf ATTACKER_PUBLISHER" "utf8_wf forged_signature" "json_ok (jint INFLATED_COMMISSION_BPS)"
    by code_simp+
  then show ?thesis using hoursAgo_ok by (cases mode) simp_all
qed

lemma applyFraud_ok: "json_ok (JObj kvs) \<Longrightarrow> json_ok (applyFraud (JObj kvs) mode now)"
  using json_ok_spread [OF _ fraud_changes_ok] by (simp only: applyFraud_def own_properties.simps)

definition refusal_body :: js where
  "refusal_body = JObj [(''error'', JStr ''signature does not verify against the public key''),
     (''reason'', JStr ''invalid_signature'')]"

lemma refusal_body_read: "readErrorBody (gateway_json refusal_body 401) = refusal_body"
  by code_simp

lemma refusal_reason: "reasonOf 401 refusal_body = Inr ''invalid_signature''"
  by code_simp

lemma gateway_refuses_forgery:
  assumes "cache_ok g" and "importVerificationKey (ATTRIBUTION_PUBLIC_KEY env) = Inr key" and "json_ok a"
    and "verifyAssertion ed legacy a key now =
      Inl (Assertion_verification_error Invalid_signature ''signature does not verify against the public key'')"
  shows "\<exists>g'. paid_purchase ed legacy fetch env now request body (encodeHeaderJson a) g =
      (Inr (gateway_json refusal_body 401), g') \<and> outside g' = outside g"
proof -
  obtain q g1 where key: "verificationKey env g = (q, g1)" by force
  from verificationKey_result [OF assms(1) key] assms(2)
  have "q = Inr key" "outside g1 = outside g" by simp_all
  then show ?thesis
    using assms(3,4) key
    by (simp add: paid_purchase_def gateway_header header_json.decode_encode io_simps refuse_def refusal_body_def)
qed

lemma refused_purchase:
  assumes "reaches e agent" and "fits (JObj [(''product_id'', product)])" and "json_ok payment" and "json_ok a"
    and "cache_ok g" and "importVerificationKey (ATTRIBUTION_PUBLIC_KEY (ed_env e)) = Inr key"
    and "verifyAssertion ed legacy a key (ed_now e) =
      Inl (Assertion_verification_error Invalid_signature ''signature does not verify against the public key'')"
  shows "\<exists>g'. completePurchase (through_gateway ed legacy e fetch) agent product a payment g =
      (Inl (Agent_error ''purchase rejected'' 401 refusal_body), g') \<and> outside g' = outside g"
proof -
  obtain g' where g': "paid_purchase ed legacy fetch (ed_env e) (ed_now e)
         (at_gateway e (agent_headers (ed_host e) (paying_headers payment a)) (JObj [(''product_id'', product)]))
         (stringify (JObj [(''product_id'', product)])) (encodeHeaderJson a) g =
      (Inr (gateway_json refusal_body 401), g')" "outside g' = outside g"
    using gateway_refuses_forgery [OF assms(5,6,4,7)] by blast
  have "readErrorBody (response_of_reply (writeResponse (gateway_json refusal_body 401))) = refusal_body"
    using refusal_body_read by (simp add: readErrorBody_def)
  then show ?thesis
    using g' by (simp add: completePurchase_posts io_simps paying_post_at_gateway [OF assms(1-4)] response_ok_def
        gateway_json_def del: stringify.simps)
qed

lemma refusal_concluded:
  assumes "at_mode tr = Some mode"
  shows "\<exists>r'. conclude tr (Inl (Agent_error m 401 refusal_body)) r = (r', None) \<and>
     st_blocked (rn_stats r') = st_blocked (rn_stats r) + 1 \<and> st_settled (rn_stats r') = st_settled (rn_stats r) \<and>
     st_byReason (rn_stats r') = add_one ''invalid_signature'' (st_byReason (rn_stats r))"
  using assms
  by (simp add: conclude_def handleFailure_def failure_reason_def refusal_reason event_def record_reason_def count_blocked_def)

section \<open>A purchase, end to end\<close>

text \<open>The gateway's merchant URL leads to the merchant's purchase route.\<close>

definition serves :: "edge \<Rightarrow> bool" where
  "serves e \<longleftrightarrow> url_pathname (MERCHANT_URL (ed_env e) @ ''/purchase'') = ''/purchase''"

definition at_merchant :: "edge \<Rightarrow> headers \<Rightarrow> js \<Rightarrow> http_request" where
  "at_merchant e headers body =
     \<lparr>rq_method = ''POST'', rq_url = MERCHANT_URL (ed_env e) @ ''/purchase'', rq_headers = headers, rq_body = json_body body\<rparr>"

lemma forwarded_at_gateway:
  "fits body \<Longrightarrow> forwarded (at_gateway e headers body) (MERCHANT_URL (ed_env e) @ ROUTE_Purchase) (stringify body) =
     at_merchant e (forwardableHeaders headers) body"
  by (simp add: forwarded_def at_merchant_def at_gateway_def ROUTE_Purchase_def fits_def json_body_def)

lemma merchant_body:
  "fits body \<Longrightarrow> readJsonBody (mh_body (merchant_http_of (at_merchant e headers body))) = Inr body"
  using json_body_replace [of body] json_parse_stringify [of body]
  by (simp add: readJsonBody_def merchant_http_of_def at_merchant_def fits_def merchant_chunks_eq MERCHANT_MAX_BODY_BYTES_def)

lemma through_merchant_purchase:
  assumes "serves e" and "fits body" and "purchase ed legacy m body headers now w = (Inr result, w')"
    and "mr_status result = 402 \<or> mr_status result < 400"
  shows "\<exists>hs. through_merchant ed legacy b64 m now (at_merchant e headers body) w =
     (Inr \<lparr>rs_status = mr_status result, rs_headers = hs, rs_body = json_body (mr_body result)\<rparr>, w')"
proof -
  let ?rq = "merchant_http_of (at_merchant e headers body)"
  have rq: "mh_method ?rq = Some ''POST''" "mh_url ?rq = Some ''/purchase''" "mh_headers ?rq = headers"
    using assms(1) by (simp_all add: merchant_http_of_def at_merchant_def serves_def)
  have "reportRefusal b64 m result headers w' = w'"
    using assms(4) by (auto simp: reportRefusal_def refusal_report_def)
  then show ?thesis
    using assms(3)
    by (simp add: through_merchant_def serve_purchase [OF rq(1,2) merchant_body [OF assms(2)]] rq(3)
        response_of_merchant_def writeJson_def json_body_def)
qed

text \<open>The challenge.\<close>

lemma unpaid_at_gateway:
  assumes "reaches e agent" and "fits body"
  shows "through_gateway ed legacy e fetch (agent_post agent ''/purchase'' [] body) g =
    (case fetch (at_merchant e [(''content-type'', ''application/json'')] body) (outside g) of
       (Inr response, w) \<Rightarrow> (Inr (response_of_reply (writeResponse response)), g\<lparr>outside := w\<rparr>)
     | (Inl x, w) \<Rightarrow> (Inr (response_of_reply (gateway_error_reply x)), g\<lparr>outside := w\<rparr>))"
proof -
  let ?rq = "at_gateway e (agent_headers (ed_host e) []) body"
  obtain u where u: "ed_url e (''http://'' @ ed_host e) ''/purchase'' = Some u" "url_pathname u = ''/purchase''"
    using assms(1) by (auto simp: reaches_def split: option.splits)
  have none: "header_get n (agent_headers (ed_host e) []) = None"
    if "n \<in> {''content-length'', ''payment-signature''}" for n
    using that by (auto simp: header_get_def header_values_def agent_headers_def lower_header_names)
  have "gateway_handle ed legacy fetch ?rq (ed_env e) (ed_now e) g =
      proxy fetch ?rq (MERCHANT_URL (ed_env e) @ ROUTE_Purchase) (stringify body) g"
    using u none at_gateway_body [OF assms(2), of "agent_headers (ed_host e) []" e]
    by (simp add: gateway_handle_def Let_def gateway_routes io_simps given_def PAYMENT_HEADER_def at_gateway_def)
  then show ?thesis
    by (simp add: through_gateway_agent [OF assms] node_agent_headers(2) [simplified] proxy_apply
        forwarded_at_gateway [OF assms(2)] forwarded_agent_headers(2) split: prod.split sum.split)
qed

lemma challenge_run:
  assumes "reaches e agent" and "serves e" and "fits (JObj [(''product_id'', product)])"
    and "listed m (JObj [(''product_id'', product)]) (outside g) l requirements w1" and "json_ok requirements"
  shows "requestChallenge (through_gateway ed legacy e (through_merchant ed legacy b64 m mnow)) agent product g =
     (Inr requirements, g\<lparr>outside := w1\<rparr>)"
proof -
  let ?body = "JObj [(''product_id'', product)]"
  let ?result = "\<lparr>mr_status = 402, mr_body = challenge_for requirements,
      mr_headers = [(X402_PaymentRequired, encodeHeaderJson (challenge_for requirements))]\<rparr>"
  have "purchase ed legacy m ?body [(''content-type'', ''application/json'')] mnow (outside g) = (Inr ?result, w1)"
    by (simp add: purchase_listed [OF assms(4)] header_of_def x402_headers)
  from through_merchant_purchase [OF assms(2,3) this, of b64] obtain hs where
    "through_merchant ed legacy b64 m mnow (at_merchant e [(''content-type'', ''application/json'')] ?body) (outside g) =
      (Inr \<lparr>rs_status = 402, rs_headers = hs, rs_body = json_body (challenge_for requirements)\<rparr>, w1)" by auto
  moreover have "json_ok (challenge_for requirements)"
    using assms(5) by (simp add: challenge_for_def X402_VERSION_def)
  moreover obtain kvs where "requirements = JObj kvs"
    using assms(4) by (auto simp: listed_def requirementsFor_def result_simps)
  moreover have "get (challenge_for requirements) ''accepts'' = Inr (JArr [requirements])" by (simp add: challenge_for_def)
  ultimately show ?thesis
    by (simp add: requestChallenge_def io_simps unpaid_at_gateway [OF assms(1,3)] response_json_def json_body_decode
        json_parse_stringify first_element_def del: stringify.simps)
qed

text \<open>The payment the agent signs passes every check of the merchant.\<close>

lemma requirements_payable:
  assumes "requirementsFor config l = Inr requirements" and "mc_network config = ''base-sepolia''"
    and "60 \<le> n" and "n + 120 < 2 ^ 256" and "priceCents l = num_of_int cents" and "cents * 10000 < 2 ^ 256"
  shows "\<exists>r. requirements = JObj r \<and> payable r (mc_payToAddress config) (cents * 10000) 120 n \<and>
     own r ''asset'' = JStr (mc_assetAddress config) \<and>
     centsToAtomicUnits (priceCents l) = Inr (int_text (cents * 10000)) \<and> 0 \<le> cents"
proof -
  from assms(1) obtain units where u: "centsToAtomicUnits (priceCents l) = Inr units"
    by (auto simp: requirementsFor_def result_simps)
  then obtain k where "k \<ge> 0" "priceCents l = num_of_int k" "units = int_text (k * 10000)"
    unfolding centsToAtomicUnits_Inr by blast
  with assms(5) have "cents \<ge> 0" "units = int_text (cents * 10000)" by simp_all
  with assms u show ?thesis
    by (auto simp: requirementsFor_def payable_def MERCHANT_SCHEME_EXACT_def PAYMENT_TIMEOUT_SECONDS_def)
qed

lemma utf8_wf_hex: "utf8_wf (concat (map hex_byte bytes))"
proof (rule utf8_wf_ascii)
  have "list_all (\<lambda>c. byte c < (128 :: nat)) (hex_byte b)" for b
    using byte_less [of b] by (simp add: digit_char_ascii less_mult_imp_div_less)
  then show "list_all (\<lambda>c. byte c < (128 :: nat)) (concat (map hex_byte bytes))"
    by (induction bytes) (simp_all del: hex_byte.simps)
qed

lemma payment_ok:
  assumes "payable r payTo amount timeout n" and "utf8_wf payTo" and "utf8_wf (ag_address agent)"
    and "utf8_wf sig" and "sig \<noteq> []"
  shows "json_ok (JObj (payment_fields agent (JObj r) n timeout bytes sig))"
    and "payment_shaped (JObj (payment_fields agent (JObj r) n timeout bytes sig))"
proof -
  have names: "utf8_wf ''x402Version''" "utf8_wf ''scheme''" "utf8_wf ''exact''" "utf8_wf ''network''"
    "utf8_wf ''base-sepolia''" "utf8_wf ''authorization''" "utf8_wf ''signature''" "utf8_wf ''from''" "utf8_wf ''to''"
    "utf8_wf ''value''" "utf8_wf ''validAfter''" "utf8_wf ''validBefore''" "utf8_wf ''nonce''" "utf8_wf ''0x''"
    by code_simp+
  have "utf8_wf (randomNonce bytes)" using utf8_wf_append [OF names(14)] utf8_wf_hex by (simp add: randomNonce_def)
  then show "json_ok (JObj (payment_fields agent (JObj r) n timeout bytes sig))"
    using assms names
    by (simp add: payment_fields_def authorization_for_def payable_def get_opt_def utf8_wf_int_text
        VALID_AFTER_BACKDATE_SECONDS_def)
  show "payment_shaped (JObj (payment_fields agent (JObj r) n timeout bytes sig))"
    using assms
    by (simp add: payment_shaped_def payment_fields_def authorization_for_def payable_def get_opt_def AUTHORIZATION_FIELDS_def)
qed

lemma payment_cleared:
  assumes "payable r (mc_payToAddress (m_config m)) amount timeout n" and "utf8_wf (mc_payToAddress (m_config m))"
    and "utf8_wf (ag_address agent)" and "utf8_wf sig" and "sig \<noteq> []"
    and "centsToAtomicUnits (priceCents l) = Inr (int_text amount)" and "json_ok a"
    and "verifyAssertion ed legacy a (m_key m) now = Inr ()" and "get a ''product_id'' = Inr (JStr (productId l))"
  shows "cleared ed legacy m l (encodeHeaderJson a)
     (encodeHeaderJson (JObj (payment_fields agent (JObj r) n timeout bytes sig))) now a
     (JObj (payment_fields agent (JObj r) n timeout bytes sig))"
proof -
  note ok = payment_ok [OF assms(1-5)]
  have "get_opt (get_opt (JObj (payment_fields agent (JObj r) n timeout bytes sig)) ''authorization'') ''value'' =
      JStr (int_text amount)"
    "get_opt (get_opt (JObj (payment_fields agent (JObj r) n timeout bytes sig)) ''authorization'') ''to'' =
      JStr (mc_payToAddress (m_config m))"
    using assms(1) by (simp_all add: payment_fields_def authorization_for_def payable_def get_opt_def)
  then show ?thesis
    using assms(6-9) ok(2) header_json.decode_encode [OF ok(1)] header_json.decode_encode [OF assms(7)]
    unfolding cleared_def by blast
qed

text \<open>The paid request.\<close>

lemma paid_run:
  assumes "reaches e agent" and "serves e" and "fits (JObj [(''product_id'', product)])" and "json_ok a" and "json_ok payment"
    and "cache_ok g" and "importVerificationKey (ATTRIBUTION_PUBLIC_KEY (ed_env e)) = Inr (m_key m)"
    and "verifyAssertion ed legacy a (m_key m) (ed_now e) = Inr ()"
    and "listed m (JObj [(''product_id'', product)]) (outside g) l requirements w1"
    and "cleared ed legacy m l (encodeHeaderJson a) (encodeHeaderJson payment) mnow a payment"
    and "m_fetch m (settlement_post (mc_settlementUrl (m_config m)) ''/settle'' (settlement_request_js
        \<lparr>sq_assertion = a, sq_merchant_id = merchantId l, sq_gross_amount_cents = priceCents l,
         sq_currency = currency l, sq_payment_payload = payment, sq_payment_requirements = requirements\<rparr>)) w1 =
        (Inr http, w2)"
    and "response_ok http" and "response_json http = Inr v" and "fulfillment_for l a v = Inr f" and "json_ok f"
  shows "\<exists>g'. completePurchase (through_gateway ed legacy e (through_merchant ed legacy b64 m mnow)) agent product a payment g =
     (Inr f, g') \<and> outside g' = w2"
proof -
  let ?body = "JObj [(''product_id'', product)]"
  let ?request = "at_gateway e (agent_headers (ed_host e) (paying_headers payment a)) ?body"
  let ?mh = "(''content-type'', ''application/json'') # paying_headers payment a"
  let ?result = "\<lparr>mr_status = 200, mr_body = f, mr_headers = [(X402_PaymentResponse, encodeHeaderJson v)]\<rparr>"
  have forwards: "forwards_paid ed legacy (ed_env e) (ed_now e) (encodeHeaderJson a)"
    using assms(7,8) header_json.decode_encode [OF assms(4)]
    by (auto simp: forwards_paid_def gateway_header verifier.accepts_iff)
  obtain g1 where g1: "outside g1 = outside g"
    "paid_purchase ed legacy (through_merchant ed legacy b64 m mnow) (ed_env e) (ed_now e) ?request (stringify ?body)
       (encodeHeaderJson a) g =
     proxy (through_merchant ed legacy b64 m mnow) ?request (MERCHANT_URL (ed_env e) @ ROUTE_Purchase) (stringify ?body) g1"
    using paid_purchase_forwards [OF assms(6) forwards] by blast
  have headers: "header_of ?mh X402_PaymentSignature = Some (encodeHeaderJson payment)"
    "header_of ?mh X402_AttributionAssertion = Some (encodeHeaderJson a)"
    using encodeHeaderJson_nonempty [OF assms(4)] encodeHeaderJson_nonempty [OF assms(5)]
    by (simp_all add: header_of_Some paying_headers_def x402_headers)
  have "settle_purchase m l a payment requirements w1 = (Inr ?result, w2)"
    using assms(11-14) by (simp add: settle_purchase_def settle_call_def io_simps)
  then have "purchase ed legacy m ?body ?mh mnow (outside g) = (Inr ?result, w2)"
    by (simp only: paid_purchase_run [OF assms(9) headers] paid_request_cleared [OF assms(10)])
  from through_merchant_purchase [OF assms(2,3) this, of b64] obtain hs where
    "through_merchant ed legacy b64 m mnow (at_merchant e ?mh ?body) (outside g) =
      (Inr \<lparr>rs_status = 200, rs_headers = hs, rs_body = json_body f\<rparr>, w2)" by auto
  then have "through_gateway ed legacy e (through_merchant ed legacy b64 m mnow) (paying_post agent product a payment) g =
     (Inr (response_of_reply (writeResponse \<lparr>rs_status = 200, rs_headers = hs, rs_body = json_body f\<rparr>)), g1\<lparr>outside := w2\<rparr>)"
    by (simp add: paying_post_at_gateway [OF assms(1,3,5,4)] g1 proxy_apply forwarded_at_gateway [OF assms(3)]
        forwarded_agent_headers(1) del: stringify.simps)
  then show ?thesis
    using assms(15)
    by (simp add: completePurchase_posts io_simps response_ok_def response_json_def json_body_decode json_parse_stringify)
qed

section \<open>A concrete platform\<close>

definition sample_edge :: edge where
  "sample_edge = \<lparr>ed_url = (\<lambda>base target. Some (base @ target)), ed_host = ''g'', ed_port = ''8080'', ed_env = sample_env,
     ed_now = 0\<rparr>"

definition sample_agent :: agent where
  "sample_agent = new_agent ''http://g'' ''0xA'' (\<lambda>_. Inr ''0xS'')"

text \<open>A check under which only one message carries a valid signature.\<close>

definition forging_check :: ed25519_check where
  "forging_check k s p \<longleftrightarrow> s = replicate 64 (chr 7) \<and> p = utf8_encode sample_canonical"

definition attacking :: attempt where
  "attacking = \<lparr>at_publisher = JStr ''pub_1'', at_query = ''tent'', at_mode = Some Expired_mode\<rparr>"

lemma attacking_mode: "at_mode attacking = Some Expired_mode"
  by (simp add: attacking_def)

definition platform_confirmation :: js where
  "platform_confirmation = JObj [(''settlement_id'', JStr ''s1''), (''tx_hash'', JStr ''0xt''),
     (''network'', JStr ''base-sepolia''), (''publisher_amount_cents'', jint 38)]"

definition platform_answer :: http_response where
  "platform_answer = \<lparr>rs_status = 200, rs_headers = [], rs_body = json_body platform_confirmation\<rparr>"

definition platform_merchant :: "nat merchant" where
  "platform_merchant = sample_merchant\<lparr>m_key := replicate 32 (chr 9), m_fetch := (\<lambda>rq n. (Inr platform_answer, Suc n)),
     m_config := (m_config sample_merchant)\<lparr>mc_assetAddress := DEFAULT_USDC_ASSET\<rparr>\<rparr>"

definition platform_requirement :: js where
  "platform_requirement =
     (case requirementsFor (m_config platform_merchant) sample_listing of Inr r \<Rightarrow> r | Inl _ \<Rightarrow> JNull)"

definition platform_order :: js where
  "platform_order = (case fulfillment_for sample_listing (JObj (signed_sample ''p1'')) platform_confirmation of
     Inr f \<Rightarrow> f | Inl _ \<Rightarrow> JNull)"

lemma sample_reaches: "reaches sample_edge sample_agent"
  by code_simp

lemma platform_listed: "listed platform_merchant (JObj [(''product_id'', JStr ''d1'')]) 0 sample_listing platform_requirement 0"
  unfolding listed_def by code_simp

section \<open>Properties\<close>

text \<open>C7: An attack is blocked end to end: an agent that sends an assertion mutated in any mode through
  the gateway gets a 401 with the reason \<open>invalid_signature\<close>, the merchant and everything behind it is
  never called, and the runner counts the attempt as blocked, never as settled.\<close>

theorem fraud_attempt_blocked:
  assumes "reaches e agent" and "fits (JObj [(''product_id'', product)])" and "json_ok payment" and "json_ok (JObj kvs)"
    and "cache_ok g" and "importVerificationKey (ATTRIBUTION_PUBLIC_KEY (ed_env e)) = Inr key"
    and "signature_bytes (JObj kvs) = Some s" and "canonicalizeForSigning (JObj kvs) = Inr c" and "signable kvs"
    and "\<And>p. ed key s p \<Longrightarrow> p = utf8_encode c" and "\<And>p. \<not> ed key (replicate 64 (chr 0)) p"
    and "attacks kvs mode minted" and "at_mode tr = Some mode"
  shows "\<exists>x g' r'. completePurchase (through_gateway ed legacy e fetch) agent product (applyFraud (JObj kvs) mode minted)
        payment g = (Inl x, g') \<and>
     outside g' = outside g \<and> conclude tr (Inl x) r = (r', None) \<and>
     st_blocked (rn_stats r') = st_blocked (rn_stats r) + 1 \<and> st_settled (rn_stats r') = st_settled (rn_stats r) \<and>
     st_byReason (rn_stats r') = add_one ''invalid_signature'' (st_byReason (rn_stats r))"
proof -
  have refused: "verifyAssertion ed legacy (applyFraud (JObj kvs) mode minted) key (ed_now e) =
      Inl (Assertion_verification_error Invalid_signature ''signature does not verify against the public key'')"
    using assms(7-12) by (rule fraud_refused)
  obtain g' where "completePurchase (through_gateway ed legacy e fetch) agent product (applyFraud (JObj kvs) mode minted)
        payment g = (Inl (Agent_error ''purchase rejected'' 401 refusal_body), g')" "outside g' = outside g"
    using refused_purchase [OF assms(1-3) applyFraud_ok [OF assms(4)] assms(5,6) refused] by blast
  moreover obtain r' where "conclude tr (Inl (Agent_error ''purchase rejected'' 401 refusal_body)) r = (r', None)"
     "st_blocked (rn_stats r') = st_blocked (rn_stats r) + 1" "st_settled (rn_stats r') = st_settled (rn_stats r)"
     "st_byReason (rn_stats r') = add_one ''invalid_signature'' (st_byReason (rn_stats r))"
    using refusal_concluded [OF assms(13)] by blast
  ultimately show ?thesis by (intro exI conjI)
qed

lemma fraud_attempt_blocked_witness:
  "\<exists>x g' r'. completePurchase (through_gateway forging_check (\<lambda>_. None) sample_edge counting_fetch) sample_agent (JStr ''d1'')
        (applyFraud (JObj (signed_sample ''p1'')) Expired_mode 1785416400000) sample_payment idle = (Inl x, g') \<and>
     outside g' = outside idle \<and> conclude attacking (Inl x) (new_runner ''http://g'' []) = (r', None) \<and>
     st_blocked (rn_stats r') = st_blocked (rn_stats (new_runner ''http://g'' [])) + 1 \<and>
     st_settled (rn_stats r') = st_settled (rn_stats (new_runner ''http://g'' [])) \<and>
     st_byReason (rn_stats r') = add_one ''invalid_signature'' (st_byReason (rn_stats (new_runner ''http://g'' [])))"
proof (rule fraud_attempt_blocked)
  show "fits (JObj [(''product_id'', JStr ''d1'')])" by code_simp
  show "importVerificationKey (ATTRIBUTION_PUBLIC_KEY (ed_env sample_edge)) = Inr (replicate 32 (chr 9))"
    using sample_key by (simp add: sample_edge_def)
  show "signature_bytes (JObj (signed_sample ''p1'')) = Some (replicate 64 (chr 7))" by code_simp
  show "canonicalizeForSigning (JObj (signed_sample ''p1'')) = Inr sample_canonical"
    by (simp add: sample_canonical_def canonicalize_Obj)
  show "signable (signed_sample ''p1'')" by (simp add: signed_sample_signable sample_fields_signable)
  show "attacks (signed_sample ''p1'') Expired_mode 1785416400000" by code_simp
  show "p = utf8_encode sample_canonical" if "forging_check (replicate 32 (chr 9)) (replicate 64 (chr 7)) p" for p
    using that by (simp add: forging_check_def)
  show "\<not> forging_check (replicate 32 (chr 9)) (replicate 64 (chr 0)) p" for p by (simp add: forging_check_def)
qed (simp_all only: sample_reaches sample_ok idle_ok attacking_mode)

text \<open>An honest purchase settles end to end: an agent that takes the challenge, signs it and pays
  through the gateway gets the order the settlement service confirmed, provided that service settles
  every payment passing the facilitator's check; the payment it is handed is then one that passes.\<close>

theorem honest_purchase_settles:
  assumes "reaches e agent" and "serves e" and "fits (JObj [(''product_id'', product)])"
    and "cache_ok g" and "importVerificationKey (ATTRIBUTION_PUBLIC_KEY (ed_env e)) = Inr (m_key m)"
    and "listed m (JObj [(''product_id'', product)]) (outside g) l requirements w1"
    and "listed m (JObj [(''product_id'', product)]) w1 l requirements w2" and "json_ok requirements"
    and "json_ok a" and "get a ''product_id'' = Inr (JStr (productId l))"
    and "verifyAssertion ed legacy a (m_key m) (ed_now e) = Inr ()" and "verifyAssertion ed legacy a (m_key m) mnow = Inr ()"
    and "mc_network (m_config m) = ''base-sepolia''"
    and "to_lower (mc_assetAddress (m_config m)) = to_lower (usdcAddress BASE_SEPOLIA)"
    and "utf8_wf (mc_payToAddress (m_config m))" and "utf8_wf (ag_address agent)"
    and "agent_seconds now = Inr n" and "60 \<le> n" and "n + 120 < 2 ^ 256"
    and "priceCents l = num_of_int cents" and "cents * 10000 < 2 ^ 256"
    and "\<And>d. \<exists>s. ag_sign agent d = Inr s \<and> s \<noteq> [] \<and> utf8_wf s \<and> vt (JStr (ag_address agent)) d (JStr s) = Inr True"
    and "\<And>payment. verifyPayment vt payment requirements n = Inr (Valid (JStr (ag_address agent))) \<Longrightarrow>
       m_fetch m (settlement_post (mc_settlementUrl (m_config m)) ''/settle'' (settlement_request_js
         \<lparr>sq_assertion = a, sq_merchant_id = merchantId l, sq_gross_amount_cents = priceCents l,
          sq_currency = currency l, sq_payment_payload = payment, sq_payment_requirements = requirements\<rparr>)) w2 =
         (Inr http, w3)"
    and "response_ok http" and "response_json http = Inr v" and "fulfillment_for l a v = Inr f" and "json_ok f"
  shows "\<exists>g'. bind_io (requestChallenge (through_gateway ed legacy e (through_merchant ed legacy b64 m mnow)) agent product)
       (\<lambda>requirements. bind_io (lift (signAuthorization agent requirements now bytes))
       (\<lambda>payment. completePurchase (through_gateway ed legacy e (through_merchant ed legacy b64 m mnow)) agent product a payment)) g =
     (Inr f, g') \<and> outside g' = w3"
proof -
  let ?F = "through_gateway ed legacy e (through_merchant ed legacy b64 m mnow)"
  let ?g1 = "g\<lparr>outside := w1\<rparr>"
  have req: "requirementsFor (m_config m) l = Inr requirements" using assms(6) by (simp add: listed_def)
  from requirements_payable [OF req assms(13,18,19,20,21)] obtain r where r: "requirements = JObj r"
    "payable r (mc_payToAddress (m_config m)) (cents * 10000) 120 n" "own r ''asset'' = JStr (mc_assetAddress (m_config m))"
    "centsToAtomicUnits (priceCents l) = Inr (int_text (cents * 10000))" by blast
  let ?td = "typed_payment agent (JStr (mc_payToAddress (m_config m))) (cents * 10000) n 120 bytes"
  from assms(22) [of ?td] obtain s where s: "ag_sign agent ?td = Inr s" "s \<noteq> []" "utf8_wf s"
    "vt (JStr (ag_address agent)) ?td (JStr s) = Inr True" by blast
  let ?payment = "JObj (payment_fields agent (JObj r) n 120 bytes s)"
  have sign: "signAuthorization agent (JObj r) now bytes = Inr ?payment" by (rule signed_payment [OF r(2) assms(17) s(1)])
  have "verifyPayment vt ?payment requirements n = Inr (Valid (JStr (ag_address agent)))"
    unfolding r(1) by (rule signed_payment_verifies [where vt = vt, OF r(2,3) assms(14) _ _ s(4)]) simp_all
  note settles = assms(23) [OF this]
  have "cache_ok ?g1" using assms(4) by (simp add: cache_ok_def)
  moreover have "listed m (JObj [(''product_id'', product)]) (outside ?g1) l requirements w2" using assms(7) by simp
  ultimately have "\<exists>g'. completePurchase ?F agent product a ?payment ?g1 = (Inr f, g') \<and> outside g' = w3"
    using paid_run [OF assms(1,2,3,9) payment_ok(1) [OF r(2) assms(15,16) s(3,2)] _ assms(5,11) _
        payment_cleared [OF r(2) assms(15,16) s(3,2) r(4) assms(9,12,10)] settles assms(24-27)]
    by blast
  then show ?thesis
    using challenge_run [OF assms(1,2,3,6,8), of ed legacy b64 mnow] sign r(1) by (auto simp: io_simps)
qed

lemma honest_purchase_settles_witness:
  "\<exists>g'. bind_io (requestChallenge (through_gateway (\<lambda>k s p. True) (\<lambda>_. None) sample_edge
          (through_merchant (\<lambda>k s p. True) (\<lambda>_. None) id platform_merchant 0)) sample_agent (JStr ''d1''))
       (\<lambda>requirements. bind_io (lift (signAuthorization sample_agent requirements (Fin 1000000) (replicate 32 (chr 1))))
       (\<lambda>payment. completePurchase (through_gateway (\<lambda>k s p. True) (\<lambda>_. None) sample_edge
          (through_merchant (\<lambda>k s p. True) (\<lambda>_. None) id platform_merchant 0)) sample_agent (JStr ''d1'')
          (JObj (signed_sample ''p1'')) payment)) idle =
     (Inr platform_order, g') \<and> outside g' = 1"
proof (rule honest_purchase_settles [where vt = "\<lambda>_ _ _. Inr True" and l = sample_listing and requirements = platform_requirement
      and n = 1000 and cents = 1100 and ?w1.0 = 0 and ?w2.0 = 0
      and v = platform_confirmation and http = platform_answer])
  show "fits (JObj [(''product_id'', JStr ''d1'')])" by code_simp
  show "importVerificationKey (ATTRIBUTION_PUBLIC_KEY (ed_env sample_edge)) = Inr (m_key platform_merchant)"
    using sample_key by (simp add: sample_edge_def platform_merchant_def)
  show "listed platform_merchant (JObj [(''product_id'', JStr ''d1'')]) (outside idle) sample_listing platform_requirement 0"
    using platform_listed by (simp add: idle_def)
  show "serves sample_edge" by code_simp
  show "json_ok platform_requirement" by code_simp
  show "get (JObj (signed_sample ''p1'')) ''product_id'' = Inr (JStr (productId sample_listing))" by code_simp
  show "verifyAssertion (\<lambda>k s p. True) (\<lambda>_. None) (JObj (signed_sample ''p1'')) (m_key platform_merchant) (ed_now sample_edge) = Inr ()"
    by code_simp
  show "verifyAssertion (\<lambda>k s p. True) (\<lambda>_. None) (JObj (signed_sample ''p1'')) (m_key platform_merchant) 0 = Inr ()"
    by code_simp
  show "mc_network (m_config platform_merchant) = ''base-sepolia''" by code_simp
  show "to_lower (mc_assetAddress (m_config platform_merchant)) = to_lower (usdcAddress BASE_SEPOLIA)" by code_simp
  show "utf8_wf (mc_payToAddress (m_config platform_merchant))" by code_simp
  show "utf8_wf (ag_address sample_agent)" by code_simp
  show "agent_seconds (Fin 1000000) = Inr 1000" by code_simp
  show "priceCents sample_listing = num_of_int 1100" by code_simp
  show "\<exists>s. ag_sign sample_agent d = Inr s \<and> s \<noteq> [] \<and> utf8_wf s \<and> (Inr True :: bool result) = Inr True" for d
    by (rule exI [of _ "''0xS''"]) (simp add: sample_agent_def new_agent_def)
  show "response_json platform_answer = Inr platform_confirmation"
    unfolding platform_answer_def by (rule response_json_body) code_simp
  show "fulfillment_for sample_listing (JObj (signed_sample ''p1'')) platform_confirmation = Inr platform_order" by code_simp
  show "json_ok platform_order" by code_simp
  show "listed platform_merchant (JObj [(''product_id'', JStr ''d1'')]) 0 sample_listing platform_requirement 0"
    by (rule platform_listed)
  show "reaches sample_edge sample_agent" by (rule sample_reaches)
  show "json_ok (JObj (signed_sample ''p1''))" by (rule sample_ok)
  show "cache_ok idle" by (rule idle_ok)
qed (simp_all add: response_ok_def platform_answer_def platform_merchant_def sample_merchant_def)

end
