(* ===== verification/Commission.thy ===== *)
theory Commission
  imports Assertion
begin

text \<open>
  The commission split of the settlement service, \<open>CalculateCommission\<close> of
  \<open>internal/attribution/assertion.go\<close>, on 64-bit machine integers: products wrap around and division
  truncates towards zero.  It is the reference the floating-point \<open>calculateCommission\<close> of the
  TypeScript package has to agree with, since one quotes what the other pays.
\<close>

type_synonym int64 = "64 word"

record CommissionSplit =
  CommissionAmountCents :: int64
  PlatformFeeCents :: int64
  PublisherAmountCents :: int64

definition quotient64 :: "int64 \<Rightarrow> int64 \<Rightarrow> int64" where
  "quotient64 x y = word_of_int (sint x sdiv sint y)"

definition CalculateCommission :: "int64 \<Rightarrow> int64 \<Rightarrow> CommissionSplit" where
  "CalculateCommission grossAmountCents commissionBps =
     (let commission = quotient64 (grossAmountCents * commissionBps) 10000;
          platformFee = quotient64 (commission * 3000) 10000
      in \<lparr>CommissionAmountCents = commission, PlatformFeeCents = platformFee,
          PublisherAmountCents = commission - platformFee\<rparr>)"

section \<open>Lemmas\<close>

lemma sint_in_range: "- (2 ^ 63) \<le> n \<Longrightarrow> n < 2 ^ 63 \<Longrightarrow> sint (word_of_int n :: int64) = n"
  by (simp add: sint_sbintrunc' signed_take_bit_int_eq_self)

lemma quotient64_exact:
  assumes "0 \<le> n" and "n < 2 ^ 63"
  shows "quotient64 (word_of_int n) 10000 = word_of_int (n div 10000)"
proof -
  have "sint (word_of_int n :: int64) = n" using assms by (intro sint_in_range) simp_all
  moreover have "sint (10000 :: int64) = 10000" by simp
  moreover have "n sdiv 10000 = n div 10000"
    using assms(1) by (cases "n = 0") (simp_all add: signed_divide_int_def)
  ultimately show ?thesis by (simp only: quotient64_def)
qed

lemma CalculateCommission_exact:
  assumes "0 \<le> gross * bps" and "gross * bps < 2 ^ 63"
  shows "CalculateCommission (word_of_int gross) (word_of_int bps) =
    (let c = gross * bps div 10000; f = c * 3000 div 10000
     in \<lparr>CommissionAmountCents = word_of_int c, PlatformFeeCents = word_of_int f, PublisherAmountCents = word_of_int (c - f)\<rparr>)"
proof -
  let ?c = "gross * bps div 10000"
  have c: "0 \<le> ?c" "?c * 3000 < 2 ^ 63" using assms by simp_all
  have 1: "quotient64 (word_of_int gross * word_of_int bps) 10000 = word_of_int ?c"
    using quotient64_exact [OF assms] by (simp only: wi_hom_mult)
  have "word_of_int ?c * (3000 :: int64) = word_of_int (?c * 3000)"
    by (metis wi_hom_mult word_of_int_numeral)
  then have 2: "quotient64 (word_of_int ?c * 3000) 10000 = word_of_int (?c * 3000 div 10000)"
    using quotient64_exact [of "?c * 3000"] c by simp
  show ?thesis by (simp only: CalculateCommission_def Let_def 1 2 wi_hom_sub)
qed

section \<open>Properties\<close>

text \<open>C25: What the TypeScript package computes in floating point is what the settlement service pays in
  64-bit integers: while the amount times the rate is below \<open>2^53\<close> the three shares are equal, cent for
  cent, and are the truncated quotients, the publisher's and the platform's adding up to the commission.\<close>

theorem commission_agrees_with_go:
  assumes "0 \<le> gross" and "0 \<le> bps" and "gross * bps < 2 ^ 53"
    and "CalculateCommission (word_of_int gross) (word_of_int bps) = split"
  shows "calculateCommission (num_of_int gross) (num_of_int bps) =
      \<lparr>commission_amount_cents = num_of_int (sint (CommissionAmountCents split)),
       platform_fee_cents = num_of_int (sint (PlatformFeeCents split)),
       publisher_amount_cents = num_of_int (sint (PublisherAmountCents split))\<rparr> \<and>
    sint (CommissionAmountCents split) = gross * bps div 10000 \<and>
    sint (PlatformFeeCents split) = gross * bps div 10000 * 3000 div 10000 \<and>
    sint (PublisherAmountCents split) + sint (PlatformFeeCents split) = sint (CommissionAmountCents split)"
proof -
  define c f where "c = gross * bps div 10000" and "f = c * 3000 div 10000"
  have product: "0 \<le> gross * bps" using assms(1,2) by simp
  have c: "0 \<le> c" "c < 2 ^ 53" using product assms(3) by (simp_all add: c_def)
  have f: "0 \<le> f" "f \<le> c" using c(1) by (simp_all add: f_def)
  have split: "split = \<lparr>CommissionAmountCents = word_of_int c, PlatformFeeCents = word_of_int f,
      PublisherAmountCents = word_of_int (c - f)\<rparr>"
    using CalculateCommission_exact [OF product] assms(3,4) by (simp add: Let_def c_def f_def)
  have "sint (word_of_int c :: int64) = c" "sint (word_of_int f :: int64) = f" "sint (word_of_int (c - f) :: int64) = c - f"
    using c f sint_in_range [of c] sint_in_range [of f] sint_in_range [of "c - f"] by simp_all
  then have fields: "sint (CommissionAmountCents split) = c" "sint (PlatformFeeCents split) = f"
    "sint (PublisherAmountCents split) = c - f"
    by (simp_all only: split CommissionSplit.simps)
  show ?thesis
    using calculateCommission_int [OF assms(1-3)] unfolding fields Let_def c_def [symmetric] f_def [symmetric] by simp
qed

lemma commission_agrees_with_go_witness:
  "calculateCommission (num_of_int 12999) (num_of_int 750) =
      \<lparr>commission_amount_cents = num_of_int (sint (CommissionAmountCents (CalculateCommission 12999 750))),
       platform_fee_cents = num_of_int (sint (PlatformFeeCents (CalculateCommission 12999 750))),
       publisher_amount_cents = num_of_int (sint (PublisherAmountCents (CalculateCommission 12999 750)))\<rparr> \<and>
    sint (CommissionAmountCents (CalculateCommission 12999 750)) = 12999 * 750 div 10000 \<and>
    sint (PlatformFeeCents (CalculateCommission 12999 750)) = 12999 * 750 div 10000 * 3000 div 10000 \<and>
    sint (PublisherAmountCents (CalculateCommission 12999 750)) + sint (PlatformFeeCents (CalculateCommission 12999 750)) =
      sint (CommissionAmountCents (CalculateCommission 12999 750))"
  by (rule commission_agrees_with_go) simp_all

end
