(* ===== verification/Go_Time.thy ===== *)
theory Go_Time
  imports Js_Date
begin

text \<open>
  Go's \<open>time\<close> as \<open>internal/attribution/assertion.go\<close> uses it: instants in nanoseconds since 1970,
  \<open>Format(time.RFC3339)\<close> in UTC and \<open>time.Parse(time.RFC3339, s)\<close>.  The lemmas show that the civil
  calendar's two conversions are inverse, so that a printed timestamp reads back in Go and in
  JavaScript as the second it was printed from.
\<close>

section \<open>The calendar's conversions are inverse\<close>

definition era_year :: "int \<Rightarrow> int" where
  "era_year doe = (doe - doe div 1460 + doe div 36524 - doe div 146096) div 365"

definition year_start :: "int \<Rightarrow> int" where
  "year_start yoe = 365 * yoe + yoe div 4 - yoe div 100"

definition leap_year :: "int \<Rightarrow> bool" where
  "leap_year y \<longleftrightarrow> 4 dvd y \<and> (\<not> 100 dvd y \<or> 400 dvd y)"

definition days_in :: "int \<Rightarrow> int \<Rightarrow> int" where
  "days_in m y =
     (if m = 2 then (if leap_year y then 29 else 28) else if m \<in> {4, 6, 9, 11} then 30 else 31)"

text \<open>A day of an era is \<open>a\<close> whole centuries, \<open>b\<close> cycles of four years, \<open>r\<close> years and \<open>k\<close> days into it.\<close>

lemma era_split:
  fixes doe :: int
  assumes "0 \<le> doe" and "doe < 146097"
  obtains a b r k where "doe = 36524 * a + 1461 * b + 365 * r + k" "0 \<le> a" "a \<le> 3" "0 \<le> b" "b \<le> 24" "0 \<le> r" "r \<le> 3"
    "0 \<le> k" "k \<le> 365" "k = 365 \<Longrightarrow> r = 3 \<and> (b < 24 \<or> a = 3)"
proof -
  define a x where "a = min 3 (doe div 36524)" and "x = doe - 36524 * a"
  have quot: "36524 * (doe div 36524) \<le> doe" "doe < 36524 * (doe div 36524) + 36524" by auto
  have a: "0 \<le> a" "a \<le> 3" "0 \<le> x" "x \<le> 36524" "x = 36524 \<Longrightarrow> a = 3"
    using assms quot by (auto simp: a_def x_def min_def split: if_splits)
  define b z where "b = x div 1461" and "z = x mod 1461"
  have x: "x = 1461 * b + z" "0 \<le> z" "z \<le> 1460" by (auto simp: b_def z_def)
  have b: "0 \<le> b" "b \<le> 24" using x a by linarith+
  define r k where "r = min 3 (z div 365)" and "k = z - 365 * r"
  have quot: "365 * (z div 365) \<le> z" "z < 365 * (z div 365) + 365" by auto
  have r: "0 \<le> r" "r \<le> 3" "0 \<le> k" "k \<le> 365" "k = 365 \<Longrightarrow> r = 3 \<and> z = 1460"
    using x quot by (auto simp: r_def k_def min_def split: if_splits)
  have "b < 24 \<or> a = 3" if "k = 365"
  proof (rule ccontr)
    assume "\<not> (b < 24 \<or> a = 3)"
    then have "x = 36524" "a \<noteq> 3" using x r(5) [OF that] b by auto
    then show False using a by simp
  qed
  then have long: "r = 3 \<and> (b < 24 \<or> a = 3)" if "k = 365" using r(5) that by blast
  have "doe = 36524 * a + x" "z = 365 * r + k" by (simp_all add: x_def k_def)
  then have "doe = 36524 * a + 1461 * b + 365 * r + k" using x(1) by linarith
  from that [OF this a(1,2) b r(1-4) long] show thesis .
qed

lemma era_year_of:
  assumes "doe = 36524 * a + 1461 * b + 365 * r + k" "0 \<le> a" "a \<le> 3" "0 \<le> b" "b \<le> 24" "0 \<le> r" "r \<le> 3"
    "0 \<le> k" "k \<le> 365" "k = 365 \<Longrightarrow> r = 3 \<and> (b < 24 \<or> a = 3)"
  shows "era_year doe = 100 * a + 4 * b + r \<and> year_start (era_year doe) = doe - k"
proof -
  define e c where "e = 24 * a + b + 365 * r + k" and "c = (if 1460 \<le> e then 1 else (0 :: int))"
  have e: "doe = 1460 * (25 * a + b + c) + (e - 1460 * c)" "0 \<le> e - 1460 * c" "e - 1460 * c < 1460"
    using assms(1-9) by (auto simp: e_def c_def)
  have 1: "doe div 1460 = 25 * a + b + c" using e by (intro int_div_pos_eq)
  have last: "doe = 146096 \<longleftrightarrow> a = 3 \<and> b = 24 \<and> r = 3 \<and> k = 365" using assms(1-9) by auto
  have 2: "doe div 36524 - doe div 146096 = a"
  proof (cases "doe = 146096")
    case False
    then have "1461 * b + 365 * r + k < 36524" "doe < 146096" using assms last by (auto; linarith)+
    then have "doe div 36524 = a" "doe div 146096 = 0"
      using assms(1-8) by (auto intro: int_div_pos_eq [of _ _ _ "1461 * b + 365 * r + k"])
    then show ?thesis by simp
  qed (use last in simp)
  have k: "0 \<le> k - c" "k - c < 365"
    using assms(2-10) by (auto simp: c_def e_def split: if_splits) (cases "k = 365"; simp)+
  have "doe - doe div 1460 + doe div 36524 - doe div 146096 = 365 * (100 * a + 4 * b + r) + (k - c)"
  proof -
    have "doe - doe div 1460 + doe div 36524 - doe div 146096 = doe - doe div 1460 + (doe div 36524 - doe div 146096)" by simp
    also have "\<dots> = doe - (25 * a + b + c) + a" by (simp only: 1 2)
    finally show ?thesis using assms(1) by simp
  qed
  then have y: "era_year doe = 100 * a + 4 * b + r" unfolding era_year_def using k by (intro int_div_pos_eq)
  have "(100 * a + 4 * b + r) div 4 = 25 * a + b" using assms(6,7) by (intro int_div_pos_eq [of _ _ _ r]) simp_all
  moreover have "(100 * a + 4 * b + r) div 100 = a" using assms(4-7) by (intro int_div_pos_eq [of _ _ _ "4 * b + r"]) simp_all
  ultimately show ?thesis unfolding y year_start_def using assms(1) by simp
qed

text \<open>The twelve months of a year that begins in March.\<close>

lemma month_of_day:
  fixes doy mp d m :: int
  assumes "0 \<le> doy" and "doy \<le> 365" and "mp = (5 * doy + 2) div 153" and "d = doy - (153 * mp + 2) div 5 + 1"
    and "m = (if mp < 10 then mp + 3 else mp - 9)"
  shows "1 \<le> m \<and> m \<le> 12 \<and> (m + 9) mod 12 = mp \<and> 1 \<le> d \<and>
    d \<le> (if m = 2 then (if doy = 365 then 29 else 28) else if m \<in> {4, 6, 9, 11} then 30 else 31)"
proof -
  have low: "153 * mp \<le> 5 * doy + 2" and high: "5 * doy + 2 < 153 * mp + 153" using assms(3) by auto
  then have "0 \<le> mp" "mp \<le> 11" using assms(1,2) by auto
  then have "mp = 0 \<or> mp = 1 \<or> mp = 2 \<or> mp = 3 \<or> mp = 4 \<or> mp = 5 \<or> mp = 6 \<or> mp = 7 \<or> mp = 8 \<or> mp = 9 \<or>
    mp = 10 \<or> mp = 11" by presburger
  then show ?thesis using low high assms(1,2,4,5) by (elim disjE) auto
qed

lemma civil_parts:
  fixes z :: int
  assumes "civil_from_days z = (y, m, d)"
  obtains era a b r k where "z + 719468 = 146097 * era + (36524 * a + 1461 * b + 365 * r + k)"
    "0 \<le> a" "a \<le> 3" "0 \<le> b" "b \<le> 24" "0 \<le> r" "r \<le> 3" "0 \<le> k" "k \<le> 365" "k = 365 \<Longrightarrow> r = 3 \<and> (b < 24 \<or> a = 3)"
    "year_start (100 * a + 4 * b + r) = 36524 * a + 1461 * b + 365 * r"
    "y = 100 * a + 4 * b + r + era * 400 + (if m \<le> 2 then 1 else 0)" "d = k - (153 * ((5 * k + 2) div 153) + 2) div 5 + 1"
    "m = (if (5 * k + 2) div 153 < 10 then (5 * k + 2) div 153 + 3 else (5 * k + 2) div 153 - 9)"
proof -
  define era doe where "era = (z + 719468) div 146097" and "doe = (z + 719468) mod 146097"
  have doe: "z + 719468 - era * 146097 = doe" "0 \<le> doe" "doe < 146097"
    by (simp_all add: era_def doe_def minus_div_mult_eq_mod)
  from era_split [OF doe(2,3)] obtain a b r k where split: "doe = 36524 * a + 1461 * b + 365 * r + k" "0 \<le> a" "a \<le> 3" "0 \<le> b"
    "b \<le> 24" "0 \<le> r" "r \<le> 3" "0 \<le> k" "k \<le> 365" "k = 365 \<Longrightarrow> r = 3 \<and> (b < 24 \<or> a = 3)" by blast
  define yoe mp where "yoe = era_year doe" and "mp = (5 * k + 2) div 153"
  have yoe: "yoe = 100 * a + 4 * b + r" "year_start yoe = doe - k"
    using era_year_of [OF split] unfolding yoe_def by blast+
  have doy: "doe - (365 * yoe + yoe div 4 - yoe div 100) = k" using yoe(2) unfolding year_start_def by linarith
  have "civil_from_days z = (yoe + era * 400 + (if (if mp < 10 then mp + 3 else mp - 9) \<le> 2 then 1 else 0),
      (if mp < 10 then mp + 3 else mp - 9), k - (153 * mp + 2) div 5 + 1)"
    unfolding civil_from_days_def Let_def era_def [symmetric] doe(1) era_year_def [symmetric] yoe_def [symmetric] doy
      mp_def [symmetric] by (rule refl)
  then have "y = yoe + era * 400 + (if m \<le> 2 then 1 else 0)" "d = k - (153 * mp + 2) div 5 + 1"
    "m = (if mp < 10 then mp + 3 else mp - 9)"
    using assms by simp_all
  moreover have "z + 719468 = 146097 * era + (36524 * a + 1461 * b + 365 * r + k)" using doe(1) split(1) by linarith
  moreover have "year_start (100 * a + 4 * b + r) = 36524 * a + 1461 * b + 365 * r" using yoe split(1) by simp
  ultimately show thesis using that [OF _ split(2-10)] unfolding mp_def yoe(1) by blast
qed

lemma civil_inverse:
  assumes "civil_from_days z = (y, m, d)"
  shows "days_from_civil y m d = z" and "1 \<le> m" and "m \<le> 12" and "1 \<le> d" and "d \<le> days_in m y"
proof -
  from civil_parts [OF assms] obtain era a b r k where parts: "z + 719468 = 146097 * era + (36524 * a + 1461 * b + 365 * r + k)"
    "0 \<le> a" "a \<le> 3" "0 \<le> b" "b \<le> 24" "0 \<le> r" "r \<le> 3" "0 \<le> k" "k \<le> 365" "k = 365 \<Longrightarrow> r = 3 \<and> (b < 24 \<or> a = 3)"
    "year_start (100 * a + 4 * b + r) = 36524 * a + 1461 * b + 365 * r"
    and y: "y = 100 * a + 4 * b + r + era * 400 + (if m \<le> 2 then 1 else 0)"
    and d: "d = k - (153 * ((5 * k + 2) div 153) + 2) div 5 + 1"
    and m: "m = (if (5 * k + 2) div 153 < 10 then (5 * k + 2) div 153 + 3 else (5 * k + 2) div 153 - 9)" by blast
  define mp where "mp = (5 * k + 2) div 153"
  note mp = mp_def and d = d [folded mp_def] and m = m [folded mp_def]
  note month = month_of_day [OF parts(8,9) mp d m]
  then show "1 \<le> m" "m \<le> 12" "1 \<le> d" by blast+
  define yoe where "yoe = 100 * a + 4 * b + r"
  have "0 \<le> yoe" "yoe < 400" using parts(2-7) by (simp_all add: yoe_def)
  then have era: "(yoe + era * 400) div 400 = era" by (intro int_div_pos_eq [of _ _ _ yoe]) simp_all
  have "(if m \<le> 2 then y - 1 else y) = yoe + era * 400" using y by (simp add: yoe_def)
  then have "days_from_civil y m d = era * 146097 + (year_start yoe + ((153 * mp + 2) div 5 + d - 1)) - 719468"
    using month unfolding days_from_civil_def Let_def by (simp add: era year_start_def)
  then show "days_from_civil y m d = z" using d parts(1,11) unfolding yoe_def by linarith
  have "leap_year y" if "k = 365" "m = 2"
  proof -
    have cycle: "y = 100 * (a + 4 * era) + 4 * (b + 1)" using parts(10) [OF that(1)] y that(2) by simp
    then have "y = 4 * (25 * (a + 4 * era) + (b + 1))" by simp
    then have "4 dvd y" by (rule dvdI)
    moreover have "400 dvd y" if "100 dvd y"
    proof -
      have "100 dvd 100 * (a + 4 * era)" by simp
      with that have "100 dvd 4 * (b + 1)" unfolding cycle by (simp only: dvd_add_right_iff)
      then have "b = 24" using parts(4,5) by presburger
      then have "y = 400 * (era + 1)" using parts(10) [OF \<open>k = 365\<close>] cycle by simp
      then show ?thesis by (rule dvdI)
    qed
    ultimately show ?thesis by (auto simp: leap_year_def)
  qed
  then show "d \<le> days_in m y" using month by (auto simp: days_in_def split: if_splits)
qed

text \<open>Years of four digits.\<close>

lemma civil_year_range:
  assumes "civil_from_days z = (y, m, d)" and "0 \<le> z" and "z < 2932897"
  shows "0 \<le> y \<and> y \<le> 9999"
proof -
  from civil_parts [OF assms(1)] obtain era a b r k where parts: "z + 719468 = 146097 * era + (36524 * a + 1461 * b + 365 * r + k)"
    "0 \<le> a" "a \<le> 3" "0 \<le> b" "b \<le> 24" "0 \<le> r" "r \<le> 3" "0 \<le> k" "k \<le> 365" "k = 365 \<Longrightarrow> r = 3 \<and> (b < 24 \<or> a = 3)"
    "year_start (100 * a + 4 * b + r) = 36524 * a + 1461 * b + 365 * r"
    and y: "y = 100 * a + 4 * b + r + era * 400 + (if m \<le> 2 then 1 else 0)"
    and d: "d = k - (153 * ((5 * k + 2) div 153) + 2) div 5 + 1"
    and m: "m = (if (5 * k + 2) div 153 < 10 then (5 * k + 2) div 153 + 3 else (5 * k + 2) div 153 - 9)" by blast
  define mp where "mp = (5 * k + 2) div 153"
  note mp = mp_def and d = d [folded mp_def] and m = m [folded mp_def]
  have era: "0 \<le> era" "era \<le> 24" using parts assms(2,3) by linarith+
  show ?thesis
  proof (cases "y \<le> 9999")
    case False
    then have "era = 24" "a = 3" "b = 24" "r = 3" "m \<le> 2" using y era parts(2-7) by (auto split: if_splits)
    then have "k \<le> 305" using parts(1) assms(3) by linarith
    then have "mp \<le> 9" using mp by simp
    then show ?thesis using m \<open>m \<le> 2\<close> mp parts(8) by simp
  qed (use y era parts in \<open>simp split: if_splits\<close>)
qed

section \<open>\<open>Format\<close>\<close>

definition second :: int where
  "second = 1000000000"

text \<open>The year in at least four digits.\<close>

definition go_year_text :: "int \<Rightarrow> string" where
  "go_year_text y = (if y < 0 then ''-'' else []) @ pad 4 (nat_text (nat \<bar>y\<bar>))"

definition rfc3339_text :: "int \<Rightarrow> string" where
  "rfc3339_text t =
     (let s = t div second; r = s mod 86400 in
      case civil_from_days (s div 86400) of
        (y, mo, d) \<Rightarrow>
          go_year_text y @ ''-'' @ two mo @ ''-'' @ two d @ ''T'' @ two (r div 3600) @ '':'' @
          two (r div 60 mod 60) @ '':'' @ two (r mod 60) @ ''Z'')"

section \<open>\<open>Parse\<close>\<close>

text \<open>Go's parser takes an hour of one digit, a comma before the fraction, and an offset of up to 24:60.\<close>

definition go_hour :: "string \<Rightarrow> (int \<times> string) option" where
  "go_hour s = (case fixed 2 s of Some (h, r) \<Rightarrow> Some (h, r) | None \<Rightarrow> fixed 1 s)"

definition go_fraction :: "string \<Rightarrow> int \<times> string" where
  "go_fraction s =
     (case s of
        c # e # r \<Rightarrow>
          if c \<in> {CHR ''.'', CHR '',''} \<and> is_digit e
          then (case digits_value 10 0 (take 9 (takeWhile is_digit (e # r) @ ''00000000'')) of
                  Some v \<Rightarrow> (int v, dropWhile is_digit (e # r)) | None \<Rightarrow> (0, s))
          else (0, s)
      | _ \<Rightarrow> (0, s))"

definition go_offset :: "string \<Rightarrow> int option" where
  "go_offset s =
     (if s = ''Z'' then Some 0
      else if starts_with ''+'' s \<or> starts_with ''-'' s then
        Option.bind (fixed 2 (drop 1 s)) (\<lambda>(h, s1).
        Option.bind (expect '':'' s1) (\<lambda>s2.
        Option.bind (fixed 2 s2) (\<lambda>(mi, s3).
          if s3 = [] \<and> h \<le> 24 \<and> mi \<le> 60
          then Some ((if starts_with ''-'' s then - 1 else 1) * (h * 3600 + mi * 60)) else None)))
      else None)"

definition go_parse :: "string \<Rightarrow> int option" where
  "go_parse s =
     Option.bind (iso_date s) (\<lambda>((y, mo, d), s1).
     Option.bind (expect ''T'' s1) (\<lambda>s2.
     Option.bind (go_hour s2) (\<lambda>(h, s3).
     Option.bind (expect '':'' s3) (\<lambda>s4.
     Option.bind (fixed 2 s4) (\<lambda>(mi, s5).
     Option.bind (expect '':'' s5) (\<lambda>s6.
     Option.bind (fixed 2 s6) (\<lambda>(sec, s7).
       if h \<le> 23 \<and> mi \<le> 59 \<and> sec \<le> 59 \<and> d \<le> days_in mo y
       then (case go_fraction s7 of
               (ns, s8) \<Rightarrow> map_option (\<lambda>off.
                  (days_from_civil y mo d * 86400 + h * 3600 + mi * 60 + sec - off) * second + ns) (go_offset s8))
       else None)))))))"

section \<open>Printing and reading back\<close>

lemma nat_text_short: "n < 10 ^ Suc k \<Longrightarrow> length (nat_text n) \<le> Suc k"
proof (induction k arbitrary: n)
  case 0
  then show ?case by (subst nat_text.simps) simp
next
  case (Suc k)
  then have "n div 10 < 10 ^ Suc k" by auto
  from Suc.IH [OF this] show ?case by (subst nat_text.simps) simp
qed

lemma digits_value_zeros: "digits_value 10 0 (replicate k (CHR ''0'') @ s) = digits_value 10 0 s"
  by (induction k) (simp_all add: digit_of_def)

lemma fixed_pad:
  assumes "length (nat_text n) \<le> w"
  shows "fixed w (pad w (nat_text n) @ r) = Some (int n, r)"
proof -
  have "length (pad w (nat_text n)) = w" using assms by (simp add: pad_def)
  moreover have "list_all is_digit (pad w (nat_text n))"
    using nat_text_digits by (auto simp: pad_def list_all_iff is_digit_def)
  moreover have "digits_value 10 0 (pad w (nat_text n)) = Some n"
    by (simp add: pad_def digits_value_zeros nat_text_value)
  ultimately show ?thesis by (simp add: fixed_def)
qed

lemma fixed_two: "0 \<le> n \<Longrightarrow> n \<le> 99 \<Longrightarrow> fixed 2 (two n @ r) = Some (n, r)"
  using fixed_pad [of "nat n" 2 r] nat_text_short [of "nat n" 1] by (simp add: two_def numeral_2_eq_2)

lemma fixed_year: "0 \<le> y \<Longrightarrow> y \<le> 9999 \<Longrightarrow> fixed 4 (go_year_text y @ r) = Some (y, r)"
  using fixed_pad [of "nat y" 4 r] nat_text_short [of "nat y" 3] by (simp add: go_year_text_def)

lemma expect_same: "expect p (p @ s) = Some s"
  by (simp add: expect_def)

lemma expect_char: "expect [c] (c # s) = Some s"
  using expect_same [of "[c]" s] by simp

lemma iso_date_text:
  assumes "0 \<le> y" "y \<le> 9999" "1 \<le> m" "m \<le> 12" "1 \<le> d" "d \<le> 31"
  shows "iso_date (go_year_text y @ ''-'' @ two m @ ''-'' @ two d @ r) = Some ((y, m, d), r)"
  using assms by (simp add: iso_date_def fixed_year fixed_two expect_char)

definition last_second :: int where
  "last_second = 253402300800"

lemma days_in_bound: "days_in m y \<le> 31"
  by (simp add: days_in_def)

text \<open>A timestamp of a four-digit year reads back, in JavaScript and in Go, as its second.\<close>

lemma timestamp_parts:
  assumes "0 \<le> t" and "t < last_second * second"
  obtains y m d h mi s where "rfc3339_text t = go_year_text y @ ''-'' @ two m @ ''-'' @ two d @ ''T'' @ two h @ '':'' @ two mi @ '':'' @ two s @ ''Z''"
    "0 \<le> y" "y \<le> 9999" "1 \<le> m" "m \<le> 12" "1 \<le> d" "d \<le> 31" "d \<le> days_in m y"
    "0 \<le> h" "h \<le> 23" "0 \<le> mi" "mi \<le> 59" "0 \<le> s" "s \<le> 59"
    "days_from_civil y m d * 86400 + h * 3600 + mi * 60 + s = t div second"
proof -
  define n where "n = t div second"
  have n: "0 \<le> n" "n < last_second" using assms by (auto simp: n_def second_def)
  obtain y m d where c: "civil_from_days (n div 86400) = (y, m, d)" by (metis prod_cases3)
  have "0 \<le> n div 86400" "n div 86400 < 2932897" using n by (auto simp: last_second_def)
  note range = civil_year_range [OF c this]
  define r where "r = n mod 86400"
  have r: "0 \<le> r" "r < 86400" by (simp_all add: r_def)
  have "r div 60 mod 60 * 60 + r mod 60 + r div 3600 * 3600 = r" 
  proof -
    have "r div 60 div 60 = r div 3600" by (simp add: zdiv_zmult2_eq [symmetric])
    then have "r div 60 = r div 3600 * 60 + r div 60 mod 60" by (metis div_mult_mod_eq)
    moreover have "r = r div 60 * 60 + r mod 60" by simp
    ultimately show ?thesis by linarith
  qed
  then have sum: "days_from_civil y m d * 86400 + r div 3600 * 3600 + r div 60 mod 60 * 60 + r mod 60 = t div second"
    using civil_inverse(1) [OF c] div_mult_mod_eq [of n 86400] unfolding r_def n_def by linarith
  have shown: "rfc3339_text t = go_year_text y @ ''-'' @ two m @ ''-'' @ two d @ ''T'' @ two (r div 3600) @ '':'' @
      two (r div 60 mod 60) @ '':'' @ two (r mod 60) @ ''Z''"
    by (simp add: rfc3339_text_def Let_def c r_def flip: n_def)
  have clock: "0 \<le> r div 3600" "r div 3600 \<le> 23" "0 \<le> r div 60 mod 60" "r div 60 mod 60 \<le> 59" "0 \<le> r mod 60" "r mod 60 \<le> 59"
    using r by auto
  note civil = civil_inverse(2-5) [OF c]
  have "d \<le> 31" using civil(4) days_in_bound [of m y] by linarith
  from that [OF shown conjunct1 [OF range] conjunct2 [OF range] civil(1-3) this civil(4) clock sum] show thesis .
qed

lemma iso_parse_timestamp:
  assumes "0 \<le> t" and "t < last_second * second"
  shows "iso_parse (rfc3339_text t) = Some (t div second * 1000)"
proof -
  from timestamp_parts [OF assms] obtain y m d h mi s where
    shown: "rfc3339_text t = go_year_text y @ ''-'' @ two m @ ''-'' @ two d @ ''T'' @ two h @ '':'' @ two mi @ '':'' @ two s @ ''Z''"
    and date: "0 \<le> y" "y \<le> 9999" "1 \<le> m" "m \<le> 12" "1 \<le> d" "d \<le> 31" and day: "d \<le> days_in m y"
    and clock: "0 \<le> h" "h \<le> 23" "0 \<le> mi" "mi \<le> 59" "0 \<le> s" "s \<le> 59"
    and sum: "days_from_civil y m d * 86400 + h * 3600 + mi * 60 + s = t div second"
    by (rule timestamp_parts [OF assms]) (rule that)
  have "iso_time (''T'' @ two h @ '':'' @ two mi @ '':'' @ two s @ ''Z'') = Some ((h, mi, s, 0), ''Z'')"
    using clock by (simp add: iso_time_def expect_char fixed_two iso_fraction_def starts_with_def)
  then show ?thesis
    using iso_date_text [OF date] sum by (simp add: iso_parse_def shown iso_offset_def time_value_def)
qed

lemma go_parse_timestamp:
  assumes "0 \<le> t" and "t < last_second * second"
  shows "go_parse (rfc3339_text t) = Some (t div second * second)"
proof -
  from timestamp_parts [OF assms] obtain y m d h mi s where
    shown: "rfc3339_text t = go_year_text y @ ''-'' @ two m @ ''-'' @ two d @ ''T'' @ two h @ '':'' @ two mi @ '':'' @ two s @ ''Z''"
    and date: "0 \<le> y" "y \<le> 9999" "1 \<le> m" "m \<le> 12" "1 \<le> d" "d \<le> 31" and day: "d \<le> days_in m y"
    and clock: "0 \<le> h" "h \<le> 23" "0 \<le> mi" "mi \<le> 59" "0 \<le> s" "s \<le> 59"
    and sum: "days_from_civil y m d * 86400 + h * 3600 + mi * 60 + s = t div second"
    by (rule timestamp_parts [OF assms]) (rule that)
  have "go_hour (two h @ r) = Some (h, r)" for r using clock by (simp add: go_hour_def fixed_two)
  then show ?thesis
    using iso_date_text [OF date] day clock sum
    by (simp add: go_parse_def shown expect_char fixed_two go_fraction_def go_offset_def)
qed

end
