(* ===== verification/Go_Error.thy ===== *)
theory Go_Error
  imports Js_Text
begin

text \<open>
  Go's errors as the settlement service builds them: a value has a text and wraps sentinels, which
  \<open>errors.Is\<close> finds.  \<open>fmt.Errorf("...: %w", e)\<close> keeps what \<open>e\<close> wraps, \<open>errors.Join\<close> wraps both.  A
  function of two results that fails is \<open>Inl\<close> the error.  The texts a library gives its own errors are
  held as what kind of failure it was.
\<close>

datatype sentinel =
    ErrMalformedSignature | ErrInvalidSignature | ErrExpired | ErrCommissionRange
  | ErrListingNotFound | ErrAssertionReused | ErrOutOfStock | ErrAmountMismatch | ErrCurrencyMismatch
  | ErrFacilitatorUnavailable | ErrPaymentInvalid | ErrSettlementFailed

fun sentinel_text :: "sentinel \<Rightarrow> string" where
  "sentinel_text ErrMalformedSignature = ''signature missing the ed25519 prefix''"
| "sentinel_text ErrInvalidSignature = ''signature does not verify against the public key''"
| "sentinel_text ErrExpired = ''assertion expired''"
| "sentinel_text ErrCommissionRange = ''commission_bps outside 0..10000''"
| "sentinel_text ErrListingNotFound = ''no listing for that product and merchant''"
| "sentinel_text ErrAssertionReused = ''assertion already consumed''"
| "sentinel_text ErrOutOfStock = ''listing is out of stock''"
| "sentinel_text ErrAmountMismatch = ''gross amount does not match the listing price''"
| "sentinel_text ErrCurrencyMismatch = ''currency does not match the listing currency''"
| "sentinel_text ErrFacilitatorUnavailable = ''facilitator unreachable''"
| "sentinel_text ErrPaymentInvalid = ''facilitator rejected the payment payload''"
| "sentinel_text ErrSettlementFailed = ''facilitator failed to settle''"

record go_error =
  err_wraps :: "sentinel list"
  err_text :: string

type_synonym 'a go_result = "go_error + 'a"

definition sentinel_error :: "sentinel \<Rightarrow> go_error" where
  "sentinel_error s = \<lparr>err_wraps = [s], err_text = sentinel_text s\<rparr>"

definition plain_error :: "string \<Rightarrow> go_error" where
  "plain_error m = \<lparr>err_wraps = [], err_text = m\<rparr>"

text \<open>\<open>fmt.Errorf("<p>: %w", e)\<close> and \<open>fmt.Errorf("%w: <m>", e)\<close>.\<close>

definition prefixed :: "string \<Rightarrow> go_error \<Rightarrow> go_error" where
  "prefixed p e = e\<lparr>err_text := p @ '': '' @ err_text e\<rparr>"

definition detailed :: "go_error \<Rightarrow> string \<Rightarrow> go_error" where
  "detailed e m = e\<lparr>err_text := err_text e @ '': '' @ m\<rparr>"

text \<open>\<open>errors.Join\<close> with an error that may be nil.\<close>

definition joined :: "go_error \<Rightarrow> go_error option \<Rightarrow> go_error" where
  "joined e f =
     (case f of None \<Rightarrow> e
      | Some g \<Rightarrow> \<lparr>err_wraps = err_wraps e @ err_wraps g, err_text = err_text e @ [chr 10] @ err_text g\<rparr>)"

definition errors_Is :: "go_error \<Rightarrow> sentinel \<Rightarrow> bool" where
  "errors_Is e s \<longleftrightarrow> s \<in> set (err_wraps e)"

lemma errors_Is_simps [simp]:
  "errors_Is (sentinel_error s) s' \<longleftrightarrow> s' = s" "\<not> errors_Is (plain_error m) s'"
  "errors_Is (prefixed p e) s' = errors_Is e s'" "errors_Is (detailed e m) s' = errors_Is e s'"
  "errors_Is (joined e f) s' \<longleftrightarrow> errors_Is e s' \<or> (\<exists>g. f = Some g \<and> errors_Is g s')"
  by (auto simp: errors_Is_def sentinel_error_def plain_error_def prefixed_def detailed_def joined_def
      split: option.splits)

end
