(* ===== verification/Go_Assertion.thy ===== *)
theory Go_Assertion
  imports Verify Commission Go_Time Go_Error
begin

text \<open>
  \<open>internal/attribution/assertion.go\<close>: minting and verifying an assertion in Go.  A Go string is its
  bytes.  \<open>ed25519.Sign\<close> and \<open>ed25519.Verify\<close> are the parameters \<open>sign\<close> and \<open>ed\<close>, the latter the same
  that the TypeScript verifier has; Go's refuses a signature that is not 64 bytes itself.  The
  properties compare the two languages: their canonical texts, and what they accept.
\<close>

section \<open>The canonical form\<close>

record go_assertion =
  AssertionID :: string
  PublisherID :: string
  ProductID :: string
  SearchRequestID :: string
  IssuedAt :: string
  ExpiresAt :: string
  CommissionBps :: int64
  Signature :: string

text \<open>\<open>encoding/json\<close> with HTML escaping off: malformed bytes are replaced one at a time, and the two
  line separators U+2028 and U+2029 are escaped whatever the setting.\<close>

definition go_rune :: "char \<Rightarrow> bytes \<Rightarrow> string" where
  "go_rune b t =
     (if byte b = (226 :: nat) \<and> t = [chr 128, chr 168] then escape_unit 8232
      else if byte b = (226 :: nat) \<and> t = [chr 128, chr 169] then escape_unit 8233
      else b # t)"

function go_text :: "bytes \<Rightarrow> string" where
  "go_text [] = []"
| "go_text (b # bs) =
     (if byte b < (128 :: nat) then escape_char b @ go_text bs
      else case utf8_lead (byte b) of
        None \<Rightarrow> escape_unit 65533 @ go_text bs
      | Some (n, lo, hi) \<Rightarrow>
          (case take_conts n lo hi bs of
             (t, r, ok) \<Rightarrow> if ok then go_rune b t @ go_text r else escape_unit 65533 @ go_text bs))"
  by pat_completeness auto
termination
  by (relation "measure length") (auto dest: take_conts_length [OF sym] simp: less_Suc_eq_le)

definition go_quote :: "bytes \<Rightarrow> string" where
  "go_quote s = [chr 34] @ go_text s @ [chr 34]"

definition go_member :: "string \<Rightarrow> string \<Rightarrow> string" where
  "go_member k v = go_quote k @ '':'' @ v"

definition canonicalize :: "go_assertion \<Rightarrow> string" where
  "canonicalize a =
     ''{'' @ join '',''
       [go_member ''assertion_id'' (go_quote (AssertionID a)), go_member ''publisher_id'' (go_quote (PublisherID a)),
        go_member ''product_id'' (go_quote (ProductID a)), go_member ''search_request_id'' (go_quote (SearchRequestID a)),
        go_member ''issued_at'' (go_quote (IssuedAt a)), go_member ''expires_at'' (go_quote (ExpiresAt a)),
        go_member ''commission_bps'' (int_text (sint (CommissionBps a)))] @ ''}''"

section \<open>Signing and verifying\<close>

definition TTL :: int where
  "TTL = 3600 * second"

definition Mint ::
    "(bytes \<Rightarrow> bytes) \<Rightarrow> string \<Rightarrow> string \<Rightarrow> string \<Rightarrow> string \<Rightarrow> int64 \<Rightarrow> int \<Rightarrow> go_assertion go_result" where
  "Mint sign assertionID publisherID productID searchRequestID commissionBps issuedAt =
     (if sint commissionBps < 0 \<or> sint commissionBps > 10000 then Inl (sentinel_error ErrCommissionRange)
      else
        let a = \<lparr>AssertionID = assertionID, PublisherID = publisherID, ProductID = productID,
                 SearchRequestID = searchRequestID, IssuedAt = rfc3339_text issuedAt, ExpiresAt = rfc3339_text (issuedAt + TTL),
                 CommissionBps = commissionBps, Signature = []\<rparr> in
        Inr (a\<lparr>Signature := SIGNATURE_PREFIX @ btoa (sign (canonicalize a))\<rparr>))"

text \<open>\<open>base64.StdEncoding.DecodeString\<close>: line breaks are skipped, padding is required.\<close>

definition std_decode :: "string \<Rightarrow> bytes option" where
  "std_decode s =
     (let t = filter (\<lambda>c. byte c \<notin> {10, 13 :: nat}) s in
      if length t mod 4 \<noteq> 0 then None
      else map_option (\<lambda>ss. map chr (of_sextets ss)) (map_sextets (strip_padding t)))"

definition go_ed25519 :: "ed25519_check \<Rightarrow> crypto_key \<Rightarrow> bytes \<Rightarrow> bytes \<Rightarrow> bool" where
  "go_ed25519 ed key payload sig \<longleftrightarrow> length sig = 64 \<and> ed key sig payload"

text \<open>\<open>None\<close> is the nil error.\<close>

definition Verify :: "ed25519_check \<Rightarrow> crypto_key \<Rightarrow> go_assertion \<Rightarrow> int \<Rightarrow> go_error option" where
  "Verify ed key a now =
     (if \<not> starts_with SIGNATURE_PREFIX (Signature a) then Some (sentinel_error ErrMalformedSignature)
      else
        case std_decode (drop (length SIGNATURE_PREFIX) (Signature a)) of
          None \<Rightarrow> Some (detailed (sentinel_error ErrMalformedSignature) ''illegal base64 data'')
        | Some raw \<Rightarrow>
            if \<not> go_ed25519 ed key (canonicalize a) raw then Some (sentinel_error ErrInvalidSignature)
            else
              case go_parse (ExpiresAt a) of
                None \<Rightarrow> Some (plain_error (''parse expires_at: cannot parse '' @ go_quote (ExpiresAt a)))
              | Some expires \<Rightarrow> if \<not> now < expires then Some (sentinel_error ErrExpired) else None)"

section \<open>The same assertion in TypeScript\<close>

definition assertion_of :: "go_assertion \<Rightarrow> assertion" where
  "assertion_of a =
     \<lparr>assertion_id = AssertionID a, publisher_id = PublisherID a, product_id = ProductID a,
      search_request_id = SearchRequestID a, issued_at = IssuedAt a, expires_at = ExpiresAt a,
      commission_bps = num_of_int (sint (CommissionBps a)), signature = Signature a\<rparr>"

text \<open>U+2028 and U+2029 are the bytes E2 80 A8 and E2 80 A9.\<close>

fun separator_free :: "string \<Rightarrow> bool" where
  "separator_free (a # b # c # r) =
     (\<not> (byte a = (226 :: nat) \<and> byte b = (128 :: nat) \<and> byte c \<in> {168, 169 :: nat}) \<and> separator_free (b # c # r))"
| "separator_free s = True"

definition signed_texts :: "go_assertion \<Rightarrow> string list" where
  "signed_texts a = [AssertionID a, PublisherID a, ProductID a, SearchRequestID a, IssuedAt a, ExpiresAt a]"

lemma separator_free_cons:
  "byte a \<noteq> (226 :: nat) \<Longrightarrow> separator_free (a # s) = separator_free s"
  by (cases s rule: separator_free.cases) auto

lemma separator_free_conts:
  "\<forall>c \<in> set t. byte c \<le> (191 :: nat) \<Longrightarrow> separator_free (t @ r) = separator_free r"
  by (induction t) (auto simp: separator_free_cons)

lemma escape_unit_length [simp]: "length (escape_unit n) = 6"
  by (simp add: escape_unit_def hex4_def)

lemma separator_free_rune:
  assumes "\<forall>c \<in> set t. byte c \<le> (191 :: nat)" and "byte b \<ge> (128 :: nat)"
    and "length t = n" and "utf8_lead (byte b) = Some (n, lo, hi)"
  shows "separator_free (b # t @ r) \<longleftrightarrow> go_rune b t = b # t \<and> separator_free r"
proof (cases "byte b = (226 :: nat)")
  case True
  then have "n = 2" using assms(4) by (simp add: utf8_lead_def)
  then obtain c d where t: "t = [c, d]" using assms(3) by (metis length_0_conv length_Suc_conv numeral_2_eq_2)
  have "c \<noteq> b" using assms(1) True t by auto
  have "separator_free (c # d # r) = separator_free r" using separator_free_conts [OF assms(1)] t by simp
  moreover have "go_rune b t = b # t \<longleftrightarrow> \<not> (byte c = (128 :: nat) \<and> byte d \<in> {168, 169 :: nat})"
    using True by (auto simp: go_rune_def t escape_unit_def hex4_def chr_eq_byte)
  ultimately show ?thesis using True t by simp
next
  case False
  then show ?thesis using assms(1) by (simp add: go_rune_def separator_free_cons separator_free_conts)
qed

lemma utf8_wf_cases:
  assumes "utf8_wf (b # bs)" and "\<not> byte b < (128 :: nat)"
  obtains n lo hi t r where "utf8_lead (byte b) = Some (n, lo, hi)" "take_conts n lo hi bs = (t, r, True)" "utf8_wf r"
    "\<forall>c \<in> set t. byte c \<le> (191 :: nat)" "\<forall>c \<in> set t. byte c \<ge> (128 :: nat)" "length t = n" "bs = t @ r"
proof -
  obtain n lo hi t r where lead: "utf8_lead (byte b) = Some (n, lo, hi)" and tc: "take_conts n lo hi bs = (t, r, True)"
    and wf: "utf8_wf r" using assms by (auto split: option.splits prod.splits)
  have bounds: "hi \<le> 191" "128 \<le> lo" using lead by (auto simp: utf8_lead_def split: if_splits)
  have "length t = n" using tc by (induction n lo hi bs arbitrary: t rule: take_conts.induct) (auto split: if_splits prod.splits)
  from that [OF lead tc wf take_conts_bytes [OF tc bounds(1)] take_conts_high [OF tc bounds(2)] this take_conts_split [OF tc]]
  show thesis .
qed

lemma go_text_wf:
  assumes "utf8_wf s"
  shows "length (concat (map escape_char s)) + (if separator_free s then 0 else 1) \<le> length (go_text s) \<and>
    (separator_free s \<longrightarrow> go_text s = concat (map escape_char s))"
  using assms
proof (induction s rule: utf8_wf.induct)
  case (2 b bs)
  show ?case
  proof (cases "byte b < (128 :: nat)")
    case True
    then show ?thesis using 2 by (auto simp: separator_free_cons)
  next
    case False
    from utf8_wf_cases [OF "2.prems" False] obtain n lo hi t r where lead: "utf8_lead (byte b) = Some (n, lo, hi)"
      and tc: "take_conts n lo hi bs = (t, r, True)" and wf: "utf8_wf r"
      and t: "\<forall>c \<in> set t. byte c \<le> (191 :: nat)" "\<forall>c \<in> set t. byte c \<ge> (128 :: nat)" "length t = n" "bs = t @ r" .
    have "concat (map escape_char t) = t" using t(2) by (induction t) (auto simp: escape_char_high)
    then have plain: "concat (map escape_char (b # bs)) = b # t @ concat (map escape_char r)"
      using False by (simp add: escape_char_high t(4))
    have go: "go_text (b # bs) = go_rune b t @ go_text r" using False lead tc by simp
    have rune: "length (b # t) + (if go_rune b t = b # t then 0 else 1) \<le> length (go_rune b t)"
      by (auto simp: go_rune_def)
    have IH: "length (concat (map escape_char r)) + (if separator_free r then 0 else 1) \<le> length (go_text r) \<and>
        (separator_free r \<longrightarrow> go_text r = concat (map escape_char r))"
      using "2.IH"(2) [OF False lead] tc wf by auto
    have sep: "separator_free (b # bs) \<longleftrightarrow> go_rune b t = b # t \<and> separator_free r"
      using separator_free_rune [OF t(1) _ t(3) lead] False unfolding t(4) by simp
    show ?thesis unfolding plain go sep using rune IH by auto
  qed
qed simp

lemma quote_wf: "utf8_wf s \<Longrightarrow> quote s = [chr 34] @ concat (map escape_char s) @ [chr 34]"
  by (simp add: quote_def escape_text_free utf8_wf_surrogate_free)

lemma go_quote_quote: "utf8_wf s \<Longrightarrow> separator_free s \<Longrightarrow> go_quote s = quote s"
  using go_text_wf by (simp add: go_quote_def quote_wf)

lemma go_quote_longer:
  "utf8_wf s \<Longrightarrow> length (quote s) + (if separator_free s then 0 else 1) \<le> length (go_quote s)"
  using go_text_wf [of s] by (simp add: go_quote_def quote_wf)

lemma go_member_key: "k \<in> set signed_fields \<Longrightarrow> go_member k v = quote k @ '':'' @ v"
  by (auto simp: go_member_def signed_fields_def intro!: go_quote_quote utf8_wf_ascii)

lemma canonical_js:
  assumes "\<bar>sint (CommissionBps a)\<bar> < 2 ^ 53"
  shows "canonicalizeForSigning (assertion_js (assertion_of a)) = Inr (''{'' @ join '',''
    [quote ''assertion_id'' @ '':'' @ quote (AssertionID a), quote ''publisher_id'' @ '':'' @ quote (PublisherID a),
     quote ''product_id'' @ '':'' @ quote (ProductID a), quote ''search_request_id'' @ '':'' @ quote (SearchRequestID a),
     quote ''issued_at'' @ '':'' @ quote (IssuedAt a), quote ''expires_at'' @ '':'' @ quote (ExpiresAt a),
     quote ''commission_bps'' @ '':'' @ int_text (sint (CommissionBps a))] @ ''}'')"
proof -
  have number: "num_text (num_of_int (sint (CommissionBps a))) = int_text (sint (CommissionBps a))"
    using assms by (intro num_text_int) simp
  show ?thesis
    unfolding assertion_js_def canonicalize_Obj signed_fields_def
    using number by (simp add: assertion_of_def del: num_text.simps)
qed

lemma canonicalize_keys:
  "canonicalize a = ''{'' @ join '',''
    [quote ''assertion_id'' @ '':'' @ go_quote (AssertionID a), quote ''publisher_id'' @ '':'' @ go_quote (PublisherID a),
     quote ''product_id'' @ '':'' @ go_quote (ProductID a), quote ''search_request_id'' @ '':'' @ go_quote (SearchRequestID a),
     quote ''issued_at'' @ '':'' @ go_quote (IssuedAt a), quote ''expires_at'' @ '':'' @ go_quote (ExpiresAt a),
     quote ''commission_bps'' @ '':'' @ int_text (sint (CommissionBps a))] @ ''}''"
  unfolding canonicalize_def by (simp add: go_member_key signed_fields_def del: join.simps)

lemma canonicalize_agrees:
  assumes "\<bar>sint (CommissionBps a)\<bar> < 2 ^ 53" and "list_all utf8_wf (signed_texts a)"
  shows "canonicalizeForSigning (assertion_js (assertion_of a)) = Inr (canonicalize a) \<longleftrightarrow>
    list_all separator_free (signed_texts a)"
proof
  assume same: "canonicalizeForSigning (assertion_js (assertion_of a)) = Inr (canonicalize a)"
  have longer: "length (quote s) + (if separator_free s then 0 else 1) \<le> length (go_quote s)" if "s \<in> set (signed_texts a)" for s
    using that assms(2) by (intro go_quote_longer) (auto simp: list_all_iff)
  note l = longer [of "AssertionID a"] longer [of "PublisherID a"] longer [of "ProductID a"] longer [of "SearchRequestID a"]
    longer [of "IssuedAt a"] longer [of "ExpiresAt a"]
  have "length (quote (AssertionID a)) + length (quote (PublisherID a)) + length (quote (ProductID a)) +
      length (quote (SearchRequestID a)) + length (quote (IssuedAt a)) + length (quote (ExpiresAt a)) =
      length (go_quote (AssertionID a)) + length (go_quote (PublisherID a)) + length (go_quote (ProductID a)) +
      length (go_quote (SearchRequestID a)) + length (go_quote (IssuedAt a)) + length (go_quote (ExpiresAt a))"
    using arg_cong [OF same [unfolded canonical_js [OF assms(1)] canonicalize_keys], of "\<lambda>r. case r of Inr s \<Rightarrow> length s | Inl e \<Rightarrow> 0"]
    by simp
  then show "list_all separator_free (signed_texts a)"
    using l by (auto simp: signed_texts_def split: if_splits)
next
  assume "list_all separator_free (signed_texts a)"
  then have "go_quote s = quote s" if "s \<in> set (signed_texts a)" for s
    using that assms(2) by (intro go_quote_quote) (auto simp: list_all_iff)
  then show "canonicalizeForSigning (assertion_js (assertion_of a)) = Inr (canonicalize a)"
    unfolding canonical_js [OF assms(1)] canonicalize_keys by (simp add: signed_texts_def del: join.simps)
qed

section \<open>What Go mints\<close>

lemma sextet_char_not_break: "n < 64 \<Longrightarrow> byte (sextet_char n) \<notin> {10, 13 :: nat}"
  by (auto simp: sextet_char_def)

lemma std_decode_btoa [simp]: "std_decode (btoa bs) = Some bs"
proof -
  define ss where "ss = to_sextets (map byte bs)"
  have bytes: "\<forall>b \<in> set (map byte bs). b < (256 :: nat)" by simp
  have ss: "\<forall>s \<in> set ss. s < 64" unfolding ss_def by (rule to_sextets_bound [OF bytes])
  define t where "t = map sextet_char ss"
  have shape: "btoa bs = t @ padding (length t)" by (simp add: btoa_def ss_def t_def Let_def)
  have "filter (\<lambda>c. byte c \<notin> {10, 13 :: nat}) t = t"
    using ss sextet_char_not_break by (auto simp: t_def filter_id_conv)
  then have plain: "filter (\<lambda>c. byte c \<notin> {10, 13 :: nat}) (btoa bs) = btoa bs" by (simp add: shape padding_def)
  have len: "length t mod 4 \<noteq> 1" using to_sextets_mod4 by (simp add: t_def ss_def)
  have "CHR ''='' \<notin> set t"
    using ss sextet_char_special(2) unfolding t_def by (metis (no_types, lifting) image_iff list.set_map)
  then have "strip_padding (btoa bs) = t" using strip_padding_padding len by (simp add: shape)
  moreover have "length (btoa bs) mod 4 = 0" by (simp add: btoa_length)
  moreover have "map chr (of_sextets ss) = bs" using of_to_sextets [OF bytes] by (simp add: ss_def comp_def)
  ultimately show ?thesis using plain map_sextets_chars [OF ss] by (simp add: std_decode_def t_def Let_def)
qed

lemma ascii_separator_free: "list_all (\<lambda>c. byte c < (128 :: nat)) s \<Longrightarrow> separator_free s"
  by (induction s) (auto simp: separator_free_cons)

lemma rfc3339_text_ascii: "list_all (\<lambda>c. byte c < (128 :: nat)) (rfc3339_text t)"
proof -
  have "list_all date_char (two n)" for n by (simp add: two_def date_char_pad date_char_nat_text)
  moreover have "list_all date_char (go_year_text y)" for y
    by (simp add: go_year_text_def date_char_pad date_char_nat_text) (simp add: date_char_def)
  ultimately have "list_all date_char (rfc3339_text t)"
    by (simp add: rfc3339_text_def Let_def split: prod.split) (simp add: date_char_def)
  then show ?thesis using date_char_ascii by (auto simp: list_all_iff)
qed

definition plain_id :: "string \<Rightarrow> bool" where
  "plain_id s \<longleftrightarrow> utf8_wf s \<and> separator_free s"

lemma minted:
  assumes "Mint sign aid pid qid rid bps issued = Inr a"
  shows "signed_texts a = [aid, pid, qid, rid, rfc3339_text issued, rfc3339_text (issued + TTL)]"
    and "ExpiresAt a = rfc3339_text (issued + TTL)" and "CommissionBps a = bps" and "0 \<le> sint bps" and "sint bps \<le> 10000"
    and "Signature a = SIGNATURE_PREFIX @ btoa (sign (canonicalize a))"
  using assms by (auto simp: Mint_def Let_def signed_texts_def canonicalize_def split: if_splits)

lemma TTL_seconds: "(issued + TTL) div second = issued div second + 3600"
  by (simp add: TTL_def second_def)

lemma minted_canonical:
  assumes "Mint sign aid pid qid rid bps issued = Inr a" and "list_all plain_id [aid, pid, qid, rid]"
  shows "canonicalizeForSigning (assertion_js (assertion_of a)) = Inr (canonicalize a)"
    and "utf8_encode (canonicalize a) = canonicalize a"
proof -
  note m = minted [OF assms(1)]
  have texts: "list_all utf8_wf (signed_texts a)" "list_all separator_free (signed_texts a)"
    using assms(2) rfc3339_text_ascii by (simp_all add: m(1) plain_id_def utf8_wf_ascii ascii_separator_free)
  have "\<bar>sint (CommissionBps a)\<bar> < 2 ^ 53" using m(3-5) by simp
  from canonicalize_agrees [OF this texts(1)] texts(2)
  show same: "canonicalizeForSigning (assertion_js (assertion_of a)) = Inr (canonicalize a)" by blast
  obtain kvs where kvs: "assertion_js (assertion_of a) = JObj kvs" by (simp add: assertion_js_def)
  have "signable kvs"
    using texts(1) m(3-5) kvs by (auto simp: signable_def signed_fields_def assertion_js_def assertion_of_def signed_texts_def
        simp del: json_ok.simps(2)) (auto simp: json_ok_num intro!: exI [of _ "sint (CommissionBps a)"])
  then have "plain_text (stringify (JObj (map (\<lambda>k. (k, own kvs k)) signed_fields)))"
    by (intro plain_text_stringify canonical_ok)
  moreover have "stringify (JObj (map (\<lambda>k. (k, own kvs k)) signed_fields)) = canonicalize a"
    using same unfolding kvs canonicalize_Obj by simp
  ultimately show "utf8_encode (canonicalize a) = canonicalize a" unfolding plain_text_def by (simp only: utf8_encode_wf)
qed

lemma minted_signature_bytes:
  assumes "Mint sign aid pid qid rid bps issued = Inr a" and "length (sign (canonicalize a)) = 64"
  shows "signature_bytes (assertion_js (assertion_of a)) = Some (sign (canonicalize a))"
  using minted(6) [OF assms(1)] assms(2)
  by (simp add: signature_bytes_def assertion_js_def assertion_of_def base64ToBytes_def base64_bytes_def
      ED25519_SIGNATURE_BYTES_def)

section \<open>Properties\<close>

text \<open>C27: The signing input of the two languages is the same text exactly when no signed identifier
  contains U+2028 or U+2029, which Go escapes and JavaScript does not.\<close>

theorem canonical_forms_agree_iff:
  assumes "\<bar>sint (CommissionBps a)\<bar> < 2 ^ 53" and "list_all utf8_wf (signed_texts a)"
  shows "canonicalizeForSigning (assertion_js (assertion_of a)) = Inr (canonicalize a) \<longleftrightarrow>
    list_all separator_free (signed_texts a)"
  using assms by (rule canonicalize_agrees)

definition separated :: go_assertion where
  "separated = \<lparr>AssertionID = [chr 226, chr 128, chr 168], PublisherID = ''p'', ProductID = ''d'', SearchRequestID = ''s'',
     IssuedAt = ''i'', ExpiresAt = ''e'', CommissionBps = 750, Signature = []\<rparr>"

lemma canonical_forms_agree_iff_witness:
  "canonicalizeForSigning (assertion_js (assertion_of separated)) = Inr (canonicalize separated) \<longleftrightarrow>
    list_all separator_free (signed_texts separated)"
  by (rule canonical_forms_agree_iff) (simp add: separated_def, code_simp)

text \<open>C26: What Go mints, both verifiers accept, each until the very same second: with a key pair that
  belongs together and well-formed identifiers, an assertion issued at \<open>issued\<close> is valid in TypeScript
  and in Go for an hour after the second it names, and reported as expired from then on.\<close>

theorem minted_assertion_accepted:
  assumes "Mint sign aid pid qid rid bps issued = Inr a" and "list_all plain_id [aid, pid, qid, rid]"
    and "0 \<le> issued" and "issued + TTL < last_second * second"
    and "\<And>payload. length (sign payload) = 64 \<and> ed key (sign payload) payload"
  shows "(verifyAssertion ed legacy (assertion_js (assertion_of a)) key now = Inr () \<longleftrightarrow> now < (issued div second + 3600) * 1000) \<and>
    ((\<exists>m. verifyAssertion ed legacy (assertion_js (assertion_of a)) key now = Inl (Assertion_verification_error Expired m)) \<longleftrightarrow>
       (issued div second + 3600) * 1000 \<le> now) \<and>
    (Verify ed key a t = None \<longleftrightarrow> t < (issued div second + 3600) * second) \<and>
    ((\<exists>e. Verify ed key a t = Some e \<and> errors_Is e ErrExpired) \<longleftrightarrow> (issued div second + 3600) * second \<le> t)"
proof -
  note m = minted [OF assms(1)] and c = minted_canonical [OF assms(1,2)]
  have issued: "0 \<le> issued + TTL" using assms(3) by (simp add: TTL_def second_def)
  have "authentic ed key (assertion_js (assertion_of a))"
    unfolding authentic_def using minted_signature_bytes [OF assms(1)] c assms(5) by auto
  moreover have "deadline legacy (assertion_js (assertion_of a)) = Some ((issued div second + 3600) * 1000)"
    using iso_parse_timestamp [OF issued assms(4)]
    by (simp add: deadline_def assertion_js_def assertion_of_def m(2) date_parse_def TTL_seconds)
  moreover have "go_parse (ExpiresAt a) = Some ((issued div second + 3600) * second)"
    using go_parse_timestamp [OF issued assms(4)] by (simp add: m(2) TTL_seconds)
  then have "Verify ed key a t = (if \<not> t < (issued div second + 3600) * second then Some (sentinel_error ErrExpired) else None)"
    using assms(5) by (simp add: Verify_def m(6) go_ed25519_def)
  ultimately show ?thesis by (auto simp: verifier.accepts_iff verifier.expired_iff)
qed

definition sample_minted :: go_assertion where
  "sample_minted = (case Mint (\<lambda>_. replicate 64 (chr 7)) ''a1'' ''p1'' ''d1'' ''s1'' 750 1785412800000000000 of Inr a \<Rightarrow> a)"

lemma minted_assertion_accepted_witness:
  "(verifyAssertion (\<lambda>_ s _. s = replicate 64 (chr 7)) (\<lambda>_. None) (assertion_js (assertion_of sample_minted)) [] 1785412800000 = Inr () \<longleftrightarrow>
       1785412800000 < (1785412800000000000 div second + 3600) * 1000) \<and>
    ((\<exists>m. verifyAssertion (\<lambda>_ s _. s = replicate 64 (chr 7)) (\<lambda>_. None) (assertion_js (assertion_of sample_minted)) [] 1785412800000 =
         Inl (Assertion_verification_error Expired m)) \<longleftrightarrow> (1785412800000000000 div second + 3600) * 1000 \<le> 1785412800000) \<and>
    (Verify (\<lambda>_ s _. s = replicate 64 (chr 7)) [] sample_minted 0 = None \<longleftrightarrow> 0 < (1785412800000000000 div second + 3600) * second) \<and>
    ((\<exists>e. Verify (\<lambda>_ s _. s = replicate 64 (chr 7)) [] sample_minted 0 = Some e \<and> errors_Is e ErrExpired) \<longleftrightarrow>
       (1785412800000000000 div second + 3600) * second \<le> 0)"
proof (rule minted_assertion_accepted [where sign = "\<lambda>_. replicate 64 (chr 7)"])
  show "Mint (\<lambda>_. replicate 64 (chr 7)) ''a1'' ''p1'' ''d1'' ''s1'' 750 1785412800000000000 = Inr sample_minted"
    by (simp add: sample_minted_def Mint_def)
  show "list_all plain_id [''a1'', ''p1'', ''d1'', ''s1'']" by code_simp
  show "1785412800000000000 + TTL < last_second * second" by (simp add: TTL_def second_def last_second_def)
qed simp_all

end
