(* ===== verification/Settlement_Store.thy ===== *)
theory Settlement_Store
  imports Go_Assertion
begin

text \<open>
  \<open>internal/settlement/store.go\<close> over the tables of \<open>db/migrations\<close>: the meaning of its statements on a
  database that is a value.  A transaction is one step; the connection may be up, down (an error and no
  change) or lost at the commit (the change is made and the caller gets an error).  Key, foreign-key and
  check constraints refuse a row as the schema says; text that PostgreSQL cannot hold is refused too.
\<close>

section \<open>Tables\<close>

record Listing =
  ListingID :: string
  ListingProduct :: string
  ListingMerchant :: string
  PriceCents :: int64
  ListingCurrency :: string
  InStock :: bool
  ListingBps :: int64

datatype settlement_status = StatusPending | StatusConfirmed | StatusFailed

datatype ledger_account = MerchantPayable | PlatformRevenue | PublisherPayable

record PendingSettlement =
  ps_SettlementID :: string
  ps_AssertionID :: string
  ps_SearchRequestID :: string
  ps_PublisherID :: string
  ps_MerchantID :: string
  ps_ProductID :: string
  ps_GrossAmountCents :: int64
  ps_Currency :: string
  ps_CommissionBps :: int64
  ps_Split :: CommissionSplit
  ps_ChainNetwork :: string

record settlement_row =
  se_pending :: PendingSettlement
  se_search :: "string option"
  se_status :: settlement_status
  se_tx :: "string option"
  se_confirmed_at :: "int option"

record ledger_entry =
  en_settlement :: string
  en_account :: ledger_account
  en_party :: string
  en_amount :: int64
  en_currency :: string

record rejected_attempt =
  ra_publisher :: string
  ra_assertion :: "string option"
  ra_merchant :: "string option"
  ra_reason :: string
  ra_detail :: "string option"

record database =
  db_publishers :: "string list"
  db_merchants :: "string list"
  db_products :: "string list"
  db_searches :: "string list"
  db_listings :: "Listing list"
  db_consumed :: "(string \<times> string \<times> string) list"
  db_settlements :: "settlement_row list"
  db_entries :: "ledger_entry list"
  db_rejected :: "rejected_attempt list"

datatype link = Up | Down | Lost

definition PlatformAccountID :: string where
  "PlatformAccountID = ''platform''"

text \<open>What a text column holds: valid UTF-8 without a null byte.\<close>

definition storable :: "string \<Rightarrow> bool" where
  "storable s \<longleftrightarrow> utf8_wf s \<and> chr 0 \<notin> set s"

section \<open>The statements\<close>

definition LookupListing :: "link \<Rightarrow> string \<Rightarrow> string \<Rightarrow> database \<Rightarrow> Listing go_result" where
  "LookupListing l productID merchantID db =
     (if l \<noteq> Up \<or> \<not> storable productID \<or> \<not> storable merchantID then Inl (plain_error ''lookup listing'')
      else
        case List.find (\<lambda>r. ListingProduct r = productID \<and> ListingMerchant r = merchantID) (db_listings db) of
          None \<Rightarrow> Inl (sentinel_error ErrListingNotFound)
        | Some r \<Rightarrow> Inr r)"

text \<open>\<open>INSERT ... ON CONFLICT (assertion_id) DO NOTHING\<close>: \<open>None\<close> an error, else whether a row was added.\<close>

definition claim_assertion :: "PendingSettlement \<Rightarrow> database \<Rightarrow> (bool \<times> database) option" where
  "claim_assertion p db =
     (if \<not> list_all storable [ps_AssertionID p, ps_PublisherID p, ps_ProductID p] then None
      else if ps_AssertionID p \<in> fst ` set (db_consumed db) then Some (False, db)
      else if ps_PublisherID p \<notin> set (db_publishers db) \<or> ps_ProductID p \<notin> set (db_products db) then None
      else Some (True, db\<lparr>db_consumed := db_consumed db @ [(ps_AssertionID p, ps_PublisherID p, ps_ProductID p)]\<rparr>))"

definition checks_hold :: "PendingSettlement \<Rightarrow> bool" where
  "checks_hold p \<longleftrightarrow>
     0 < sint (ps_GrossAmountCents p) \<and> 0 \<le> sint (ps_CommissionBps p) \<and> sint (ps_CommissionBps p) \<le> 10000 \<and>
     0 \<le> sint (CommissionAmountCents (ps_Split p)) \<and> 0 \<le> sint (PlatformFeeCents (ps_Split p)) \<and>
     0 \<le> sint (PublisherAmountCents (ps_Split p)) \<and>
     sint (PlatformFeeCents (ps_Split p)) + sint (PublisherAmountCents (ps_Split p)) = sint (CommissionAmountCents (ps_Split p))"

definition search_reference :: "PendingSettlement \<Rightarrow> string option" where
  "search_reference p = (if ps_SearchRequestID p \<noteq> [] then Some (ps_SearchRequestID p) else None)"

definition insert_settlement :: "PendingSettlement \<Rightarrow> database \<Rightarrow> database option" where
  "insert_settlement p db =
     (if list_all storable [ps_SettlementID p, ps_SearchRequestID p, ps_MerchantID p, ps_Currency p, ps_ChainNetwork p] \<and>
        ps_SettlementID p \<notin> (ps_SettlementID \<circ> se_pending) ` set (db_settlements db) \<and>
        ps_AssertionID p \<in> fst ` set (db_consumed db) \<and>
        (case search_reference p of None \<Rightarrow> True | Some r \<Rightarrow> r \<in> set (db_searches db)) \<and>
        ps_PublisherID p \<in> set (db_publishers db) \<and> ps_MerchantID p \<in> set (db_merchants db) \<and>
        ps_ProductID p \<in> set (db_products db) \<and> checks_hold p
      then Some (db\<lparr>db_settlements := db_settlements db @
             [\<lparr>se_pending = p, se_search = search_reference p, se_status = StatusPending, se_tx = None, se_confirmed_at = None\<rparr>]\<rparr>)
      else None)"

text \<open>The claim and the pending row in one transaction; the error is \<open>None\<close> when it is nil.\<close>

definition Begin :: "link \<Rightarrow> PendingSettlement \<Rightarrow> database \<Rightarrow> go_error option \<times> database" where
  "Begin l p db =
     (if l = Down then (Some (plain_error ''begin settlement tx''), db)
      else
        case claim_assertion p db of
          None \<Rightarrow> (Some (plain_error ''claim assertion''), db)
        | Some (False, _) \<Rightarrow> (Some (sentinel_error ErrAssertionReused), db)
        | Some (True, db1) \<Rightarrow>
            (case insert_settlement p db1 of
               None \<Rightarrow> (Some (plain_error ''insert pending settlement''), db)
             | Some db2 \<Rightarrow>
                 if l = Lost then (Some (plain_error ''commit settlement tx''), db2) else (None, db2)))"

definition update_status ::
    "string \<Rightarrow> (settlement_row \<Rightarrow> settlement_row) \<Rightarrow> settlement_row list \<Rightarrow> settlement_row list" where
  "update_status settlementID change rows =
     map (\<lambda>r. if ps_SettlementID (se_pending r) = settlementID \<and> se_status r = StatusPending then change r else r) rows"

definition awaits :: "string \<Rightarrow> settlement_row list \<Rightarrow> bool" where
  "awaits settlementID rows \<longleftrightarrow>
     list_ex (\<lambda>r. ps_SettlementID (se_pending r) = settlementID \<and> se_status r = StatusPending) rows"

definition ledger_entries :: "PendingSettlement \<Rightarrow> ledger_entry list" where
  "ledger_entries p =
     (let entry = (\<lambda>account party amount. \<lparr>en_settlement = ps_SettlementID p, en_account = account, en_party = party,
            en_amount = amount, en_currency = ps_Currency p\<rparr>) in
      [entry MerchantPayable (ps_MerchantID p) (- CommissionAmountCents (ps_Split p)),
       entry PlatformRevenue PlatformAccountID (PlatformFeeCents (ps_Split p)),
       entry PublisherPayable (ps_PublisherID p) (PublisherAmountCents (ps_Split p))])"

definition Confirm :: "link \<Rightarrow> PendingSettlement \<Rightarrow> string \<Rightarrow> int \<Rightarrow> database \<Rightarrow> go_error option \<times> database" where
  "Confirm l p txHash confirmedAt db =
     (if l = Down then (Some (plain_error ''begin confirm tx''), db)
      else if \<not> storable txHash then (Some (plain_error ''confirm settlement''), db)
      else if \<not> awaits (ps_SettlementID p) (db_settlements db)
      then (Some (plain_error (''settlement '' @ ps_SettlementID p @ '' was not pending'')), db)
      else
        let db' = db\<lparr>db_settlements := update_status (ps_SettlementID p)
                 (\<lambda>r. r\<lparr>se_status := StatusConfirmed, se_tx := Some txHash, se_confirmed_at := Some confirmedAt\<rparr>) (db_settlements db),
               db_entries := db_entries db @ ledger_entries p\<rparr>
        in if l = Lost then (Some (plain_error ''commit confirm tx''), db') else (None, db'))"

definition Fail :: "link \<Rightarrow> string \<Rightarrow> database \<Rightarrow> go_error option \<times> database" where
  "Fail l settlementID db =
     (if l = Down then (Some (plain_error ''mark settlement failed''), db)
      else
        let db' = db\<lparr>db_settlements := update_status settlementID (\<lambda>r. r\<lparr>se_status := StatusFailed\<rparr>) (db_settlements db)\<rparr>
        in if l = Lost then (Some (plain_error ''mark settlement failed''), db') else (None, db'))"

section \<open>Rejections\<close>

record Rejection =
  rj_PublisherID :: string
  rj_AssertionID :: string
  rj_MerchantID :: string
  rj_Reason :: string
  rj_Detail :: string

definition nullable :: "string \<Rightarrow> string option" where
  "nullable s = (if s = [] then None else Some s)"

definition maxRejectionDetail :: nat where
  "maxRejectionDetail = 500"

text \<open>\<open>utf8.RuneStart\<close>: not a continuation byte.\<close>

definition rune_start :: "char \<Rightarrow> bool" where
  "rune_start c \<longleftrightarrow> \<not> (128 \<le> byte c \<and> byte c < (192 :: nat))"

fun cut_at :: "string \<Rightarrow> nat \<Rightarrow> nat" where
  "cut_at s 0 = 0"
| "cut_at s (Suc n) = (if rune_start (s ! Suc n) then Suc n else cut_at s n)"

definition truncateDetail :: "string \<Rightarrow> string" where
  "truncateDetail s =
     (if length s \<le> maxRejectionDetail then s else take (cut_at s maxRejectionDetail) s @ ''...'')"

definition RecordRejection :: "link \<Rightarrow> Rejection \<Rightarrow> database \<Rightarrow> go_error option \<times> database" where
  "RecordRejection l r db =
     (if l = Down \<or> \<not> list_all storable [rj_PublisherID r, rj_AssertionID r, rj_MerchantID r, rj_Reason r, truncateDetail (rj_Detail r)]
      then (Some (plain_error ''record rejection''), db)
      else
        let db' = db\<lparr>db_rejected := db_rejected db @
               [\<lparr>ra_publisher = rj_PublisherID r, ra_assertion = nullable (rj_AssertionID r), ra_merchant = nullable (rj_MerchantID r),
                 ra_reason = rj_Reason r, ra_detail = nullable (truncateDetail (rj_Detail r))\<rparr>]\<rparr>
        in if l = Lost then (Some (plain_error ''record rejection''), db') else (None, db'))"

end
