(* ===== verification/Settlement.thy ===== *)
theory Settlement
  imports Settlement_Store
begin

text \<open>
  \<open>internal/settlement\<close> \<open>service.go\<close>, \<open>x402.go\<close> and the writing routes of \<open>handler.go\<close>.  The facilitator acts on
  a world \<open>'f\<close> of its own; the connection of each database call, the clock and the fresh identifier are
  arguments.  A request is what \<open>encoding/json\<close> has decoded.
\<close>

section \<open>Requests\<close>

record Eip3009Authorization =
  auth_From :: string
  auth_To :: string
  auth_Value :: string
  auth_ValidAfter :: string
  auth_ValidBefore :: string
  auth_Nonce :: string

record PaymentPayload =
  pp_X402Version :: int64
  pp_Scheme :: string
  pp_Network :: string
  pp_Authorization :: Eip3009Authorization
  pp_Signature :: string

record PaymentRequirements =
  pr_Scheme :: string
  pr_Network :: string
  pr_Asset :: string
  pr_MaxAmountRequired :: string
  pr_PayTo :: string
  pr_MaxTimeoutSeconds :: int64
  pr_Resource :: string
  pr_Description :: string

record settle_request =
  rq_Assertion :: go_assertion
  rq_MerchantID :: string
  rq_GrossAmountCents :: int64
  rq_Currency :: string
  rq_PaymentPayload :: PaymentPayload
  rq_PaymentRequirements :: PaymentRequirements

record settle_result =
  re_SettlementID :: string
  re_Status :: settlement_status
  re_TxHash :: string
  re_Network :: string
  re_Payer :: string
  re_CommissionBps :: int64
  re_Split :: CommissionSplit

record VerifyResponse =
  vr_IsValid :: bool
  vr_InvalidReason :: string
  vr_Payer :: string

record SettleResponse =
  sp_Success :: bool
  sp_ErrorReason :: string
  sp_Transaction :: string
  sp_Network :: string
  sp_Payer :: string

text \<open>The interface \<open>Facilitator\<close>.\<close>

record 'f facilitator_client =
  fc_verify :: "PaymentPayload \<Rightarrow> PaymentRequirements \<Rightarrow> 'f \<Rightarrow> VerifyResponse go_result \<times> 'f"
  fc_settle :: "PaymentPayload \<Rightarrow> PaymentRequirements \<Rightarrow> 'f \<Rightarrow> SettleResponse go_result \<times> 'f"

record 'f service =
  sv_check :: ed25519_check
  sv_key :: crypto_key
  sv_facilitator :: "'f facilitator_client"

section \<open>\<open>Settle\<close>\<close>

definition effectiveCommissionBps :: "int64 \<Rightarrow> int64 \<Rightarrow> int64" where
  "effectiveCommissionBps signedBps listingBps = (if listingBps <s signedBps then listingBps else signedBps)"

definition pending_settlement :: "string \<Rightarrow> settle_request \<Rightarrow> int64 \<Rightarrow> PendingSettlement" where
  "pending_settlement newID req bps =
     \<lparr>ps_SettlementID = newID, ps_AssertionID = AssertionID (rq_Assertion req),
      ps_SearchRequestID = SearchRequestID (rq_Assertion req), ps_PublisherID = PublisherID (rq_Assertion req),
      ps_MerchantID = rq_MerchantID req, ps_ProductID = ProductID (rq_Assertion req),
      ps_GrossAmountCents = rq_GrossAmountCents req, ps_Currency = rq_Currency req, ps_CommissionBps = bps,
      ps_Split = CalculateCommission (rq_GrossAmountCents req) bps,
      ps_ChainNetwork = pr_Network (rq_PaymentRequirements req)\<rparr>"

text \<open>The checks before anything durable happens.\<close>

definition check_listing :: "settle_request \<Rightarrow> Listing \<Rightarrow> unit go_result" where
  "check_listing req listing =
     (if \<not> InStock listing then Inl (sentinel_error ErrOutOfStock)
      else if ListingCurrency listing \<noteq> rq_Currency req
      then Inl (detailed (sentinel_error ErrCurrencyMismatch)
             (''listing '' @ ListingCurrency listing @ '', payment '' @ rq_Currency req))
      else if PriceCents listing \<noteq> rq_GrossAmountCents req
      then Inl (detailed (sentinel_error ErrAmountMismatch)
             (''listing '' @ int_text (sint (PriceCents listing)) @ '', payment '' @ int_text (sint (rq_GrossAmountCents req))))
      else Inr ())"

definition prepare ::
    "'f service \<Rightarrow> link \<Rightarrow> int \<Rightarrow> string \<Rightarrow> settle_request \<Rightarrow> database \<Rightarrow> 'f \<Rightarrow> PendingSettlement go_result \<times> 'f" where
  "prepare sv l now newID req db f =
     (case Verify (sv_check sv) (sv_key sv) (rq_Assertion req) now of
        Some e \<Rightarrow> (Inl (prefixed ''verify assertion'' e), f)
      | None \<Rightarrow>
          (case LookupListing l (ProductID (rq_Assertion req)) (rq_MerchantID req) db of
             Inl e \<Rightarrow> (Inl e, f)
           | Inr listing \<Rightarrow>
               (case check_listing req listing of
                  Inl e \<Rightarrow> (Inl e, f)
                | Inr _ \<Rightarrow>
                    let bps = effectiveCommissionBps (CommissionBps (rq_Assertion req)) (ListingBps listing) in
                    (case fc_verify (sv_facilitator sv) (rq_PaymentPayload req) (rq_PaymentRequirements req) f of
                       (Inl e, f') \<Rightarrow> (Inl e, f')
                     | (Inr verified, f') \<Rightarrow>
                         if \<not> vr_IsValid verified
                         then (Inl (detailed (sentinel_error ErrPaymentInvalid) (vr_InvalidReason verified)), f')
                         else (Inr (pending_settlement newID req bps), f')))))"

text \<open>What follows the facilitator's answer.\<close>

definition conclude_settlement ::
    "link \<Rightarrow> int \<Rightarrow> PendingSettlement \<Rightarrow> SettleResponse go_result \<Rightarrow> database \<Rightarrow> settle_result go_result \<times> database" where
  "conclude_settlement l confirmedAt p r db =
     (case r of
        Inl e \<Rightarrow> (let (f, db') = Fail l (ps_SettlementID p) db in (Inl (joined e f), db'))
      | Inr settled \<Rightarrow>
          if \<not> sp_Success settled
          then (let (f, db') = Fail l (ps_SettlementID p) db in
                (Inl (joined (detailed (sentinel_error ErrSettlementFailed) (sp_ErrorReason settled)) f), db'))
          else
            case Confirm l p (sp_Transaction settled) confirmedAt db of
              (Some e, db') \<Rightarrow> (Inl e, db')
            | (None, db') \<Rightarrow>
                (Inr \<lparr>re_SettlementID = ps_SettlementID p, re_Status = StatusConfirmed, re_TxHash = sp_Transaction settled,
                      re_Network = sp_Network settled, re_Payer = sp_Payer settled, re_CommissionBps = ps_CommissionBps p,
                      re_Split = ps_Split p\<rparr>, db'))"

text \<open>The connection at each of the calls, and the clock at both readings.\<close>

record weather =
  wx_lookup :: link
  wx_begin :: link
  wx_finish :: link
  wx_reject :: link
  wx_now :: int
  wx_confirmed :: int

definition Settle ::
    "'f service \<Rightarrow> weather \<Rightarrow> string \<Rightarrow> settle_request \<Rightarrow> database \<times> 'f \<Rightarrow> settle_result go_result \<times> (database \<times> 'f)" where
  "Settle sv wx newID req = (\<lambda>(db, f).
     case prepare sv (wx_lookup wx) (wx_now wx) newID req db f of
       (Inl e, f1) \<Rightarrow> (Inl e, (db, f1))
     | (Inr p, f1) \<Rightarrow>
         (case Begin (wx_begin wx) p db of
            (Some e, db1) \<Rightarrow> (Inl e, (db1, f1))
          | (None, db1) \<Rightarrow>
              (case fc_settle (sv_facilitator sv) (rq_PaymentPayload req) (rq_PaymentRequirements req) f1 of
                 (r, f2) \<Rightarrow>
                   (case conclude_settlement (wx_finish wx) (wx_confirmed wx) p r db1 of
                      (res, db2) \<Rightarrow> (res, (db2, f2))))))"

section \<open>The handler\<close>

definition reasonInternalError :: string where
  "reasonInternalError = ''internal_error''"

definition statusFor :: "go_error \<Rightarrow> nat \<times> string" where
  "statusFor e =
     (if errors_Is e ErrAssertionReused then (409, ''assertion_reused'')
      else if errors_Is e ErrExpired then (401, ''assertion_expired'')
      else if errors_Is e ErrInvalidSignature \<or> errors_Is e ErrMalformedSignature then (401, ''assertion_signature_invalid'')
      else if errors_Is e ErrListingNotFound then (404, ''listing_not_found'')
      else if errors_Is e ErrOutOfStock \<or> errors_Is e ErrAmountMismatch \<or> errors_Is e ErrCurrencyMismatch
      then (422, ''listing_mismatch'')
      else if errors_Is e ErrPaymentInvalid then (402, ''payment_invalid'')
      else if errors_Is e ErrSettlementFailed then (402, ''settlement_failed'')
      else if errors_Is e ErrFacilitatorUnavailable then (502, ''facilitator_unavailable'')
      else (500, reasonInternalError))"

datatype settle_answer = Confirmed settle_result | Refused nat string string

definition rejection_of :: "settle_request \<Rightarrow> string \<Rightarrow> go_error \<Rightarrow> Rejection" where
  "rejection_of req reason e =
     \<lparr>rj_PublisherID = PublisherID (rq_Assertion req), rj_AssertionID = AssertionID (rq_Assertion req),
      rj_MerchantID = rq_MerchantID req, rj_Reason = reason, rj_Detail = err_text e\<rparr>"

text \<open>\<open>handleSettle\<close> on a body that decodes: the answer carries the status, the error text and the reason.\<close>

definition handleSettle ::
    "'f service \<Rightarrow> weather \<Rightarrow> string \<Rightarrow> settle_request \<Rightarrow> database \<times> 'f \<Rightarrow> settle_answer \<times> (database \<times> 'f)" where
  "handleSettle sv wx newID req s =
     (case Settle sv wx newID req s of
        (Inr res, s') \<Rightarrow> (Confirmed res, s')
      | (Inl e, (db, f)) \<Rightarrow>
          (let (status, reason) = statusFor e;
               db' = (if reason \<noteq> reasonInternalError
                      then snd (RecordRejection (wx_reject wx) (rejection_of req reason e) db) else db)
           in (Refused status (err_text e) reason, (db', f))))"

text \<open>\<open>handleRecordRejection\<close> on a body that decodes: the status and the reason, if any.\<close>

definition handleRecordRejection :: "link \<Rightarrow> Rejection \<Rightarrow> database \<Rightarrow> (nat \<times> string option) \<times> database" where
  "handleRecordRejection l body db =
     (if rj_PublisherID body = [] \<or> rj_Reason body = [] then ((400, Some ''bad_request''), db)
      else
        case RecordRejection l body db of
          (Some e, db') \<Rightarrow> ((500, Some reasonInternalError), db')
        | (None, db') \<Rightarrow> ((202, None), db'))"

end
