(* ===== verification/Settlement_Run.thy ===== *)
theory Settlement_Run
  imports Settlement
begin

text \<open>
  Concurrent settlements.  A request that has been cleared, has claimed its assertion, or has the
  facilitator's answer waits in \<open>flights\<close>; each database transaction and each call of the facilitator is a
  step, so requests interleave between them, any connection may fail at any step, and the process may
  crash and lose what is in flight.  \<open>asked\<close> records the settlements the facilitator was asked for.
\<close>

section \<open>What the store keeps\<close>

definition entries_of :: "string \<Rightarrow> database \<Rightarrow> ledger_entry list" where
  "entries_of settlementID db = filter (\<lambda>e. en_settlement e = settlementID) (db_entries db)"

definition assertion_of_row :: "settlement_row \<Rightarrow> string" where
  "assertion_of_row r = ps_AssertionID (se_pending r)"

definition id_of_row :: "settlement_row \<Rightarrow> string" where
  "id_of_row r = ps_SettlementID (se_pending r)"

definition posted :: "settlement_row \<Rightarrow> ledger_entry list" where
  "posted r = (if se_status r = StatusConfirmed then ledger_entries (se_pending r) else [])"

definition store_ok :: "database \<Rightarrow> bool" where
  "store_ok db \<longleftrightarrow>
     distinct (map fst (db_consumed db)) \<and> map assertion_of_row (db_settlements db) = map fst (db_consumed db) \<and>
     distinct (map assertion_of_row (db_settlements db)) \<and> distinct (map id_of_row (db_settlements db)) \<and>
     (\<forall>r \<in> set (db_settlements db). assertion_of_row r \<in> fst ` set (db_consumed db) \<and> checks_hold (se_pending r) \<and>
        entries_of (id_of_row r) db = posted r) \<and>
     (\<forall>e \<in> set (db_entries db). en_settlement e \<in> id_of_row ` set (db_settlements db))"

lemma ledger_entries_settlement: "e \<in> set (ledger_entries p) \<Longrightarrow> en_settlement e = ps_SettlementID p"
  by (auto simp: ledger_entries_def Let_def)

lemma entries_of_ledger: "filter (\<lambda>e. en_settlement e = s) (ledger_entries p) = (if ps_SettlementID p = s then ledger_entries p else [])"
  by (auto simp: ledger_entries_def Let_def)

text \<open>What a successful claim adds.\<close>

definition claimed_row :: "PendingSettlement \<Rightarrow> settlement_row" where
  "claimed_row p = \<lparr>se_pending = p, se_search = search_reference p, se_status = StatusPending, se_tx = None, se_confirmed_at = None\<rparr>"

definition with_claim :: "PendingSettlement \<Rightarrow> database \<Rightarrow> database" where
  "with_claim p db = db\<lparr>db_consumed := db_consumed db @ [(ps_AssertionID p, ps_PublisherID p, ps_ProductID p)],
     db_settlements := db_settlements db @ [claimed_row p]\<rparr>"

lemma claimed_row_simps [simp]:
  "assertion_of_row (claimed_row p) = ps_AssertionID p" "id_of_row (claimed_row p) = ps_SettlementID p"
  "se_pending (claimed_row p) = p" "se_status (claimed_row p) = StatusPending" "posted (claimed_row p) = []"
  by (simp_all add: claimed_row_def assertion_of_row_def id_of_row_def posted_def)

lemma Begin_cases:
  assumes "Begin l p db = (e, db')"
  obtains (refused) x where "e = Some x" "db' = db"
    | (claimed) "l = Up \<and> e = None \<or> l = Lost \<and> e \<noteq> None" "db' = with_claim p db" "ps_AssertionID p \<notin> fst ` set (db_consumed db)"
        "ps_SettlementID p \<notin> id_of_row ` set (db_settlements db)" "checks_hold p"
  using assms
  by (cases l) (auto simp: Begin_def claim_assertion_def insert_settlement_def with_claim_def claimed_row_def id_of_row_def comp_def
      split: if_splits option.splits)

lemma with_claim_ok:
  assumes "store_ok db" and "ps_AssertionID p \<notin> fst ` set (db_consumed db)"
    and "ps_SettlementID p \<notin> id_of_row ` set (db_settlements db)" and "checks_hold p"
  shows "store_ok (with_claim p db)"
proof -
  have "en_settlement e \<noteq> ps_SettlementID p" if "e \<in> set (db_entries db)" for e
    using assms(1,3) that unfolding store_ok_def by metis
  then have "entries_of (ps_SettlementID p) db = []" by (simp add: entries_of_def filter_empty_conv)
  moreover have "ps_AssertionID p \<notin> assertion_of_row ` set (db_settlements db)"
    using assms(1,2) by (auto simp: store_ok_def)
  ultimately show ?thesis
    using assms by (auto simp: store_ok_def with_claim_def entries_of_def)
qed

text \<open>What confirming or failing a settlement changes.\<close>

lemma update_status_map:
  "map assertion_of_row (update_status s f rows) = map assertion_of_row rows"
  "map id_of_row (update_status s f rows) = map id_of_row rows"
  if "\<And>r. se_pending (f r) = se_pending r"
  using that by (simp_all add: update_status_def assertion_of_row_def id_of_row_def)

lemma update_status_set:
  "r \<in> set (update_status s f rows) \<Longrightarrow>
     r \<in> set rows \<and> \<not> (id_of_row r = s \<and> se_status r = StatusPending) \<or>
     (\<exists>q \<in> set rows. id_of_row q = s \<and> se_status q = StatusPending \<and> r = f q)"
  by (auto simp: update_status_def id_of_row_def split: if_splits)

lemma awaits_row: "awaits s rows \<longleftrightarrow> (\<exists>r \<in> set rows. id_of_row r = s \<and> se_status r = StatusPending)"
  by (auto simp: awaits_def list_ex_iff id_of_row_def)

lemma same_id_same_row:
  "store_ok db \<Longrightarrow> r \<in> set (db_settlements db) \<Longrightarrow> q \<in> set (db_settlements db) \<Longrightarrow> id_of_row r = id_of_row q \<Longrightarrow> r = q"
  unfolding store_ok_def by (auto dest: inj_onD simp: distinct_map)

definition confirmed_row :: "string \<Rightarrow> int \<Rightarrow> settlement_row \<Rightarrow> settlement_row" where
  "confirmed_row tx t r = r\<lparr>se_status := StatusConfirmed, se_tx := Some tx, se_confirmed_at := Some t\<rparr>"

definition failed_row :: "settlement_row \<Rightarrow> settlement_row" where
  "failed_row r = r\<lparr>se_status := StatusFailed\<rparr>"

lemma changed_row_simps [simp]:
  "se_pending (confirmed_row tx t r) = se_pending r" "se_status (confirmed_row tx t r) = StatusConfirmed"
  "se_tx (confirmed_row tx t r) = Some tx"
  "se_pending (failed_row r) = se_pending r" "se_status (failed_row r) = StatusFailed" "se_tx (failed_row r) = se_tx r"
  by (simp_all add: confirmed_row_def failed_row_def)

definition with_confirm :: "PendingSettlement \<Rightarrow> string \<Rightarrow> int \<Rightarrow> database \<Rightarrow> database" where
  "with_confirm p tx t db = db\<lparr>db_settlements := update_status (ps_SettlementID p) (confirmed_row tx t) (db_settlements db),
     db_entries := db_entries db @ ledger_entries p\<rparr>"

definition with_failure :: "string \<Rightarrow> database \<Rightarrow> database" where
  "with_failure s db = db\<lparr>db_settlements := update_status s failed_row (db_settlements db)\<rparr>"

lemma Confirm_cases:
  assumes "Confirm l p tx t db = (e, db')"
  obtains (refused) x where "e = Some x" "db' = db"
    | (confirmed) "l = Up \<and> e = None \<or> l = Lost \<and> e \<noteq> None" "db' = with_confirm p tx t db"
        "awaits (ps_SettlementID p) (db_settlements db)"
  using assms by (cases l) (auto simp: Confirm_def Let_def with_confirm_def confirmed_row_def [abs_def] split: if_splits)

lemma Fail_cases:
  assumes "Fail l s db = (e, db')"
  obtains "db' = db" | "db' = with_failure s db"
  using assms by (cases l) (auto simp: Fail_def Let_def with_failure_def failed_row_def [abs_def] split: if_splits)

lemma with_confirm_ok:
  assumes ok: "store_ok db" and row: "q \<in> set (db_settlements db)" "se_pending q = p" "se_status q = StatusPending"
  shows "store_ok (with_confirm p tx t db)"
proof -
  let ?rows = "update_status (ps_SettlementID p) (confirmed_row tx t) (db_settlements db)"
  have id: "id_of_row q = ps_SettlementID p" using row(2) by (simp add: id_of_row_def)
  have "assertion_of_row r \<in> fst ` set (db_consumed db) \<and> checks_hold (se_pending r) \<and>
      entries_of (id_of_row r) (with_confirm p tx t db) = posted r" if r: "r \<in> set ?rows" for r
    using update_status_set [OF r]
  proof
    assume old: "r \<in> set (db_settlements db) \<and> \<not> (id_of_row r = ps_SettlementID p \<and> se_status r = StatusPending)"
    then have "id_of_row r \<noteq> ps_SettlementID p" using same_id_same_row [OF ok _ row(1)] row(3) id by auto
    then show ?thesis using ok old by (auto simp: store_ok_def entries_of_def with_confirm_def entries_of_ledger)
  next
    assume "\<exists>q \<in> set (db_settlements db). id_of_row q = ps_SettlementID p \<and> se_status q = StatusPending \<and> r = confirmed_row tx t q"
    then have r: "r = confirmed_row tx t q" using same_id_same_row [OF ok _ row(1)] id by auto
    then show ?thesis
      using ok row id by (auto simp: store_ok_def entries_of_def with_confirm_def entries_of_ledger posted_def
          assertion_of_row_def id_of_row_def)
  qed
  moreover have "en_settlement e \<in> id_of_row ` set ?rows" if "e \<in> set (db_entries db @ ledger_entries p)" for e
  proof -
    have "id_of_row ` set ?rows = id_of_row ` set (db_settlements db)"
      using arg_cong [OF update_status_map(2) [of "confirmed_row tx t" "ps_SettlementID p" "db_settlements db"], of set] by simp
    moreover have "en_settlement e \<in> id_of_row ` set (db_settlements db)"
    proof (cases "e \<in> set (db_entries db)")
      case True
      then show ?thesis using ok unfolding store_ok_def by blast
    next
      case False
      then have "en_settlement e = id_of_row q" using that ledger_entries_settlement id by simp
      then show ?thesis using row(1) by blast
    qed
    ultimately show ?thesis by (simp only:)
  qed
  ultimately show ?thesis
    using ok by (simp add: store_ok_def with_confirm_def update_status_map)
qed

lemma with_failure_ok:
  assumes ok: "store_ok db"
  shows "store_ok (with_failure s db)"
proof -
  let ?rows = "update_status s failed_row (db_settlements db)"
  have entries: "entries_of x (with_failure s db) = entries_of x db" for x by (simp add: entries_of_def with_failure_def)
  have "assertion_of_row r \<in> fst ` set (db_consumed db) \<and> checks_hold (se_pending r) \<and> entries_of (id_of_row r) db = posted r"
    if r: "r \<in> set ?rows" for r
    using update_status_set [OF r]
  proof
    assume "\<exists>q \<in> set (db_settlements db). id_of_row q = s \<and> se_status q = StatusPending \<and> r = failed_row q"
    then obtain q where q: "q \<in> set (db_settlements db)" "se_status q = StatusPending" "r = failed_row q" by blast
    then have "posted q = []" "posted r = []" by (simp_all add: posted_def)
    moreover have "assertion_of_row r = assertion_of_row q" "id_of_row r = id_of_row q" "se_pending r = se_pending q"
      by (simp_all add: q(3) assertion_of_row_def id_of_row_def)
    ultimately show ?thesis using ok q(1) unfolding store_ok_def by metis
  qed (use ok in \<open>auto simp: store_ok_def\<close>)
  moreover have "id_of_row ` set ?rows = id_of_row ` set (db_settlements db)"
    using arg_cong [OF update_status_map(2) [of failed_row s "db_settlements db"], of set] by simp
  moreover have "db_settlements (with_failure s db) = ?rows" "db_consumed (with_failure s db) = db_consumed db"
    "db_entries (with_failure s db) = db_entries db" by (simp_all add: with_failure_def)
  ultimately show ?thesis using ok unfolding store_ok_def entries by (simp add: update_status_map)
qed

section \<open>Interleaved settlements\<close>

datatype flight =
    Cleared PendingSettlement PaymentPayload PaymentRequirements
  | Claimed PendingSettlement PaymentPayload PaymentRequirements
  | Answered_flight PendingSettlement "SettleResponse go_result"

record 'f settlement_server =
  ss_db :: database
  ss_fac :: 'f
  ss_flights :: "flight list"
  ss_asked :: "(string \<times> SettleResponse go_result) list"

definition drop_flight :: "nat \<Rightarrow> flight list \<Rightarrow> flight list" where
  "drop_flight i fs = take i fs @ drop (Suc i) fs"

inductive settlement_step :: "'f service \<Rightarrow> 'f settlement_server \<Rightarrow> 'f settlement_server \<Rightarrow> bool" for sv :: "'f service" where
  cleared: "prepare sv l now newID req (ss_db s) (ss_fac s) = (Inr p, f) \<Longrightarrow>
     settlement_step sv s (s\<lparr>ss_fac := f,
       ss_flights := ss_flights s @ [Cleared p (rq_PaymentPayload req) (rq_PaymentRequirements req)]\<rparr>)"
| refused: "prepare sv l now newID req (ss_db s) (ss_fac s) = (Inl e, f) \<Longrightarrow> settlement_step sv s (s\<lparr>ss_fac := f\<rparr>)"
| claimed: "i < length (ss_flights s) \<Longrightarrow> ss_flights s ! i = Cleared p payload requirements \<Longrightarrow>
     Begin l p (ss_db s) = (None, db) \<Longrightarrow>
     settlement_step sv s (s\<lparr>ss_db := db, ss_flights := (ss_flights s)[i := Claimed p payload requirements]\<rparr>)"
| unclaimed: "i < length (ss_flights s) \<Longrightarrow> ss_flights s ! i = Cleared p payload requirements \<Longrightarrow>
     Begin l p (ss_db s) = (Some e, db) \<Longrightarrow>
     settlement_step sv s (s\<lparr>ss_db := db, ss_flights := drop_flight i (ss_flights s)\<rparr>)"
| answered: "i < length (ss_flights s) \<Longrightarrow> ss_flights s ! i = Claimed p payload requirements \<Longrightarrow>
     fc_settle (sv_facilitator sv) payload requirements (ss_fac s) = (r, f) \<Longrightarrow>
     settlement_step sv s (s\<lparr>ss_fac := f, ss_flights := (ss_flights s)[i := Answered_flight p r],
       ss_asked := ss_asked s @ [(ps_AssertionID p, r)]\<rparr>)"
| concluded: "i < length (ss_flights s) \<Longrightarrow> ss_flights s ! i = Answered_flight p r \<Longrightarrow>
     conclude_settlement l t p r (ss_db s) = (res, db) \<Longrightarrow>
     settlement_step sv s (s\<lparr>ss_db := db, ss_flights := drop_flight i (ss_flights s)\<rparr>)"
| rejected: "RecordRejection l rj (ss_db s) = (e, db) \<Longrightarrow> settlement_step sv s (s\<lparr>ss_db := db\<rparr>)"
| crash: "settlement_step sv s (s\<lparr>ss_flights := []\<rparr>)"

abbreviation settlement_run :: "'f service \<Rightarrow> 'f settlement_server \<Rightarrow> 'f settlement_server \<Rightarrow> bool" where
  "settlement_run sv \<equiv> (settlement_step sv)\<^sup>*\<^sup>*"

definition fresh_database :: "database \<Rightarrow> bool" where
  "fresh_database db \<longleftrightarrow> db_consumed db = [] \<and> db_settlements db = [] \<and> db_entries db = []"

definition settlement_start :: "database \<Rightarrow> 'f \<Rightarrow> 'f settlement_server" where
  "settlement_start db f = \<lparr>ss_db = db, ss_fac = f, ss_flights = [], ss_asked = []\<rparr>"

text \<open>The settlements that hold a claim, in flight.\<close>

fun holding :: "flight \<Rightarrow> PendingSettlement list" where
  "holding (Cleared p payload requirements) = []"
| "holding (Claimed p payload requirements) = [p]"
| "holding (Answered_flight p r) = [p]"

definition holders :: "flight list \<Rightarrow> PendingSettlement list" where
  "holders fs = concat (map holding fs)"

fun flight_ok :: "(string \<times> SettleResponse go_result) list \<Rightarrow> flight \<Rightarrow> bool" where
  "flight_ok asked (Cleared p payload requirements) = True"
| "flight_ok asked (Claimed p payload requirements) = (ps_AssertionID p \<notin> fst ` set asked)"
| "flight_ok asked (Answered_flight p r) = ((ps_AssertionID p, r) \<in> set asked)"

definition pending_in :: "database \<Rightarrow> PendingSettlement \<Rightarrow> bool" where
  "pending_in db p \<longleftrightarrow> (\<exists>r \<in> set (db_settlements db). se_pending r = p \<and> se_status r = StatusPending)"

definition backed :: "(string \<times> SettleResponse go_result) list \<Rightarrow> settlement_row \<Rightarrow> bool" where
  "backed asked r \<longleftrightarrow> (se_status r = StatusConfirmed \<longrightarrow>
     (\<exists>a. (assertion_of_row r, Inr a) \<in> set asked \<and> sp_Success a \<and> se_tx r = Some (sp_Transaction a)))"

definition server_ok :: "'f settlement_server \<Rightarrow> bool" where
  "server_ok s \<longleftrightarrow>
     store_ok (ss_db s) \<and> distinct (map ps_SettlementID (holders (ss_flights s))) \<and>
     list_all (pending_in (ss_db s)) (holders (ss_flights s)) \<and> list_all (flight_ok (ss_asked s)) (ss_flights s) \<and>
     distinct (map fst (ss_asked s)) \<and> fst ` set (ss_asked s) \<subseteq> fst ` set (db_consumed (ss_db s)) \<and>
     list_all (backed (ss_asked s)) (db_settlements (ss_db s))"

lemma holders_simps [simp]: "holders [] = []" "holders (x # fs) = holding x @ holders fs" "holders (a @ b) = holders a @ holders b"
  by (simp_all add: holders_def)

lemma flight_split:
  assumes "i < length fs" and "fs ! i = x"
  obtains a c where "fs = a @ x # c" "\<And>y. fs[i := y] = a @ y # c" "drop_flight i fs = a @ c"
  using that [of "take i fs" "drop (Suc i) fs"] id_take_nth_drop [OF assms(1)] upd_conv_take_nth_drop [OF assms(1)] assms(2)
  by (simp add: drop_flight_def)

lemma same_assertion_same_row: "store_ok db \<Longrightarrow> r \<in> set (db_settlements db) \<Longrightarrow> q \<in> set (db_settlements db) \<Longrightarrow>
    assertion_of_row r = assertion_of_row q \<Longrightarrow> r = q"
  unfolding store_ok_def by (auto dest: inj_onD simp: distinct_map)

lemma update_status_other: "r \<in> set rows \<Longrightarrow> id_of_row r \<noteq> s \<Longrightarrow> r \<in> set (update_status s f rows)"
  by (auto simp: update_status_def id_of_row_def intro: rev_image_eqI)

lemma server_okI:
  "store_ok (ss_db s) \<Longrightarrow> distinct (map ps_SettlementID (holders (ss_flights s))) \<Longrightarrow>
   list_all (pending_in (ss_db s)) (holders (ss_flights s)) \<Longrightarrow> list_all (flight_ok (ss_asked s)) (ss_flights s) \<Longrightarrow>
   distinct (map fst (ss_asked s)) \<Longrightarrow> fst ` set (ss_asked s) \<subseteq> fst ` set (db_consumed (ss_db s)) \<Longrightarrow>
   list_all (backed (ss_asked s)) (db_settlements (ss_db s)) \<Longrightarrow> server_ok s"
  by (simp add: server_ok_def)

lemma server_okD:
  assumes "server_ok s"
  shows "store_ok (ss_db s)" "distinct (map ps_SettlementID (holders (ss_flights s)))"
    "list_all (pending_in (ss_db s)) (holders (ss_flights s))" "list_all (flight_ok (ss_asked s)) (ss_flights s)"
    "distinct (map fst (ss_asked s))" "fst ` set (ss_asked s) \<subseteq> fst ` set (db_consumed (ss_db s))"
    "list_all (backed (ss_asked s)) (db_settlements (ss_db s))"
  using assms by (auto simp: server_ok_def)

text \<open>A claim, whether or not its answer arrives.\<close>

lemma claim_keeps:
  assumes ok: "server_ok s" and flights: "ss_flights s = a @ Cleared p payload rq # c"
    and new: "ps_AssertionID p \<notin> fst ` set (db_consumed (ss_db s))" "ps_SettlementID p \<notin> id_of_row ` set (db_settlements (ss_db s))"
      "checks_hold p"
    and fs: "fs = a @ Claimed p payload rq # c \<or> fs = a @ c"
  shows "server_ok (s\<lparr>ss_db := with_claim p (ss_db s), ss_flights := fs\<rparr>)"
proof -
  note D = server_okD [OF ok, unfolded flights, simplified]
  have rows: "db_settlements (with_claim p (ss_db s)) = db_settlements (ss_db s) @ [claimed_row p]"
    "fst ` set (db_consumed (with_claim p (ss_db s))) = insert (ps_AssertionID p) (fst ` set (db_consumed (ss_db s)))"
    by (simp_all add: with_claim_def)
  have "ps_SettlementID p \<noteq> ps_SettlementID q" if "pending_in (ss_db s) q" for q
    using that new(2) by (auto simp: pending_in_def id_of_row_def)
  then have ids: "ps_SettlementID p \<notin> ps_SettlementID ` set (holders a @ holders c)"
    using D(3) by (auto simp: list_all_iff)
  have pending: "pending_in (with_claim p (ss_db s)) q" if "pending_in (ss_db s) q \<or> q = p" for q
    using that by (auto simp: pending_in_def rows)
  have unasked: "ps_AssertionID p \<notin> fst ` set (ss_asked s)" using D(6) new(1) by auto
  show ?thesis
  proof (rule server_okI, simp_all)
    show "store_ok (with_claim p (ss_db s))" using with_claim_ok [OF D(1) new] .
    show "distinct (map ps_SettlementID (holders fs))" using D(2) ids fs by auto
    show "list_all (pending_in (with_claim p (ss_db s))) (holders fs)" using D(3) pending fs by (auto simp: list_all_iff)
    show "list_all (flight_ok (ss_asked s)) fs" using D(4) unasked fs by auto
    show "distinct (map fst (ss_asked s))" using D(5) .
    show "fst ` set (ss_asked s) \<subseteq> fst ` set (db_consumed (with_claim p (ss_db s)))" using D(6) by (auto simp: rows)
    show "list_all (backed (ss_asked s)) (db_settlements (with_claim p (ss_db s)))" using D(7) by (simp add: rows) (simp add: backed_def)
  qed
qed

text \<open>An answer of the facilitator.\<close>

lemma answer_keeps:
  assumes ok: "server_ok s" and flights: "ss_flights s = a @ Claimed p payload rq # c"
  shows "server_ok (s\<lparr>ss_fac := f, ss_flights := a @ Answered_flight p r # c, ss_asked := ss_asked s @ [(ps_AssertionID p, r)]\<rparr>)"
proof -
  note D = server_okD [OF ok, unfolded flights, simplified]
  from D(3) obtain row where row: "row \<in> set (db_settlements (ss_db s))" "se_pending row = p" by (auto simp: pending_in_def)
  have "ps_AssertionID q \<noteq> ps_AssertionID p" if "q \<in> set (holders a @ holders c)" for q
  proof
    assume same: "ps_AssertionID q = ps_AssertionID p"
    from D(3) that obtain other where other: "other \<in> set (db_settlements (ss_db s))" "se_pending other = q"
      by (auto simp: list_all_iff pending_in_def)
    have "row = other" using same_assertion_same_row [OF D(1) row(1) other(1)] same row(2) other(2)
      by (simp add: assertion_of_row_def)
    then show False using row(2) other(2) D(2) that by auto
  qed
  then have others: "flight_ok (ss_asked s @ [(ps_AssertionID p, r)]) fl" if "flight_ok (ss_asked s) fl" "fl \<in> set (a @ c)" for fl
    using that by (cases fl) (fastforce simp: holders_def)+
  let ?s = "s\<lparr>ss_fac := f, ss_flights := a @ Answered_flight p r # c, ss_asked := ss_asked s @ [(ps_AssertionID p, r)]\<rparr>"
  show ?thesis
  proof (rule server_okI)
    show "store_ok (ss_db ?s)" using D(1) by simp
    show "distinct (map ps_SettlementID (holders (ss_flights ?s)))" using D(2) by simp
    show "list_all (pending_in (ss_db ?s)) (holders (ss_flights ?s))" using D(3) by simp
    show "list_all (flight_ok (ss_asked ?s)) (ss_flights ?s)" using D(4) others by (auto simp: list_all_iff)
    show "distinct (map fst (ss_asked ?s))" using D(4,5) by simp
    show "fst ` set (ss_asked ?s) \<subseteq> fst ` set (db_consumed (ss_db ?s))"
      using D(1,6) row by (auto simp: store_ok_def assertion_of_row_def)
    show "list_all (backed (ss_asked ?s)) (db_settlements (ss_db ?s))"
      using D(7) by (auto simp: list_all_iff backed_def)
  qed
qed

text \<open>A conclusion.\<close>

lemma store_dropped:
  assumes ok: "server_ok s" and flights: "ss_flights s = a @ x # c" and store: "store_ok db"
    and consumed: "db_consumed db = db_consumed (ss_db s)"
    and pending: "\<And>q. q \<in> set (holders a @ holders c) \<Longrightarrow> pending_in db q"
    and backing: "\<And>r. r \<in> set (db_settlements db) \<Longrightarrow> backed (ss_asked s) r"
  shows "server_ok (s\<lparr>ss_db := db, ss_flights := a @ c\<rparr>)"
proof -
  note D = server_okD [OF ok, unfolded flights, simplified]
  let ?s = "s\<lparr>ss_db := db, ss_flights := a @ c\<rparr>"
  show ?thesis
  proof (rule server_okI)
    show "store_ok (ss_db ?s)" using store by simp
    show "distinct (map ps_SettlementID (holders (ss_flights ?s)))" using D(2) by auto
    show "list_all (pending_in (ss_db ?s)) (holders (ss_flights ?s))" using pending by (auto simp: list_all_iff)
    show "list_all (flight_ok (ss_asked ?s)) (ss_flights ?s)" using D(4) by simp
    show "distinct (map fst (ss_asked ?s))" using D(5) by simp
    show "fst ` set (ss_asked ?s) \<subseteq> fst ` set (db_consumed (ss_db ?s))" using D(6) consumed by simp
    show "list_all (backed (ss_asked ?s)) (db_settlements (ss_db ?s))" using backing by (simp add: list_all_iff)
  qed
qed

lemma updated_keeps:
  assumes ok: "server_ok s" and flights: "ss_flights s = a @ Answered_flight p r # c" and store: "store_ok db"
    and db: "db_consumed db = db_consumed (ss_db s)" "db_settlements db = update_status (ps_SettlementID p) g (db_settlements (ss_db s))"
    and g: "\<And>q. se_pending q = p \<Longrightarrow> backed (ss_asked s) (g q)"
  shows "server_ok (s\<lparr>ss_db := db, ss_flights := a @ c\<rparr>)"
proof (rule store_dropped [OF ok flights store db(1)])
  note D = server_okD [OF ok, unfolded flights, simplified]
  from D(3) obtain row where row: "row \<in> set (db_settlements (ss_db s))" "se_pending row = p" by (auto simp: pending_in_def)
  show "pending_in db q" if q: "q \<in> set (holders a @ holders c)" for q
  proof -
    from D(3) q obtain other where other: "other \<in> set (db_settlements (ss_db s))" "se_pending other = q" "se_status other = StatusPending"
      by (auto simp: list_all_iff pending_in_def)
    have "ps_SettlementID p \<notin> ps_SettlementID ` set (holders a @ holders c)" using D(2) by auto
    then have "id_of_row other \<noteq> ps_SettlementID p" using q other(2) unfolding id_of_row_def by (metis imageI)
    then show ?thesis using update_status_other [OF other(1)] other(2,3) by (auto simp: pending_in_def db(2))
  qed
  show "backed (ss_asked s) r'" if "r' \<in> set (db_settlements db)" for r'
    using update_status_set [OF that [unfolded db(2)]]
  proof
    assume "\<exists>q \<in> set (db_settlements (ss_db s)). id_of_row q = ps_SettlementID p \<and> se_status q = StatusPending \<and> r' = g q"
    then obtain q where q: "q \<in> set (db_settlements (ss_db s))" "id_of_row q = ps_SettlementID p" "r' = g q" by blast
    then have "q = row" using same_id_same_row [OF D(1) q(1) row(1)] row(2) by (simp add: id_of_row_def)
    then show ?thesis using g row(2) q(3) by simp
  qed (use D(7) in \<open>auto simp: list_all_iff\<close>)
qed

lemma conclude_keeps:
  assumes ok: "server_ok s" and flights: "ss_flights s = a @ Answered_flight p r # c"
    and step: "conclude_settlement l t p r (ss_db s) = (res, db)"
  shows "server_ok (s\<lparr>ss_db := db, ss_flights := a @ c\<rparr>)"
proof -
  note D = server_okD [OF ok, unfolded flights, simplified]
  have same: "server_ok (s\<lparr>ss_db := ss_db s, ss_flights := a @ c\<rparr>)"
    using D by (intro store_dropped [OF ok flights]) (auto simp: list_all_iff)
  have failing: "server_ok (s\<lparr>ss_db := db', ss_flights := a @ c\<rparr>)" if "Fail l (ps_SettlementID p) (ss_db s) = (e, db')" for e db'
    using that
  proof (cases rule: Fail_cases)
    case 2
    then show ?thesis using with_failure_ok [OF D(1)]
      by (intro updated_keeps [OF ok flights, of _ failed_row]) (auto simp: with_failure_def backed_def)
  qed (use same in simp)
  show ?thesis
  proof (cases "\<exists>y. r = Inr y \<and> sp_Success y")
    case True
    then obtain y where y: "r = Inr y" "sp_Success y" by blast
    then obtain e where confirm: "Confirm l p (sp_Transaction y) t (ss_db s) = (e, db)"
      using step by (auto simp: conclude_settlement_def split: prod.splits option.splits)
    from confirm show ?thesis
    proof (cases rule: Confirm_cases)
      case refused
      then show ?thesis using same by simp
    next
      case confirmed
      from D(3) obtain row where "row \<in> set (db_settlements (ss_db s))" "se_pending row = p" "se_status row = StatusPending"
        by (auto simp: pending_in_def)
      then have "store_ok db" using with_confirm_ok [OF D(1)] confirmed(2) by simp
      moreover have "(ps_AssertionID p, Inr y) \<in> set (ss_asked s)" using D(4) y(1) by simp
      ultimately show ?thesis using confirmed(2) y
        by (intro updated_keeps [OF ok flights, of _ "confirmed_row (sp_Transaction y) t"])
          (auto simp: with_confirm_def backed_def assertion_of_row_def)
    qed
  next
    case False
    then obtain e where "Fail l (ps_SettlementID p) (ss_db s) = (e, db)"
      using step by (auto simp: conclude_settlement_def Let_def split: prod.splits sum.splits)
    then show ?thesis by (rule failing)
  qed
qed

lemma settlement_step_keeps:
  assumes "server_ok s" and "settlement_step sv s s'"
  shows "server_ok s'"
  using assms(2)
proof cases
  case (cleared l now newID req p f)
  then show ?thesis using assms(1) by (simp add: server_ok_def)
next
  case (refused l now newID req e f)
  then show ?thesis using assms(1) by (simp add: server_ok_def)
next
  case (claimed i p payload rq l db)
  obtain a c where split: "ss_flights s = a @ Cleared p payload rq # c" "\<And>y. (ss_flights s)[i := y] = a @ y # c"
    using flight_split [OF claimed(2,3)] by metis
  show ?thesis
    using claimed(4)
  proof (cases rule: Begin_cases)
    case claimed: claimed
    then show ?thesis using claim_keeps [OF assms(1) split(1) claimed(3-5)] \<open>s' = _\<close> by (simp add: split(2))
  qed simp
next
  case (unclaimed i p payload rq l e db)
  obtain a c where split: "ss_flights s = a @ Cleared p payload rq # c" "drop_flight i (ss_flights s) = a @ c"
    using flight_split [OF unclaimed(2,3)] by metis
  show ?thesis
    using unclaimed(4)
  proof (cases rule: Begin_cases)
    case refused
    have "server_ok (s\<lparr>ss_db := ss_db s, ss_flights := a @ c\<rparr>)"
      using server_okD [OF assms(1), unfolded split(1), simplified] by (intro store_dropped [OF assms(1) split(1)]) (auto simp: list_all_iff)
    then show ?thesis using unclaimed(1) refused by (simp add: split(2))
  next
    case claimed: claimed
    then show ?thesis using claim_keeps [OF assms(1) split(1) claimed(3-5)] unclaimed(1) by (simp add: split(2))
  qed
next
  case (answered i p payload rq r f)
  obtain a c where "ss_flights s = a @ Claimed p payload rq # c" "\<And>y. (ss_flights s)[i := y] = a @ y # c"
    using flight_split [OF answered(2,3)] by metis
  then show ?thesis using answer_keeps [OF assms(1)] answered(1) by simp
next
  case (concluded i p r l t res db)
  obtain a c where "ss_flights s = a @ Answered_flight p r # c" "drop_flight i (ss_flights s) = a @ c"
    using flight_split [OF concluded(2,3)] by metis
  then show ?thesis using conclude_keeps [OF assms(1) _ concluded(4)] concluded(1) by simp
next
  case (rejected l rj e db)
  then have "db_consumed db = db_consumed (ss_db s)" "db_settlements db = db_settlements (ss_db s)" "db_entries db = db_entries (ss_db s)"
    by (auto simp: RecordRejection_def Let_def split: if_splits)
  then show ?thesis using assms(1) rejected(1)
    by (simp add: server_ok_def store_ok_def entries_of_def pending_in_def [abs_def])
next
  case crash
  then show ?thesis using assms(1) by (simp add: server_ok_def)
qed

lemma fresh_server_ok: "fresh_database db \<Longrightarrow> server_ok (settlement_start db f)"
  by (simp add: fresh_database_def settlement_start_def server_ok_def store_ok_def)

lemma run_ok: "fresh_database db \<Longrightarrow> settlement_run sv (settlement_start db f) s \<Longrightarrow> server_ok s"
  by (rotate_tac 1, induction rule: rtranclp_induct) (auto intro: fresh_server_ok settlement_step_keeps)

section \<open>The life of an assertion\<close>

text \<open>
  What the service promises, without the requests: an assertion is unused until it is claimed, once; a
  claim is confirmed with a transaction or fails, and either is final.
\<close>

type_synonym lifecycle = "string \<Rightarrow> (settlement_status \<times> string option) option"

inductive lifecycle_step :: "lifecycle \<Rightarrow> lifecycle \<Rightarrow> bool" where
  claims: "m a = None \<Longrightarrow> lifecycle_step m (m(a \<mapsto> (StatusPending, None)))"
| confirms: "m a = Some (StatusPending, x) \<Longrightarrow> lifecycle_step m (m(a \<mapsto> (StatusConfirmed, Some tx)))"
| fails: "m a = Some (StatusPending, x) \<Longrightarrow> lifecycle_step m (m(a \<mapsto> (StatusFailed, x)))"

inductive_cases lifecycle_stepE: "lifecycle_step m m'"

definition life_of :: "settlement_row \<Rightarrow> string \<times> (settlement_status \<times> string option)" where
  "life_of r = (assertion_of_row r, (se_status r, se_tx r))"

definition lifecycle_of :: "'f settlement_server \<Rightarrow> lifecycle" where
  "lifecycle_of s = map_of (map life_of (db_settlements (ss_db s)))"

lemma lifecycle_distinct: "store_ok db \<Longrightarrow> distinct (map fst (map life_of (db_settlements db)))"
  by (simp add: store_ok_def life_of_def [abs_def] comp_def)

lemma lifecycle_row:
  "store_ok (ss_db s) \<Longrightarrow> r \<in> set (db_settlements (ss_db s)) \<Longrightarrow> lifecycle_of s (assertion_of_row r) = Some (se_status r, se_tx r)"
proof -
  assume ok: "store_ok (ss_db s)" and r: "r \<in> set (db_settlements (ss_db s))"
  have "map_of (map life_of (db_settlements (ss_db s))) (fst (life_of r)) = Some (snd (life_of r))"
    by (rule map_of_is_SomeI [OF lifecycle_distinct [OF ok]]) (use r in simp)
  moreover have "fst (life_of r) = assertion_of_row r" "snd (life_of r) = (se_status r, se_tx r)" by (simp_all only: life_of_def fst_conv snd_conv)
  ultimately show ?thesis by (simp only: lifecycle_of_def)
qed

lemma lifecycle_update:
  assumes ok: "store_ok db" and row: "q \<in> set (db_settlements db)" "id_of_row q = x" "se_status q = StatusPending"
    and g: "\<And>r. se_pending (g r) = se_pending r"
  shows "map_of (map life_of (update_status x g (db_settlements db))) =
    (map_of (map life_of (db_settlements db)))(assertion_of_row q \<mapsto> (se_status (g q), se_tx (g q)))"
proof (rule ext)
  fix a
  have same: "r = q" if "r \<in> set (db_settlements db)" "id_of_row r = x" for r
    using same_id_same_row [OF ok that(1) row(1)] that(2) row(2) by simp
  have change: "life_of (if ps_SettlementID (se_pending r) = x \<and> se_status r = StatusPending then g r else r) =
      (if r = q then life_of (g q) else life_of r)" if "r \<in> set (db_settlements db)" for r
  proof (cases "r = q")
    case True
    have "ps_SettlementID (se_pending q) = x" using row(2) by (simp only: id_of_row_def)
    then show ?thesis using row(3) True by simp
  next
    case False
    then have "ps_SettlementID (se_pending r) \<noteq> x" using same [OF that] unfolding id_of_row_def by blast
    then show ?thesis using False by simp
  qed
  have keys: "assertion_of_row r \<noteq> assertion_of_row q" if "r \<in> set (db_settlements db)" "r \<noteq> q" for r
    using same_assertion_same_row [OF ok that(1) row(1)] that(2) by blast
  have "map_of (map (\<lambda>r. if r = q then life_of (g q) else life_of r) rows) a =
      (if a = assertion_of_row q \<and> q \<in> set rows then Some (se_status (g q), se_tx (g q)) else map_of (map life_of rows) a)"
    if "set rows \<subseteq> set (db_settlements db)" for rows
    using that by (induction rows) (use keys g in \<open>auto simp: life_of_def assertion_of_row_def\<close>)
  from this [OF order_refl] show "map_of (map life_of (update_status x g (db_settlements db))) a =
      ((map_of (map life_of (db_settlements db)))(assertion_of_row q \<mapsto> (se_status (g q), se_tx (g q)))) a"
    using row(1) change by (simp add: update_status_def comp_def cong: map_cong)
qed

lemma with_claim_lifecycle:
  assumes "store_ok db" and "ps_AssertionID p \<notin> fst ` set (db_consumed db)"
  shows "map_of (map life_of (db_settlements (with_claim p db))) =
    (map_of (map life_of (db_settlements db)))(ps_AssertionID p \<mapsto> (StatusPending, None)) \<and>
    map_of (map life_of (db_settlements db)) (ps_AssertionID p) = None"
proof -
  have new: "ps_AssertionID p \<notin> fst ` set (map life_of (db_settlements db))"
    using assms by (auto simp: store_ok_def life_of_def)
  then have none: "map_of (map life_of (db_settlements db)) (ps_AssertionID p) = None" by (simp add: map_of_eq_None_iff)
  have "life_of (claimed_row p) = (ps_AssertionID p, (StatusPending, None))" by (simp add: life_of_def) (simp add: claimed_row_def)
  then show ?thesis using none by (auto simp: with_claim_def map_add_def fun_eq_iff split: option.splits)
qed

lemma claim_refines:
  assumes "store_ok (ss_db s)" and "Begin l p (ss_db s) = (e, db)" and "ss_db s' = db"
  shows "lifecycle_step\<^sup>*\<^sup>* (lifecycle_of s) (lifecycle_of s')"
  using assms(2)
proof (cases rule: Begin_cases)
  case claimed
  then have "lifecycle_step (lifecycle_of s) (lifecycle_of s')"
    using with_claim_lifecycle [OF assms(1) claimed(3)] lifecycle_step.claims [of "lifecycle_of s" "ps_AssertionID p"]
    by (simp add: lifecycle_of_def assms(3))
  then show ?thesis by simp
qed (simp add: lifecycle_of_def assms(3))

lemma conclude_refines:
  assumes ok: "store_ok (ss_db s)" and pending: "pending_in (ss_db s) p"
    and step: "conclude_settlement l t p r (ss_db s) = (res, db)" and s': "ss_db s' = db"
  shows "lifecycle_step\<^sup>*\<^sup>* (lifecycle_of s) (lifecycle_of s')"
proof -
  from pending obtain q where q: "q \<in> set (db_settlements (ss_db s))" "se_pending q = p" "se_status q = StatusPending"
    by (auto simp: pending_in_def)
  then have id: "id_of_row q = ps_SettlementID p" by (simp add: id_of_row_def)
  have life: "lifecycle_of s (assertion_of_row q) = Some (StatusPending, se_tx q)" using lifecycle_row [OF ok q(1)] q(3) by simp
  note updated = lifecycle_update [OF ok q(1) id q(3)]
  have failing: "lifecycle_step\<^sup>*\<^sup>* (lifecycle_of s) (lifecycle_of s')" if "Fail l (ps_SettlementID p) (ss_db s) = (e, db)" for e
    using that
  proof (cases rule: Fail_cases)
    case 1
    then show ?thesis by (simp add: lifecycle_of_def s')
  next
    case 2
    then have "lifecycle_of s' = (lifecycle_of s)(assertion_of_row q \<mapsto> (StatusFailed, se_tx q))"
      using updated [of failed_row] by (simp add: lifecycle_of_def s' with_failure_def)
    then show ?thesis using lifecycle_step.fails [where m = "lifecycle_of s" and a = "assertion_of_row q", OF life] by simp
  qed
  show ?thesis
  proof (cases "\<exists>y. r = Inr y \<and> sp_Success y")
    case True
    then obtain y where "r = Inr y" "sp_Success y" by blast
    then obtain e where "Confirm l p (sp_Transaction y) t (ss_db s) = (e, db)"
      using step by (auto simp: conclude_settlement_def split: prod.splits option.splits)
    then show ?thesis
    proof (cases rule: Confirm_cases)
      case refused
      then show ?thesis by (simp add: lifecycle_of_def s')
    next
      case confirmed
      then have "lifecycle_of s' = (lifecycle_of s)(assertion_of_row q \<mapsto> (StatusConfirmed, Some (sp_Transaction y)))"
        using updated [of "confirmed_row (sp_Transaction y) t"] by (simp add: lifecycle_of_def s' with_confirm_def)
      then show ?thesis using lifecycle_step.confirms [where m = "lifecycle_of s" and a = "assertion_of_row q", OF life] by (simp add: r_into_rtranclp)
    qed
  next
    case False
    then obtain e where "Fail l (ps_SettlementID p) (ss_db s) = (e, db)"
      using step by (auto simp: conclude_settlement_def Let_def split: prod.splits sum.splits)
    then show ?thesis by (rule failing)
  qed
qed

lemma settlement_step_refines:
  assumes ok: "server_ok s" and step: "settlement_step sv s s'"
  shows "lifecycle_step\<^sup>*\<^sup>* (lifecycle_of s) (lifecycle_of s')"
  using step
proof cases
  case (claimed i p payload rq l db)
  then show ?thesis using claim_refines [OF server_okD(1) [OF ok] claimed(4), of s'] by simp
next
  case (unclaimed i p payload rq l e db)
  then show ?thesis using claim_refines [OF server_okD(1) [OF ok] unclaimed(4), of s'] by simp
next
  case (concluded i p r l t res db)
  obtain a c where "ss_flights s = a @ Answered_flight p r # c" using flight_split [OF concluded(2,3)] by metis
  then have "pending_in (ss_db s) p" using server_okD(3) [OF ok] by simp
  from conclude_refines [OF server_okD(1) [OF ok] this concluded(4), of s'] show ?thesis using concluded(1) by simp
next
  case (rejected l rj e db)
  then have "db_settlements db = db_settlements (ss_db s)" by (auto simp: RecordRejection_def Let_def split: if_splits)
  then show ?thesis using rejected(1) by (simp add: lifecycle_of_def)
qed (simp_all add: lifecycle_of_def)

interpretation settling: refinement "settlement_step sv" lifecycle_step lifecycle_of server_ok
  by unfold_locales (auto intro: settlement_step_refines settlement_step_keeps)

end
