(* ===== verification/Settlement_Books.thy ===== *)
theory Settlement_Books
  imports Settlement_Run
begin

text \<open>
  The properties of the settlement service: what \<open>Settle\<close> confirms and refuses, and what every interleaved
  run leaves in the store.
\<close>

section \<open>One request\<close>

text \<open>A claim that was just made awaits its confirmation.\<close>

lemma awaits_claimed: "awaits (ps_SettlementID p) (db_settlements (with_claim p db))"
  by (simp add: awaits_row with_claim_def)

lemma Begin_None: "Begin l p db = (None, db') \<longleftrightarrow> l = Up \<and> db' = with_claim p db \<and> fst (Begin Up p db) = None"
  by (cases l) (auto simp: Begin_def claim_assertion_def insert_settlement_def with_claim_def claimed_row_def
      split: if_splits option.splits)

lemma Confirm_None:
  "Confirm l p tx t db = (None, db') \<longleftrightarrow>
     l = Up \<and> db' = with_confirm p tx t db \<and> storable tx \<and> awaits (ps_SettlementID p) (db_settlements db)"
  by (cases l) (auto simp: Confirm_def Let_def with_confirm_def confirmed_row_def [abs_def])

lemma conclude_Inr:
  "conclude_settlement l t p r db = (Inr res, db') \<longleftrightarrow>
     (\<exists>a. r = Inr a \<and> sp_Success a \<and> Confirm l p (sp_Transaction a) t db = (None, db') \<and>
        res = \<lparr>re_SettlementID = ps_SettlementID p, re_Status = StatusConfirmed, re_TxHash = sp_Transaction a,
               re_Network = sp_Network a, re_Payer = sp_Payer a, re_CommissionBps = ps_CommissionBps p, re_Split = ps_Split p\<rparr>)"
  by (auto simp: conclude_settlement_def Let_def split: sum.splits prod.splits option.splits)

lemma check_listing_Inr:
  "check_listing req listing = Inr u \<longleftrightarrow>
     InStock listing \<and> ListingCurrency listing = rq_Currency req \<and> PriceCents listing = rq_GrossAmountCents req"
  by (auto simp: check_listing_def)

lemma prepare_Inr:
  "prepare sv l now newID req db f = (Inr p, f') \<longleftrightarrow>
     Verify (sv_check sv) (sv_key sv) (rq_Assertion req) now = None \<and>
     (\<exists>listing v. LookupListing l (ProductID (rq_Assertion req)) (rq_MerchantID req) db = Inr listing \<and>
        InStock listing \<and> ListingCurrency listing = rq_Currency req \<and> PriceCents listing = rq_GrossAmountCents req \<and>
        fc_verify (sv_facilitator sv) (rq_PaymentPayload req) (rq_PaymentRequirements req) f = (Inr v, f') \<and> vr_IsValid v \<and>
        p = pending_settlement newID req (effectiveCommissionBps (CommissionBps (rq_Assertion req)) (ListingBps listing)))"
  by (auto simp: prepare_def Let_def check_listing_Inr split: option.splits sum.splits prod.splits)
    (auto simp: check_listing_def split: if_splits)

text \<open>\<open>Settle\<close> and \<open>handleSettle\<close> are runs of the steps, alone.\<close>

lemma four_steps: "r w x \<Longrightarrow> r x y \<Longrightarrow> r y z \<Longrightarrow> r z v \<Longrightarrow> r\<^sup>*\<^sup>* w v"
  by (meson converse_rtranclp_into_rtranclp r_into_rtranclp)

lemma flightless:
  "ss_flights s = [] \<Longrightarrow> s\<lparr>ss_fac := f, ss_flights := fs, ss_db := db, ss_flights := []\<rparr> = s\<lparr>ss_db := db, ss_fac := f\<rparr>"
  by (cases s) simp

lemma Settle_run:
  assumes "Settle sv wx newID req (ss_db s, ss_fac s) = (res, (db, f))" and "ss_flights s = []"
  shows "\<exists>asked. settlement_run sv s (s\<lparr>ss_db := db, ss_fac := f, ss_asked := asked\<rparr>)"
proof (cases "prepare sv (wx_lookup wx) (wx_now wx) newID req (ss_db s) (ss_fac s)")
  case prep: (Pair r f1)
  show ?thesis
  proof (cases r)
    case (Inl e)
    then have "settlement_step sv s (s\<lparr>ss_fac := f\<rparr>)" "db = ss_db s"
      using assms prep settlement_step.refused [of sv "wx_lookup wx" "wx_now wx" newID req s e f] by (auto simp: Settle_def)
    then show ?thesis by (intro exI [of _ "ss_asked s"]) simp
  next
    case (Inr p)
    let ?c = "s\<lparr>ss_fac := f1, ss_flights := [Cleared p (rq_PaymentPayload req) (rq_PaymentRequirements req)]\<rparr>"
    have cleared: "settlement_step sv s ?c"
      using settlement_step.cleared [of sv "wx_lookup wx" "wx_now wx" newID req s p f1] prep Inr assms(2) by simp
    obtain e db1 where began: "Begin (wx_begin wx) p (ss_db s) = (e, db1)" by fastforce
    show ?thesis
    proof (cases e)
      case (Some x)
      then have "settlement_step sv ?c (?c\<lparr>ss_db := db1, ss_flights := []\<rparr>)"
        using settlement_step.unclaimed [of 0 ?c p "rq_PaymentPayload req" "rq_PaymentRequirements req" "wx_begin wx" x db1 sv]
          began by (simp add: drop_flight_def)
      moreover have "db = db1" "f = f1" using assms(1) prep Inr began Some by (simp_all add: Settle_def)
      ultimately have "settlement_step sv ?c (s\<lparr>ss_db := db, ss_fac := f\<rparr>)" using flightless [OF assms(2)] by metis
      then have "settlement_run sv s (s\<lparr>ss_db := db, ss_fac := f\<rparr>)"
        using cleared by (meson r_into_rtranclp rtranclp.rtrancl_into_rtrancl)
      then show ?thesis by (intro exI [of _ "ss_asked s"]) simp
    next
      case None
      let ?b = "?c\<lparr>ss_db := db1, ss_flights := [Claimed p (rq_PaymentPayload req) (rq_PaymentRequirements req)]\<rparr>"
      have claimed: "settlement_step sv ?c ?b"
        using settlement_step.claimed [of 0 ?c p "rq_PaymentPayload req" "rq_PaymentRequirements req" "wx_begin wx" db1 sv]
          began None by simp
      obtain a f2 where settle: "fc_settle (sv_facilitator sv) (rq_PaymentPayload req) (rq_PaymentRequirements req) f1 = (a, f2)"
        by fastforce
      let ?a = "?b\<lparr>ss_fac := f2, ss_flights := [Answered_flight p a], ss_asked := ss_asked s @ [(ps_AssertionID p, a)]\<rparr>"
      have answered: "settlement_step sv ?b ?a"
        using settlement_step.answered [of 0 ?b p "rq_PaymentPayload req" "rq_PaymentRequirements req" sv a f2] settle by simp
      obtain out db2 where conclude: "conclude_settlement (wx_finish wx) (wx_confirmed wx) p a db1 = (out, db2)" by fastforce
      have "settlement_step sv ?a (?a\<lparr>ss_db := db2, ss_flights := []\<rparr>)"
        using settlement_step.concluded [of 0 ?a p a "wx_finish wx" "wx_confirmed wx" out db2 sv] conclude
        by (simp add: drop_flight_def)
      moreover have "db = db2" "f = f2" using assms(1) prep Inr began None settle conclude by (simp_all add: Settle_def)
      ultimately have "settlement_run sv s (?a\<lparr>ss_db := db, ss_flights := []\<rparr>)"
        using four_steps [of "settlement_step sv", OF cleared claimed answered] by simp
      moreover have "?a\<lparr>ss_db := db, ss_flights := []\<rparr> = s\<lparr>ss_db := db, ss_fac := f2, ss_asked := ss_asked s @ [(ps_AssertionID p, a)]\<rparr>"
        using assms(2) by (cases s) simp
      moreover have "f = f2" using assms(1) prep Inr began None settle conclude by (simp add: Settle_def)
      ultimately have "settlement_run sv s (s\<lparr>ss_db := db, ss_fac := f, ss_asked := ss_asked s @ [(ps_AssertionID p, a)]\<rparr>)" by metis
      then show ?thesis ..
    qed
  qed
qed

lemma handleSettle_run:
  assumes "handleSettle sv wx newID req (ss_db s, ss_fac s) = (answer, (db, f))" and "ss_flights s = []"
  shows "\<exists>asked. settlement_run sv s (s\<lparr>ss_db := db, ss_fac := f, ss_asked := asked\<rparr>)"
proof -
  obtain res db1 f1 where settle: "Settle sv wx newID req (ss_db s, ss_fac s) = (res, (db1, f1))" by (metis prod.exhaust)
  from Settle_run [OF this assms(2)] obtain asked where run: "settlement_run sv s (s\<lparr>ss_db := db1, ss_fac := f1, ss_asked := asked\<rparr>)" by blast
  let ?t = "s\<lparr>ss_db := db1, ss_fac := f1, ss_asked := asked\<rparr>"
  have "db = db1 \<or> (\<exists>l rj. db = snd (RecordRejection l rj db1))" and [simp]: "f = f1"
    using assms(1) settle by (auto simp: handleSettle_def Let_def split: sum.splits prod.splits if_splits)
  moreover have "settlement_step sv ?t (?t\<lparr>ss_db := snd (RecordRejection l rj db1)\<rparr>)" for l rj
    by (rule settlement_step.rejected [of l rj _ "fst (RecordRejection l rj db1)"]) simp
  ultimately have "db = db1 \<or> settlement_step sv ?t (?t\<lparr>ss_db := db\<rparr>)" by auto
  then consider "db = db1" | "settlement_step sv ?t (?t\<lparr>ss_db := db\<rparr>)" by blast
  then have "settlement_run sv s (s\<lparr>ss_db := db, ss_fac := f1, ss_asked := asked\<rparr>)"
  proof cases
    case 2
    have same: "?t\<lparr>ss_db := db\<rparr> = s\<lparr>ss_db := db, ss_fac := f1, ss_asked := asked\<rparr>" by (cases s) simp
    show ?thesis using rtranclp.rtrancl_into_rtrancl [OF run 2] unfolding same .
  qed (use run in simp)
  then show ?thesis by auto
qed

section \<open>Sums\<close>

definition posted_total :: "ledger_entry list \<Rightarrow> int" where
  "posted_total es = (\<Sum>e\<leftarrow>es. sint (en_amount e))"

lemma sint_minus: "0 \<le> sint x \<Longrightarrow> sint (- x) = - sint x" for x :: int64
proof -
  assume "0 \<le> sint x"
  moreover have "sint x < 2 ^ 63" using sint_lt [of x] by simp
  ultimately have "sint (word_of_int (- sint x) :: int64) = - sint x" by (intro sint_in_range) simp_all
  then show ?thesis by (simp add: word_of_int_minus)
qed

lemma ledger_entries_balance: "checks_hold p \<Longrightarrow> posted_total (ledger_entries p) = 0"
  by (simp add: posted_total_def ledger_entries_def Let_def checks_hold_def sint_minus)

lemma posted_balances: "checks_hold (se_pending r) \<Longrightarrow> posted_total (posted r) = 0"
  by (simp add: posted_def ledger_entries_balance) (simp add: posted_total_def)

lemma sum_one_key: "distinct (map k rows) \<Longrightarrow> x \<in> k ` set rows \<Longrightarrow> (\<Sum>r\<leftarrow>rows. if x = k r then n else 0) = (n :: int)"
proof (induction rows)
  case (Cons r rows)
  have "(\<Sum>r\<leftarrow>rows. if x = k r then n else 0) = 0" if "x \<notin> k ` set rows"
    using that by (induction rows) auto
  then show ?case using Cons by (cases "x = k r") auto
qed simp

lemma sum_by_key:
  assumes "distinct (map k rows)" and "\<forall>e \<in> set es. key e \<in> k ` set rows"
  shows "(\<Sum>e\<leftarrow>es. g e) = (\<Sum>r\<leftarrow>rows. \<Sum>e\<leftarrow>filter (\<lambda>e. key e = k r) es. (g e :: int))"
  using assms(2)
proof (induction es)
  case (Cons e es)
  have "(\<Sum>r\<leftarrow>rows. \<Sum>e'\<leftarrow>filter (\<lambda>e. key e = k r) (e # es). g e') =
      (\<Sum>r\<leftarrow>rows. (if key e = k r then g e else 0) + (\<Sum>e'\<leftarrow>filter (\<lambda>e. key e = k r) es. g e'))"
    by (rule arg_cong [where f = sum_list]) simp
  also have "\<dots> = g e + (\<Sum>e\<leftarrow>es. g e)"
    using Cons sum_one_key [OF assms(1), of "key e" "g e"] by (simp add: sum_list_addf)
  finally show ?case by simp
qed simp

lemma store_balances:
  assumes "store_ok db"
  shows "posted_total (db_entries db) = 0"
proof -
  have each: "posted_total (entries_of (id_of_row r) db) = 0" if "r \<in> set (db_settlements db)" for r
    using assms that posted_balances [of r] by (simp add: store_ok_def)
  have "posted_total (db_entries db) = (\<Sum>r\<leftarrow>db_settlements db. posted_total (entries_of (id_of_row r) db))"
    using assms sum_by_key [where k = id_of_row and key = en_settlement and g = "\<lambda>e. sint (en_amount e)" and rows = "db_settlements db" and es = "db_entries db"]
    by (simp add: store_ok_def posted_total_def entries_of_def)
  also have "\<dots> = (\<Sum>r\<leftarrow>db_settlements db. 0)" by (rule arg_cong [where f = sum_list]) (simp add: each)
  finally show ?thesis by simp
qed

section \<open>A service to run\<close>

definition sample_service :: "nat service" where
  "sample_service = \<lparr>sv_check = (\<lambda>_ s _. s = replicate 64 (chr 7)), sv_key = [],
     sv_facilitator = \<lparr>fc_verify = (\<lambda>_ _ n. (Inr \<lparr>vr_IsValid = True, vr_InvalidReason = [], vr_Payer = ''0xb''\<rparr>, n)),
       fc_settle = (\<lambda>_ _ n. (Inr \<lparr>sp_Success = True, sp_ErrorReason = [], sp_Transaction = ''0xt'', sp_Network = ''n'', sp_Payer = ''0xb''\<rparr>, n + 1))\<rparr>\<rparr>"

definition sample_store :: database where
  "sample_store = \<lparr>db_publishers = [''p1''], db_merchants = [''m1''], db_products = [''d1''], db_searches = [''s1''],
     db_listings = [\<lparr>ListingID = ''l1'', ListingProduct = ''d1'', ListingMerchant = ''m1'', PriceCents = 12000,
       ListingCurrency = ''USD'', InStock = True, ListingBps = 500\<rparr>],
     db_consumed = [], db_settlements = [], db_entries = [], db_rejected = []\<rparr>"

definition sample_request :: settle_request where
  "sample_request = \<lparr>rq_Assertion = sample_minted, rq_MerchantID = ''m1'', rq_GrossAmountCents = 12000, rq_Currency = ''USD'',
     rq_PaymentPayload = \<lparr>pp_X402Version = 1, pp_Scheme = ''exact'', pp_Network = ''n'',
       pp_Authorization = \<lparr>auth_From = [], auth_To = [], auth_Value = [], auth_ValidAfter = [], auth_ValidBefore = [], auth_Nonce = []\<rparr>,
       pp_Signature = []\<rparr>,
     rq_PaymentRequirements = \<lparr>pr_Scheme = ''exact'', pr_Network = ''n'', pr_Asset = [], pr_MaxAmountRequired = [], pr_PayTo = [],
       pr_MaxTimeoutSeconds = 60, pr_Resource = [], pr_Description = []\<rparr>\<rparr>"

definition clear_weather :: weather where
  "clear_weather = \<lparr>wx_lookup = Up, wx_begin = Up, wx_finish = Up, wx_reject = Up, wx_now = 1785412800000000000,
     wx_confirmed = 1785412801000000000\<rparr>"

text \<open>The same assertion presented twice.\<close>

definition first_served :: "settle_answer \<times> (database \<times> nat)" where
  "first_served = handleSettle sample_service clear_weather ''x1'' sample_request (sample_store, 0)"

definition second_served :: "settle_answer \<times> (database \<times> nat)" where
  "second_served = handleSettle sample_service clear_weather ''x2'' sample_request (snd first_served)"

lemma served_twice:
  "(case second_served of (answer, (db, asked)) \<Rightarrow>
      (answer, asked, map se_status (db_settlements db), map (sint \<circ> en_amount) (db_entries db), map ra_reason (db_rejected db))) =
   (Refused 409 ''assertion already consumed'' ''assertion_reused'', 1, [StatusConfirmed], [-600, 180, 420], [''assertion_reused''])"
  by code_simp

lemma served_run:
  obtains s where "settlement_run sample_service (settlement_start sample_store 0) s" "ss_db s = fst (snd second_served)"
proof -
  let ?s = "settlement_start sample_store (0 :: nat)"
  obtain answer db f where first: "first_served = (answer, (db, f))" by (metis prod.exhaust)
  then obtain asked where one: "settlement_run sample_service ?s (?s\<lparr>ss_db := db, ss_fac := f, ss_asked := asked\<rparr>)"
    using handleSettle_run [of sample_service clear_weather "''x1''" sample_request ?s answer db f]
    by (auto simp: first_served_def settlement_start_def)
  let ?t = "?s\<lparr>ss_db := db, ss_fac := f, ss_asked := asked\<rparr>"
  obtain answer' db' f' where second: "second_served = (answer', (db', f'))" by (metis prod.exhaust)
  then have "handleSettle sample_service clear_weather ''x2'' sample_request (ss_db ?t, ss_fac ?t) = (answer', (db', f'))"
    by (simp add: second_served_def first)
  from handleSettle_run [OF this]
  obtain asked' where "settlement_run sample_service ?t (?t\<lparr>ss_db := db', ss_fac := f', ss_asked := asked'\<rparr>)"
    by (auto simp: settlement_start_def)
  with one have "settlement_run sample_service ?s (?t\<lparr>ss_db := db', ss_fac := f', ss_asked := asked'\<rparr>)" by (rule rtranclp_trans)
  then show ?thesis by (rule that) (simp add: second)
qed

section \<open>Properties\<close>

text \<open>C1: An assertion settles once.  From an empty store, whatever requests interleave, connections drop or
  crashes happen, the settlements are exactly the consumed assertions, no two share one, and the
  facilitator is asked to settle at most once for each, only for consumed ones.\<close>

theorem assertion_settles_once:
  assumes "fresh_database db" and "settlement_run sv (settlement_start db f) s"
  shows "map assertion_of_row (db_settlements (ss_db s)) = map fst (db_consumed (ss_db s)) \<and>
    distinct (map assertion_of_row (db_settlements (ss_db s))) \<and>
    distinct (map fst (ss_asked s)) \<and> fst ` set (ss_asked s) \<subseteq> fst ` set (db_consumed (ss_db s))"
  using run_ok [OF assms] by (simp add: server_ok_def store_ok_def)

lemma assertion_settles_once_witness:
  "\<exists>s. ss_db s = fst (snd second_served) \<and>
    map assertion_of_row (db_settlements (ss_db s)) = map fst (db_consumed (ss_db s)) \<and>
    distinct (map assertion_of_row (db_settlements (ss_db s))) \<and>
    distinct (map fst (ss_asked (s :: nat settlement_server))) \<and> fst ` set (ss_asked s) \<subseteq> fst ` set (db_consumed (ss_db s))"
proof (rule served_run)
  fix s :: "nat settlement_server"
  assume s: "settlement_run sample_service (settlement_start sample_store 0) s" "ss_db s = fst (snd second_served)"
  have "fresh_database sample_store" by code_simp
  from assertion_settles_once [OF this s(1)] s(2) show ?thesis by blast
qed

text \<open>C15: The ledger follows the settlements.  In every reachable state each settlement's entries are the
  three of its commission when it is confirmed and none otherwise; they sum to zero, and so does the
  whole ledger; and what is confirmed the facilitator answered with success, with the recorded
  transaction.\<close>

theorem ledger_follows_settlements:
  assumes "fresh_database db" and "settlement_run sv (settlement_start db f) s"
  shows "(\<forall>r \<in> set (db_settlements (ss_db s)).
      entries_of (id_of_row r) (ss_db s) = (if se_status r = StatusConfirmed then ledger_entries (se_pending r) else []) \<and>
      posted_total (entries_of (id_of_row r) (ss_db s)) = 0 \<and>
      (se_status r = StatusConfirmed \<longrightarrow> (\<exists>a. (assertion_of_row r, Inr a) \<in> set (ss_asked s) \<and> sp_Success a \<and>
         se_tx r = Some (sp_Transaction a)))) \<and>
    posted_total (db_entries (ss_db s)) = 0"
proof -
  note D = server_okD [OF run_ok [OF assms]]
  show ?thesis
    using D(1,7) store_balances [OF D(1)] posted_balances
    by (simp add: store_ok_def list_all_iff backed_def posted_def [symmetric])
qed

lemma ledger_follows_settlements_witness:
  "\<exists>s. ss_db s = fst (snd second_served) \<and>
    (\<forall>r \<in> set (db_settlements (ss_db s)).
      entries_of (id_of_row r) (ss_db s) = (if se_status r = StatusConfirmed then ledger_entries (se_pending r) else []) \<and>
      posted_total (entries_of (id_of_row r) (ss_db s)) = 0 \<and>
      (se_status r = StatusConfirmed \<longrightarrow> (\<exists>a. (assertion_of_row r, Inr a) \<in> set (ss_asked (s :: nat settlement_server)) \<and> sp_Success a \<and>
         se_tx r = Some (sp_Transaction a)))) \<and>
    posted_total (db_entries (ss_db s)) = 0"
proof (rule served_run)
  fix s :: "nat settlement_server"
  assume s: "settlement_run sample_service (settlement_start sample_store 0) s" "ss_db s = fst (snd second_served)"
  have "fresh_database sample_store" by code_simp
  from ledger_follows_settlements [OF this s(1)] s(2) show ?thesis by blast
qed

text \<open>C16: Every interleaved run refines the life cycle of the assertions: unused until claimed, once, then
  confirmed with a transaction or failed, and never changed again.\<close>

theorem settlement_refines_lifecycle:
  assumes "fresh_database db" and "settlement_run sv (settlement_start db f) s" and "settlement_run sv s s'"
  shows "lifecycle_step\<^sup>*\<^sup>* (lifecycle_of s) (lifecycle_of s') \<and>
    (\<forall>a st x. lifecycle_of s a = Some (st, x) \<longrightarrow> st \<noteq> StatusPending \<longrightarrow> lifecycle_of s' a = Some (st, x))"
proof -
  have ok: "server_ok s" using run_ok [OF assms(1,2)] .
  have steps: "lifecycle_step\<^sup>*\<^sup>* (lifecycle_of s) (lifecycle_of s')" using settling.run_refines [OF assms(3) ok] by blast
  have "m' a = Some (st, x)" if "lifecycle_step\<^sup>*\<^sup>* m m'" "m a = Some (st, x)" "st \<noteq> StatusPending" for m m' a st x
    using that by (induction rule: rtranclp_induct) (auto elim!: lifecycle_stepE)
  with steps show ?thesis by blast
qed

lemma settlement_refines_lifecycle_witness:
  "\<exists>s :: nat settlement_server. ss_db s = fst (snd second_served) \<and>
    lifecycle_step\<^sup>*\<^sup>* (lifecycle_of (settlement_start sample_store (0 :: nat))) (lifecycle_of s) \<and>
    (\<forall>a st x. lifecycle_of (settlement_start sample_store (0 :: nat)) a = Some (st, x) \<longrightarrow> st \<noteq> StatusPending \<longrightarrow>
       lifecycle_of s a = Some (st, x))"
proof (rule served_run)
  fix s :: "nat settlement_server"
  assume s: "settlement_run sample_service (settlement_start sample_store 0) s" "ss_db s = fst (snd second_served)"
  have "fresh_database sample_store" by code_simp
  from settlement_refines_lifecycle [OF this rtranclp.rtrancl_refl s(1)] s(2) show ?thesis by (intro exI [of _ s]) simp
qed

end
