(* ===== verification/Settlement_Bounds.thy ===== *)
theory Settlement_Bounds
  imports Settlement
begin

text \<open>
  Bounds of the settlement service: what a commission is at most, in 64-bit arithmetic that wraps around,
  and where a journalled detail is cut.
\<close>

section \<open>The split\<close>

lemma quotient64_sint: "sint (quotient64 x 10000) = sint x sdiv 10000"
proof -
  have range: "- (2 ^ 63) \<le> sint x" "sint x < 2 ^ 63" using sint_ge [of x] sint_lt [of x] by simp_all
  have "- (2 ^ 63) \<le> sint x sdiv 10000 \<and> sint x sdiv 10000 < 2 ^ 63"
    using range by (auto simp: signed_divide_int_def sgn_if)
  then have "sint (word_of_int (sint x sdiv 10000) :: int64) = sint x sdiv 10000" by (intro sint_in_range) simp_all
  then show ?thesis by (simp add: quotient64_def)
qed

lemma sdiv_nonneg: "0 \<le> n \<Longrightarrow> n sdiv 10000 = n div 10000" for n :: int
  by (auto simp: signed_divide_int_def sgn_if)

lemma sdiv_bound: "n < 2 ^ 63 \<Longrightarrow> n sdiv 10000 \<le> 2 ^ 63 div 10000" for n :: int
  by (auto simp: signed_divide_int_def sgn_if)

text \<open>Even where the product wraps around, the commission is not more than the sale: it wraps only for sales
  so large that no wrapped product divided by ten thousand reaches them.\<close>

lemma commission_at_most_sale:
  assumes "0 \<le> sint gross" and "0 \<le> sint bps" and "sint bps \<le> 10000"
  shows "sint (CommissionAmountCents (CalculateCommission gross bps)) \<le> sint gross"
proof -
  have c: "sint (CommissionAmountCents (CalculateCommission gross bps)) = sint (gross * bps) sdiv 10000"
    by (simp add: CalculateCommission_def Let_def quotient64_sint)
  show ?thesis
  proof (cases "sint gross * sint bps < 2 ^ 63")
    case True
    moreover have nonneg: "0 \<le> sint gross * sint bps" using assms by simp
    ultimately have "sint (word_of_int (sint gross * sint bps) :: int64) = sint gross * sint bps"
      by (intro sint_in_range) simp_all
    then have "sint (gross * bps) = sint gross * sint bps" by (simp add: wi_hom_mult [symmetric])
    moreover have "sint gross * sint bps \<le> sint gross * 10000" using assms by (intro mult_left_mono)
    ultimately show ?thesis using nonneg by (simp add: c sdiv_nonneg)
  next
    case False
    have "sint gross * sint bps \<le> sint gross * 10000" using assms by (intro mult_left_mono)
    then have "2 ^ 63 \<le> sint gross * 10000" using False by simp
    then have "2 ^ 63 div 10000 \<le> sint gross" by simp
    moreover have "sint (gross * bps) sdiv 10000 \<le> 2 ^ 63 div 10000" using sint_lt [of "gross * bps"] by (intro sdiv_bound) simp
    ultimately show ?thesis by (simp add: c)
  qed
qed

lemma effective_at_most:
  "sint (effectiveCommissionBps a b) = min (sint a) (sint b)"
  by (auto simp: effectiveCommissionBps_def word_sless_alt)

section \<open>Cutting a text\<close>

lemma utf8_lead_few: "utf8_lead b = Some (n, lo, hi) \<Longrightarrow> n \<le> 3 \<and> 128 \<le> lo \<and> hi \<le> 191 \<and> 192 \<le> b"
  by (auto simp: utf8_lead_def split: if_splits)

lemma take_conts_count: "take_conts n lo hi bs = (t, r, True) \<Longrightarrow> length t = n"
  by (induction n lo hi bs arbitrary: t rule: take_conts.induct) (auto split: if_splits prod.splits)

lemma conts_not_start:
  assumes "take_conts n lo hi bs = (t, r, ok)" and "128 \<le> lo" and "hi \<le> 191" and "c \<in> set t"
  shows "\<not> rune_start c"
proof -
  have "byte c \<le> (191 :: nat)" "byte c \<ge> (128 :: nat)"
    using take_conts_bytes [OF assms(1,3)] take_conts_high [OF assms(1,2)] assms(4) by auto
  then show ?thesis by (simp add: rune_start_def)
qed

lemma utf8_wf_take:
  assumes "utf8_wf s" and "k \<le> length s" and "k < length s \<Longrightarrow> rune_start (s ! k)"
  shows "utf8_wf (take k s)"
  using assms
proof (induction s arbitrary: k rule: utf8_wf.induct)
  case (2 b bs)
  show ?case
  proof (cases k)
    case (Suc m)
    show ?thesis
    proof (cases "byte b < (128 :: nat)")
      case True
      then show ?thesis using 2 Suc by auto
    next
      case False
      from utf8_wf_cases [OF "2.prems"(1) False] obtain n lo hi t r where lead: "utf8_lead (byte b) = Some (n, lo, hi)"
        and tc: "take_conts n lo hi bs = (t, r, True)" and wf: "utf8_wf r" .
      note few = utf8_lead_few [OF lead]
      have bs: "bs = t @ r" using take_conts_split [OF tc] .
      have "length t \<le> m"
      proof (rule ccontr)
        assume "\<not> length t \<le> m"
        then have "(b # bs) ! k = t ! m" "t ! m \<in> set t" "k < length (b # bs)" by (simp_all add: Suc bs nth_append)
        then show False using "2.prems"(3) conts_not_start [OF tc] few by metis
      qed
      moreover have "utf8_wf (take (m - length t) r)"
      proof (rule "2.IH"(2) [OF False lead _ _ tc [symmetric] refl wf])
        show "m - length t \<le> length r" using "2.prems"(2) by (simp add: Suc bs)
        show "rune_start (r ! (m - length t))" if "m - length t < length r"
          using "2.prems"(3) that \<open>length t \<le> m\<close> by (simp add: Suc bs nth_append)
      qed (rule refl)+
      ultimately show ?thesis
        using False lead take_conts_replace [OF tc] by (simp add: Suc bs)
    qed
  qed simp
qed simp

lemma rune_near:
  assumes "utf8_wf s" and "k < length s"
  shows "\<exists>j \<le> k. k \<le> j + 3 \<and> rune_start (s ! j)"
  using assms
proof (induction s arbitrary: k rule: utf8_wf.induct)
  case (2 b bs)
  show ?case
  proof (cases "byte b < (128 :: nat)")
    case True
    show ?thesis
    proof (cases k)
      case 0
      then show ?thesis using True by (simp add: rune_start_def)
    next
      case (Suc m)
      then obtain j where "j \<le> m" "m \<le> j + 3" "rune_start (bs ! j)" using 2 True by auto
      then show ?thesis by (intro exI [of _ "Suc j"]) (simp add: Suc)
    qed
  next
    case False
    from utf8_wf_cases [OF "2.prems"(1) False] obtain n lo hi t r where lead: "utf8_lead (byte b) = Some (n, lo, hi)"
      and tc: "take_conts n lo hi bs = (t, r, True)" and wf: "utf8_wf r" .
    note few = utf8_lead_few [OF lead]
    have t: "length t \<le> 3" using take_conts_count [OF tc] few by simp
    show ?thesis
    proof (cases "k \<le> length t")
      case True
      then show ?thesis using few t by (intro exI [of _ 0]) (simp add: rune_start_def)
    next
      case False
      then obtain m where k: "k = Suc (length t + m)" by (metis Suc_leI add_Suc_shift le_Suc_ex not_le add_Suc)
      then have "m < length r" using "2.prems"(2) take_conts_split [OF tc] by simp
      then obtain j where "j \<le> m" "m \<le> j + 3" "rune_start (r ! j)"
        using "2.IH"(2) [OF \<open>\<not> byte b < 128\<close> lead refl refl tc [symmetric] refl wf \<open>m < length r\<close>] by blast
      then show ?thesis using take_conts_split [OF tc] by (intro exI [of _ "Suc (length t + j)"]) (simp add: k nth_append)
    qed
  qed
qed simp

lemma cut_at_bounds: "cut_at s k \<le> k" "cut_at s k = 0 \<or> rune_start (s ! cut_at s k)"
  by (induction k) auto

lemma cut_at_last: "j \<le> k \<Longrightarrow> rune_start (s ! j) \<Longrightarrow> j \<le> cut_at s k"
  by (induction k) (auto simp: le_Suc_eq)

lemma truncateDetail_cut:
  assumes "maxRejectionDetail < length s"
  obtains k where "k \<le> maxRejectionDetail" "truncateDetail s = take k s @ ''...''" "k = 0 \<or> rune_start (s ! k)"
    "utf8_wf s \<Longrightarrow> maxRejectionDetail \<le> k + 3"
proof
  show "cut_at s maxRejectionDetail \<le> maxRejectionDetail" by (rule cut_at_bounds)
  show "truncateDetail s = take (cut_at s maxRejectionDetail) s @ ''...''" using assms by (simp add: truncateDetail_def)
  show "cut_at s maxRejectionDetail = 0 \<or> rune_start (s ! cut_at s maxRejectionDetail)" by (rule cut_at_bounds)
  show "maxRejectionDetail \<le> cut_at s maxRejectionDetail + 3" if "utf8_wf s"
    using rune_near [OF that assms] cut_at_last [of _ maxRejectionDetail s] by (meson add_le_mono1 le_trans)
qed

section \<open>Properties\<close>

text \<open>A journalled detail is bounded and stays valid text: it is the whole detail up to 500 bytes, else a
  prefix that ends where a character ends, at most three bytes short of 500, and three dots.\<close>

theorem journal_detail_bounded:
  shows "(length s \<le> 500 \<longrightarrow> truncateDetail s = s) \<and>
    (500 < length s \<longrightarrow> (\<exists>k \<le> 500. truncateDetail s = take k s @ ''...'' \<and> (utf8_wf s \<longrightarrow> 497 \<le> k))) \<and>
    length (truncateDetail s) \<le> 503 \<and> (utf8_wf s \<longrightarrow> utf8_wf (truncateDetail s))"
proof (cases "length s \<le> 500")
  case True
  then show ?thesis by (simp add: truncateDetail_def maxRejectionDetail_def)
next
  case False
  then obtain k where k: "k \<le> 500" "truncateDetail s = take k s @ ''...''" "k = 0 \<or> rune_start (s ! k)" "utf8_wf s \<Longrightarrow> 500 \<le> k + 3"
    using truncateDetail_cut [of s] unfolding maxRejectionDetail_def by (metis not_le)
  have "utf8_wf (take k s)" if "utf8_wf s"
    using utf8_wf_take [OF that, of k] k False by (cases "k = 0") auto
  then show ?thesis using k False by auto
qed

lemma journal_detail_bounded_witness:
  "length (truncateDetail (concat (replicate 200 [chr 226, chr 130, chr 172]))) \<le> 503 \<and>
   utf8_wf (truncateDetail (concat (replicate 200 [chr 226, chr 130, chr 172])))"
proof -
  have "utf8_wf (concat (replicate 200 [chr 226, chr 130, chr 172]))" by code_simp
  with journal_detail_bounded [of "concat (replicate 200 [chr 226, chr 130, chr 172])"] show ?thesis by blast
qed

end
