(* ===== verification/Settlement_Answers.thy ===== *)
theory Settlement_Answers
  imports Settlement_Books Settlement_Bounds Catalog
begin

text \<open>
  What a single settlement request does: when it is confirmed and with what amounts, what a refusal leaves
  behind, and how the merchant's quote meets the service's own look at the listing.
\<close>

section \<open>What \<open>Settle\<close> does\<close>

lemma LookupListing_Up: "LookupListing l p m db = Inr x \<longleftrightarrow> l = Up \<and> LookupListing Up p m db = Inr x"
  by (auto simp: LookupListing_def)

lemma Settle_Inr:
  "Settle sv wx newID req (db, f) = (Inr res, (db', f')) \<longleftrightarrow>
     (\<exists>p f1 a. prepare sv (wx_lookup wx) (wx_now wx) newID req db f = (Inr p, f1) \<and>
        wx_begin wx = Up \<and> fst (Begin Up p db) = None \<and>
        fc_settle (sv_facilitator sv) (rq_PaymentPayload req) (rq_PaymentRequirements req) f1 = (a, f') \<and>
        conclude_settlement (wx_finish wx) (wx_confirmed wx) p a (with_claim p db) = (Inr res, db'))"
  by (auto simp: Settle_def Begin_None split: prod.splits sum.splits option.splits)

abbreviation confirmed_rows :: "database \<Rightarrow> settlement_row list" where
  "confirmed_rows db \<equiv> filter (\<lambda>r. se_status r = StatusConfirmed) (db_settlements db)"

lemma claim_confirms_nothing:
  "db_entries (with_claim p db) = db_entries db" "confirmed_rows (with_claim p db) = confirmed_rows db"
  by (simp_all add: with_claim_def)

lemma failure_confirms_nothing:
  "db_entries (with_failure x db) = db_entries db" "confirmed_rows (with_failure x db) = confirmed_rows db"
proof -
  have "filter (\<lambda>r. se_status r = StatusConfirmed) (update_status x failed_row rows) = filter (\<lambda>r. se_status r = StatusConfirmed) rows" for rows
    by (induction rows) (auto simp: update_status_def)
  then show "db_entries (with_failure x db) = db_entries db" "confirmed_rows (with_failure x db) = confirmed_rows db"
    by (simp_all add: with_failure_def)
qed

lemma Begin_posts_nothing:
  "Begin l p db = (e, db') \<Longrightarrow> db_entries db' = db_entries db \<and> confirmed_rows db' = confirmed_rows db"
  by (erule Begin_cases) (simp_all add: claim_confirms_nothing)

lemma Fail_posts_nothing:
  "Fail l x db = (e, db') \<Longrightarrow> db_entries db' = db_entries db \<and> confirmed_rows db' = confirmed_rows db"
  by (erule Fail_cases) (simp_all add: failure_confirms_nothing)

lemma conclude_posts_nothing:
  assumes "conclude_settlement l t p r db = (Inl e, db')" and "l \<noteq> Lost"
  shows "db_entries db' = db_entries db \<and> confirmed_rows db' = confirmed_rows db"
proof (cases "\<exists>a. r = Inr a \<and> sp_Success a")
  case True
  then obtain a where "r = Inr a" "sp_Success a" by blast
  then obtain x where "Confirm l p (sp_Transaction a) t db = (Some x, db')"
    using assms(1) by (auto simp: conclude_settlement_def split: prod.splits option.splits)
  then show ?thesis using assms(2) by (auto elim: Confirm_cases)
next
  case False
  then obtain x where "Fail l (ps_SettlementID p) db = (x, db')"
    using assms(1) by (auto simp: conclude_settlement_def Let_def split: prod.splits sum.splits)
  then show ?thesis by (rule Fail_posts_nothing)
qed

lemma Settle_posts_nothing:
  assumes "Settle sv wx newID req (db, f) = (Inl e, (db', f'))" and "wx_finish wx \<noteq> Lost"
  shows "db_entries db' = db_entries db \<and> confirmed_rows db' = confirmed_rows db"
proof (cases "prepare sv (wx_lookup wx) (wx_now wx) newID req db f")
  case prep: (Pair r f1)
  show ?thesis
  proof (cases r)
    case (Inl x)
    then show ?thesis using assms(1) prep by (simp add: Settle_def)
  next
    case (Inr p)
    obtain x db1 where began: "Begin (wx_begin wx) p db = (x, db1)" by fastforce
    note before = Begin_posts_nothing [OF began]
    show ?thesis
    proof (cases x)
      case (Some y)
      then show ?thesis using assms(1) prep Inr began before by (simp add: Settle_def)
    next
      case None
      then obtain a where "conclude_settlement (wx_finish wx) (wx_confirmed wx) p a db1 = (Inl e, db')"
        using assms(1) prep Inr began by (auto simp: Settle_def split: prod.splits)
      from conclude_posts_nothing [OF this assms(2)] before show ?thesis by simp
    qed
  qed
qed

text \<open>An error before the claim, or the claim's own refusal, changes nothing.\<close>

definition only_unavailable :: "'f facilitator_client \<Rightarrow> bool" where
  "only_unavailable c \<longleftrightarrow>
     (\<forall>p q f e f'. fc_settle c p q f = (Inl e, f') \<longrightarrow> (\<forall>s. errors_Is e s \<longrightarrow> s = ErrFacilitatorUnavailable))"

lemma Begin_error:
  assumes "Begin l p db = (Some e, db')"
  shows "errors_Is e s \<Longrightarrow> s = ErrAssertionReused \<and> db' = db" and "\<not> (\<exists>s. errors_Is e s) \<or> db' = db"
  using assms by (auto simp: Begin_def split: if_splits option.splits prod.splits bool.splits)

lemma conclude_error:
  assumes "conclude_settlement l t p r db = (Inl e, db')" and "\<And>x s. r = Inl x \<Longrightarrow> errors_Is x s \<Longrightarrow> s = ErrFacilitatorUnavailable"
    and "errors_Is e s"
  shows "s = ErrFacilitatorUnavailable \<or> s = ErrSettlementFailed"
proof -
  have fail: "\<not> errors_Is g s" if "fst (Fail l x db) = Some g" for g x
    using that by (cases l) (auto simp: Fail_def Let_def)
  have confirm: "\<not> errors_Is g s" if "fst (Confirm l p x t db) = Some g" for g x
    using that by (cases l) (auto simp: Confirm_def Let_def split: if_splits)
  show ?thesis
  proof (cases r)
    case (Inl x)
    then have "e = joined x (fst (Fail l (ps_SettlementID p) db))" using assms(1) by (simp add: conclude_settlement_def Let_def split: prod.splits)
    then show ?thesis using assms(2) [OF Inl] assms(3) fail by auto
  next
    case (Inr a)
    show ?thesis
    proof (cases "sp_Success a")
      case True
      then have "fst (Confirm l p (sp_Transaction a) t db) = Some e"
        using assms(1) Inr by (simp add: conclude_settlement_def split: prod.splits option.splits)
      then show ?thesis using confirm assms(3) by blast
    next
      case False
      then have "e = joined (detailed (sentinel_error ErrSettlementFailed) (sp_ErrorReason a)) (fst (Fail l (ps_SettlementID p) db))"
        using assms(1) Inr by (simp add: conclude_settlement_def Let_def split: prod.splits)
      then show ?thesis using assms(3) fail by auto
    qed
  qed
qed

lemma Settle_error_keeps:
  assumes "Settle sv wx newID req (db, f) = (Inl e, (db', f'))" and "only_unavailable (sv_facilitator sv)"
    and "errors_Is e s" and "s \<notin> {ErrFacilitatorUnavailable, ErrSettlementFailed}"
  shows "db' = db"
proof (cases "prepare sv (wx_lookup wx) (wx_now wx) newID req db f")
  case prep: (Pair r f1)
  show ?thesis
  proof (cases r)
    case (Inl x)
    then show ?thesis using assms(1) prep by (simp add: Settle_def)
  next
    case (Inr p)
    obtain x db1 where began: "Begin (wx_begin wx) p db = (x, db1)" by fastforce
    show ?thesis
    proof (cases x)
      case (Some y)
      then have "y = e" "db1 = db'" using assms(1) prep Inr began by (simp_all add: Settle_def)
      then show ?thesis using Begin_error(1) [OF began [unfolded Some], of s] assms(3) by simp
    next
      case None
      obtain a f2 where a: "fc_settle (sv_facilitator sv) (rq_PaymentPayload req) (rq_PaymentRequirements req) f1 = (a, f2)" by fastforce
      then have "conclude_settlement (wx_finish wx) (wx_confirmed wx) p a db1 = (Inl e, db')"
        using assms(1) prep Inr began None by (auto simp: Settle_def split: prod.splits)
      moreover have "s' = ErrFacilitatorUnavailable" if "a = Inl y" "errors_Is y s'" for y s'
        using assms(2) a that unfolding only_unavailable_def by blast
      ultimately have "s = ErrFacilitatorUnavailable \<or> s = ErrSettlementFailed"
        using conclude_error assms(3) by blast
      then show ?thesis using assms(4) by simp
    qed
  qed
qed

lemma statusFor_range:
  "statusFor e \<in> {(409, ''assertion_reused''), (401, ''assertion_expired''), (401, ''assertion_signature_invalid''),
     (404, ''listing_not_found''), (422, ''listing_mismatch''), (402, ''payment_invalid''), (402, ''settlement_failed''),
     (502, ''facilitator_unavailable''), (500, ''internal_error'')}"
  by (simp add: statusFor_def reasonInternalError_def)

lemma statusFor_early:
  assumes "snd (statusFor e) \<notin> {''settlement_failed'', ''facilitator_unavailable'', reasonInternalError}"
  obtains s where "errors_Is e s" "s \<notin> {ErrFacilitatorUnavailable, ErrSettlementFailed}"
  using assms by (simp add: statusFor_def split: if_splits) blast+

lemma RecordRejection_keeps:
  "RecordRejection l r db = (e, db') \<Longrightarrow> db' = db \<or> (\<exists>row. db' = db\<lparr>db_rejected := db_rejected db @ [row]\<rparr>)"
  by (auto simp: RecordRejection_def Let_def split: if_splits)

lemma handleSettle_Refused:
  assumes "handleSettle sv wx newID req (db, f) = (Refused status t reason, (db', f'))"
  obtains e db1 where "Settle sv wx newID req (db, f) = (Inl e, (db1, f'))" "(status, reason) = statusFor e" "t = err_text e"
    "db' = (if reason = reasonInternalError then db1 else snd (RecordRejection (wx_reject wx) (rejection_of req reason e) db1))"
  using assms by (auto simp: handleSettle_def Let_def split: sum.splits prod.splits)

text \<open>Only the handler journals.\<close>

lemma Settle_keeps_journal:
  assumes "Settle sv wx newID req (db, f) = (r, (db', f'))"
  shows "db_rejected db' = db_rejected db"
proof -
  have began: "db_rejected (snd (Begin l p d)) = db_rejected d" for l p d
    by (auto simp: Begin_def claim_assertion_def insert_settlement_def Let_def split: option.split prod.split bool.split)
  have failed: "db_rejected (snd (Fail l x d)) = db_rejected d" for l x d by (simp add: Fail_def Let_def)
  have confirmed: "db_rejected (snd (Confirm l p x t d)) = db_rejected d" for l p x t d by (simp add: Confirm_def Let_def)
  have "db_rejected (snd (conclude_settlement l t p r d)) = db_rejected d" for l t p r d
    using failed [of l "ps_SettlementID p" d] confirmed [of l p _ t d]
    by (auto simp: conclude_settlement_def Let_def split: sum.split prod.split option.split) (metis snd_conv)+
  note kept = began this
  show ?thesis using assms kept
    by (auto simp: Settle_def split: prod.splits sum.splits option.splits) (metis snd_conv)+
qed

section \<open>Properties of one request\<close>

text \<open>C17: \<open>Settle\<close> confirms exactly when the assertion verifies, the listing exists, is in stock and has the
  request's price and currency, the facilitator accepts the payment, the assertion is unused, the
  facilitator settles with a transaction that can be stored, and the database answers at every call; then
  the store has the confirmed settlement and its entries.\<close>

theorem settle_confirms_exactly_when:
  "Settle sv wx newID req (db, f) = (Inr res, (db', f')) \<longleftrightarrow>
     wx_lookup wx = Up \<and> wx_begin wx = Up \<and> wx_finish wx = Up \<and>
     Verify (sv_check sv) (sv_key sv) (rq_Assertion req) (wx_now wx) = None \<and>
     (\<exists>listing v f1 p a.
        LookupListing Up (ProductID (rq_Assertion req)) (rq_MerchantID req) db = Inr listing \<and>
        InStock listing \<and> ListingCurrency listing = rq_Currency req \<and> PriceCents listing = rq_GrossAmountCents req \<and>
        fc_verify (sv_facilitator sv) (rq_PaymentPayload req) (rq_PaymentRequirements req) f = (Inr v, f1) \<and> vr_IsValid v \<and>
        p = pending_settlement newID req (effectiveCommissionBps (CommissionBps (rq_Assertion req)) (ListingBps listing)) \<and>
        fst (Begin Up p db) = None \<and>
        fc_settle (sv_facilitator sv) (rq_PaymentPayload req) (rq_PaymentRequirements req) f1 = (Inr a, f') \<and> sp_Success a \<and>
        storable (sp_Transaction a) \<and>
        db' = with_confirm p (sp_Transaction a) (wx_confirmed wx) (with_claim p db) \<and>
        res = \<lparr>re_SettlementID = newID, re_Status = StatusConfirmed, re_TxHash = sp_Transaction a, re_Network = sp_Network a,
               re_Payer = sp_Payer a, re_CommissionBps = ps_CommissionBps p, re_Split = ps_Split p\<rparr>)"
proof -
  have id: "ps_SettlementID (pending_settlement newID req b) = newID" for b by (simp add: pending_settlement_def)
  show ?thesis
    unfolding Settle_Inr prepare_Inr conclude_Inr Confirm_None LookupListing_Up [of "wx_lookup wx"]
    using awaits_claimed [of "pending_settlement newID req b" db for b] by (auto simp: id)
qed

text \<open>C29: A refusal posts nothing: unless the answer to the confirming transaction is lost, a refused request
  leaves the ledger and the confirmed settlements as they were; one refused for another reason than a
  failed or unheard settlement or an internal error leaves the whole store as it was but for the journal,
  so its assertion is still unused if it was; and status and reason are one of nine pairs.\<close>

theorem refusal_posts_nothing:
  assumes "handleSettle sv wx newID req (db, f) = (Refused status t reason, (db', f'))" and "wx_finish wx \<noteq> Lost"
    and "only_unavailable (sv_facilitator sv)"
  shows "db_entries db' = db_entries db \<and>
    filter (\<lambda>r. se_status r = StatusConfirmed) (db_settlements db') = filter (\<lambda>r. se_status r = StatusConfirmed) (db_settlements db) \<and>
    (reason \<notin> {''settlement_failed'', ''facilitator_unavailable'', ''internal_error''} \<longrightarrow>
       (\<exists>rows. db' = db\<lparr>db_rejected := db_rejected db @ rows\<rparr>)) \<and>
    (status, reason) \<in> {(409, ''assertion_reused''), (401, ''assertion_expired''), (401, ''assertion_signature_invalid''),
     (404, ''listing_not_found''), (422, ''listing_mismatch''), (402, ''payment_invalid''), (402, ''settlement_failed''),
     (502, ''facilitator_unavailable''), (500, ''internal_error'')}"
proof -
  from assms(1) obtain e db1 where settle: "Settle sv wx newID req (db, f) = (Inl e, (db1, f'))" and st: "(status, reason) = statusFor e"
    and db': "db' = (if reason = reasonInternalError then db1 else snd (RecordRejection (wx_reject wx) (rejection_of req reason e) db1))"
    by (rule handleSettle_Refused)
  obtain rows where rows: "db' = db1\<lparr>db_rejected := db_rejected db1 @ rows\<rparr>"
  proof (cases "db' = db1")
    case True
    then show ?thesis by (intro that [of "[]"]) simp
  next
    case False
    then show ?thesis using db' RecordRejection_keeps [of "wx_reject wx" "rejection_of req reason e" db1] that
      by (metis prod.collapse)
  qed
  have "db1 = db" if "reason \<notin> {''settlement_failed'', ''facilitator_unavailable'', ''internal_error''}"
  proof -
    have "snd (statusFor e) = reason" using st by (metis snd_conv)
    with that have "snd (statusFor e) \<notin> {''settlement_failed'', ''facilitator_unavailable'', reasonInternalError}"
      by (simp add: reasonInternalError_def)
    then obtain s where "errors_Is e s" "s \<notin> {ErrFacilitatorUnavailable, ErrSettlementFailed}" by (rule statusFor_early)
    then show ?thesis using Settle_error_keeps [OF settle assms(3)] by blast
  qed
  then have "\<exists>rows. db' = db\<lparr>db_rejected := db_rejected db @ rows\<rparr>"
    if "reason \<notin> {''settlement_failed'', ''facilitator_unavailable'', ''internal_error''}"
    using that rows by blast
  moreover have "db_entries db' = db_entries db \<and> confirmed_rows db' = confirmed_rows db"
    using Settle_posts_nothing [OF settle assms(2)] by (simp add: rows)
  ultimately show ?thesis using statusFor_range [of e] unfolding st by blast
qed

lemma refusal_posts_nothing_witness:
  "\<exists>db' f'. second_served = (Refused 409 ''assertion already consumed'' ''assertion_reused'', (db', f')) \<and>
    (let db = fst (snd first_served) in
    db_entries db' = db_entries db \<and>
    filter (\<lambda>r. se_status r = StatusConfirmed) (db_settlements db') = filter (\<lambda>r. se_status r = StatusConfirmed) (db_settlements db) \<and>
    (''assertion_reused'' \<notin> {''settlement_failed'', ''facilitator_unavailable'', ''internal_error''} \<longrightarrow>
       (\<exists>rows. db' = db\<lparr>db_rejected := db_rejected db @ rows\<rparr>)) \<and>
    (409, ''assertion_reused'') \<in> {(409 :: nat, ''assertion_reused''), (401, ''assertion_expired''), (401, ''assertion_signature_invalid''),
     (404, ''listing_not_found''), (422, ''listing_mismatch''), (402, ''payment_invalid''), (402, ''settlement_failed''),
     (502, ''facilitator_unavailable''), (500, ''internal_error'')})"
proof -
  obtain answer db' f' where second: "second_served = (answer, (db', f'))" by (metis prod.exhaust)
  have answer: "answer = Refused 409 ''assertion already consumed'' ''assertion_reused''" using served_twice by (simp add: second)
  obtain db f where first: "snd first_served = (db, f)" by fastforce
  have "wx_finish clear_weather \<noteq> Lost" by (simp add: clear_weather_def)
  moreover have "only_unavailable (sv_facilitator sample_service)" by (simp add: only_unavailable_def sample_service_def)
  moreover have "handleSettle sample_service clear_weather ''x2'' sample_request (db, f) =
      (Refused 409 ''assertion already consumed'' ''assertion_reused'', (db', f'))"
    using second by (simp add: second_served_def first answer)
  ultimately have facts: "db_entries db' = db_entries db \<and>
      confirmed_rows db' = confirmed_rows db \<and>
      (''assertion_reused'' \<notin> {''settlement_failed'', ''facilitator_unavailable'', ''internal_error''} \<longrightarrow>
         (\<exists>rows. db' = db\<lparr>db_rejected := db_rejected db @ rows\<rparr>))"
    using refusal_posts_nothing [of sample_service clear_weather "''x2''" sample_request db f 409] by metis
  show ?thesis
    unfolding second answer first Let_def fst_conv by (intro exI conjI) (use facts in \<open>(simp; fail | blast)+\<close>)
qed

text \<open>C30: A used assertion is refused with 409 before any value moves: the facilitator is not asked to settle,
  and the store gains only the journal row.\<close>

theorem reused_assertion_refused:
  assumes "prepare sv (wx_lookup wx) (wx_now wx) newID req db f = (Inr p, f1)"
    and "AssertionID (rq_Assertion req) \<in> fst ` set (db_consumed db)" and "wx_begin wx \<noteq> Down" and "wx_reject wx = Up"
    and "storable (AssertionID (rq_Assertion req))" and "storable (PublisherID (rq_Assertion req))"
  shows "handleSettle sv wx newID req (db, f) = (Refused 409 ''assertion already consumed'' ''assertion_reused'',
    (db\<lparr>db_rejected := db_rejected db @
       [\<lparr>ra_publisher = PublisherID (rq_Assertion req), ra_assertion = nullable (AssertionID (rq_Assertion req)),
         ra_merchant = nullable (rq_MerchantID req), ra_reason = ''assertion_reused'',
         ra_detail = Some ''assertion already consumed''\<rparr>]\<rparr>, f1))"
proof -
  from assms(1) obtain listing where
      look: "LookupListing (wx_lookup wx) (ProductID (rq_Assertion req)) (rq_MerchantID req) db = Inr listing"
    and p: "ps_AssertionID p = AssertionID (rq_Assertion req)" "ps_PublisherID p = PublisherID (rq_Assertion req)"
      "ps_ProductID p = ProductID (rq_Assertion req)"
    unfolding prepare_Inr by (auto simp: pending_settlement_def)
  from look have "storable (ProductID (rq_Assertion req))" "storable (rq_MerchantID req)"
    by (auto simp: LookupListing_def split: if_splits)
  then have "Begin (wx_begin wx) p db = (Some (sentinel_error ErrAssertionReused), db)"
    using assms by (simp add: Begin_def claim_assertion_def p)
  then have settle: "Settle sv wx newID req (db, f) = (Inl (sentinel_error ErrAssertionReused), (db, f1))"
    using assms(1) by (simp add: Settle_def)
  have status: "statusFor (sentinel_error ErrAssertionReused) = (409, ''assertion_reused'')" by (simp add: statusFor_def)
  have detail: "truncateDetail ''assertion already consumed'' = ''assertion already consumed''"
    by (simp add: truncateDetail_def maxRejectionDetail_def)
  have texts: "storable ''assertion_reused''" "storable ''assertion already consumed''" by code_simp+
  show ?thesis
    using settle status \<open>storable (rq_MerchantID req)\<close> assms(4-6) texts
    by (simp add: handleSettle_def RecordRejection_def rejection_of_def reasonInternalError_def sentinel_error_def detail) (simp add: nullable_def)
qed

definition sample_used :: database where
  "sample_used = sample_store\<lparr>db_consumed := [(''a1'', ''p1'', ''d1'')]\<rparr>"

lemma sample_used_cleared:
  obtains p where "prepare sample_service Up 1785412800000000000 ''x2'' sample_request sample_used 7 = (Inr p, 7)"
proof -
  have "(case prepare sample_service Up 1785412800000000000 ''x2'' sample_request sample_used 7 of (Inr p, n) \<Rightarrow> n = 7 | _ \<Rightarrow> False)"
    by code_simp
  then show ?thesis using that by (auto split: prod.splits sum.splits)
qed

lemma reused_assertion_refused_witness:
  "handleSettle sample_service clear_weather ''x2'' sample_request (sample_used, 7) =
    (Refused 409 ''assertion already consumed'' ''assertion_reused'',
    (sample_used\<lparr>db_rejected := db_rejected sample_used @
       [\<lparr>ra_publisher = PublisherID (rq_Assertion sample_request), ra_assertion = nullable (AssertionID (rq_Assertion sample_request)),
         ra_merchant = nullable (rq_MerchantID sample_request), ra_reason = ''assertion_reused'',
         ra_detail = Some ''assertion already consumed''\<rparr>]\<rparr>, 7))"
proof (rule sample_used_cleared)
  fix p
  assume prep: "prepare sample_service Up 1785412800000000000 ''x2'' sample_request sample_used 7 = (Inr p, 7)"
  have used: "AssertionID (rq_Assertion sample_request) \<in> fst ` set (db_consumed sample_used)" by code_simp
  have texts: "storable (AssertionID (rq_Assertion sample_request))" "storable (PublisherID (rq_Assertion sample_request))" by code_simp+
  show ?thesis
    by (rule reused_assertion_refused [OF _ used _ _ texts]) (use prep in \<open>simp_all add: clear_weather_def\<close>)
qed

text \<open>C31: What a confirmed settlement pays is bounded: its rate is at most the signed one and at most the
  listing's, the platform's and the publisher's share are not negative and make up the commission, and
  the commission is at most the sale, though the product it is computed from may wrap around.\<close>

theorem confirmed_amounts_bounded:
  assumes "Settle sv wx newID req (db, f) = (Inr res, s')"
  shows "sint (re_CommissionBps res) \<le> sint (CommissionBps (rq_Assertion req)) \<and>
    (\<exists>listing \<in> set (db_listings db). ListingProduct listing = ProductID (rq_Assertion req) \<and>
       ListingMerchant listing = rq_MerchantID req \<and> sint (re_CommissionBps res) \<le> sint (ListingBps listing)) \<and>
    0 \<le> sint (PlatformFeeCents (re_Split res)) \<and> 0 \<le> sint (PublisherAmountCents (re_Split res)) \<and>
    sint (PlatformFeeCents (re_Split res)) + sint (PublisherAmountCents (re_Split res)) = sint (CommissionAmountCents (re_Split res)) \<and>
    sint (CommissionAmountCents (re_Split res)) \<le> sint (rq_GrossAmountCents req)"
proof -
  obtain db' f' where "Settle sv wx newID req (db, f) = (Inr res, (db', f'))" using assms by (cases s') auto
  then obtain p f1 a where prep: "prepare sv (wx_lookup wx) (wx_now wx) newID req db f = (Inr p, f1)"
    and claim: "fst (Begin Up p db) = None" and res: "re_CommissionBps res = ps_CommissionBps p" "re_Split res = ps_Split p"
    unfolding Settle_Inr conclude_Inr by auto
  from prep obtain listing where
      look: "LookupListing (wx_lookup wx) (ProductID (rq_Assertion req)) (rq_MerchantID req) db = Inr listing"
    and p: "p = pending_settlement newID req (effectiveCommissionBps (CommissionBps (rq_Assertion req)) (ListingBps listing))"
    unfolding prepare_Inr by auto
  have row: "listing \<in> set (db_listings db)" "ListingProduct listing = ProductID (rq_Assertion req)" "ListingMerchant listing = rq_MerchantID req"
    using look by (auto simp: LookupListing_def find_Some_iff split: if_splits option.splits)
  have checks: "checks_hold p"
    using claim by (auto simp: Begin_def insert_settlement_def split: if_splits option.splits bool.splits prod.splits)
  have rate: "sint (ps_CommissionBps p) = min (sint (CommissionBps (rq_Assertion req))) (sint (ListingBps listing))"
    by (simp add: p pending_settlement_def effective_at_most)
  have split: "ps_Split p = CalculateCommission (rq_GrossAmountCents req) (ps_CommissionBps p)" "ps_GrossAmountCents p = rq_GrossAmountCents req"
    by (simp_all add: p pending_settlement_def)
  have "sint (CommissionAmountCents (ps_Split p)) \<le> sint (rq_GrossAmountCents req)"
    unfolding split(1) by (rule commission_at_most_sale) (use checks split(2) in \<open>simp_all add: checks_hold_def\<close>)
  then show ?thesis using checks rate row by (auto simp: res checks_hold_def)
qed

lemma confirmed_amounts_bounded_witness:
  "\<exists>res. fst (Settle sample_service clear_weather ''x1'' sample_request (sample_store, 0)) = Inr res \<and>
    sint (re_CommissionBps res) \<le> sint (CommissionBps (rq_Assertion sample_request)) \<and>
    (\<exists>listing \<in> set (db_listings sample_store). ListingProduct listing = ProductID (rq_Assertion sample_request) \<and>
       ListingMerchant listing = rq_MerchantID sample_request \<and> sint (re_CommissionBps res) \<le> sint (ListingBps listing)) \<and>
    0 \<le> sint (PlatformFeeCents (re_Split res)) \<and> 0 \<le> sint (PublisherAmountCents (re_Split res)) \<and>
    sint (PlatformFeeCents (re_Split res)) + sint (PublisherAmountCents (re_Split res)) = sint (CommissionAmountCents (re_Split res)) \<and>
    sint (CommissionAmountCents (re_Split res)) \<le> sint (rq_GrossAmountCents sample_request)"
proof -
  have "(case fst (Settle sample_service clear_weather ''x1'' sample_request (sample_store, 0)) of Inr r \<Rightarrow> True | _ \<Rightarrow> False)" by code_simp
  then obtain res s' where settle: "Settle sample_service clear_weather ''x1'' sample_request (sample_store, 0) = (Inr res, s')"
    by (metis (no_types, lifting) prod.collapse sum.case_eq_if sum.collapse(2))
  from confirmed_amounts_bounded [OF this] show ?thesis by (simp only: settle fst_conv) blast
qed

section \<open>The merchant's quote\<close>

text \<open>The merchant reads the same table of listings; \<open>title\<close> stands for the column the service does not read.\<close>

definition catalog_row :: "(Listing \<Rightarrow> string) \<Rightarrow> Listing \<Rightarrow> stored_listing" where
  "catalog_row title l =
     \<lparr>st_listing_id = ListingID l, st_product_id = ListingProduct l, st_merchant_id = ListingMerchant l,
      st_listing_title = title l, st_price_cents = sint (PriceCents l), st_currency = ListingCurrency l,
      st_in_stock = InStock l\<rparr>"

lemma LookupListing_unique:
  assumes "distinct (map (\<lambda>l. (ListingProduct l, ListingMerchant l)) (db_listings db))" and "l \<in> set (db_listings db)"
    and "storable (ListingProduct l)" and "storable (ListingMerchant l)"
  shows "LookupListing Up (ListingProduct l) (ListingMerchant l) db = Inr l"
proof -
  let ?P = "\<lambda>r. ListingProduct r = ListingProduct l \<and> ListingMerchant r = ListingMerchant l"
  have "r = l" if "r \<in> set (db_listings db)" "?P r" for r
    using assms(1,2) that by (auto simp: distinct_map dest: inj_onD)
  moreover obtain q where q: "List.find ?P (db_listings db) = Some q" using assms(2) by (cases "List.find ?P (db_listings db)") (auto simp: find_None_iff)
  moreover have "q \<in> set (db_listings db)" "?P q" using q by (auto simp: find_Some_iff)
  ultimately have "List.find ?P (db_listings db) = Some l" by simp
  then show ?thesis using assms(3,4) by (simp add: LookupListing_def)
qed

text \<open>C28: Where each merchant lists a product once, the merchant's quote is the listing the settlement service
  checks: it finds the product at the quoted merchant with the quoted price, currency and stock, so a
  request for the quoted amount passes its check exactly when the quote was in stock.\<close>

theorem quoted_listing_settles:
  assumes "distinct (map (\<lambda>l. (ListingProduct l, ListingMerchant l)) (db_listings db))"
    and "set table = catalog_row title ` set (db_listings db)" and "priced table"
    and "list_all (\<lambda>l. storable (ListingProduct l) \<and> storable (ListingMerchant l)) (db_listings db)"
    and "fst (findListing (select_listings table) merchant (JStr product) w) = Inr (Some quoted)"
  shows "\<exists>listing. LookupListing Up product (merchantId quoted) db = Inr listing \<and>
    priceCents quoted = num_of_int (sint (PriceCents listing)) \<and> currency quoted = ListingCurrency listing \<and>
    (check_listing (req\<lparr>rq_GrossAmountCents := PriceCents listing, rq_Currency := currency quoted\<rparr>) listing = Inr () \<longleftrightarrow> inStock quoted)"
proof -
  from assms(5) obtain r where r: "first_listed (filter (wanted_row merchant product) table) = Some r"
    and quoted: "quoted = listing_of (row_of r)" by (auto simp: findListing_table)
  have row: "r \<in> set table" "st_product_id r = product" using first_listed_Some [OF r] by (auto simp: wanted_row_def)
  then obtain l where l: "l \<in> set (db_listings db)" "r = catalog_row title l" using assms(2) by auto
  have "storable (ListingProduct l)" "storable (ListingMerchant l)" using assms(4) l(1) by (auto simp: list_all_iff)
  from LookupListing_unique [OF assms(1) l(1) this]
  have look: "LookupListing Up product (merchantId quoted) db = Inr l" using row(2) by (simp add: quoted l(2)) (simp add: catalog_row_def)
  moreover have "priceCents quoted = num_of_int (st_price_cents r)"
    unfolding quoted by (rule price_of_row) (use assms(3) row(1) in \<open>auto simp: priced_def\<close>)
  then have "priceCents quoted = num_of_int (sint (PriceCents l))" by (simp add: l(2) catalog_row_def)
  moreover have "currency quoted = ListingCurrency l" by (simp add: quoted l(2) listing_of_def row_of_def catalog_row_def)
  moreover have "inStock quoted = InStock l" by (simp add: quoted l(2)) (simp add: catalog_row_def)
  ultimately show ?thesis by (intro exI [of _ l]) (simp add: check_listing_Inr)
qed

lemma quoted_listing_settles_witness:
  "\<exists>quoted. fst (findListing (select_listings (map (catalog_row (\<lambda>_. ''t'')) (db_listings sample_store))) [] (JStr ''d1'') ()) = Inr (Some quoted) \<and>
    (\<exists>listing. LookupListing Up ''d1'' (merchantId quoted) sample_store = Inr listing \<and>
    priceCents quoted = num_of_int (sint (PriceCents listing)) \<and> currency quoted = ListingCurrency listing \<and>
    (check_listing (sample_request\<lparr>rq_GrossAmountCents := PriceCents listing, rq_Currency := currency quoted\<rparr>) listing = Inr () \<longleftrightarrow> inStock quoted))"
proof -
  let ?table = "map (catalog_row (\<lambda>_. ''t'')) (db_listings sample_store)"
  obtain quoted where quoted: "fst (findListing (select_listings ?table) [] (JStr ''d1'') ()) = Inr (Some quoted)"
    by (simp add: findListing_table sample_store_def wanted_row_def catalog_row_def)
  have "distinct (map (\<lambda>l. (ListingProduct l, ListingMerchant l)) (db_listings sample_store))" by (simp add: sample_store_def)
  moreover have "set ?table = catalog_row (\<lambda>_. ''t'') ` set (db_listings sample_store)" by simp
  moreover have "priced ?table" by (simp add: priced_def sample_store_def catalog_row_def)
  moreover have "list_all (\<lambda>l. storable (ListingProduct l) \<and> storable (ListingMerchant l)) (db_listings sample_store)" by code_simp
  ultimately show ?thesis using quoted quoted_listing_settles [of sample_store ?table "\<lambda>_. ''t''" "[]" "''d1''" "()" quoted sample_request] by blast
qed

text \<open>The schema does not say so: with two listings of a product at one merchant, the merchant quotes the
  cheaper and the service may look at the other.\<close>

definition twice_listed :: database where
  "twice_listed = sample_store\<lparr>db_listings := [\<lparr>ListingID = ''l0'', ListingProduct = ''d1'', ListingMerchant = ''m1'', PriceCents = 15000,
     ListingCurrency = ''USD'', InStock = True, ListingBps = 500\<rparr>] @ db_listings sample_store\<rparr>"

lemma quote_refused:
  "\<exists>quoted listing. fst (findListing (select_listings (map (catalog_row (\<lambda>_. ''t'')) (db_listings twice_listed))) [] (JStr ''d1'') ()) = Inr (Some quoted) \<and>
     priceCents quoted = num_of_int (sint (rq_GrossAmountCents sample_request)) \<and> merchantId quoted = rq_MerchantID sample_request \<and>
     LookupListing Up ''d1'' (merchantId quoted) twice_listed = Inr listing \<and> check_listing sample_request listing \<noteq> Inr ()"
proof -
  have "LookupListing Up ''d1'' ''m1'' twice_listed = Inr (hd (db_listings twice_listed))" by code_simp
  moreover have "check_listing sample_request (hd (db_listings twice_listed)) \<noteq> Inr ()"
    by (simp add: check_listing_def twice_listed_def sample_request_def)
  ultimately show ?thesis
    by (simp add: findListing_table twice_listed_def sample_store_def wanted_row_def catalog_row_def listed_before_def
        price_of_row) (simp add: sample_request_def)
qed

end
