(* ===== verification/Demo.thy ===== *)
theory Demo
  imports Driver
begin

text \<open>
  \<open>simulator/src/index.ts\<close>: the demonstration on the console.  A script acts on a \<open>console\<close>: the world
  its requests act on, what it has printed, and (for the smoke test) its counters.  viem's key and
  account are the parameters \<open>generated\<close> and \<open>account_of\<close>; the clock and the random bytes of each
  signature are arguments.
\<close>

section \<open>Scripts\<close>

datatype entry = Log string | Error string | Error_value exn

record 'w console =
  cn_world :: 'w
  cn_log :: "entry list"
  cn_checks :: nat
  cn_failures :: nat

type_synonym ('w, 'a) script = "('w console, exn, 'a) io"

definition say :: "string \<Rightarrow> ('w, unit) script" where
  "say s = (\<lambda>c. (Inr (), c\<lparr>cn_log := cn_log c @ [Log s]\<rparr>))"

definition complain :: "entry \<Rightarrow> ('w, unit) script" where
  "complain e = (\<lambda>c. (Inr (), c\<lparr>cn_log := cn_log c @ [e]\<rparr>))"

definition on_world :: "('w, exn, 'a) io \<Rightarrow> ('w, 'a) script" where
  "on_world m = (\<lambda>c. case m (cn_world c) of (r, w) \<Rightarrow> (r, c\<lparr>cn_world := w\<rparr>))"

definition after :: "('w, unit) script \<Rightarrow> ('w, 'a) script \<Rightarrow> ('w, 'a) script" where
  "after m k = bind_io m (\<lambda>_. k)"

definition blank :: "'w \<Rightarrow> 'w console" where
  "blank w = \<lparr>cn_world = w, cn_log = [], cn_checks = 0, cn_failures = 0\<rparr>"

lemma say_apply [io_simps]: "say s c = (Inr (), c\<lparr>cn_log := cn_log c @ [Log s]\<rparr>)"
  by (simp add: say_def)

lemma complain_apply [io_simps]: "complain e c = (Inr (), c\<lparr>cn_log := cn_log c @ [e]\<rparr>)"
  by (simp add: complain_def)

lemma on_world_apply [io_simps]:
  "on_world m c = (case m (cn_world c) of (r, w) \<Rightarrow> (r, c\<lparr>cn_world := w\<rparr>))"
  by (simp add: on_world_def)

lemma after_apply [io_simps]: "after m k c = (case m c of (Inl e, c') \<Rightarrow> (Inl e, c') | (Inr u, c') \<Rightarrow> k c')"
  by (simp add: after_def bind_io_def)

section \<open>The demonstration\<close>

definition DEMO_GATEWAY :: string where
  "DEMO_GATEWAY = ''http://localhost:8080''"

definition DEFAULT_QUERY :: string where
  "DEFAULT_QUERY = ''trail running shoes''"

definition DEFAULT_PUBLISHER :: string where
  "DEFAULT_PUBLISHER = ''pub_000001''"

definition new_line :: string where
  "new_line = [chr 10]"

definition pad_end :: "nat \<Rightarrow> string \<Rightarrow> string" where
  "pad_end n s = s @ replicate (n - length s) (CHR '' '')"

definition line :: "string \<Rightarrow> js \<Rightarrow> ('w, unit) script" where
  "line label v = say (''  '' @ pad_end 26 label @ '' '' @ to_text v)"

text \<open>A line that reads a field of a value that may be null.\<close>

definition line_of :: "string \<Rightarrow> js \<Rightarrow> string \<Rightarrow> (js \<Rightarrow> js) \<Rightarrow> ('w, unit) script" where
  "line_of label v k f = bind_io (lift (get v k)) (\<lambda>x. line label (f x))"

definition reportChain :: "selection \<Rightarrow> js \<Rightarrow> ('w, unit) script" where
  "reportChain s f =
     after (say (new_line @ ''Attribution chain''))
     (after (line ''search request'' (get_opt (sel_assertion s) ''search_request_id''))
     (after (line ''assertion'' (get_opt (sel_assertion s) ''assertion_id''))
     (after (line_of ''product'' f ''product_id''
       (\<lambda>p. JStr (to_text (get_opt (sel_product s) ''canonical_title'') @ '' ('' @ to_text p @ '')'')))
     (after (line ''merchant'' (get_opt (sel_offer s) ''merchant_id''))
     (after (line_of ''paid'' f ''amount_cents'' (\<lambda>v. JStr (cents_text v)))
     (after (line_of ''settlement'' f ''settlement_id'' id)
     (after (line_of ''transaction'' f ''tx_hash'' id)
     (after (line_of ''attributed publisher'' f ''attributed_publisher_id'' id)
       (line_of ''publisher commission'' f ''publisher_commission_cents'' (\<lambda>v. JStr (cents_text v)))))))))))"

text \<open>The replay of a spent assertion; the value is the exit code.\<close>

definition replay ::
    "'w fetch \<Rightarrow> agent \<Rightarrow> selection \<Rightarrow> number \<Rightarrow> bytes \<Rightarrow> ('w, exn, js) io" where
  "replay fetch agent s now bytes =
     bind_io (requestChallenge fetch agent (get_opt (sel_product s) ''product_id'')) (\<lambda>requirements.
     bind_io (lift (signAuthorization agent requirements now bytes)) (\<lambda>payment.
       completePurchase fetch agent (get_opt (sel_product s) ''product_id'') (sel_assertion s) payment))"

definition replay_refused :: "exn \<Rightarrow> ('w, nat) script" where
  "replay_refused e =
     (case e of
        Agent_error m status body \<Rightarrow>
          if status = 409
          then bind_io (lift (get body ''reason'')) (\<lambda>reason.
            after (line ''rejected with'' (JStr (nat_text status @ '' '' @ to_text (nullish reason (JStr [])))))
            (after (say (new_line @ ''Done.'')) (ret 0)))
          else after (complain (Error ''  FAILED: the replay was rejected for the wrong reason''))
            (after (complain (Error_value e)) (ret 1))
      | _ \<Rightarrow> after (complain (Error ''  FAILED: the replay was rejected for the wrong reason''))
            (after (complain (Error_value e)) (ret 1)))"

definition demo_replay :: "'w fetch \<Rightarrow> agent \<Rightarrow> selection \<Rightarrow> number \<Rightarrow> bytes \<Rightarrow> ('w, nat) script" where
  "demo_replay fetch agent s now bytes =
     catch_io
       (bind_io (on_world (replay fetch agent s now bytes)) (\<lambda>_.
         after (complain (Error ''  FAILED: the replay succeeded, so single-use enforcement is broken'')) (ret 1)))
       replay_refused"

definition demo ::
    "'w fetch \<Rightarrow> (string \<Rightarrow> string option) \<Rightarrow> string option \<Rightarrow> string
      \<Rightarrow> (string \<Rightarrow> (string \<times> (typed_data \<Rightarrow> string result)) result) \<Rightarrow> number \<times> bytes \<Rightarrow> number \<times> bytes \<Rightarrow> ('w, nat) script" where
  "demo fetch penv argument generated account_of first second =
     bind_io (lift (account_of (env_or penv ''AGENT_PRIVATE_KEY'' generated))) (\<lambda>(address, sign).
     let agent = new_agent (env_or penv ''GATEWAY_URL'' DEMO_GATEWAY) address sign;
         query = (case argument of Some q \<Rightarrow> q | None \<Rightarrow> env_or penv ''DEMO_QUERY'' DEFAULT_QUERY);
         publisher = env_or penv ''DEMO_PUBLISHER_ID'' DEFAULT_PUBLISHER in
     after (say (''Agent '' @ address))
     (after (say (''Searching '' @ [chr 34] @ query @ [chr 34] @ '' as publisher '' @ publisher))
     (bind_io (on_world (agent_purchase fetch agent query publisher (fst first) (snd first))) (\<lambda>(s, f).
       after (reportChain s f)
       (after (say (new_line @ ''Replaying the same assertion, which must fail''))
         (demo_replay fetch agent s (fst second) (snd second)))))))"

section \<open>Lemmas\<close>

text \<open>The exit code is zero only after a 409 to the replay.\<close>

lemma replay_refused_zero:
  "replay_refused e c = (Inr 0, c') \<Longrightarrow> \<exists>m body. e = Agent_error m 409 body"
  by (cases e) (auto simp: replay_refused_def io_simps split: if_splits sum.splits prod.splits)

lemma demo_replay_zero:
  assumes "demo_replay fetch agent s now bytes c = (Inr 0, c')"
  shows "\<exists>m body w. replay fetch agent s now bytes (cn_world c) = (Inl (Agent_error m 409 body), w)"
proof -
  obtain r w where r: "replay fetch agent s now bytes (cn_world c) = (r, w)" by force
  show ?thesis
  proof (cases r)
    case (Inl e)
    then have "replay_refused e (c\<lparr>cn_world := w\<rparr>) = (Inr 0, c')"
      using assms r by (simp add: demo_replay_def io_simps)
    from replay_refused_zero [OF this] r Inl show ?thesis by blast
  next
    case (Inr v)
    then show ?thesis using assms r by (simp add: demo_replay_def io_simps)
  qed
qed

end
