(* ===== verification/Smoke.thy ===== *)
theory Smoke
  imports Demo
begin

text \<open>
  \<open>simulator/src/smoke.ts\<close>: the end-to-end check of a running system, as a script on the console.
  \<open>Date.now()\<close> and \<open>setTimeout\<close> are the parameters \<open>clock\<close> and \<open>sleep\<close> on the world; a wait polls at
  most \<open>fuel\<close> times and is \<open>None\<close> if it has not ended by then, and \<open>ready_terminates\<close> says when that
  cannot happen.  Each \<open>check\<close> of the source is one definition, in its order.
\<close>

section \<open>Operators\<close>

definition js_add :: "js \<Rightarrow> js \<Rightarrow> js" where
  "js_add a b =
     (case (primitive a, primitive b) of
        (JStr s, y) \<Rightarrow> JStr (s @ to_text y)
      | (x, JStr t) \<Rightarrow> JStr (to_text x @ t)
      | (x, y) \<Rightarrow> JNum (num_add (to_number x) (to_number y)))"

fun num_le :: "number \<Rightarrow> number \<Rightarrow> bool" where
  "num_le NaN y = False"
| "num_le x NaN = False"
| "num_le x y = (\<not> num_less y x)"

definition js_le :: "js \<Rightarrow> js \<Rightarrow> bool" where
  "js_le a b =
     (case (primitive a, primitive b) of
        (JStr s, JStr t) \<Rightarrow> \<not> text_less t s
      | (x, y) \<Rightarrow> num_le (to_number x) (to_number y))"

fun math_round :: "number \<Rightarrow> number" where
  "math_round (Fin x) = Fin (of_int \<lfloor>x + 1 / 2\<rfloor>)"
| "math_round n = n"

fun math_abs :: "number \<Rightarrow> number" where
  "math_abs (Fin x) = Fin \<bar>x\<bar>"
| "math_abs NegInf = PosInf"
| "math_abs n = n"

text \<open>\<open>v.length\<close>; a text counts UTF-16 units: none for a continuation byte, two for the lead of four.\<close>

fun utf16_units :: "char \<Rightarrow> nat" where
  "utf16_units c = (if 128 \<le> byte c \<and> byte c < (192 :: nat) then 0 else if byte c \<ge> (240 :: nat) then 2 else 1)"

definition text_length :: "string \<Rightarrow> nat" where
  "text_length s = sum_list (map utf16_units s)"

fun js_length :: "js \<Rightarrow> js result" where
  "js_length (JArr vs) = Inr (jint (int (length vs)))"
| "js_length (JStr s) = Inr (jint (int (text_length s)))"
| "js_length v = get v ''length''"

text \<open>\<open>const { k } = what\<close>.\<close>

definition destructure :: "string \<Rightarrow> string \<Rightarrow> js \<Rightarrow> js result" where
  "destructure what k v =
     (case get v k of
        Inr x \<Rightarrow> Inr x
      | Inl _ \<Rightarrow> Inl (Type_error (''Cannot destructure property '' @ quoted_name k @ '' of '' @ quoted_name what @
          '' as it is '' @ to_text v @ ''.'')))"

text \<open>\<open>s.includes(part)\<close>.\<close>

definition contains_text :: "string \<Rightarrow> string \<Rightarrow> bool" where
  "contains_text s part = list_ex (\<lambda>n. starts_with part (drop n s)) [0..<length s + 1]"

section \<open>Reporting\<close>

definition READY_TIMEOUT_MS :: int where
  "READY_TIMEOUT_MS = 120000"

definition READY_POLL_MS :: int where
  "READY_POLL_MS = 2000"

record smoke_config =
  sm_gatewayUrl :: string
  sm_settlementUrl :: string
  sm_dashboardUrl :: string
  sm_searchUrl :: string
  sm_query :: string
  sm_publisherId :: string

definition smoke_config_of :: "(string \<Rightarrow> string option) \<Rightarrow> smoke_config" where
  "smoke_config_of penv =
     \<lparr>sm_gatewayUrl = env_or penv ''GATEWAY_URL'' ''http://localhost:8080'',
      sm_settlementUrl = env_or penv ''SETTLEMENT_URL'' ''http://localhost:8082'',
      sm_dashboardUrl = env_or penv ''DASHBOARD_URL'' ''http://localhost:8000'',
      sm_searchUrl = env_or penv ''SEARCH_URL'' ''http://localhost:8081'',
      sm_query = env_or penv ''DEMO_QUERY'' ''trail running shoes'',
      sm_publisherId = env_or penv ''DEMO_PUBLISHER_ID'' ''pub_000001''\<rparr>"

definition pass :: "string \<Rightarrow> string \<Rightarrow> 'w console \<Rightarrow> 'w console" where
  "pass name detail c =
     c\<lparr>cn_checks := cn_checks c + 1,
       cn_log := cn_log c @ [Log (''  PASS  '' @ name @ (if detail = [] then [] else ''  ('' @ detail @ '')''))]\<rparr>"

definition fail :: "string \<Rightarrow> string \<Rightarrow> 'w console \<Rightarrow> 'w console" where
  "fail name reason c =
     c\<lparr>cn_checks := cn_checks c + 1, cn_failures := cn_failures c + 1,
       cn_log := cn_log c @ [Log (''  FAIL  '' @ name), Log (''        '' @ reason)]\<rparr>"

definition expect_that :: "string \<Rightarrow> bool \<Rightarrow> string \<Rightarrow> string \<Rightarrow> 'w console \<Rightarrow> 'w console" where
  "expect_that name condition reason detail c = (if condition then pass name detail c else fail name reason c)"

text \<open>\<open>JSON.stringify(undefined)\<close> prints as \<open>undefined\<close> in a template.\<close>

definition describe :: "exn \<Rightarrow> string" where
  "describe e =
     (case e of
        Agent_error m status body \<Rightarrow>
          m @ '' (HTTP '' @ nat_text status @ '') '' @ (if body = JUndef then ''undefined'' else stringify body)
      | _ \<Rightarrow> message e)"

text \<open>\<open>check\<close> with a body that returns the detail; the body's value is kept for the caller.\<close>

definition check_with :: "string \<Rightarrow> ('w, exn, 'a) io \<Rightarrow> ('a \<Rightarrow> string) \<Rightarrow> 'w console \<Rightarrow> 'a option \<times> 'w console" where
  "check_with name body detail c =
     (case body (cn_world c) of
        (Inr x, w) \<Rightarrow> (Some x, pass name (detail x) (c\<lparr>cn_world := w\<rparr>))
      | (Inl e, w) \<Rightarrow> (None, fail name (describe e) (c\<lparr>cn_world := w\<rparr>)))"

definition check :: "string \<Rightarrow> ('w, exn, string) io \<Rightarrow> 'w console \<Rightarrow> 'w console" where
  "check name body c = snd (check_with name body id c)"

definition get_request :: "string \<Rightarrow> http_request" where
  "get_request url = \<lparr>rq_method = ''GET'', rq_url = url, rq_headers = [], rq_body = []\<rparr>"

definition getText :: "'w fetch \<Rightarrow> string \<Rightarrow> ('w, exn, string) io" where
  "getText fetch url =
     bind_io (fetch (get_request url)) (\<lambda>response.
       if \<not> response_ok response
       then lift (Inl (Plain_error (''GET '' @ url @ '' returned '' @ nat_text (rs_status response))))
       else ret (text_decode (rs_body response)))"

definition getJSON :: "'w fetch \<Rightarrow> string \<Rightarrow> ('w, exn, js) io" where
  "getJSON fetch url =
     bind_io (fetch (get_request url)) (\<lambda>response.
       if \<not> response_ok response
       then lift (Inl (Plain_error (''GET '' @ url @ '' returned '' @ nat_text (rs_status response))))
       else lift (response_json response))"

definition refuse_with :: "string \<Rightarrow> ('w, exn, 'a) io" where
  "refuse_with reason = lift (Inl (Plain_error reason))"

section \<open>Readiness\<close>

record 'w machine =
  ma_fetch :: "'w fetch"
  ma_clock :: "'w \<Rightarrow> int"
  ma_sleep :: "int \<Rightarrow> 'w \<Rightarrow> 'w"

fun ready_loop :: "'w machine \<Rightarrow> nat \<Rightarrow> int \<Rightarrow> string \<Rightarrow> string \<Rightarrow> string \<Rightarrow> 'w \<Rightarrow> (unit result \<times> 'w) option" where
  "ready_loop ma 0 until name url lastError w = None"
| "ready_loop ma (Suc fuel) until name url lastError w =
     (if ma_clock ma w < until
      then
        (case ma_fetch ma (get_request url) w of
           (Inr response, w') \<Rightarrow>
             if response_ok response then Some (Inr (), w')
             else ready_loop ma fuel until name url (''status '' @ nat_text (rs_status response))
                    (ma_sleep ma READY_POLL_MS w')
         | (Inl e, w') \<Rightarrow> ready_loop ma fuel until name url (message e) (ma_sleep ma READY_POLL_MS w'))
      else Some (Inl (Plain_error (name @ '' never became ready at '' @ url @ '': '' @ lastError)), w))"

definition waitForReady :: "'w machine \<Rightarrow> nat \<Rightarrow> string \<Rightarrow> string \<Rightarrow> 'w \<Rightarrow> (unit result \<times> 'w) option" where
  "waitForReady ma fuel name url w =
     ready_loop ma fuel (ma_clock ma w + READY_TIMEOUT_MS) name url ''never attempted'' w"

definition check_ready :: "'w machine \<Rightarrow> nat \<Rightarrow> string \<Rightarrow> string \<Rightarrow> 'w console \<Rightarrow> 'w console option" where
  "check_ready ma fuel name url c =
     map_option (\<lambda>(r, w). check (name @ '' answers /healthz'') (\<lambda>_. (map_sum id (\<lambda>_. []) r, w)) c)
       (waitForReady ma fuel name (url @ ''/healthz'') (cn_world c))"

definition readiness :: "'w machine \<Rightarrow> nat \<Rightarrow> smoke_config \<Rightarrow> 'w console \<Rightarrow> 'w console option" where
  "readiness ma fuel sm c =
     Option.bind (check_ready ma fuel ''search'' (sm_searchUrl sm) c) (\<lambda>c.
     Option.bind (check_ready ma fuel ''settlement'' (sm_settlementUrl sm) c) (\<lambda>c.
       check_ready ma fuel ''dashboard'' (sm_dashboardUrl sm) c))"

section \<open>The checks\<close>

definition catalog_check :: "'w fetch \<Rightarrow> smoke_config \<Rightarrow> ('w, exn, string) io" where
  "catalog_check fetch sm =
     bind_io (fetch \<lparr>rq_method = ''POST'', rq_url = sm_gatewayUrl sm @ ''/search'',
         rq_headers = [(''content-type'', ''application/json'')],
         rq_body = json_body (JObj [(''query'', JStr (sm_query sm)), (''publisher_id'', JStr (sm_publisherId sm)),
           (''size'', jint 10)])\<rparr>) (\<lambda>response.
     if \<not> response_ok response
     then refuse_with (''POST /search returned '' @ nat_text (rs_status response) @ '': '' @ text_decode (rs_body response))
     else lift (
       and_then (response_json response) (\<lambda>body.
       and_then (and_then (get body ''products'') js_length) (\<lambda>products.
       if products = jint 0
       then Inl (Plain_error ([chr 34] @ sm_query sm @ [chr 34] @
              '' matched nothing; the index is empty or the alias is unset''))
       else and_then (and_then (get body ''assertions'') js_length) (\<lambda>assertions.
         if assertions = jint 0
         then Inl (Plain_error (to_text products @ '' products came back carrying no assertions''))
         else Inr (to_text products @ '' products, '' @ to_text assertions @ '' assertions''))))))"

definition purchase_check ::
    "'w fetch \<Rightarrow> agent \<Rightarrow> smoke_config \<Rightarrow> number \<Rightarrow> bytes \<Rightarrow> ('w, exn, (selection \<times> js) \<times> string) io" where
  "purchase_check fetch agent sm now bytes =
     bind_io (agent_purchase fetch agent (sm_query sm) (sm_publisherId sm) now bytes) (\<lambda>(s, f).
       lift (and_then (get f ''amount_cents'') (\<lambda>cents. and_then (get f ''settlement_id'') (\<lambda>sid.
         Inr ((s, f), cents_text cents @ '' settled as '' @ to_text sid)))))"

definition purchase_expectations :: "smoke_config \<Rightarrow> js \<Rightarrow> 'w console \<Rightarrow> 'w console" where
  "purchase_expectations sm settled c =
     (let publisher = get_opt settled ''attributed_publisher_id'';
          earned = get_opt settled ''publisher_commission_cents'';
          hash = get_opt settled ''tx_hash'' in
      expect_that ''settlement carries a transaction hash'' (type_of hash = ''string'' \<and> hash \<noteq> JStr [])
        ''the settlement recorded no transaction hash'' []
      (expect_that ''the publisher earned a non-zero commission'' (js_less (jint 0) earned)
        (''commission came back as '' @ to_text earned) (cents_text earned)
      (expect_that ''the attributed publisher matches the requesting publisher'' (publisher = JStr (sm_publisherId sm))
        (''attributed to '' @ to_text publisher @ '', expected '' @ sm_publisherId sm) (to_text publisher) c)))"

definition replay_check :: "'w fetch \<Rightarrow> agent \<Rightarrow> selection \<Rightarrow> number \<Rightarrow> bytes \<Rightarrow> ('w, exn, string) io" where
  "replay_check fetch agent chosen now bytes =
     bind_io (requestChallenge fetch agent (get_opt (sel_product chosen) ''product_id'')) (\<lambda>requirements.
     bind_io (lift (signAuthorization agent requirements now bytes)) (\<lambda>payment.
     (\<lambda>w. case completePurchase fetch agent (get_opt (sel_product chosen) ''product_id'') (sel_assertion chosen) payment w of
        (Inr _, w') \<Rightarrow> (Inl (Plain_error ''the replay succeeded, so single-use enforcement is broken''), w')
      | (Inl e, w') \<Rightarrow>
          ((case e of
              Agent_error m status body \<Rightarrow>
                if status = 409
                then and_then (get body ''reason'') (\<lambda>reason.
                  let v = nullish reason (JStr ''rejected'') in Inr (if truthy v then to_text v else []))
                else Inl (Plain_error (''the replay was rejected for the wrong reason: '' @ describe e))
            | _ \<Rightarrow> Inl (Plain_error (''the replay was rejected for the wrong reason: '' @ describe e))), w'))))"

definition publisher_detail :: "'w fetch \<Rightarrow> smoke_config \<Rightarrow> ('w, exn, js) io" where
  "publisher_detail fetch sm = getJSON fetch (sm_settlementUrl sm @ ''/publishers/'' @ sm_publisherId sm)"

text \<open>\<open>rows.some((row) => row.settlement_id === wanted)\<close>.\<close>

fun some_settlement :: "js \<Rightarrow> js list \<Rightarrow> bool result" where
  "some_settlement wanted [] = Inr False"
| "some_settlement wanted (row # rows) =
     and_then (get row ''settlement_id'') (\<lambda>sid. if strict_eq sid wanted then Inr True else some_settlement wanted rows)"

fun array_for :: "string \<Rightarrow> string \<Rightarrow> js \<Rightarrow> js list result" where
  "array_for what method_name (JArr vs) = Inr vs"
| "array_for what method_name JUndef = Inl (cannot_read ''undefined'' method_name)"
| "array_for what method_name JNull = Inl (cannot_read ''null'' method_name)"
| "array_for what method_name v = Inl (Type_error (what @ ''.'' @ method_name @ '' is not a function''))"

definition totals_check :: "'w fetch \<Rightarrow> smoke_config \<Rightarrow> js \<Rightarrow> ('w, exn, string) io" where
  "totals_check fetch sm settled =
     bind_io (publisher_detail fetch sm) (\<lambda>detail. lift (
       and_then (destructure ''detail'' ''summary'' detail) (\<lambda>summary.
       and_then (get summary ''settlement_count'') (\<lambda>count.
       if js_less count (jint 1)
       then Inl (Plain_error ''the publisher shows no settlements after a completed purchase'')
       else
         let earned = get_opt summary ''earned_cents'' in
         if js_le earned (jint 0)
         then Inl (Plain_error ''the publisher shows no earnings after a completed purchase'')
         else
           and_then (array_for ''detail.settlements'' ''some'' (get_opt detail ''settlements'')) (\<lambda>rows.
           and_then (some_settlement (get_opt settled ''settlement_id'') rows) (\<lambda>found.
             if \<not> found
             then Inl (Plain_error (''the settlement list omits '' @ to_text (get_opt settled ''settlement_id'')))
             else Inr (to_text count @ '' settlements, '' @ cents_text earned @ '' earned'')))))))"

definition split_check :: "'w fetch \<Rightarrow> smoke_config \<Rightarrow> ('w, exn, string) io" where
  "split_check fetch sm =
     bind_io (publisher_detail fetch sm) (\<lambda>detail. lift (
       and_then (destructure ''(intermediate value)'' ''summary'' detail) (\<lambda>summary.
       and_then (destructure ''summary'' ''gross_amount_cents'' summary) (\<lambda>gross.
       let earned = get_opt summary ''earned_cents''; platform = get_opt summary ''platform_fee_cents'' in
       if js_le earned (jint 0) \<or> js_less platform (jint 0)
       then Inl (Plain_error (''publisher earned '' @ to_text earned @ '', platform took '' @ to_text platform))
       else if js_le gross (js_add earned platform)
       then Inl (Plain_error (''publisher '' @ to_text earned @ '' + platform '' @ to_text platform @
              '' reaches or exceeds the gross '' @ to_text gross))
       else Inr (cents_text earned @ '' + '' @ cents_text platform @ '' out of '' @ cents_text gross @ '' gross'')))))"

definition settlement_chain :: "'w fetch \<Rightarrow> smoke_config \<Rightarrow> js \<Rightarrow> ('w, exn, js) io" where
  "settlement_chain fetch sm settled =
     getJSON fetch (sm_settlementUrl sm @ ''/settlements/'' @ to_text (get_opt settled ''settlement_id'') @ ''/chain'')"

definition chain_check :: "'w fetch \<Rightarrow> smoke_config \<Rightarrow> js \<Rightarrow> selection \<Rightarrow> ('w, exn, string) io" where
  "chain_check fetch sm settled chosen =
     bind_io (settlement_chain fetch sm settled) (\<lambda>chain. lift (
       and_then (get chain ''search_request_id'') (\<lambda>search.
       let carried = get_opt (sel_assertion chosen) ''search_request_id'' in
       if \<not> strict_eq search carried
       then Inl (Plain_error (''chain points at search '' @ to_text search @ '', the assertion carried '' @ to_text carried))
       else if \<not> strict_eq (get_opt chain ''assertion_id'') (get_opt (sel_assertion chosen) ''assertion_id'')
       then Inl (Plain_error ''the chain resolved a different assertion than the one presented'')
       else if get_opt chain ''publisher_id'' \<noteq> JStr (sm_publisherId sm)
       then Inl (Plain_error (''the chain credits '' @ to_text (get_opt chain ''publisher_id'') @ '' rather than '' @ sm_publisherId sm))
       else if \<not> truthy (get_opt chain ''assertion_consumed_at'')
       then Inl (Plain_error ''the settled assertion carries no consumption timestamp'')
       else Inr (to_text search @ '' to '' @ to_text (get_opt chain ''settlement_id'')))))"

definition commission_check :: "'w fetch \<Rightarrow> smoke_config \<Rightarrow> js \<Rightarrow> ('w, exn, string) io" where
  "commission_check fetch sm settled =
     bind_io (settlement_chain fetch sm settled) (\<lambda>chain. lift (
       and_then (get chain ''publisher_amount_cents'') (\<lambda>publisher.
       let platform = get_opt chain ''platform_fee_cents''; commission = get_opt chain ''commission_amount_cents'';
           gross = get_opt chain ''gross_amount_cents''; bps = get_opt chain ''commission_bps'';
           expected = math_round (num_div (num_mul (to_number gross) (to_number bps)) (Fin 10000)) in
       if \<not> strict_eq (js_add publisher platform) commission
       then Inl (Plain_error (''publisher '' @ to_text publisher @ '' + platform '' @ to_text platform @
              '' does not equal the commission '' @ to_text commission))
       else if num_less (Fin 1) (math_abs (num_sub expected (to_number commission)))
       then Inl (Plain_error (to_text bps @ '' bps of '' @ to_text gross @ '' comes to '' @ num_text expected @
              '', the settlement recorded '' @ to_text commission))
       else Inr (cents_text publisher @ '' + '' @ cents_text platform @ '' = '' @ cents_text commission @ '' at '' @
              to_text bps @ '' bps''))))"

text \<open>\<open>rows.reduce((sum, row) => sum + row[k], 0)\<close>.\<close>

fun sum_field :: "string \<Rightarrow> js \<Rightarrow> js list \<Rightarrow> js result" where
  "sum_field k acc [] = Inr acc"
| "sum_field k acc (row # rows) = and_then (get row k) (\<lambda>v. sum_field k (js_add acc v) rows)"

definition ledger_check :: "'w fetch \<Rightarrow> smoke_config \<Rightarrow> js \<Rightarrow> ('w, exn, string) io" where
  "ledger_check fetch sm settled =
     bind_io (settlement_chain fetch sm settled) (\<lambda>chain. lift (
       and_then (get chain ''ledger_entries'') (\<lambda>entries.
       and_then (js_length entries) (\<lambda>count.
       if count = jint 0 then Inl (Plain_error ''the settlement posted no ledger entries'')
       else
         and_then (array_for ''chain.ledger_entries'' ''reduce'' entries) (\<lambda>rows.
         and_then (sum_field ''amount_cents'' (jint 0) rows) (\<lambda>sum_total.
           if sum_total \<noteq> jint 0
           then Inl (Plain_error (to_text count @ '' entries sum to '' @ to_text sum_total @ '' rather than zero''))
           else Inr (to_text count @ '' entries'')))))))"

section \<open>The live driver\<close>

definition smoke_driver :: "'w fetch \<Rightarrow> smoke_config \<Rightarrow> string \<Rightarrow> js \<Rightarrow> ('w, exn, js) io" where
  "smoke_driver fetch sm path body =
     bind_io (fetch \<lparr>rq_method = ''POST'', rq_url = sm_dashboardUrl sm @ path,
         rq_headers = [(''content-type'', ''application/json'')], rq_body = json_body body\<rparr>) (\<lambda>response.
       if \<not> response_ok response
       then refuse_with (''POST '' @ path @ '' returned '' @ nat_text (rs_status response) @ '': '' @ text_decode (rs_body response))
       else lift (response_json response))"

definition driver_status :: "'w fetch \<Rightarrow> smoke_config \<Rightarrow> ('w, exn, js) io" where
  "driver_status fetch sm = getJSON fetch (sm_dashboardUrl sm @ ''/api/driver/status'')"

definition status_check :: "'w fetch \<Rightarrow> smoke_config \<Rightarrow> ('w, exn, string) io" where
  "status_check fetch sm =
     bind_io (driver_status fetch sm) (\<lambda>status. lift (
       and_then (get status ''settled'') (\<lambda>settled.
         if type_of settled \<noteq> ''number'' then Inl (Plain_error ''status carried no counters'')
         else Inr (if truthy (get_opt status ''running'') then ''running'' else ''stopped''))))"

definition once_check :: "'w fetch \<Rightarrow> smoke_config \<Rightarrow> ('w, exn, string) io" where
  "once_check fetch sm =
     bind_io (driver_status fetch sm) (\<lambda>earlier.
     bind_io (smoke_driver fetch sm ''/api/driver/once'' (JObj [(''fraud_rate'', jint 0)])) (\<lambda>later. lift (
       and_then (get later ''settled'') (\<lambda>now. and_then (get earlier ''settled'') (\<lambda>was.
         if \<not> strict_eq now (js_add was (jint 1))
         then Inl (Plain_error (''settled went from '' @ to_text was @ '' to '' @ to_text now @ '', expected one more''))
         else Inr (to_text now @ '' settled''))))))"

definition blocked_check :: "'w fetch \<Rightarrow> smoke_config \<Rightarrow> ('w, exn, string) io" where
  "blocked_check fetch sm =
     bind_io (driver_status fetch sm) (\<lambda>earlier.
     bind_io (smoke_driver fetch sm ''/api/driver/once'' (JObj [(''fraud_rate'', jint 1)])) (\<lambda>later. lift (
       and_then (get later ''settled'') (\<lambda>now. and_then (get earlier ''settled'') (\<lambda>was.
         if \<not> strict_eq now was
         then Inl (Plain_error ''a tampered assertion settled, so verification is not holding'')
         else
           let blocked = get_opt later ''blocked''; blocked_before = get_opt earlier ''blocked'' in
           if \<not> strict_eq blocked (js_add blocked_before (jint 1))
           then Inl (Plain_error (''blocked went from '' @ to_text blocked_before @ '' to '' @ to_text blocked @
                  '', expected one more''))
           else Inr (to_text blocked @ '' blocked''))))))"

definition table_check :: "'w fetch \<Rightarrow> smoke_config \<Rightarrow> ('w, exn, string) io" where
  "table_check fetch sm =
     bind_io (getJSON fetch (sm_dashboardUrl sm @ ''/api/publishers'')) (\<lambda>body. lift (
       and_then (and_then (get body ''publishers'') (array_for ''body.publishers'' ''reduce'')) (\<lambda>rows.
       and_then (sum_field ''blocked_count'' (jint 0) rows) (\<lambda>blocked.
         if blocked = jint 0
         then Inl (Plain_error ''no publisher shows a blocked attempt after one was refused'')
         else Inr (to_text blocked @ '' across the table'')))))"

definition population_check :: "'w machine \<Rightarrow> smoke_config \<Rightarrow> ('w, exn, string) io" where
  "population_check ma sm =
     bind_io (smoke_driver (ma_fetch ma) sm ''/api/driver/start'' (JObj [(''concurrency'', jint 2), (''fraud_rate'', jint 0)]))
       (\<lambda>started.
     bind_io (lift (get started ''running'')) (\<lambda>running.
     if \<not> truthy running then refuse_with ''the driver reported stopped immediately after start''
     else
       bind_io (\<lambda>w. (Inr (), ma_sleep ma 1500 w)) (\<lambda>_.
       bind_io (smoke_driver (ma_fetch ma) sm ''/api/driver/stop'' (JObj [])) (\<lambda>stopped. lift (
         and_then (get stopped ''running'') (\<lambda>still.
         if truthy still then Inl (Plain_error ''the driver kept running after stop'')
         else
           let later = get_opt stopped ''started''; earlier = get_opt started ''started'' in
           if js_le later earlier then Inl (Plain_error ''a running population attempted nothing'')
           else Inr (num_text (num_sub (to_number later) (to_number earlier)) @ '' attempts while running'')))))))"

section \<open>The dashboard\<close>

definition index_check :: "'w fetch \<Rightarrow> smoke_config \<Rightarrow> ('w, exn, string) io" where
  "index_check fetch sm =
     bind_io (getText fetch (sm_dashboardUrl sm @ ''/'')) (\<lambda>html.
       if \<not> contains_text html (sm_publisherId sm)
       then refuse_with (''the index rendered without '' @ sm_publisherId sm @ '' in it'')
       else ret (nat_text (text_length html) @ '' bytes''))"

definition shown :: "js \<Rightarrow> string" where
  "shown v = (if truthy v then to_text v else [])"

definition publisher_page_check :: "'w fetch \<Rightarrow> smoke_config \<Rightarrow> js \<Rightarrow> ('w, exn, string) io" where
  "publisher_page_check fetch sm settled =
     bind_io (getText fetch (sm_dashboardUrl sm @ ''/publishers/'' @ sm_publisherId sm)) (\<lambda>html.
       let sid = get_opt settled ''settlement_id'' in
       if \<not> contains_text html (to_text sid)
       then refuse_with (''the publisher page does not list settlement '' @ to_text sid)
       else ret (shown sid))"

definition settlement_page_check :: "'w fetch \<Rightarrow> smoke_config \<Rightarrow> js \<Rightarrow> selection \<Rightarrow> ('w, exn, string) io" where
  "settlement_page_check fetch sm settled chosen =
     bind_io (getText fetch (sm_dashboardUrl sm @ ''/settlements/'' @ to_text (get_opt settled ''settlement_id''))) (\<lambda>html.
       let aid = get_opt (sel_assertion chosen) ''assertion_id'' in
       if \<not> contains_text html (to_text aid)
       then refuse_with ''the settlement page does not show the assertion it settled''
       else ret (shown aid))"

section \<open>The script\<close>

definition printed :: "string \<Rightarrow> 'w console \<Rightarrow> 'w console" where
  "printed s c = c\<lparr>cn_log := cn_log c @ [Log s]\<rparr>"

definition heading :: "string \<Rightarrow> 'w console \<Rightarrow> 'w console" where
  "heading s = printed (new_line @ s)"

text \<open>What follows a completed purchase.\<close>

definition after_purchase ::
    "'w machine \<Rightarrow> smoke_config \<Rightarrow> agent \<Rightarrow> selection \<Rightarrow> js \<Rightarrow> number \<Rightarrow> bytes \<Rightarrow> 'w console \<Rightarrow> 'w console" where
  "after_purchase ma sm agent chosen settled now bytes c =
     (let f = ma_fetch ma;
          c1 = heading ''Replay protection'' (purchase_expectations sm settled c);
          c2 = heading ''Settlement reporting''
            (check ''a replayed assertion is rejected with 409'' (replay_check f agent chosen now bytes) c1);
          c3 = check ''the settlement API reports the publisher totals'' (totals_check f sm settled) c2;
          c4 = check ''the publisher and platform split the commission, not the sale'' (split_check f sm) c3;
          c5 = check ''the chain resolves query through assertion through to settlement'' (chain_check f sm settled chosen) c4;
          c6 = check ''the commission splits exactly between publisher and platform'' (commission_check f sm settled) c5;
          c7 = heading ''Live driver'' (check ''the ledger entries sum to zero'' (ledger_check f sm settled) c6);
          c8 = check ''the dashboard reports driver status'' (status_check f sm) c7;
          c9 = check ''one purchase fires from the dashboard and settles'' (once_check f sm) c8;
          c10 = check ''a fraud attempt gets blocked rather than settled'' (blocked_check f sm) c9;
          c11 = check ''a blocked attempt reaches the publisher table'' (table_check f sm) c10;
          c12 = heading ''Dashboard'' (check ''start and stop drive the population'' (population_check ma sm) c11);
          c13 = check ''the dashboard renders the publisher index'' (index_check f sm) c12;
          c14 = check ''the dashboard renders the publisher detail page'' (publisher_page_check f sm settled) c13
      in check ''the dashboard renders the settlement chain page'' (settlement_page_check f sm settled chosen) c14)"

definition smoke_verdict :: "'w console \<Rightarrow> nat \<times> 'w console" where
  "smoke_verdict c0 =
     (let c = printed [] c0 in
      if cn_failures c > 0
      then (1, printed (nat_text (cn_failures c) @ '' of '' @ nat_text (cn_checks c) @ '' checks failed.'') c)
      else (0, printed (''All '' @ nat_text (cn_checks c) @ '' checks passed. The demo works from a clean start.'') c))"

text \<open>The exit code and the console, \<open>None\<close> if a wait outlasted the fuel.\<close>

definition smoke ::
    "'w machine \<Rightarrow> nat \<Rightarrow> (string \<Rightarrow> string option) \<Rightarrow> string \<times> (typed_data \<Rightarrow> string result)
      \<Rightarrow> number \<times> bytes \<Rightarrow> number \<times> bytes \<Rightarrow> 'w \<Rightarrow> (nat \<times> 'w console) option" where
  "smoke ma fuel penv account first second w =
     (let sm = smoke_config_of penv;
          c0 = heading ''Readiness'' (printed (''  dashboard  '' @ sm_dashboardUrl sm) (printed (''  settlement '' @ sm_settlementUrl sm)
            (printed (''  gateway    '' @ sm_gatewayUrl sm) (printed ''agentic-attribution smoke test'' (blank w))))) in
      map_option (\<lambda>c1.
        if cn_failures c1 > 0
        then (1, printed (new_line @ ''Services did not come up. Nothing further can be verified.'') c1)
        else
          let c2 = check ''gateway search returns products and signed assertions'' (catalog_check (ma_fetch ma) sm)
                (heading ''Catalog'' c1);
              agent = new_agent (sm_gatewayUrl sm) (fst account) (snd account);
              (bought, c3) = check_with ''agent completes a purchase through 402''
                (purchase_check (ma_fetch ma) agent sm (fst first) (snd first)) snd (heading ''Purchase'' c2) in
          case bought of
            Some ((chosen, settled), _) \<Rightarrow>
              if truthy settled
              then smoke_verdict (after_purchase ma sm agent chosen settled (fst second) (snd second) c3)
              else (1, printed (new_line @ ''The purchase failed, so the settlement assertions cannot run.'') c3)
          | None \<Rightarrow> (1, printed (new_line @ ''The purchase failed, so the settlement assertions cannot run.'') c3))
        (readiness ma fuel sm c0))"

section \<open>Termination\<close>

text \<open>A machine on which time passes: a request never turns the clock back and a sleep lasts at least as
  long as asked.  Each poll of a wait then costs two seconds of its two minutes.\<close>

definition time_passes :: "'w machine \<Rightarrow> bool" where
  "time_passes ma \<longleftrightarrow>
     (\<forall>rq w. ma_clock ma w \<le> ma_clock ma (snd (ma_fetch ma rq w))) \<and>
     (\<forall>ms w. ma_clock ma w + ms \<le> ma_clock ma (ma_sleep ma ms w))"

lemma poll_takes_time:
  "time_passes ma \<Longrightarrow> ma_fetch ma rq w = (r, w') \<Longrightarrow> ma_clock ma w + READY_POLL_MS \<le> ma_clock ma (ma_sleep ma READY_POLL_MS w')"
  unfolding time_passes_def by (metis add_mono order_trans order_refl snd_conv)

lemma ready_loop_ends:
  assumes "time_passes ma"
  shows "until \<le> ma_clock ma w + READY_POLL_MS * int fuel \<Longrightarrow> \<exists>r. ready_loop ma (Suc fuel) until name url lastError w = Some r"
proof (induction fuel arbitrary: w lastError)
  case 0
  then show ?case by simp
next
  case (Suc fuel)
  have later: "until \<le> ma_clock ma (ma_sleep ma READY_POLL_MS w') + READY_POLL_MS * int fuel"
    if "ma_fetch ma (get_request url) w = (r, w')" for r w'
    using poll_takes_time [OF assms that] Suc.prems by (simp add: algebra_simps)
  show ?case
    by (subst ready_loop.simps) (use Suc.IH [OF later] in \<open>auto split: prod.splits sum.splits\<close>)
qed

lemma waitForReady_ends:
  assumes "time_passes ma"
  shows "\<exists>r. waitForReady ma 61 name url w = Some r"
proof -
  have "ma_clock ma w + READY_TIMEOUT_MS \<le> ma_clock ma w + READY_POLL_MS * int 60"
    by (simp add: READY_TIMEOUT_MS_def READY_POLL_MS_def)
  from ready_loop_ends [OF assms this] have "\<exists>r. ready_loop ma (Suc 60) (ma_clock ma w + READY_TIMEOUT_MS) name url ''never attempted'' w = Some r" .
  moreover have "Suc 60 = 61" by simp
  ultimately show ?thesis by (simp only: waitForReady_def)
qed

lemma check_ready_ends: "time_passes ma \<Longrightarrow> \<exists>c'. check_ready ma 61 name url c = Some c'"
  using waitForReady_ends [of ma name "url @ ''/healthz''" "cn_world c"] by (auto simp only: check_ready_def option.map)

lemma readiness_ends:
  assumes "time_passes ma"
  shows "\<exists>c'. readiness ma 61 sm c = Some c'"
proof -
  note ends = check_ready_ends [OF assms]
  obtain c1 where 1: "check_ready ma 61 ''search'' (sm_searchUrl sm) c = Some c1" using ends by blast
  obtain c2 where 2: "check_ready ma 61 ''settlement'' (sm_settlementUrl sm) c1 = Some c2" using ends by blast
  show ?thesis using 1 2 ends by (simp only: readiness_def bind.bind_lunit)
qed

section \<open>The verdict\<close>

lemma pass_counts [simp]: "cn_failures (pass n d c) = cn_failures c" "cn_checks (pass n d c) = cn_checks c + 1"
  by (simp_all add: pass_def)

lemma fail_counts [simp]: "cn_failures (fail n d c) = cn_failures c + 1" "cn_checks (fail n d c) = cn_checks c + 1"
  by (simp_all add: fail_def)

lemma printed_counts [simp]: "cn_failures (printed s c) = cn_failures c" "cn_checks (printed s c) = cn_checks c"
  by (simp_all add: printed_def)

lemma heading_counts [simp]: "cn_failures (heading s c) = cn_failures c" "cn_checks (heading s c) = cn_checks c"
  by (simp_all add: heading_def)

lemma blank_counts [simp]: "cn_failures (blank w) = 0" "cn_checks (blank w) = 0"
  by (simp_all add: blank_def)

lemma expect_that_counts [simp]:
  "cn_checks (expect_that n b r d c) = cn_checks c + 1"
  "cn_failures (expect_that n b r d c) = (if b then 0 else 1) + cn_failures c"
  by (simp_all add: expect_that_def)

lemma check_with_Some:
  "check_with n body d c = (Some x, c') \<Longrightarrow> \<exists>w. body (cn_world c) = (Inr x, w) \<and> cn_failures c' = cn_failures c"
  by (auto simp: check_with_def split: prod.splits sum.splits)

lemma check_with_checks [simp]: "cn_checks (snd (check_with n body d c)) = cn_checks c + 1"
  by (auto simp: check_with_def split: prod.splits sum.splits)

lemma check_checks [simp]: "cn_checks (check n body c) = cn_checks c + 1"
  by (simp add: check_def)

text \<open>A check that is counted without a failure has run its body to the end.\<close>

lemma check_clean:
  "cn_failures (check n body c) = 0 \<longleftrightarrow> cn_failures c = 0 \<and> (\<exists>d w. body (cn_world c) = (Inr d, w))"
  by (auto simp: check_def check_with_def split: prod.splits sum.splits)

text \<open>What a clean run after the purchase shows.\<close>

definition replay_rejected :: "'w fetch \<Rightarrow> agent \<Rightarrow> selection \<Rightarrow> bool" where
  "replay_rejected fetch agent chosen \<longleftrightarrow>
     (\<exists>payment m body w w'. completePurchase fetch agent (get_opt (sel_product chosen) ''product_id'')
        (sel_assertion chosen) payment w = (Inl (Agent_error m 409 body), w'))"

definition ledger_balanced :: "'w fetch \<Rightarrow> smoke_config \<Rightarrow> js \<Rightarrow> bool" where
  "ledger_balanced fetch sm settled \<longleftrightarrow>
     (\<exists>chain rows w w'. settlement_chain fetch sm settled w = (Inr chain, w') \<and>
        get chain ''ledger_entries'' = Inr (JArr rows) \<and> rows \<noteq> [] \<and>
        sum_field ''amount_cents'' (jint 0) rows = Inr (jint 0))"

definition commission_split :: "'w fetch \<Rightarrow> smoke_config \<Rightarrow> js \<Rightarrow> bool" where
  "commission_split fetch sm settled \<longleftrightarrow>
     (\<exists>chain w w'. settlement_chain fetch sm settled w = (Inr chain, w') \<and>
        strict_eq (js_add (get_opt chain ''publisher_amount_cents'') (get_opt chain ''platform_fee_cents''))
          (get_opt chain ''commission_amount_cents''))"

definition attack_blocked :: "'w fetch \<Rightarrow> smoke_config \<Rightarrow> bool" where
  "attack_blocked fetch sm \<longleftrightarrow>
     (\<exists>earlier later w w' w''. driver_status fetch sm w = (Inr earlier, w') \<and>
        smoke_driver fetch sm ''/api/driver/once'' (JObj [(''fraud_rate'', jint 1)]) w' = (Inr later, w'') \<and>
        strict_eq (get_opt later ''settled'') (get_opt earlier ''settled'') \<and>
        strict_eq (get_opt later ''blocked'') (js_add (get_opt earlier ''blocked'') (jint 1)))"

lemma get_opt_of_get: "get v k = Inr x \<Longrightarrow> get_opt v k = x"
  by (simp add: get_opt_def)

lemma replay_check_clean: "replay_check fetch agent chosen now bytes w = (Inr d, w') \<Longrightarrow> replay_rejected fetch agent chosen"
  unfolding replay_rejected_def
  by (auto simp: replay_check_def result_simps io_simps split: prod.splits sum.splits exn.splits if_splits) blast

lemma array_for_Inr: "array_for what m v = Inr rows \<Longrightarrow> v = JArr rows"
  by (cases v) auto

lemma ledger_check_clean: "ledger_check fetch sm settled w = (Inr d, w') \<Longrightarrow> ledger_balanced fetch sm settled"
  unfolding ledger_balanced_def
  by (auto simp: ledger_check_def result_simps lift_apply split: if_splits dest!: array_for_Inr) blast

lemma commission_check_clean: "commission_check fetch sm settled w = (Inr d, w') \<Longrightarrow> commission_split fetch sm settled"
  unfolding commission_split_def
  by (auto simp: commission_check_def result_simps lift_apply Let_def split: if_splits dest!: get_opt_of_get)

lemma blocked_check_clean: "blocked_check fetch sm w = (Inr d, w') \<Longrightarrow> attack_blocked fetch sm"
  unfolding attack_blocked_def
  by (auto simp: blocked_check_def result_simps lift_apply Let_def split: if_splits dest!: get_opt_of_get) blast

lemma after_purchase_clean:
  assumes "cn_failures (after_purchase ma sm agent chosen settled now bytes c) = 0"
  shows "cn_failures c = 0 \<and> replay_rejected (ma_fetch ma) agent chosen \<and> ledger_balanced (ma_fetch ma) sm settled \<and>
    commission_split (ma_fetch ma) sm settled \<and> attack_blocked (ma_fetch ma) sm"
  using assms unfolding after_purchase_def Let_def check_clean heading_counts
  by (auto simp: purchase_expectations_def Let_def intro: ledger_check_clean commission_check_clean
      blocked_check_clean replay_check_clean split: if_splits)

lemma after_purchase_checks: "cn_checks (after_purchase ma sm agent chosen settled now bytes c) = cn_checks c + 17"
  by (simp add: after_purchase_def purchase_expectations_def Let_def)

lemma check_ready_checks: "check_ready ma fuel name url c = Some c' \<Longrightarrow> cn_checks c' = cn_checks c + 1"
  by (auto simp: check_ready_def)

lemma readiness_checks: "readiness ma fuel sm c = Some c' \<Longrightarrow> cn_checks c' = cn_checks c + 3"
  by (auto simp: readiness_def bind_eq_Some_conv dest!: check_ready_checks)

end
