(* ===== verification/Smoke_Verdict.thy ===== *)
theory Smoke_Verdict
  imports Smoke
begin

text \<open>
  What an exit code of the smoke test means: it always comes to one while time passes, and 0 is only
  reached by a run in which every check of \<open>Smoke\<close> passed.  The witnesses run the whole script on a
  machine that answers from a list of responses.
\<close>

section \<open>From the verdict to the checks\<close>

definition smoke_agent :: "smoke_config \<Rightarrow> string \<times> (typed_data \<Rightarrow> string result) \<Rightarrow> agent" where
  "smoke_agent sm account = new_agent (sm_gatewayUrl sm) (fst account) (snd account)"

lemma smoke_verdict_zero: "smoke_verdict c = (0, c') \<Longrightarrow> cn_failures c = 0 \<and> cn_failures c' = 0 \<and> cn_checks c' = cn_checks c"
  by (auto simp: smoke_verdict_def Let_def split: if_splits)

lemma purchase_check_Inr:
  "purchase_check fetch agent sm now bytes w = (Inr ((chosen, settled), d), w') \<Longrightarrow>
     agent_purchase fetch agent (sm_query sm) (sm_publisherId sm) now bytes w = (Inr (chosen, settled), w')"
  by (auto simp: purchase_check_def result_simps lift_apply)

section \<open>A clean start\<close>

text \<open>A machine that answers from a script, whose clock moves only while it sleeps.\<close>

definition scripted :: "(int \<times> http_response list) machine" where
  "scripted =
     \<lparr>ma_fetch = (\<lambda>rq (t, script). case script of
        [] \<Rightarrow> (Inl (Plain_error ''connect ECONNREFUSED''), (t, [])) | rs # script \<Rightarrow> (Inr rs, (t, script))),
      ma_clock = fst, ma_sleep = (\<lambda>ms (t, script). (t + ms, script))\<rparr>"

definition answer_js :: "nat \<Rightarrow> js \<Rightarrow> http_response" where
  "answer_js status v = \<lparr>rs_status = status, rs_headers = [], rs_body = json_body v\<rparr>"

definition page :: "string \<Rightarrow> http_response" where
  "page s = \<lparr>rs_status = 200, rs_headers = [], rs_body = s\<rparr>"

definition demo_sm :: smoke_config where
  "demo_sm = smoke_config_of (\<lambda>_. None)"

definition demo_account :: "string \<times> (typed_data \<Rightarrow> string result)" where
  "demo_account = (''0x1'', \<lambda>_. Inr ''0xS'')"

definition demo_selection :: selection where
  "demo_selection =
     \<lparr>sel_product = JObj [(''product_id'', JStr ''p1''),
        (''offers'', JArr [JObj [(''in_stock'', JBool True), (''price_cents'', jint 1100)]])],
      sel_offer = JObj [(''in_stock'', JBool True), (''price_cents'', jint 1100)],
      sel_assertion = JObj [(''product_id'', JStr ''p1''), (''assertion_id'', JStr ''a1''), (''search_request_id'', JStr ''q1'')]\<rparr>"

definition demo_results :: js where
  "demo_results = JObj [(''products'', JArr [sel_product demo_selection]), (''assertions'', JArr [sel_assertion demo_selection])]"

definition demo_requirements :: js where
  "demo_requirements = JObj [(''network'', JStr ''base-sepolia''), (''scheme'', JStr ''exact''),
     (''maxAmountRequired'', JStr ''1''), (''maxTimeoutSeconds'', jint 60), (''payTo'', JStr ''0x2'')]"

definition demo_challenge :: js where
  "demo_challenge = JObj [(''accepts'', JArr [demo_requirements])]"

definition demo_order :: js where
  "demo_order = JObj [(''settlement_id'', JStr ''s1''), (''attributed_publisher_id'', JStr ''pub_000001''),
     (''publisher_commission_cents'', jint 39), (''tx_hash'', JStr ''0x1''), (''amount_cents'', jint 1100)]"

definition demo_rejection :: js where
  "demo_rejection = JObj [(''reason'', JStr ''assertion_consumed'')]"

definition demo_detail :: js where
  "demo_detail = JObj [(''summary'', JObj [(''settlement_count'', jint 1), (''earned_cents'', jint 39),
     (''platform_fee_cents'', jint 16), (''gross_amount_cents'', jint 1100)]),
     (''settlements'', JArr [JObj [(''settlement_id'', JStr ''s1'')]])]"

definition demo_chain :: js where
  "demo_chain = JObj [(''settlement_id'', JStr ''s1''), (''search_request_id'', JStr ''q1''), (''assertion_id'', JStr ''a1''),
     (''publisher_id'', JStr ''pub_000001''), (''gross_amount_cents'', jint 1100), (''publisher_amount_cents'', jint 39),
     (''platform_fee_cents'', jint 16), (''assertion_consumed_at'', JStr ''2026''), (''commission_bps'', jint 500),
     (''commission_amount_cents'', jint 55),
     (''ledger_entries'', JArr [JObj [(''amount_cents'', jint (- 55))], JObj [(''amount_cents'', jint 39)], JObj [(''amount_cents'', jint 16)]])]"

definition demo_counters :: "bool \<Rightarrow> int \<Rightarrow> int \<Rightarrow> int \<Rightarrow> js" where
  "demo_counters running started settled blocked = JObj [(''running'', JBool running), (''started'', jint started),
     (''settled'', jint settled), (''blocked'', jint blocked)]"

definition demo_table :: js where
  "demo_table = JObj [(''publishers'', JArr [JObj [(''blocked_count'', jint 1)]])]"

definition clean_start :: "http_response list" where
  "clean_start = [page [], page [], page [], answer_js 200 demo_results, answer_js 200 demo_results, answer_js 402 demo_challenge,
     answer_js 200 demo_order, answer_js 402 demo_challenge, answer_js 409 demo_rejection,
     answer_js 200 demo_detail, answer_js 200 demo_detail, answer_js 200 demo_chain, answer_js 200 demo_chain, answer_js 200 demo_chain,
     answer_js 200 (demo_counters False 1 1 0), answer_js 200 (demo_counters False 1 1 0), answer_js 200 (demo_counters False 2 2 0),
     answer_js 200 (demo_counters False 2 2 0), answer_js 200 (demo_counters False 3 2 1), answer_js 200 demo_table,
     answer_js 200 (demo_counters True 3 2 1), answer_js 200 (demo_counters False 7 6 1),
     page ''<a>pub_000001</a>'', page ''<td>s1</td>'', page ''<td>a1</td>'']"

lemma scripted_time: "time_passes scripted"
  by (auto simp: time_passes_def scripted_def split: list.split)

lemma scripted_fetch [simp]: "ma_fetch scripted rq (t, rs # script) = (Inr rs, (t, script))"
  by (simp add: scripted_def)

lemma scripted_clock [simp]: "ma_clock scripted (t, script) = t"
  by (simp add: scripted_def)

lemma scripted_sleep [simp]: "ma_sleep scripted ms (t, script) = (t + ms, script)"
  by (simp add: scripted_def)

lemma answer_parses [simp]: "json_ok v \<Longrightarrow> response_json (answer_js n v) = Inr v"
  unfolding answer_js_def by (rule response_json_body)

lemma answer_ok [simp]: "response_ok (answer_js n v) \<longleftrightarrow> 200 \<le> n \<and> n \<le> 299" "rs_status (answer_js n v) = n"
  by (simp_all add: response_ok_def answer_js_def)

lemma page_ok [simp]: "response_ok (page s)" "rs_body (page s) = s"
  by (simp_all add: response_ok_def page_def)

lemma demo_ok [simp]:
  "json_ok demo_results" "json_ok demo_challenge" "json_ok demo_order" "json_ok demo_rejection" "json_ok demo_detail"
  "json_ok demo_chain" "json_ok demo_table"
  "json_ok (demo_counters False 1 1 0)" "json_ok (demo_counters False 2 2 0)" "json_ok (demo_counters False 3 2 1)"
  "json_ok (demo_counters True 3 2 1)" "json_ok (demo_counters False 7 6 1)"
  by code_simp+

lemma scripted_JSON [simp]:
  "json_ok v \<Longrightarrow> getJSON (ma_fetch scripted) url (t, answer_js 200 v # script) = (Inr v, (t, script))"
  "json_ok v \<Longrightarrow> smoke_driver (ma_fetch scripted) sm path body (t, answer_js 200 v # script) = (Inr v, (t, script))"
  "json_ok v \<Longrightarrow> search (ma_fetch scripted) agent query publisher limit (t, answer_js 200 v # script) = (Inr v, (t, script))"
  by (simp_all add: getJSON_def smoke_driver_def search_def io_simps)

lemma scripted_text [simp]:
  "getText (ma_fetch scripted) url (t, page s # script) = (Inr (text_decode s), (t, script))"
  by (simp add: getText_def io_simps)

lemma scripted_ready [simp]: "waitForReady scripted 61 name url (t, page s # script) = Some (Inr (), (t, script))"
proof -
  have "ready_loop scripted (Suc 60) (t + READY_TIMEOUT_MS) name url e (t, page s # script) = Some (Inr (), (t, script))" for e
    by (subst ready_loop.simps) (simp add: READY_TIMEOUT_MS_def)
  moreover have "Suc 60 = 61" by simp
  ultimately show ?thesis by (simp only: waitForReady_def scripted_clock)
qed

lemma scripted_challenge [simp]:
  "requestChallenge (ma_fetch scripted) agent product (t, answer_js 402 demo_challenge # script) = (Inr demo_requirements, (t, script))"
  by (simp add: requestChallenge_def io_simps) (simp add: demo_challenge_def demo_requirements_def first_element_def)

lemma scripted_order [simp]:
  "json_ok v \<Longrightarrow> completePurchase (ma_fetch scripted) agent product a payment (t, answer_js 200 v # script) = (Inr v, (t, script))"
  "json_ok v \<Longrightarrow> completePurchase (ma_fetch scripted) agent product a payment (t, answer_js 409 v # script) =
     (Inl (Agent_error ''purchase rejected'' 409 v), (t, script))"
  by (simp_all add: completePurchase_def io_simps readErrorBody_def answer_js_def response_ok_def response_json_def
      json_body_decode json_parse_stringify)

lemma check_world [simp]: "cn_world (check n body c) = snd (body (cn_world c))"
  by (auto simp: check_def check_with_def pass_def fail_def split: prod.splits sum.splits)

lemma check_failures: "cn_failures (check n body c) = cn_failures c + (if isl (fst (body (cn_world c))) then 1 else 0)"
  by (auto simp: check_def check_with_def split: prod.splits sum.splits)

lemma worlds [simp]: "cn_world (heading s c) = cn_world c" "cn_world (printed s c) = cn_world c" "cn_world (blank w) = w"
  "cn_world (expect_that n b r d c) = cn_world c" "cn_world (pass n d c) = cn_world c"
  by (simp_all add: heading_def printed_def blank_def expect_that_def pass_def fail_def)

lemma demo_signed: "\<exists>payment. signAuthorization (smoke_agent demo_sm demo_account) demo_requirements (Fin 1000000) [] = Inr payment"
proof -
  have "payable [(''network'', JStr ''base-sepolia''), (''scheme'', JStr ''exact''),
     (''maxAmountRequired'', JStr ''1''), (''maxTimeoutSeconds'', jint 60), (''payTo'', JStr ''0x2'')] ''0x2'' 1 60 1000"
    by code_simp
  moreover have "agent_seconds (Fin 1000000) = Inr 1000" by code_simp
  moreover have "ag_sign (smoke_agent demo_sm demo_account) d = Inr ''0xS''" for d
    by (simp add: smoke_agent_def demo_account_def new_agent_def)
  ultimately show ?thesis unfolding demo_requirements_def by (blast intro: signed_payment)
qed

lemma demo_purchase:
  "agent_purchase (ma_fetch scripted) (smoke_agent demo_sm demo_account) query publisher (Fin 1000000) []
     (t, answer_js 200 demo_results # answer_js 402 demo_challenge # answer_js 200 demo_order # script) =
   (Inr (demo_selection, demo_order), (t, script))"
proof -
  have "selectCheapestInStock demo_results = Inr (Some demo_selection)" by code_simp
  moreover obtain payment
    where "signAuthorization (smoke_agent demo_sm demo_account) demo_requirements (Fin 1000000) [] = Inr payment"
    using demo_signed by blast
  ultimately show ?thesis by (simp add: agent_purchase_def io_simps)
qed

lemma clean_purchase:
  "purchase_check (ma_fetch scripted) (smoke_agent demo_sm demo_account) demo_sm (Fin 1000000) []
     (t, answer_js 200 demo_results # answer_js 402 demo_challenge # answer_js 200 demo_order # script) =
   (Inr ((demo_selection, demo_order), ''$11.00 settled as s1''), (t, script))"
proof -
  have "cents_text (get_opt demo_order ''amount_cents'') = ''$11.00''" by code_simp
  moreover have "get demo_order ''amount_cents'' = Inr (get_opt demo_order ''amount_cents'')"
    "get demo_order ''settlement_id'' = Inr (JStr ''s1'')" by code_simp+
  ultimately show ?thesis by (simp add: purchase_check_def demo_purchase io_simps)
qed

lemma clean_replay:
  "replay_check (ma_fetch scripted) (smoke_agent demo_sm demo_account) demo_selection (Fin 1000000) []
     (t, answer_js 402 demo_challenge # answer_js 409 demo_rejection # script) = (Inr ''assertion_consumed'', (t, script))"
  using demo_signed by (auto simp: replay_check_def io_simps demo_rejection_def Let_def nullish_def)

lemma clean_catalog: "catalog_check (ma_fetch scripted) demo_sm (t, answer_js 200 demo_results # script) =
   (Inr ''1 products, 1 assertions'', (t, script))"
proof -
  have "and_then (get demo_results ''products'') js_length = Inr (jint 1)"
    "and_then (get demo_results ''assertions'') js_length = Inr (jint 1)" "to_text (jint 1) = ''1''" "jint 1 \<noteq> jint 0" by code_simp+
  then show ?thesis by (simp add: catalog_check_def io_simps del: stringify.simps)
qed

lemmas scripted_steps = bind_io_apply prod.case sum.case lift_apply

lemmas counted = scripted_JSON(1,2) [OF demo_ok(8)] scripted_JSON(1,2) [OF demo_ok(9)] scripted_JSON(1,2) [OF demo_ok(10)]

lemma clean_totals:
  "totals_check (ma_fetch scripted) demo_sm demo_order (t, answer_js 200 demo_detail # script) =
     (Inr ''1 settlements, $0.39 earned'', (t, script))"
  unfolding totals_check_def publisher_detail_def scripted_steps scripted_JSON(1) [OF demo_ok(5)] by code_simp

lemma clean_split:
  "split_check (ma_fetch scripted) demo_sm (t, answer_js 200 demo_detail # script) =
     (Inr ''$0.39 + $0.16 out of $11.00 gross'', (t, script))"
  unfolding split_check_def publisher_detail_def scripted_steps scripted_JSON(1) [OF demo_ok(5)] by code_simp

lemma clean_chain:
  "chain_check (ma_fetch scripted) demo_sm demo_order demo_selection (t, answer_js 200 demo_chain # script) =
     (Inr ''q1 to s1'', (t, script))"
  unfolding chain_check_def settlement_chain_def scripted_steps scripted_JSON(1) [OF demo_ok(6)] by code_simp

lemma clean_commission:
  "commission_check (ma_fetch scripted) demo_sm demo_order (t, answer_js 200 demo_chain # script) =
     (Inr ''$0.39 + $0.16 = $0.55 at 500 bps'', (t, script))"
  unfolding commission_check_def settlement_chain_def scripted_steps scripted_JSON(1) [OF demo_ok(6)] by code_simp

lemma clean_ledger:
  "ledger_check (ma_fetch scripted) demo_sm demo_order (t, answer_js 200 demo_chain # script) = (Inr ''3 entries'', (t, script))"
  unfolding ledger_check_def settlement_chain_def scripted_steps scripted_JSON(1) [OF demo_ok(6)] by code_simp

lemmas clean_reports = clean_totals clean_split clean_chain clean_commission clean_ledger

lemma clean_status:
  "status_check (ma_fetch scripted) demo_sm (t, answer_js 200 (demo_counters False 1 1 0) # script) = (Inr ''stopped'', (t, script))"
  unfolding status_check_def driver_status_def scripted_steps counted by code_simp

lemma clean_once:
  "once_check (ma_fetch scripted) demo_sm
     (t, answer_js 200 (demo_counters False 1 1 0) # answer_js 200 (demo_counters False 2 2 0) # script) = (Inr ''2 settled'', (t, script))"
  unfolding once_check_def driver_status_def scripted_steps counted by code_simp

lemma clean_blocked:
  "blocked_check (ma_fetch scripted) demo_sm
     (t, answer_js 200 (demo_counters False 2 2 0) # answer_js 200 (demo_counters False 3 2 1) # script) = (Inr ''1 blocked'', (t, script))"
  unfolding blocked_check_def driver_status_def scripted_steps counted by code_simp

lemma clean_table:
  "table_check (ma_fetch scripted) demo_sm (t, answer_js 200 demo_table # script) = (Inr ''1 across the table'', (t, script))"
  unfolding table_check_def scripted_steps scripted_JSON(1) [OF demo_ok(7)] by code_simp

lemmas clean_driver = clean_status clean_once clean_blocked clean_table

lemma clean_population:
  "population_check scripted demo_sm
     (t, answer_js 200 (demo_counters True 3 2 1) # answer_js 200 (demo_counters False 7 6 1) # script) =
   (Inr ''4 attempts while running'', (t + 1500, script))"
proof -
  have "get (demo_counters True 3 2 1) ''running'' = Inr (JBool True)" "get (demo_counters False 7 6 1) ''running'' = Inr (JBool False)"
    by code_simp+
  moreover have "js_le (get_opt (demo_counters False 7 6 1) ''started'') (get_opt (demo_counters True 3 2 1) ''started'') = False"
    by code_simp
  moreover have "num_text (num_sub (to_number (get_opt (demo_counters False 7 6 1) ''started''))
      (to_number (get_opt (demo_counters True 3 2 1) ''started''))) = ''4''" by code_simp
  ultimately show ?thesis by (simp add: population_check_def io_simps Let_def)
qed

lemma clean_pages:
  "index_check (ma_fetch scripted) demo_sm (t, page ''<a>pub_000001</a>'' # script) = (Inr ''17 bytes'', (t, script))"
  "publisher_page_check (ma_fetch scripted) demo_sm demo_order (t, page ''<td>s1</td>'' # script) = (Inr ''s1'', (t, script))"
  "settlement_page_check (ma_fetch scripted) demo_sm demo_order demo_selection (t, page ''<td>a1</td>'' # script) = (Inr ''a1'', (t, script))"
  unfolding index_check_def publisher_page_check_def settlement_page_check_def bind_io_apply scripted_text prod.case sum.case
  by code_simp+

lemma clean_expectations: "cn_failures (purchase_expectations demo_sm demo_order c) = cn_failures c"
proof -
  have "js_less (jint 0) (get_opt demo_order ''publisher_commission_cents'')"
    "get_opt demo_order ''attributed_publisher_id'' = JStr (sm_publisherId demo_sm)"
    "type_of (get_opt demo_order ''tx_hash'') = ''string''" "get_opt demo_order ''tx_hash'' \<noteq> JStr []" by code_simp+
  then show ?thesis by (simp add: purchase_expectations_def Let_def)
qed

lemma expectations_world: "cn_world (purchase_expectations demo_sm demo_order c) = cn_world c"
  by (simp add: purchase_expectations_def Let_def)

lemma clean_ready:
  assumes "cn_world c = (t, page [] # script)"
  shows "\<exists>c'. check_ready scripted 61 name url c = Some c' \<and> cn_world c' = (t, script) \<and> cn_failures c' = cn_failures c"
  by (simp add: check_ready_def assms check_failures)

lemma clean_readiness:
  assumes "cn_world c = (t, page [] # page [] # page [] # script)"
  shows "\<exists>c'. readiness scripted 61 demo_sm c = Some c' \<and> cn_world c' = (t, script) \<and> cn_failures c' = cn_failures c"
proof -
  obtain c1 where 1: "check_ready scripted 61 ''search'' (sm_searchUrl demo_sm) c = Some c1"
    "cn_world c1 = (t, page [] # page [] # script)" "cn_failures c1 = cn_failures c" using clean_ready [OF assms] by blast
  obtain c2 where 2: "check_ready scripted 61 ''settlement'' (sm_settlementUrl demo_sm) c1 = Some c2"
    "cn_world c2 = (t, page [] # script)" "cn_failures c2 = cn_failures c1" using clean_ready [OF 1(2)] by blast
  show ?thesis using clean_ready [OF 2(2), of "''dashboard''" "sm_dashboardUrl demo_sm"] 1 2 by (simp add: readiness_def)
qed

lemma clean_start_passes:
  "\<exists>c. smoke scripted 61 (\<lambda>_. None) demo_account (Fin 1000000, []) (Fin 1000000, []) (0, clean_start) = Some (0, c)"
proof -
  let ?start = "heading ''Readiness'' (printed (''  dashboard  '' @ sm_dashboardUrl demo_sm) (printed (''  settlement '' @ sm_settlementUrl demo_sm)
            (printed (''  gateway    '' @ sm_gatewayUrl demo_sm) (printed ''agentic-attribution smoke test'' (blank (0, clean_start))))))"
  obtain c1 where c1: "readiness scripted 61 demo_sm ?start = Some c1" "cn_world c1 = (0, drop 3 clean_start)" "cn_failures c1 = 0"
    using clean_readiness [of ?start 0 "drop 3 clean_start"] by (auto simp: clean_start_def)
  define c2 where "c2 = heading ''Purchase'' (check ''gateway search returns products and signed assertions''
    (catalog_check (ma_fetch scripted) demo_sm) (heading ''Catalog'' c1))"
  have c2: "cn_world c2 = (0, drop 4 clean_start)" "cn_failures c2 = 0"
    by (simp_all add: c2_def c1 check_failures clean_start_def clean_catalog)
  define c3 where "c3 = pass ''agent completes a purchase through 402'' ''$11.00 settled as s1'' (c2\<lparr>cn_world := (0, drop 7 clean_start)\<rparr>)"
  have bought: "check_with ''agent completes a purchase through 402''
      (purchase_check (ma_fetch scripted) (smoke_agent demo_sm demo_account) demo_sm (Fin 1000000) []) snd c2 =
    (Some ((demo_selection, demo_order), ''$11.00 settled as s1''), c3)"
    by (simp add: check_with_def c2 c3_def clean_start_def clean_purchase)
  have c3: "cn_world c3 = (0, drop 7 clean_start)" "cn_failures c3 = 0" by (simp_all add: c3_def c2)
  have "cn_failures (after_purchase scripted demo_sm (smoke_agent demo_sm demo_account) demo_selection demo_order (Fin 1000000) [] c3) = 0"
    by (simp add: after_purchase_def Let_def check_failures clean_expectations expectations_world c3 clean_start_def
        clean_replay clean_reports clean_driver clean_population clean_pages)
  then have "\<exists>c. smoke_verdict (after_purchase scripted demo_sm (smoke_agent demo_sm demo_account) demo_selection demo_order
      (Fin 1000000) [] c3) = (0, c)" by (simp add: smoke_verdict_def Let_def)
  moreover have "truthy demo_order" by (simp add: demo_order_def)
  ultimately show ?thesis
    using c1 bought by (simp add: smoke_def Let_def smoke_agent_def flip: demo_sm_def c2_def)
qed

section \<open>Properties\<close>

text \<open>The smoke test always comes to an exit code: while time passes, the 61 polls its three waits are
  given are never used up, whatever the services answer and wherever they are.\<close>

theorem smoke_always_ends:
  assumes "time_passes ma"
  shows "\<exists>code c. smoke ma 61 penv account first second w = Some (code, c)"
  using readiness_ends [OF assms] unfolding smoke_def Let_def
  by (metis (no_types, lifting) option.map(2) surj_pair)

text \<open>C37: Exit code 0 means what the last line says: all 22 checks ran and none failed.  The agent then
  bought through the gateway, its assertion was refused with a 409 when presented again, the ledger
  entries of the settlement sum to zero, its commission is the two shares, and an attack fired from the
  dashboard was counted as blocked and not as settled.\<close>

theorem smoke_passes_only_if:
  assumes "smoke ma fuel penv account first second w = Some (0, c)"
  shows "cn_checks c = 22 \<and> cn_failures c = 0 \<and>
    (\<exists>chosen settled w1 w2.
       agent_purchase (ma_fetch ma) (smoke_agent (smoke_config_of penv) account) (sm_query (smoke_config_of penv))
         (sm_publisherId (smoke_config_of penv)) (fst first) (snd first) w1 = (Inr (chosen, settled), w2) \<and>
       replay_rejected (ma_fetch ma) (smoke_agent (smoke_config_of penv) account) chosen \<and>
       ledger_balanced (ma_fetch ma) (smoke_config_of penv) settled \<and>
       commission_split (ma_fetch ma) (smoke_config_of penv) settled) \<and>
    attack_blocked (ma_fetch ma) (smoke_config_of penv)"
proof -
  let ?sm = "smoke_config_of penv"
  from assms obtain c0 c1 c3 chosen settled d where ready: "readiness ma fuel ?sm c0 = Some c1" "cn_checks c0 = 0"
    and bought: "check_with ''agent completes a purchase through 402''
        (purchase_check (ma_fetch ma) (smoke_agent ?sm account) ?sm (fst first) (snd first)) snd
        (heading ''Purchase'' (check ''gateway search returns products and signed assertions''
          (catalog_check (ma_fetch ma) ?sm) (heading ''Catalog'' c1))) = (Some ((chosen, settled), d), c3)"
    and verdict: "smoke_verdict (after_purchase ma ?sm (smoke_agent ?sm account) chosen settled (fst second) (snd second) c3) = (0, c)"
    by (auto simp: smoke_def Let_def smoke_agent_def split: if_splits option.splits prod.splits)
  have "cn_checks c3 = cn_checks c1 + 2" using arg_cong [OF bought, of "\<lambda>p. cn_checks (snd p)"] by simp
  then have "cn_checks c = 22"
    using smoke_verdict_zero [OF verdict] readiness_checks [OF ready(1)] ready(2) by (simp add: after_purchase_checks)
  moreover obtain w1 w2 where "agent_purchase (ma_fetch ma) (smoke_agent ?sm account) (sm_query ?sm) (sm_publisherId ?sm)
      (fst first) (snd first) w1 = (Inr (chosen, settled), w2)"
    using check_with_Some [OF bought] purchase_check_Inr by metis
  ultimately show ?thesis
    using smoke_verdict_zero [OF verdict] after_purchase_clean [of ma ?sm "smoke_agent ?sm account" chosen settled]
    by (intro conjI) blast+
qed

lemma smoke_always_ends_witness:
  "\<exists>code c. smoke scripted 61 (\<lambda>_. None) demo_account (Fin 0, []) (Fin 0, []) (0, clean_start) = Some (code, c)"
  by (rule smoke_always_ends) (rule scripted_time)

lemma smoke_passes_only_if_witness:
  "\<exists>c :: (int \<times> http_response list) console. cn_checks c = 22 \<and> cn_failures c = 0 \<and>
    (\<exists>chosen settled w1 w2.
       agent_purchase (ma_fetch scripted) (smoke_agent (smoke_config_of (\<lambda>_. None)) demo_account) (sm_query (smoke_config_of (\<lambda>_. None)))
         (sm_publisherId (smoke_config_of (\<lambda>_. None))) (Fin 1000000) [] w1 = (Inr (chosen, settled), w2) \<and>
       replay_rejected (ma_fetch scripted) (smoke_agent (smoke_config_of (\<lambda>_. None)) demo_account) chosen \<and>
       ledger_balanced (ma_fetch scripted) (smoke_config_of (\<lambda>_. None)) settled \<and>
       commission_split (ma_fetch scripted) (smoke_config_of (\<lambda>_. None)) settled) \<and>
    attack_blocked (ma_fetch scripted) (smoke_config_of (\<lambda>_. None))"
proof -
  from clean_start_passes obtain c
    where "smoke scripted 61 (\<lambda>_. None) demo_account (Fin 1000000, []) (Fin 1000000, []) (0, clean_start) = Some (0, c)" by blast
  from smoke_passes_only_if [OF this, unfolded fst_conv snd_conv] show ?thesis by (rule exI)
qed

end
