(* ===== verification/Suite_Data.thy ===== *)
theory Suite_Data
  imports Eip3009
begin

text \<open>
  \<open>cypress-tests/cypress/support/constants/testData.ts\<close>: the constants of the end-to-end suite that its
  request specs use, each exported object as the value it is.
\<close>

definition Publishers :: js where
  "Publishers = JObj [(''First'', JStr ''pub_000000''), (''Demo'', JStr ''pub_000001''),
     (''Alternate'', JStr ''pub_000007''), (''Attacker'', JStr ''pub_999999'')]"

definition Queries :: js where
  "Queries = JObj [(''Default'', JStr ''trail running shoes''), (''Alternate'', JStr ''waterproof hiking pack''),
     (''Unmatchable'', JStr ''zzzz nonexistent product zzzz'')]"

definition SearchDefaults :: js where
  "SearchDefaults = JObj [(''Size'', jint 10)]"

definition RunControls :: js where
  "RunControls = JObj [(''Concurrency'', jint 4), (''SingleShotFraudRate'', jint 1), (''MaxConcurrency'', jint 24),
     (''MaxFraudRate'', jint 1), (''AbsurdConcurrency'', jint 10000), (''AbsurdFraudRate'', jint 99)]"

definition MerchantRejectionReasons :: js where
  "MerchantRejectionReasons = JObj [(''MalformedPayment'', JStr ''malformed_payment''),
     (''MalformedHeaders'', JStr ''malformed_headers''), (''ProductMismatch'', JStr ''assertion_product_mismatch''),
     (''PayeeMismatch'', JStr ''payee_mismatch''), (''AmountMismatch'', JStr ''amount_mismatch'')]"

definition MalformedPayments :: js where
  "MalformedPayments = JObj
     [(''Empty'', JObj []),
      (''NoAuthorization'', JObj [(''x402Version'', jint 1), (''scheme'', JStr ''exact''), (''network'', JStr ''base-sepolia''),
         (''signature'', JStr ''0x'')]),
      (''EmptyAuthorization'', JObj [(''authorization'', JObj []), (''signature'', JStr ''0x'')]),
      (''NoSignature'', JObj [(''x402Version'', jint 1), (''scheme'', JStr ''exact''), (''network'', JStr ''base-sepolia''),
         (''authorization'', JObj [(''from'', JStr ''0x1''), (''to'', JStr ''0x2''), (''value'', JStr ''1''),
            (''validAfter'', JStr ''0''), (''validBefore'', JStr ''99999999999''), (''nonce'', JStr ''0x0'')])])]"

definition GatewayRejectionReasons :: js where
  "GatewayRejectionReasons = JObj [(''BodyTooLarge'', JStr ''body_too_large''), (''AssertionMissing'', JStr ''assertion_missing''),
     (''MalformedHeaders'', JStr ''malformed_headers'')]"

definition EdgeRejectionReasons :: js where
  "EdgeRejectionReasons = JObj [(''SignatureInvalid'', JStr ''invalid_signature''), (''Expired'', JStr ''expired''),
     (''AssertionMissing'', JStr ''assertion_missing''), (''ProductMismatch'', JStr ''assertion_product_mismatch''),
     (''MalformedHeaders'', JStr ''malformed_headers'')]"

definition SettlementRejectionReasons :: js where
  "SettlementRejectionReasons = JObj [(''SignatureInvalid'', JStr ''assertion_signature_invalid''),
     (''Expired'', JStr ''assertion_expired''), (''Reused'', JStr ''assertion_reused''), (''PaymentInvalid'', JStr ''payment_invalid'')]"

definition BodyLimits :: js where
  "BodyLimits = JObj [(''GatewayMaxBytes'', jint 262144), (''OversizedQueryChars'', jint 300000)]"

definition HttpStatus :: js where
  "HttpStatus = JObj [(''Ok'', jint 200), (''BadRequest'', jint 400), (''PayloadTooLarge'', jint 413),
     (''Unprocessable'', jint 422), (''BadGateway'', jint 502), (''PaymentRequired'', jint 402), (''Unauthorized'', jint 401),
     (''Conflict'', jint 409), (''NotFound'', jint 404)]"

definition Tampering :: js where
  "Tampering = JObj [(''InflatedCommissionBps'', jint 9999), (''ForgedSignaturePrefix'', JStr ''ed25519:''),
     (''ForgedSignatureBody'', JStr (replicate 86 (CHR ''A''))), (''ForgedSignaturePadding'', JStr ''==''),
     (''ExpiredHoursAgo'', jint 2), (''IssuedHoursAgo'', jint 3)]"

definition MillisecondsPerHour :: int where
  "MillisecondsPerHour = 3600000"

definition BaseSepolia :: js where
  "BaseSepolia = JObj [(''Network'', JStr ''base-sepolia''), (''ChainId'', jint 84532),
     (''UsdcAddress'', JStr ''0x036CbD53842c5426634e7929541eC2318f3dCF7e''), (''DomainName'', JStr ''USDC''),
     (''DomainVersion'', JStr ''2'')]"

definition Eip3009_PrimaryType :: string where
  "Eip3009_PrimaryType = ''TransferWithAuthorization''"

definition Eip3009_Types :: "(string \<times> (string \<times> string) list) list" where
  "Eip3009_Types = [(''TransferWithAuthorization'',
     [(''from'', ''address''), (''to'', ''address''), (''value'', ''uint256''), (''validAfter'', ''uint256''),
      (''validBefore'', ''uint256''), (''nonce'', ''bytes32'')])]"

definition X402Headers :: js where
  "X402Headers = JObj [(''PaymentSignature'', JStr ''payment-signature''),
     (''AttributionAssertion'', JStr ''x-attribution-assertion'')]"

definition X402 :: js where
  "X402 = JObj [(''Version'', jint 1), (''Scheme'', JStr ''exact''), (''ValidityWindowSeconds'', jint 600)]"

definition SecurityProbes :: js where
  "SecurityProbes = JObj [(''UnknownPublisher'', JStr ''pub_000042424242''),
     (''UnknownSettlement'', JStr ''00000000-0000-0000-0000-000000000000''),
     (''ForbiddenSubstrings'', JArr [JStr ''ATTRIBUTION_PRIVATE_KEY'', JStr ''POSTGRES_DSN'', JStr ''BEGIN PRIVATE KEY'',
        JStr ''password='']),
     (''StackTraceMarkers'', JArr [JStr ''Stack trace:'', JStr ''#0 /'', JStr ''goroutine '', JStr ''.php on line'',
        JStr ''node_modules''])]"

lemma suite_protocol_constants:
  "Eip3009_PrimaryType = EIP3009_PRIMARY_TYPE" "Eip3009_Types = EIP3009_TYPES"
  "BaseSepolia = JObj [(''Network'', JStr (fst (hd NETWORKS))), (''ChainId'', jint (chainId BASE_SEPOLIA)),
     (''UsdcAddress'', JStr (usdcAddress BASE_SEPOLIA)), (''DomainName'', JStr (domainName BASE_SEPOLIA)),
     (''DomainVersion'', JStr (domainVersion BASE_SEPOLIA))]"
  by (simp_all add: Eip3009_PrimaryType_def EIP3009_PRIMARY_TYPE_def Eip3009_Types_def EIP3009_TYPES_def BaseSepolia_def
      BASE_SEPOLIA_def NETWORKS_def)

end
