(* ===== verification/Suite_Agent.thy ===== *)
theory Suite_Agent
  imports Suite_Data Agent
begin

text \<open>
  \<open>cypress-tests/cypress/support/actions/agentActions.ts\<close>: the agent of the end-to-end suite, which drives
  the protocol through the gateway.  \<open>cy.request\<close> is the parameter \<open>cy\<close>; with \<open>failOnStatusCode: false\<close> it
  answers every status.  The account, the clock and the random bytes are arguments.
\<close>

record cy_request =
  cy_method :: string
  cy_url :: string
  cy_headers :: headers
  cy_body :: js

record cy_response =
  cy_status :: nat
  cy_answer :: js

type_synonym 'w cypress = "cy_request \<Rightarrow> ('w, exn, cy_response) io"

definition GatewayPaths :: js where
  "GatewayPaths = JObj [(''Search'', JStr ''/search''), (''Purchase'', JStr ''/purchase'')]"

text \<open>\<open>gatewayUrl\<close> of \<open>routes.ts\<close>, with the base URL of the environment.\<close>

definition suite_gatewayUrl :: "string \<Rightarrow> js \<Rightarrow> string" where
  "suite_gatewayUrl base path = base @ to_text path"

definition suite_post :: "string \<Rightarrow> string \<Rightarrow> headers \<Rightarrow> js \<Rightarrow> cy_request" where
  "suite_post base path headers body =
     \<lparr>cy_method = ''POST'', cy_url = suite_gatewayUrl base (get_opt GatewayPaths path), cy_headers = headers, cy_body = body\<rparr>"

definition suite_search :: "'w cypress \<Rightarrow> string \<Rightarrow> js \<Rightarrow> js \<Rightarrow> js \<Rightarrow> ('w, exn, cy_response) io" where
  "suite_search cy base query publisherId limit =
     cy (suite_post base ''Search'' [] (JObj [(''query'', query), (''publisher_id'', publisherId), (''size'', limit)]))"

definition suite_requestChallenge :: "'w cypress \<Rightarrow> string \<Rightarrow> js \<Rightarrow> ('w, exn, cy_response) io" where
  "suite_requestChallenge cy base productId = cy (suite_post base ''Purchase'' [] (JObj [(''product_id'', productId)]))"

text \<open>A fresh account, the clock in milliseconds and the nonce's bytes.\<close>

record signing =
  sg_address :: string
  sg_sign :: "typed_data \<Rightarrow> string result"
  sg_now :: number
  sg_bytes :: bytes

definition suite_randomNonce :: "bytes \<Rightarrow> string" where
  "suite_randomNonce bytes = ''0x'' @ concat (map hex_byte bytes)"

definition suite_domain :: eip712_domain where
  "suite_domain = \<lparr>dom_name = get_opt BaseSepolia ''DomainName'', dom_version = get_opt BaseSepolia ''DomainVersion'',
     dom_chainId = get_opt BaseSepolia ''ChainId'', dom_verifyingContract = get_opt BaseSepolia ''UsdcAddress''\<rparr>"

definition suite_signAuthorization :: "signing \<Rightarrow> js \<Rightarrow> js result" where
  "suite_signAuthorization sg requirements =
     (let validAfter = 0;
          validBefore = num_add (math_floor (num_div (sg_now sg) (Fin 1000))) (to_number (get_opt X402 ''ValidityWindowSeconds''));
          nonce = suite_randomNonce (sg_bytes sg) in
      and_then (get requirements ''payTo'') (\<lambda>payTo.
      and_then (to_bigint (get_opt requirements ''maxAmountRequired'')) (\<lambda>amount.
      and_then (to_bigint (JNum validBefore)) (\<lambda>before.
      and_then (sg_sign sg \<lparr>td_domain = suite_domain, td_types = Eip3009_Types, td_primaryType = Eip3009_PrimaryType,
          td_message = \<lparr>msg_from = JStr (sg_address sg), msg_to = payTo, msg_value = amount, msg_validAfter = validAfter,
            msg_validBefore = before, msg_nonce = JStr nonce\<rparr>\<rparr>) (\<lambda>signature.
        Inr (JObj [(''x402Version'', get_opt X402 ''Version''), (''scheme'', get_opt X402 ''Scheme''),
          (''network'', get_opt requirements ''network''),
          (''authorization'', JObj [(''from'', JStr (sg_address sg)), (''to'', payTo),
             (''value'', get_opt requirements ''maxAmountRequired''), (''validAfter'', JStr (int_text validAfter)),
             (''validBefore'', JStr (num_text validBefore)), (''nonce'', JStr nonce)]),
          (''signature'', JStr signature)]))))))"

text \<open>The browser's \<open>btoa\<close> takes one byte per code unit and throws above U+00FF.\<close>

fun latin1 :: "string \<Rightarrow> bytes option" where
  "latin1 [] = Some []"
| "latin1 (b # bs) =
     (if byte b < (128 :: nat) then map_option (Cons b) (latin1 bs)
      else
        case bs of
          [] \<Rightarrow> None
        | c # cs \<Rightarrow>
            if byte b = (194 :: nat) then map_option (Cons c) (latin1 cs)
            else if byte b = (195 :: nat) then map_option (Cons (chr (byte c + 64))) (latin1 cs)
            else None)"

definition suite_encodeHeader :: "js \<Rightarrow> string result" where
  "suite_encodeHeader v =
     (case latin1 (if v = JUndef then ''undefined'' else stringify v) of
        None \<Rightarrow> Inl (Dom_exception ''InvalidCharacterError'')
      | Some bytes \<Rightarrow> Inr (btoa bytes))"

text \<open>\<open>attemptPurchaseWithRawPayment\<close> has the same body as \<open>attemptPurchase\<close>, for any payment.\<close>

definition attemptPurchaseWithRawPayment :: "'w cypress \<Rightarrow> string \<Rightarrow> js \<Rightarrow> js \<Rightarrow> js \<Rightarrow> ('w, exn, cy_response) io" where
  "attemptPurchaseWithRawPayment cy base productId assertion payment =
     bind_io (lift (suite_encodeHeader payment)) (\<lambda>p.
     bind_io (lift (suite_encodeHeader assertion)) (\<lambda>a.
       cy (suite_post base ''Purchase''
         [(to_text (get_opt X402Headers ''PaymentSignature''), p), (to_text (get_opt X402Headers ''AttributionAssertion''), a)]
         (JObj [(''product_id'', productId)]))))"

definition attemptPurchase :: "'w cypress \<Rightarrow> string \<Rightarrow> js \<Rightarrow> js \<Rightarrow> js \<Rightarrow> ('w, exn, cy_response) io" where
  "attemptPurchase cy base productId assertion payment =
     bind_io (lift (suite_encodeHeader payment)) (\<lambda>p.
     bind_io (lift (suite_encodeHeader assertion)) (\<lambda>a.
       cy (suite_post base ''Purchase''
         [(to_text (get_opt X402Headers ''PaymentSignature''), p), (to_text (get_opt X402Headers ''AttributionAssertion''), a)]
         (JObj [(''product_id'', productId)]))))"

section \<open>Lemmas\<close>

abbreviation ascii :: "string \<Rightarrow> bool" where
  "ascii s \<equiv> list_all (\<lambda>c. byte c < (128 :: nat)) s"

text \<open>Values whose texts are ASCII print as ASCII.\<close>

fun ascii_js :: "js \<Rightarrow> bool" where
  "ascii_js (JStr s) = ascii s"
| "ascii_js (JArr vs) = (\<forall>v \<in> set vs. ascii_js v)"
| "ascii_js (JObj kvs) = (\<forall>kv \<in> set kvs. ascii (fst kv) \<and> ascii_js (snd kv))"
| "ascii_js v = True"

lemma ascii_quote: "ascii s \<Longrightarrow> ascii (quote s)"
proof -
  assume s: "ascii s"
  then have "escape_text s = concat (map escape_char s)" by (simp add: escape_text_free utf8_wf_surrogate_free utf8_wf_ascii)
  moreover have "ascii (concat (map escape_char s))" using s escape_char_ascii by (induction s) auto
  ultimately show ?thesis by (simp add: quote_def)
qed

lemma ascii_join: "ascii sep \<Longrightarrow> \<forall>t \<in> set ts. ascii t \<Longrightarrow> ascii (join sep ts)"
  by (induction sep ts rule: join.induct) auto

lemma ascii_int_text: "ascii (int_text i)"
  using nat_text_digits by (fastforce simp: int_text_def list_all_iff is_digit_def)

lemma ascii_stringify:
  "json_ok v \<Longrightarrow> ascii_js v \<Longrightarrow> ascii (stringify v)"
  "\<forall>v \<in> set vs. json_ok v \<and> ascii_js v \<Longrightarrow> \<forall>t \<in> set (elem_texts vs). ascii t"
  "\<forall>kv \<in> set kvs. json_ok (snd kv) \<and> ascii (fst kv) \<and> ascii_js (snd kv) \<Longrightarrow> \<forall>t \<in> set (member_texts kvs). ascii t"
proof (induction v and vs and kvs rule: stringify_elem_texts_member_texts.induct)
  case (4 n)
  then obtain i where "n = num_of_int i" "\<bar>i\<bar> < 2 ^ 53" by (auto simp: json_ok_num)
  then have "stringify (JNum n) = int_text i" using num_text_int [of i] by simp
  then show ?case by (simp add: ascii_int_text)
next
  case (6 vs)
  then have "ascii (join '','' (elem_texts vs))" by (intro ascii_join) auto
  then show ?case by simp
next
  case (7 kvs)
  then have "ascii (join '','' (member_texts kvs))" by (intro ascii_join) auto
  then show ?case by simp
next
  case (11 k v kvs)
  have "ascii (quote k @ '':'' @ stringify v)" if "v \<noteq> JUndef" using 11 that ascii_quote [of k] by simp
  with 11 show ?case by auto
qed (simp_all add: ascii_quote)

lemma latin1_ascii: "ascii s \<Longrightarrow> latin1 s = Some s"
  by (induction s) simp_all

lemma utf8_encode_ascii: "ascii s \<Longrightarrow> utf8_encode s = s"
  by (simp add: utf8_encode_wf utf8_wf_ascii)

lemma suite_encodeHeader_ascii:
  "json_ok v \<Longrightarrow> ascii (stringify v) \<Longrightarrow> suite_encodeHeader v = Inr (btoa (utf8_encode (stringify v)))"
  by (cases v) (auto simp: suite_encodeHeader_def latin1_ascii utf8_encode_ascii simp del: stringify.simps)

end
