(* ===== verification/Suite_Specs.thy ===== *)
theory Suite_Specs
  imports Suite_Agent Platform "HOL-Library.Sublist"
begin

text \<open>
  The request specs of the end-to-end suite (\<open>cypress-tests/cypress/support/test_cases\<close>) as programs over
  \<open>cy.request\<close>: a failed expectation throws.  They pass on the gateway and the merchant of this
  development composed over HTTP.
\<close>

section \<open>Expectations\<close>

definition expecting :: "bool \<Rightarrow> ('w, exn, unit) io" where
  "expecting b = lift (if b then Inr () else Inl (Plain_error ''AssertionError''))"

definition expect_status :: "cy_response \<Rightarrow> string \<Rightarrow> ('w, exn, unit) io" where
  "expect_status response name = expecting (jint (int (cy_status response)) = get_opt HttpStatus name)"

definition expect_reason :: "cy_response \<Rightarrow> js \<Rightarrow> ('w, exn, unit) io" where
  "expect_reason response reason =
     bind_io (lift (get (cy_answer response) ''reason'')) (\<lambda>given. expecting (given = reason))"

definition refused_with :: "string \<Rightarrow> js \<Rightarrow> cy_response \<Rightarrow> ('w, exn, unit) io" where
  "refused_with name reason response =
     bind_io (expect_status response name) (\<lambda>_. expect_reason response reason)"

text \<open>\<open>v[i]\<close>.\<close>

fun element :: "js \<Rightarrow> nat \<Rightarrow> js result" where
  "element (JArr vs) i = Inr (if i < length vs then vs ! i else JUndef)"
| "element v i = get v (nat_text i)"

section \<open>Steps the specs share\<close>

definition search_default :: "'w cypress \<Rightarrow> string \<Rightarrow> string \<Rightarrow> ('w, exn, cy_response) io" where
  "search_default cy base query =
     suite_search cy base (get_opt Queries query) (get_opt Publishers ''Demo'') (get_opt SearchDefaults ''Size'')"

definition found_by :: "'w cypress \<Rightarrow> string \<Rightarrow> string \<Rightarrow> (js \<Rightarrow> js \<Rightarrow> ('w, exn, 'a) io) \<Rightarrow> ('w, exn, 'a) io" where
  "found_by cy base query k =
     bind_io (search_default cy base query) (\<lambda>search.
     bind_io (lift (and_then (get (cy_answer search) ''assertions'') (\<lambda>as. element as 0))) (\<lambda>assertion.
       k (cy_answer search) assertion))"

definition signed_for :: "'w cypress \<Rightarrow> string \<Rightarrow> signing \<Rightarrow> js \<Rightarrow> ('w, exn, js) io" where
  "signed_for cy base sg product =
     bind_io (suite_requestChallenge cy base product) (\<lambda>challenge.
       lift (and_then (and_then (get (cy_answer challenge) ''accepts'') (\<lambda>accepts. element accepts 0))
         (suite_signAuthorization sg)))"

text \<open>\<open>{ ...payment, authorization: { ...payment.authorization, field: v } }\<close>\<close>

definition reauthorized :: "js \<Rightarrow> string \<Rightarrow> js \<Rightarrow> js" where
  "reauthorized payment field v =
     JObj (spread (own_properties payment)
       [(''authorization'', JObj (spread (own_properties (get_opt payment ''authorization'')) [(field, v)]))])"

section \<open>\<open>happyPath.ts\<close>\<close>

text \<open>\<open>/^0x/\<close> and \<open>/^\d+$/\<close>.\<close>

definition spec_unpaid_challenge :: "'w cypress \<Rightarrow> string \<Rightarrow> ('w, exn, unit) io" where
  "spec_unpaid_challenge cy base =
     bind_io (search_default cy base ''Default'') (\<lambda>search.
     bind_io (lift (and_then (and_then (get (cy_answer search) ''products'') (\<lambda>ps. element ps 0)) (\<lambda>product. get product ''product_id'')))
       (\<lambda>product.
     bind_io (suite_requestChallenge cy base product) (\<lambda>challenge.
     bind_io (expect_status challenge ''PaymentRequired'') (\<lambda>_.
     bind_io (lift (and_then (get (cy_answer challenge) ''accepts'') (\<lambda>accepts. element accepts 0))) (\<lambda>accepted.
     bind_io (lift (get accepted ''payTo'')) (\<lambda>payTo.
     bind_io (expecting (starts_with ''0x'' (to_text payTo))) (\<lambda>_.
     bind_io (lift (get accepted ''maxAmountRequired'')) (\<lambda>amount.
       expecting (to_text amount \<noteq> [] \<and> list_all is_digit (to_text amount))))))))))"

section \<open>\<open>refusalPaths.ts\<close>\<close>

definition spec_unlisted_product :: "'w cypress \<Rightarrow> string \<Rightarrow> ('w, exn, unit) io" where
  "spec_unlisted_product cy base =
     bind_io (suite_requestChallenge cy base (JStr ''prd_99999999'')) (\<lambda>response. expect_status response ''NotFound'')"

definition spec_oversized_body :: "'w cypress \<Rightarrow> string \<Rightarrow> ('w, exn, unit) io" where
  "spec_oversized_body cy base =
     bind_io (cy (suite_post base ''Search'' [] (JObj
         [(''query'', JStr (replicate (case get_opt BodyLimits ''OversizedQueryChars'' of JNum (Fin x) \<Rightarrow> nat \<lfloor>x\<rfloor> | _ \<Rightarrow> 0) (CHR ''x''))),
          (''publisher_id'', get_opt Publishers ''Demo''), (''size'', jint 1)])))
       (refused_with ''PayloadTooLarge'' (get_opt GatewayRejectionReasons ''BodyTooLarge''))"

definition spec_underpaying :: "'w cypress \<Rightarrow> string \<Rightarrow> signing \<Rightarrow> ('w, exn, unit) io" where
  "spec_underpaying cy base sg =
     found_by cy base ''Default'' (\<lambda>_ assertion.
     bind_io (lift (get assertion ''product_id'')) (\<lambda>product.
     bind_io (signed_for cy base sg product) (\<lambda>payment.
     bind_io (attemptPurchaseWithRawPayment cy base product assertion (reauthorized payment ''value'' (JStr ''1'')))
       (refused_with ''Unprocessable'' (get_opt MerchantRejectionReasons ''AmountMismatch'')))))"

definition somebody_else :: string where
  "somebody_else = ''0x'' @ replicate 40 (CHR ''9'')"

definition spec_paying_somebody_else :: "'w cypress \<Rightarrow> string \<Rightarrow> signing \<Rightarrow> ('w, exn, unit) io" where
  "spec_paying_somebody_else cy base sg =
     found_by cy base ''Default'' (\<lambda>_ assertion.
     bind_io (lift (get assertion ''product_id'')) (\<lambda>product.
     bind_io (signed_for cy base sg product) (\<lambda>payment.
     bind_io (attemptPurchaseWithRawPayment cy base product assertion (reauthorized payment ''to'' (JStr somebody_else)))
       (refused_with ''Unprocessable'' (get_opt MerchantRejectionReasons ''PayeeMismatch'')))))"

definition spec_other_product :: "'w cypress \<Rightarrow> string \<Rightarrow> signing \<Rightarrow> ('w, exn, unit) io" where
  "spec_other_product cy base sg =
     found_by cy base ''Default'' (\<lambda>found assertion.
     bind_io (lift (and_then (and_then (get found ''products'') (\<lambda>ps. element ps 1)) (\<lambda>other. get other ''product_id''))) (\<lambda>product.
     bind_io (signed_for cy base sg product) (\<lambda>payment.
     bind_io (attemptPurchase cy base product assertion payment)
       (refused_with ''Unprocessable'' (get_opt MerchantRejectionReasons ''ProductMismatch'')))))"

section \<open>\<open>malformedInput.ts\<close>\<close>

fun each_payload :: "'w cypress \<Rightarrow> string \<Rightarrow> js \<Rightarrow> js \<Rightarrow> js list \<Rightarrow> (cy_response \<Rightarrow> ('w, exn, unit) io) \<Rightarrow> ('w, exn, unit) io" where
  "each_payload cy base product assertion [] check = ret ()"
| "each_payload cy base product assertion (payload # payloads) check =
     bind_io (bind_io (attemptPurchaseWithRawPayment cy base product assertion payload) check)
       (\<lambda>_. each_payload cy base product assertion payloads check)"

definition malformed_payloads :: "js list" where
  "malformed_payloads = map snd (own_properties MalformedPayments)"

definition spec_malformed_payments :: "'w cypress \<Rightarrow> string \<Rightarrow> ('w, exn, unit) io" where
  "spec_malformed_payments cy base =
     found_by cy base ''Default'' (\<lambda>_ assertion.
     bind_io (lift (get assertion ''product_id'')) (\<lambda>product.
       each_payload cy base product assertion malformed_payloads
         (refused_with ''BadRequest'' (get_opt MerchantRejectionReasons ''MalformedPayment''))))"

text \<open>\<open>response.status < 500\<close>, whatever the payload.\<close>

definition spec_never_server_error :: "'w cypress \<Rightarrow> string \<Rightarrow> ('w, exn, unit) io" where
  "spec_never_server_error cy base =
     found_by cy base ''Default'' (\<lambda>_ assertion.
     bind_io (lift (get assertion ''product_id'')) (\<lambda>product.
       each_payload cy base product assertion malformed_payloads (\<lambda>response. expecting (cy_status response < 500))))"

text \<open>No answer carries a runtime error's words.\<close>

definition leak_markers :: "string list" where
  "leak_markers = ''Cannot read properties'' # ''undefined'' #
     (case get_opt SecurityProbes ''StackTraceMarkers'' of JArr markers \<Rightarrow> map to_text markers | _ \<Rightarrow> [])"

definition spec_leaks_nothing :: "'w cypress \<Rightarrow> string \<Rightarrow> ('w, exn, unit) io" where
  "spec_leaks_nothing cy base =
     found_by cy base ''Default'' (\<lambda>_ assertion.
     bind_io (lift (get assertion ''product_id'')) (\<lambda>product.
     bind_io (attemptPurchaseWithRawPayment cy base product assertion (get_opt MalformedPayments ''EmptyAuthorization''))
       (\<lambda>response. expecting (list_all (\<lambda>marker. \<not> sublist marker (stringify (cy_answer response))) leak_markers))))"

section \<open>\<open>tamperedAssertion.ts\<close> and \<open>a08DataIntegrity.ts\<close>\<close>

definition forged_by_suite :: js where
  "forged_by_suite = JStr (to_text (get_opt Tampering ''ForgedSignaturePrefix'') @
     to_text (get_opt Tampering ''ForgedSignatureBody'') @ to_text (get_opt Tampering ''ForgedSignaturePadding''))"

text \<open>What each spec rewrites, one field of the genuine assertion.\<close>

definition tamperings :: "(string \<times> js) list" where
  "tamperings = [(''publisher_id'', get_opt Publishers ''Attacker''),
     (''commission_bps'', get_opt Tampering ''InflatedCommissionBps''), (''signature'', forged_by_suite),
     (''search_request_id'', JStr ''req_00000000'')]"

definition spec_tampered :: "'w cypress \<Rightarrow> string \<Rightarrow> signing \<Rightarrow> string \<times> js \<Rightarrow> ('w, exn, unit) io" where
  "spec_tampered cy base sg change =
     found_by cy base ''Default'' (\<lambda>_ genuine.
     bind_io (lift (get genuine ''product_id'')) (\<lambda>product.
     bind_io (signed_for cy base sg product) (\<lambda>payment.
     bind_io (attemptPurchase cy base product (JObj (spread (own_properties genuine) [change])) payment)
       (refused_with ''Unauthorized'' (get_opt EdgeRejectionReasons ''SignatureInvalid'')))))"

section \<open>\<open>expiredAssertion.ts\<close>\<close>

definition suite_hoursAgo :: "int \<Rightarrow> js \<Rightarrow> string" where
  "suite_hoursAgo now hours =
     (case hours of JNum (Fin h) \<Rightarrow> drop_millis (iso_text (now - \<lfloor>h\<rfloor> * MillisecondsPerHour)) | _ \<Rightarrow> [])"

definition backdated :: "int \<Rightarrow> (string \<times> js) list" where
  "backdated now = [(''issued_at'', JStr (suite_hoursAgo now (get_opt Tampering ''IssuedHoursAgo''))),
     (''expires_at'', JStr (suite_hoursAgo now (get_opt Tampering ''ExpiredHoursAgo'')))]"

definition spec_expired :: "'w cypress \<Rightarrow> string \<Rightarrow> signing \<Rightarrow> int \<Rightarrow> ('w, exn, unit) io" where
  "spec_expired cy base sg now =
     found_by cy base ''Default'' (\<lambda>_ genuine.
     bind_io (lift (get genuine ''product_id'')) (\<lambda>product.
     bind_io (signed_for cy base sg product) (\<lambda>payment.
     bind_io (attemptPurchase cy base product (JObj (spread (own_properties genuine) (backdated now))) payment) (\<lambda>response.
     bind_io (expecting (jint (int (cy_status response)) \<noteq> get_opt HttpStatus ''Ok'')) (\<lambda>_.
     bind_io (lift (get (cy_answer response) ''reason'')) (\<lambda>reason.
       expecting (reason \<in> {get_opt EdgeRejectionReasons ''Expired'', get_opt EdgeRejectionReasons ''SignatureInvalid''})))))))"

end
