(* ===== verification/Suite_Pass.thy ===== *)
theory Suite_Pass
  imports Suite_Specs
begin

text \<open>
  The request specs pass on the composed platform.  What \<open>cy.request\<close> does is the hypothesis \<open>carries\<close>: it
  posts the body as JSON with the headers it is given and hands over the parsed answer.
\<close>

definition answer_of :: "http_response \<Rightarrow> js" where
  "answer_of response = (case response_json response of Inr v \<Rightarrow> v | Inl _ \<Rightarrow> JStr (text_decode (rs_body response)))"

definition posts :: "'w cypress \<Rightarrow> string \<Rightarrow> js \<Rightarrow> 'w fetch \<Rightarrow> bool" where
  "posts cy url body fetch \<longleftrightarrow>
     (\<forall>hs w response w'.
        fetch \<lparr>rq_method = ''POST'', rq_url = url, rq_headers = (''content-type'', ''application/json'') # hs,
          rq_body = json_body body\<rparr> w = (Inr response, w') \<longrightarrow>
        cy \<lparr>cy_method = ''POST'', cy_url = url, cy_headers = hs, cy_body = body\<rparr> w =
          (Inr \<lparr>cy_status = rs_status response, cy_answer = answer_of response\<rparr>, w'))"

definition carries :: "'w cypress \<Rightarrow> string \<Rightarrow> 'w fetch \<Rightarrow> bool" where
  "carries cy url fetch \<longleftrightarrow> (\<forall>body. json_ok body \<longrightarrow> posts cy url body fetch)"

definition suite_agent :: "string \<Rightarrow> signing \<Rightarrow> agent" where
  "suite_agent base sg = \<lparr>ag_gatewayUrl = base, ag_address = sg_address sg, ag_sign = sg_sign sg\<rparr>"

lemma suite_agent_url: "ag_gatewayUrl (suite_agent base sg) = base"
  by (simp add: suite_agent_def)

lemma purchase_path: "suite_gatewayUrl base (get_opt GatewayPaths ''Purchase'') = base @ ''/purchase''"
  by (simp add: suite_gatewayUrl_def GatewayPaths_def get_opt_def)

lemma carried:
  assumes "carries cy (base @ ''/purchase'') fetch" and "json_ok body"
    and "fetch (agent_post (suite_agent base sg) ''/purchase'' hs body) w = (Inr response, w')"
  shows "cy (suite_post base ''Purchase'' hs body) w = (Inr \<lparr>cy_status = rs_status response, cy_answer = answer_of response\<rparr>, w')"
  using assms unfolding carries_def posts_def suite_post_def purchase_path agent_post_def suite_agent_url by blast

lemma answer_of_json: "json_ok v \<Longrightarrow> rs_body r = json_body v \<Longrightarrow> answer_of r = v"
  by (simp add: answer_of_def response_json_def json_body_decode json_parse_stringify)

section \<open>The merchant's answer comes back\<close>

lemma through_merchant_answers:
  assumes "serves e" and "fits body" and "purchase ed legacy m body headers now w = (Inr result, w')"
  shows "\<exists>hs. through_merchant ed legacy b64 m now (at_merchant e headers body) w =
     (Inr \<lparr>rs_status = mr_status result, rs_headers = hs, rs_body = json_body (mr_body result)\<rparr>,
      reportRefusal b64 m result headers w')"
proof -
  let ?rq = "merchant_http_of (at_merchant e headers body)"
  have rq: "mh_method ?rq = Some ''POST''" "mh_url ?rq = Some ''/purchase''" "mh_headers ?rq = headers"
    using assms(1) by (simp_all add: merchant_http_of_def at_merchant_def serves_def)
  show ?thesis
    using assms(3)
    by (simp add: through_merchant_def serve_purchase [OF rq(1,2) merchant_body [OF assms(2)]] rq(3)
        response_of_merchant_def writeJson_def json_body_def)
qed

text \<open>A platform the specs run on: gateway and merchant share a key, the catalog answers the same listing
  whenever it is asked, and the genuine assertion verifies at both.\<close>

record 'w stage =
  sta_check :: ed25519_check
  sta_legacy :: "string \<Rightarrow> int option"
  sta_base64 :: "string \<Rightarrow> bytes"
  sta_edge :: edge
  sta_merchant :: "'w merchant"
  sta_now :: int

definition platform_fetch :: "'w stage \<Rightarrow> 'w gateway fetch" where
  "platform_fetch st = through_gateway (sta_check st) (sta_legacy st) (sta_edge st)
     (through_merchant (sta_check st) (sta_legacy st) (sta_base64 st) (sta_merchant st) (sta_now st))"

definition staged :: "'w stage \<Rightarrow> string \<Rightarrow> signing \<Rightarrow> js \<Rightarrow> listing \<Rightarrow> js \<Rightarrow> bool" where
  "staged st base sg product l requirements \<longleftrightarrow>
     reaches (sta_edge st) (suite_agent base sg) \<and> serves (sta_edge st) \<and> fits (JObj [(''product_id'', product)]) \<and>
     importVerificationKey (ATTRIBUTION_PUBLIC_KEY (ed_env (sta_edge st))) = Inr (m_key (sta_merchant st)) \<and>
     (\<forall>w. listed (sta_merchant st) (JObj [(''product_id'', product)]) w l requirements w) \<and> json_ok requirements"

definition genuine :: "'w stage \<Rightarrow> js \<Rightarrow> bool" where
  "genuine st a \<longleftrightarrow>
     json_ok a \<and> ascii_js a \<and>
     verifyAssertion (sta_check st) (sta_legacy st) a (m_key (sta_merchant st)) (ed_now (sta_edge st)) = Inr () \<and>
     verifyAssertion (sta_check st) (sta_legacy st) a (m_key (sta_merchant st)) (sta_now st) = Inr ()"

lemma set_put: "set (put kvs k v) \<subseteq> insert (k, v) (set kvs)"
  by (induction kvs k v rule: put.induct) auto

lemma ascii_put:
  assumes "ascii_js (JObj kvs)" and "ascii k" and "ascii_js v"
  shows "ascii_js (JObj (put kvs k v))"
  unfolding ascii_js.simps
proof
  fix kv assume "kv \<in> set (put kvs k v)"
  then have "kv = (k, v) \<or> kv \<in> set kvs" using set_put by fast
  then show "ascii (fst kv) \<and> ascii_js (snd kv)"
  proof
    assume "kv \<in> set kvs"
    then show ?thesis using assms(1) by (simp only: ascii_js.simps)
  qed (use assms(2,3) in \<open>simp only: fst_conv snd_conv simp_thms\<close>)
qed

text \<open>A payment presented with a genuine assertion is answered by the merchant's \<open>paid_request\<close>.\<close>

lemma merchant_answers_payment:
  assumes st: "staged st base sg product l requirements" and a: "genuine st a" and payment: "json_ok payment"
    and g: "cache_ok g"
    and paid: "paid_request (sta_check st) (sta_legacy st) (sta_merchant st) l requirements (encodeHeaderJson a)
        (encodeHeaderJson payment) (sta_now st) (outside g) = (Inr result, w2)"
  shows "\<exists>r g'. platform_fetch st (paying_post (suite_agent base sg) product a payment) g = (Inr r, g') \<and> cache_ok g' \<and>
    rs_status r = mr_status result \<and> rs_body r = json_body (mr_body result)"
proof -
  let ?e = "sta_edge st" and ?m = "sta_merchant st" and ?ed = "sta_check st" and ?legacy = "sta_legacy st"
  let ?F = "through_merchant ?ed ?legacy (sta_base64 st) ?m (sta_now st)"
  let ?body = "JObj [(''product_id'', product)]" and ?mh = "(''content-type'', ''application/json'') # paying_headers payment a"
  let ?request = "at_gateway ?e (agent_headers (ed_host ?e) (paying_headers payment a)) ?body"
  from st have s: "reaches ?e (suite_agent base sg)" "serves ?e" "fits ?body"
    "importVerificationKey (ATTRIBUTION_PUBLIC_KEY (ed_env ?e)) = Inr (m_key ?m)"
    "listed ?m ?body (outside g) l requirements (outside g)" by (auto simp: staged_def)
  from a have ok: "json_ok a" and edge: "verifyAssertion ?ed ?legacy a (m_key ?m) (ed_now ?e) = Inr ()"
    by (simp_all add: genuine_def)
  have forwards: "forwards_paid ?ed ?legacy (ed_env ?e) (ed_now ?e) (encodeHeaderJson a)"
    using s(4) edge header_json.decode_encode [OF ok] by (auto simp: forwards_paid_def gateway_header verifier.accepts_iff)
  obtain g1 where g1: "outside g1 = outside g"
    "paid_purchase ?ed ?legacy ?F (ed_env ?e) (ed_now ?e) ?request (stringify ?body) (encodeHeaderJson a) g =
     proxy ?F ?request (MERCHANT_URL (ed_env ?e) @ ROUTE_Purchase) (stringify ?body) g1"
    using paid_purchase_forwards [OF g forwards] by blast
  have headers: "header_of ?mh X402_PaymentSignature = Some (encodeHeaderJson payment)"
    "header_of ?mh X402_AttributionAssertion = Some (encodeHeaderJson a)"
    using encodeHeaderJson_nonempty [OF ok] encodeHeaderJson_nonempty [OF payment]
    by (simp_all add: header_of_Some paying_headers_def x402_headers)
  have "purchase ?ed ?legacy ?m ?body ?mh (sta_now st) (outside g) = (Inr result, w2)"
    by (simp only: paid_purchase_run [OF s(5) headers] paid)
  from through_merchant_answers [OF s(2,3) this, of "sta_base64 st"] obtain hs where
    "?F (at_merchant ?e ?mh ?body) (outside g) =
      (Inr \<lparr>rs_status = mr_status result, rs_headers = hs, rs_body = json_body (mr_body result)\<rparr>,
       reportRefusal (sta_base64 st) ?m result ?mh w2)" by blast
  then have "proxy ?F ?request (MERCHANT_URL (ed_env ?e) @ ROUTE_Purchase) (stringify ?body) g1 =
     (Inr \<lparr>rs_status = mr_status result, rs_headers = hs, rs_body = json_body (mr_body result)\<rparr>,
       g1\<lparr>outside := reportRefusal (sta_base64 st) ?m result ?mh w2\<rparr>)"
    by (simp add: g1 proxy_apply forwarded_at_gateway [OF s(3)] forwarded_agent_headers(1) del: stringify.simps)
  with g1(2) have run: "paid_purchase ?ed ?legacy ?F (ed_env ?e) (ed_now ?e) ?request (stringify ?body) (encodeHeaderJson a) g =
     (Inr \<lparr>rs_status = mr_status result, rs_headers = hs, rs_body = json_body (mr_body result)\<rparr>,
       g1\<lparr>outside := reportRefusal (sta_base64 st) ?m result ?mh w2\<rparr>)" by simp
  from paid_purchase_cache [OF g run] show ?thesis
    using run by (simp add: platform_fetch_def paying_post_at_gateway [OF s(1,3) payment ok] del: stringify.simps)
qed

text \<open>The suite's attempt.\<close>

lemma attempt_posts:
  assumes "json_ok payment" and "ascii (stringify payment)" and "json_ok a" and "ascii (stringify a)"
  shows "attemptPurchaseWithRawPayment cy base product a payment =
      cy (suite_post base ''Purchase'' (paying_headers payment a) (JObj [(''product_id'', product)]))"
    and "attemptPurchase cy base product a payment =
      cy (suite_post base ''Purchase'' (paying_headers payment a) (JObj [(''product_id'', product)]))"
  using suite_encodeHeader_ascii [OF assms(1,2)] suite_encodeHeader_ascii [OF assms(3,4)]
  by (simp_all add: attemptPurchaseWithRawPayment_def attemptPurchase_def lift_def bind_io_def paying_headers_def
      encodeHeaderJson_def X402Headers_def get_opt_def del: stringify.simps)

lemma attempt_answered:
  assumes cy: "carries cy (base @ ''/purchase'') (platform_fetch st)" and st: "staged st base sg product l requirements" and a: "genuine st a"
    and payment: "json_ok payment" "ascii (stringify payment)" and g: "cache_ok g"
    and paid: "paid_request (sta_check st) (sta_legacy st) (sta_merchant st) l requirements (encodeHeaderJson a)
        (encodeHeaderJson payment) (sta_now st) (outside g) = (Inr result, w2)"
    and result: "json_ok (mr_body result)"
  shows "\<exists>g'. attemptPurchaseWithRawPayment cy base product a payment g =
      (Inr \<lparr>cy_status = mr_status result, cy_answer = mr_body result\<rparr>, g') \<and> cache_ok g'"
proof -
  have ok: "json_ok a" "ascii (stringify a)" using a ascii_stringify(1) [of a] by (simp_all add: genuine_def)
  have body: "json_ok (JObj [(''product_id'', product)])" using st by (simp add: staged_def fits_def)
  from merchant_answers_payment [OF st a payment(1) g paid] obtain r g' where
    r: "platform_fetch st (paying_post (suite_agent base sg) product a payment) g = (Inr r, g')" "cache_ok g'"
      "rs_status r = mr_status result" "rs_body r = json_body (mr_body result)" by blast
  from carried [OF cy body r(1) [unfolded paying_post_def]]
  have "cy (suite_post base ''Purchase'' (paying_headers payment a) (JObj [(''product_id'', product)])) g =
      (Inr \<lparr>cy_status = mr_status result, cy_answer = mr_body result\<rparr>, g')"
    using r(3) answer_of_json [OF result r(4)] by (simp add: suite_agent_def)
  then show ?thesis using r(2) by (simp add: attempt_posts(1) [OF payment ok])
qed

section \<open>Signing\<close>

text \<open>A clock that gives whole seconds, and an account that signs.\<close>

definition signs :: "signing \<Rightarrow> int \<Rightarrow> bool" where
  "signs sg n \<longleftrightarrow>
     num_add (math_floor (num_div (sg_now sg) (Fin 1000))) (num_of_int 600) = num_of_int n \<and> \<bar>n\<bar> < 2 ^ 53 \<and>
     ascii (sg_address sg) \<and> (\<forall>d. \<exists>s. sg_sign sg d = Inr s \<and> s \<noteq> [] \<and> ascii s)"

definition suite_payment :: "signing \<Rightarrow> js \<Rightarrow> js \<Rightarrow> js \<Rightarrow> int \<Rightarrow> string \<Rightarrow> (string \<times> js) list" where
  "suite_payment sg network payTo amount n sig =
     [(''x402Version'', jint 1), (''scheme'', JStr ''exact''), (''network'', network),
      (''authorization'', JObj [(''from'', JStr (sg_address sg)), (''to'', payTo), (''value'', amount),
         (''validAfter'', JStr ''0''), (''validBefore'', JStr (int_text n)), (''nonce'', JStr (suite_randomNonce (sg_bytes sg)))]),
      (''signature'', JStr sig)]"

lemma suite_signs:
  assumes "requirementsFor config l = Inr requirements" and "signs sg n"
  obtains units s where "centsToAtomicUnits (priceCents l) = Inr units" "s \<noteq> []" "ascii s"
    "suite_signAuthorization sg requirements =
       Inr (JObj (suite_payment sg (JStr (mc_network config)) (JStr (mc_payToAddress config)) (JStr units) n s))"
proof -
  from assms(1) obtain units where u: "centsToAtomicUnits (priceCents l) = Inr units"
    and r: "requirements = JObj
       [(''scheme'', JStr MERCHANT_SCHEME_EXACT), (''network'', JStr (mc_network config)),
        (''asset'', JStr (mc_assetAddress config)), (''maxAmountRequired'', JStr units),
        (''payTo'', JStr (mc_payToAddress config)), (''maxTimeoutSeconds'', jint PAYMENT_TIMEOUT_SECONDS),
        (''resource'', JStr (''/purchase/'' @ productId l)), (''description'', JStr (listingTitle l))]"
    by (auto simp: requirementsFor_def result_simps)
  from u obtain k where "units = int_text (k * 10000)" "k \<ge> 0" unfolding centsToAtomicUnits_Inr by blast
  then have amount: "to_bigint (JStr units) = Inr (k * 10000)" by (simp add: string_to_bigint_int_text)
  have clock: "num_add (math_floor (num_div (sg_now sg) (Fin 1000))) (to_number (get_opt X402 ''ValidityWindowSeconds'')) = num_of_int n"
    using assms(2) by (simp add: signs_def X402_def get_opt_def)
  have before: "to_bigint (JNum (num_of_int n)) = Inr n" "num_text (num_of_int n) = int_text n"
    using assms(2) num_text_int [of n] by (simp_all add: signs_def)
  let ?td = "\<lparr>td_domain = suite_domain, td_types = Eip3009_Types, td_primaryType = Eip3009_PrimaryType,
          td_message = \<lparr>msg_from = JStr (sg_address sg), msg_to = JStr (mc_payToAddress config), msg_value = k * 10000, msg_validAfter = 0,
            msg_validBefore = n, msg_nonce = JStr (suite_randomNonce (sg_bytes sg))\<rparr>\<rparr>"
  have zero: "int_text 0 = ''0''" by code_simp
  from assms(2) obtain s where s: "sg_sign sg ?td = Inr s" "s \<noteq> []" "ascii s" unfolding signs_def by metis
  have "suite_signAuthorization sg requirements =
       Inr (JObj (suite_payment sg (JStr (mc_network config)) (JStr (mc_payToAddress config)) (JStr units) n s))"
    unfolding suite_signAuthorization_def Let_def clock
    using s(1) by (simp add: r amount before get_opt_def suite_payment_def X402_def zero del: to_bigint.simps num_text.simps)
  then show ?thesis using that u s(2,3) by blast
qed

text \<open>Asking without a payment is answered by the merchant's handler.\<close>

lemma unpaid_answered:
  assumes cy: "carries cy (base @ ''/purchase'') (platform_fetch st)" and reach: "reaches (sta_edge st) (suite_agent base sg)"
    and serves: "serves (sta_edge st)" and fits: "fits (JObj [(''product_id'', product)])" and g: "cache_ok g"
    and run: "purchase (sta_check st) (sta_legacy st) (sta_merchant st) (JObj [(''product_id'', product)])
      [(''content-type'', ''application/json'')] (sta_now st) (outside g) = (Inr result, w)"
    and ok: "json_ok (mr_body result)"
  shows "\<exists>g'. suite_requestChallenge cy base product g =
     (Inr \<lparr>cy_status = mr_status result, cy_answer = mr_body result\<rparr>, g') \<and> cache_ok g'"
proof -
  let ?e = "sta_edge st" and ?m = "sta_merchant st" and ?ed = "sta_check st" and ?legacy = "sta_legacy st"
  let ?body = "JObj [(''product_id'', product)]" and ?mh = "[(''content-type'', ''application/json'')]"
  have body: "json_ok ?body" using fits by (simp add: fits_def)
  from through_merchant_answers [OF serves fits run, of "sta_base64 st"] obtain hs w' where
    "through_merchant ?ed ?legacy (sta_base64 st) ?m (sta_now st) (at_merchant ?e ?mh ?body) (outside g) =
      (Inr \<lparr>rs_status = mr_status result, rs_headers = hs, rs_body = json_body (mr_body result)\<rparr>, w')" by auto
  then have "platform_fetch st (agent_post (suite_agent base sg) ''/purchase'' [] ?body) g =
      (Inr (response_of_reply (writeResponse \<lparr>rs_status = mr_status result, rs_headers = hs, rs_body = json_body (mr_body result)\<rparr>)),
       g\<lparr>outside := w'\<rparr>)"
    by (simp add: platform_fetch_def unpaid_at_gateway [OF reach fits])
  from carried [OF cy body this]
  have "suite_requestChallenge cy base product g = (Inr \<lparr>cy_status = mr_status result, cy_answer = mr_body result\<rparr>, g\<lparr>outside := w'\<rparr>)"
    using answer_of_json [OF ok] by (simp add: suite_requestChallenge_def suite_agent_def)
  then show ?thesis using g by (auto simp: cache_ok_def)
qed

lemma challenged:
  assumes cy: "carries cy (base @ ''/purchase'') (platform_fetch st)" and st: "staged st base sg product l requirements" and g: "cache_ok g"
  shows "\<exists>g'. suite_requestChallenge cy base product g = (Inr \<lparr>cy_status = 402, cy_answer = challenge_for requirements\<rparr>, g') \<and> cache_ok g'"
proof -
  let ?result = "\<lparr>mr_status = 402, mr_body = challenge_for requirements,
      mr_headers = [(X402_PaymentRequired, encodeHeaderJson (challenge_for requirements))]\<rparr>"
  from st have s: "reaches (sta_edge st) (suite_agent base sg)" "serves (sta_edge st)" "fits (JObj [(''product_id'', product)])"
    "listed (sta_merchant st) (JObj [(''product_id'', product)]) (outside g) l requirements (outside g)" "json_ok requirements"
    by (auto simp: staged_def)
  have ok: "json_ok (mr_body ?result)" using s(5) by (simp add: challenge_for_def X402_VERSION_def)
  have "purchase (sta_check st) (sta_legacy st) (sta_merchant st) (JObj [(''product_id'', product)])
      [(''content-type'', ''application/json'')] (sta_now st) (outside g) = (Inr ?result, outside g)"
    by (simp add: purchase_listed [OF s(4)] header_of_def x402_headers)
  from unpaid_answered [OF cy s(1-3) g this ok] show ?thesis by simp
qed

lemma signed_for_pays:
  assumes "carries cy (base @ ''/purchase'') (platform_fetch st)" and st: "staged st base sg product l requirements" and "cache_ok g" and "signs sg n"
  obtains units s g' where "centsToAtomicUnits (priceCents l) = Inr units" "s \<noteq> []" "ascii s" "cache_ok g'"
    "signed_for cy base sg product g =
      (Inr (JObj (suite_payment sg (JStr (mc_network (m_config (sta_merchant st))))
         (JStr (mc_payToAddress (m_config (sta_merchant st)))) (JStr units) n s)), g')"
proof -
  from challenged [OF assms(1-3)] obtain g' where g':
    "suite_requestChallenge cy base product g = (Inr \<lparr>cy_status = 402, cy_answer = challenge_for requirements\<rparr>, g')" "cache_ok g'"
    by blast
  have "requirementsFor (m_config (sta_merchant st)) l = Inr requirements" using st by (auto simp: staged_def listed_def)
  from suite_signs [OF this assms(4)] obtain units s where us: "centsToAtomicUnits (priceCents l) = Inr units" "s \<noteq> []" "ascii s"
    "suite_signAuthorization sg requirements = Inr (JObj (suite_payment sg (JStr (mc_network (m_config (sta_merchant st))))
         (JStr (mc_payToAddress (m_config (sta_merchant st)))) (JStr units) n s))" .
  have "get (challenge_for requirements) ''accepts'' = Inr (JArr [requirements])" by (simp add: challenge_for_def)
  then have "signed_for cy base sg product g =
      (Inr (JObj (suite_payment sg (JStr (mc_network (m_config (sta_merchant st))))
         (JStr (mc_payToAddress (m_config (sta_merchant st)))) (JStr units) n s)), g')"
    by (simp add: signed_for_def io_simps g' us(4))
  then show ?thesis using that us(1-3) g'(2) by blast
qed

section \<open>What the merchant refuses\<close>

lemma paid_request_mismatch:
  assumes "genuine st a" and "json_ok payment" and "payment_shaped payment"
    and "mismatch (m_config (sta_merchant st)) l a payment = Inr (Some result)"
  shows "paid_request (sta_check st) (sta_legacy st) (sta_merchant st) l requirements (encodeHeaderJson a)
    (encodeHeaderJson payment) (sta_now st) w = (Inr result, w)"
proof -
  have "decode_both (encodeHeaderJson a) (encodeHeaderJson payment) = Inr (a, payment)"
    using assms header_json.decode_encode [of a] header_json.decode_encode [OF assms(2)]
    by (simp add: decode_both_Inr genuine_def)
  then show ?thesis using assms(1,4) by (simp add: paid_request_def genuine_def io_simps)
qed

lemma paid_request_malformed:
  assumes "genuine st a" and "decodePaymentHeader h = Inl (Malformed_payment_error m)"
  shows "paid_request (sta_check st) (sta_legacy st) (sta_merchant st) l requirements (encodeHeaderJson a) h (sta_now st) w =
    (Inr (mr 400 [(''error'', JStr m), (''reason'', JStr ''malformed_payment'')]), w)"
  using assms header_json.decode_encode [of a]
  by (simp add: paid_request_def decode_both_def decodeAssertionHeader_def genuine_def io_simps)

lemma refused_with_passes:
  "cy_status response = k \<Longrightarrow> jint (int k) = get_opt HttpStatus name \<Longrightarrow> get (cy_answer response) ''reason'' = Inr reason \<Longrightarrow>
     refused_with name reason response g = (Inr (), g)"
  by (simp add: refused_with_def expect_status_def expect_reason_def expecting_def io_simps)

definition search_finds :: "'w gateway cypress \<Rightarrow> string \<Rightarrow> js \<Rightarrow> js \<Rightarrow> bool" where
  "search_finds cy base found a \<longleftrightarrow>
     (\<forall>g. cache_ok g \<longrightarrow> (\<exists>k g'. search_default cy base ''Default'' g = (Inr \<lparr>cy_status = k, cy_answer = found\<rparr>, g') \<and> cache_ok g')) \<and>
     and_then (get found ''assertions'') (\<lambda>as. element as 0) = Inr a"

lemma found_by_run:
  assumes "search_finds cy base found a" and "cache_ok g"
  obtains g' where "cache_ok g'" "\<And>k. found_by cy base ''Default'' k g = k found a g'"
proof -
  from assms obtain k g' where "search_default cy base ''Default'' g = (Inr \<lparr>cy_status = k, cy_answer = found\<rparr>, g')" "cache_ok g'"
    unfolding search_finds_def by blast
  moreover have "and_then (get found ''assertions'') (\<lambda>as. element as 0) = Inr a" using assms(1) by (simp add: search_finds_def)
  ultimately show ?thesis using that by (simp add: found_by_def io_simps)
qed

text \<open>A payment of the suite with any texts for amount and payee is well formed.\<close>

lemma suite_payment_ok:
  assumes "signs sg n" and "ascii network" and "ascii payTo" and "ascii amount" and "s \<noteq> []" and "ascii s"
  shows "json_ok (JObj (suite_payment sg (JStr network) (JStr payTo) (JStr amount) n s))"
    and "ascii (stringify (JObj (suite_payment sg (JStr network) (JStr payTo) (JStr amount) n s)))"
    and "payment_shaped (JObj (suite_payment sg (JStr network) (JStr payTo) (JStr amount) n s))"
proof -
  have hex: "ascii (concat (map hex_byte bs))" for bs
  proof -
    have "ascii (hex_byte b)" for b using byte_less [of b] by (simp add: digit_char_ascii less_mult_imp_div_less)
    then show ?thesis by (induction bs) (simp_all del: hex_byte.simps)
  qed
  have nonce: "ascii (suite_randomNonce (sg_bytes sg))" using hex by (simp add: suite_randomNonce_def)
  note texts = assms(2-4,6) nonce ascii_int_text [of n]
  have address: "ascii (sg_address sg)" using assms(1) by (simp add: signs_def)
  have names: "utf8_wf ''x402Version''" "utf8_wf ''scheme''" "utf8_wf ''exact''" "utf8_wf ''network''" "utf8_wf ''authorization''"
    "utf8_wf ''signature''" "utf8_wf ''from''" "utf8_wf ''to''" "utf8_wf ''value''" "utf8_wf ''validAfter''" "utf8_wf ''validBefore''"
    "utf8_wf ''nonce''" "utf8_wf ''0''" by code_simp+
  show ok: "json_ok (JObj (suite_payment sg (JStr network) (JStr payTo) (JStr amount) n s))"
    using texts address names by (simp add: suite_payment_def utf8_wf_ascii)
  show "ascii (stringify (JObj (suite_payment sg (JStr network) (JStr payTo) (JStr amount) n s)))"
    by (rule ascii_stringify(1) [OF ok]) (use texts address in \<open>simp add: suite_payment_def\<close>)
  show "payment_shaped (JObj (suite_payment sg (JStr network) (JStr payTo) (JStr amount) n s))"
    using assms(5) by (simp add: payment_shaped_def suite_payment_def get_opt_def AUTHORIZATION_FIELDS_def)
qed

lemma reauthorized_suite:
  "reauthorized (JObj (suite_payment sg network payTo amount n s)) ''value'' v = JObj (suite_payment sg network payTo v n s)"
  "reauthorized (JObj (suite_payment sg network payTo amount n s)) ''to'' v = JObj (suite_payment sg network v amount n s)"
  by (simp_all add: reauthorized_def suite_payment_def get_opt_def)

lemma authorized_suite:
  "get_opt (get_opt (JObj (suite_payment sg network payTo amount n s)) ''authorization'') ''value'' = amount"
  "get_opt (get_opt (JObj (suite_payment sg network payTo amount n s)) ''authorization'') ''to'' = payTo"
  by (simp_all add: suite_payment_def get_opt_def)

text \<open>A payment with other texts for amount and payee than the merchant asked is refused as the mismatch
  says.\<close>

lemma mispayment_refused:
  assumes cy: "carries cy (base @ ''/purchase'') (platform_fetch st)" and st: "staged st base sg product l requirements" and sg: "signs sg n"
    and a: "genuine st a" and g: "cache_ok g" and texts: "ascii network" "ascii payTo" "ascii amount" "s \<noteq> []" "ascii s"
    and mismatch: "mismatch (m_config (sta_merchant st)) l a (JObj (suite_payment sg (JStr network) (JStr payTo) (JStr amount) n s)) =
      Inr (Some (mr k [(''error'', JStr m), (''reason'', reason)]))"
    and m: "utf8_wf m" "json_ok reason" and status: "jint (int k) = get_opt HttpStatus name"
  shows "\<exists>g'. bind_io (attemptPurchaseWithRawPayment cy base product a
      (JObj (suite_payment sg (JStr network) (JStr payTo) (JStr amount) n s))) (refused_with name reason) g = (Inr (), g') \<and> cache_ok g'"
proof -
  note ok = suite_payment_ok [OF sg texts]
  have "json_ok (mr_body (mr k [(''error'', JStr m), (''reason'', reason)]))"
  proof -
    have "utf8_wf ''error''" "utf8_wf ''reason''" by code_simp+
    then show ?thesis using m by (simp add: mr_def)
  qed
  from attempt_answered [OF cy st a ok(1,2) g paid_request_mismatch [OF a ok(1,3) mismatch] this]
  obtain g' where g': "attemptPurchaseWithRawPayment cy base product a
      (JObj (suite_payment sg (JStr network) (JStr payTo) (JStr amount) n s)) g =
      (Inr \<lparr>cy_status = k, cy_answer = JObj [(''error'', JStr m), (''reason'', reason)]\<rparr>, g')" "cache_ok g'"
    by (auto simp: mr_def)
  have "refused_with name reason \<lparr>cy_status = k, cy_answer = JObj [(''error'', JStr m), (''reason'', reason)]\<rparr> g' = (Inr (), g')"
    by (rule refused_with_passes [OF _ status]) simp_all
  then show ?thesis using g' by (simp add: io_simps)
qed

section \<open>What the edge refuses\<close>

text \<open>Whatever is behind the gateway, and whatever is paid with it, the attempt is answered 401 and what is behind the
  gateway is left alone.\<close>

definition stopped_at_edge :: "'w stage \<Rightarrow> string \<Rightarrow> js \<Rightarrow> js \<Rightarrow> bool" where
  "stopped_at_edge st base product forged \<longleftrightarrow>
     (\<forall>(behind :: 'w fetch) cy payment g.
        carries cy (base @ ''/purchase'') (through_gateway (sta_check st) (sta_legacy st) (sta_edge st) behind) \<and>
        cache_ok g \<and> json_ok payment \<and> ascii (stringify payment) \<longrightarrow>
        (\<exists>g'. attemptPurchase cy base product forged payment g = (Inr \<lparr>cy_status = 401, cy_answer = refusal_body\<rparr>, g') \<and>
           outside g' = outside g))"

lemma edge_refuses:
  fixes st :: "'w stage"
  assumes st: "staged st base sg product l requirements" and a: "json_ok a" "ascii (stringify a)"
    and refused: "verifyAssertion (sta_check st) (sta_legacy st) a (m_key (sta_merchant st)) (ed_now (sta_edge st)) =
      Inl (Assertion_verification_error Invalid_signature ''signature does not verify against the public key'')"
  shows "stopped_at_edge st base product a"
  unfolding stopped_at_edge_def
proof (intro allI impI, elim conjE)
  fix behind :: "'w fetch" and cy payment and g :: "'w gateway"
  let ?e = "sta_edge st" and ?ed = "sta_check st" and ?legacy = "sta_legacy st"
  let ?body = "JObj [(''product_id'', product)]"
  assume cy: "carries cy (base @ ''/purchase'') (through_gateway ?ed ?legacy ?e behind)" and g: "cache_ok g"
    and payment: "json_ok payment" "ascii (stringify payment)"
  from st have s: "reaches ?e (suite_agent base sg)" "fits ?body"
    "importVerificationKey (ATTRIBUTION_PUBLIC_KEY (ed_env ?e)) = Inr (m_key (sta_merchant st))" by (auto simp: staged_def)
  have body: "json_ok ?body" using s(2) by (simp add: fits_def)
  obtain g' where g': "paid_purchase ?ed ?legacy behind (ed_env ?e) (ed_now ?e)
         (at_gateway ?e (agent_headers (ed_host ?e) (paying_headers payment a)) ?body) (stringify ?body) (encodeHeaderJson a) g =
      (Inr (gateway_json refusal_body 401), g')" "outside g' = outside g"
    using gateway_refuses_forgery [OF g s(3) a(1) refused] by blast
  then have "through_gateway ?ed ?legacy ?e behind (paying_post (suite_agent base sg) product a payment) g =
      (Inr (response_of_reply (writeResponse (gateway_json refusal_body 401))), g')"
    by (simp add: paying_post_at_gateway [OF s(1,2) payment(1) a(1)] del: stringify.simps)
  from carried [OF cy body this [unfolded paying_post_def]]
  have "cy (suite_post base ''Purchase'' (paying_headers payment a) ?body) g = (Inr \<lparr>cy_status = 401, cy_answer = refusal_body\<rparr>, g')"
  proof -
    have "json_ok refusal_body" by code_simp
    then show ?thesis
      using \<open>cy _ g = _\<close> answer_of_json [of refusal_body "response_of_reply (writeResponse (gateway_json refusal_body 401))"]
      by (simp add: suite_agent_def gateway_json_def json_body_def)
  qed
  then show "\<exists>g'. attemptPurchase cy base product a payment g = (Inr \<lparr>cy_status = 401, cy_answer = refusal_body\<rparr>, g') \<and>
      outside g' = outside g"
    using g'(2) by (simp add: attempt_posts(2) [OF payment a])
qed

lemma suite_tampering_refused:
  assumes "signature_bytes (JObj kvs) = Some s" and "canonicalizeForSigning (JObj kvs) = Inr c" and "signable kvs"
    and "\<And>p. ed key s p \<Longrightarrow> p = utf8_encode c" and "\<And>p. \<not> ed key (replicate 64 (chr 0)) p"
    and "change \<in> set tamperings" and "own kvs (fst change) \<noteq> snd change"
  shows "verifyAssertion ed legacy (JObj (spread kvs [change])) key now =
      Inl (Assertion_verification_error Invalid_signature ''signature does not verify against the public key'')"
proof -
  note refused = fraud_refused [where ed = ed and key = key and legacy = legacy and now = now, OF assms(1-5), unfolded applyFraud_def own_properties.simps]
  have shown: "tamperings = [(''publisher_id'', JStr ATTACKER_PUBLISHER), (''commission_bps'', jint INFLATED_COMMISSION_BPS),
      (''signature'', JStr forged_signature), (''search_request_id'', JStr ''req_00000000'')]" by code_simp
  consider "change = (''publisher_id'', JStr ATTACKER_PUBLISHER)" | "change = (''commission_bps'', jint INFLATED_COMMISSION_BPS)"
    | "change = (''signature'', JStr forged_signature)" | "change = (''search_request_id'', JStr ''req_00000000'')"
    using assms(6) unfolding shown list.set insert_iff by blast
  then show ?thesis
  proof cases
    case 1
    then show ?thesis using refused [of Tampered_publisher 0] assms(7) by (simp add: attacks_def)
  next
    case 2
    then show ?thesis using refused [of Tampered_commission 0] assms(7) by (simp add: attacks_def)
  next
    case 3
    then show ?thesis using refused [of Forged_signature 0] by (simp add: attacks_def)
  next
    case 4
    have "utf8_wf ''req_00000000''" by code_simp
    then have "signable (put kvs ''search_request_id'' (JStr ''req_00000000''))" using assms(3) by (simp add: signable_def)
    then show ?thesis using tampered_rejected [OF assms(1-3), of "put kvs ''search_request_id'' (JStr ''req_00000000'')" "''search_request_id''" ed key legacy now]
        assms(4,7) 4 by (simp add: signed_fields_def)
  qed
qed

lemma merchant_reason:
  "get_opt MerchantRejectionReasons ''AmountMismatch'' = JStr ''amount_mismatch''"
  "get_opt MerchantRejectionReasons ''PayeeMismatch'' = JStr ''payee_mismatch''"
  "get_opt MerchantRejectionReasons ''ProductMismatch'' = JStr ''assertion_product_mismatch''"
  "get_opt MerchantRejectionReasons ''MalformedPayment'' = JStr ''malformed_payment''"
  by (simp_all add: MerchantRejectionReasons_def get_opt_def)

lemma suite_status:
  "jint (int 422) = get_opt HttpStatus ''Unprocessable''" "jint (int 400) = get_opt HttpStatus ''BadRequest''"
  "jint (int 401) = get_opt HttpStatus ''Unauthorized''" "jint (int 404) = get_opt HttpStatus ''NotFound''"
  "jint (int 413) = get_opt HttpStatus ''PayloadTooLarge''"
  by (simp_all add: HttpStatus_def get_opt_def)

lemma reason_ok: "utf8_wf s \<Longrightarrow> json_ok (JStr s)"
  by simp

lemma bind_run: "m w = (Inr x, w') \<Longrightarrow> bind_io m k w = k x w'"
  by (simp add: bind_io_def)

lemma bind_lift: "bind_io (lift (Inr x)) k w = k x w"
  by (simp add: bind_io_def lift_def)

end
