(* ===== verification/Suite_Sample.thy ===== *)
theory Suite_Sample
  imports Suite_Pass
begin

text \<open>
  A concrete platform for the specs of the suite: two products listed, a search that answers one signed
  assertion, an account that signs, and a \<open>cy.request\<close> that posts to the composed services.
\<close>

definition suite_base :: string where
  "suite_base = ''http://g''"

definition suite_table :: "stored_listing list" where
  "suite_table = sample_table @
     [\<lparr>st_listing_id = ''l4'', st_product_id = ''d2'', st_merchant_id = ''m1'', st_listing_title = ''u'',
       st_price_cents = 500, st_currency = ''USD'', st_in_stock = True\<rparr>]"

definition suite_stage :: "nat stage" where
  "suite_stage = \<lparr>sta_check = forging_check, sta_legacy = (\<lambda>_. None), sta_base64 = id, sta_edge = sample_edge,
     sta_merchant = platform_merchant\<lparr>m_query := select_listings suite_table\<rparr>, sta_now = 0\<rparr>"

definition suite_signing :: signing where
  "suite_signing = \<lparr>sg_address = ''0xA'', sg_sign = (\<lambda>_. Inr ''0xS''), sg_now = Fin 1000000, sg_bytes = replicate 32 (chr 1)\<rparr>"

definition suite_found :: js where
  "suite_found = JObj [(''assertions'', JArr [JObj (signed_sample ''p1'')]),
     (''products'', JArr [JObj [(''product_id'', JStr ''d1'')], JObj [(''product_id'', JStr ''d2'')]])]"

text \<open>The search service knows the one query.\<close>

definition suite_query :: js where
  "suite_query = JObj [(''query'', get_opt Queries ''Default''), (''publisher_id'', get_opt Publishers ''Demo''),
     (''size'', get_opt SearchDefaults ''Size'')]"

definition suite_cy :: "nat gateway fetch \<Rightarrow> nat gateway cypress" where
  "suite_cy fetch rq g =
     (if cy_url rq = suite_base @ ''/search'' \<and> cy_body rq = suite_query then (Inr \<lparr>cy_status = 200, cy_answer = suite_found\<rparr>, g)
      else
        case fetch \<lparr>rq_method = cy_method rq, rq_url = cy_url rq,
            rq_headers = (''content-type'', ''application/json'') # cy_headers rq, rq_body = json_body (cy_body rq)\<rparr> g of
          (Inr response, g') \<Rightarrow> (Inr \<lparr>cy_status = rs_status response, cy_answer = answer_of response\<rparr>, g')
        | (Inl e, g') \<Rightarrow> (Inl e, g'))"

definition suite_listing :: "nat \<Rightarrow> listing" where
  "suite_listing i = listing_of (row_of (suite_table ! i))"

definition suite_requirements :: "nat \<Rightarrow> js" where
  "suite_requirements i =
     (case requirementsFor (m_config platform_merchant) (suite_listing i) of Inr r \<Rightarrow> r | Inl _ \<Rightarrow> JNull)"

lemma suite_carries: "carries (suite_cy fetch) (suite_base @ ''/purchase'') fetch"
  by (simp add: carries_def posts_def suite_cy_def suite_base_def)

lemma suite_signing_signs: "signs suite_signing 1600"
proof -
  have "num_add (math_floor (num_div (sg_now suite_signing) (Fin 1000))) (num_of_int 600) = num_of_int 1600"
    by code_simp
  moreover have "ascii (sg_address suite_signing)" by code_simp
  ultimately show ?thesis by (simp add: signs_def suite_signing_def)
qed

lemma suite_search_finds: "search_finds (suite_cy fetch) suite_base suite_found (JObj (signed_sample ''p1''))"
  by (simp add: search_finds_def search_default_def suite_search_def suite_post_def suite_gatewayUrl_def GatewayPaths_def get_opt_def
      suite_cy_def suite_base_def suite_found_def suite_query_def)

lemma suite_genuine: "genuine suite_stage (JObj (signed_sample ''p1''))"
proof -
  have "verifyAssertion forging_check (\<lambda>_. None) (JObj (signed_sample ''p1'')) (replicate 32 (chr 9)) 0 = Inr ()"
    by code_simp
  moreover have "ascii_js (JObj (signed_sample ''p1''))" by code_simp
  ultimately show ?thesis
    using sample_ok by (simp add: genuine_def suite_stage_def sample_edge_def platform_merchant_def)
qed

lemma staged_row:
  assumes "fits (JObj [(''product_id'', JStr p)])" and "p \<noteq> []" and "inStock (suite_listing i)" and "json_ok (suite_requirements i)"
    and "map_option (listing_of \<circ> row_of) (first_listed (filter (wanted_row [] p) suite_table)) = Some (suite_listing i)"
    and "requirementsFor (m_config platform_merchant) (suite_listing i) = Inr (suite_requirements i)"
  shows "staged suite_stage suite_base suite_signing (JStr p) (suite_listing i) (suite_requirements i)"
proof -
  have reach: "reaches sample_edge (suite_agent suite_base suite_signing)" "serves sample_edge" by code_simp+
  have key: "importVerificationKey (ATTRIBUTION_PUBLIC_KEY (ed_env sample_edge)) = Inr (m_key platform_merchant)"
    using sample_key by (simp add: sample_edge_def platform_merchant_def)
  have "mc_merchantId (m_config platform_merchant) = []" by code_simp
  then have "listed (sta_merchant suite_stage) (JObj [(''product_id'', JStr p)]) w (suite_listing i) (suite_requirements i) w" for w
    using assms(2,3,5,6) by (simp add: listed_def suite_stage_def findListing_table get_opt_def)
  then show ?thesis using reach key assms(1,4) by (simp add: staged_def suite_stage_def)
qed

lemma suite_staged:
  "staged suite_stage suite_base suite_signing (JStr ''d1'') (suite_listing 2) (suite_requirements 2)"
  "staged suite_stage suite_base suite_signing (JStr ''d2'') (suite_listing 3) (suite_requirements 3)"
proof -
  have fits: "fits (JObj [(''product_id'', JStr ''d1'')])" "fits (JObj [(''product_id'', JStr ''d2'')])" by code_simp+
  have stock: "inStock (suite_listing 2)" "inStock (suite_listing 3)" by code_simp+
  have ok: "json_ok (suite_requirements 2)" "json_ok (suite_requirements 3)" by code_simp+
  have req: "requirementsFor (m_config platform_merchant) (suite_listing 2) = Inr (suite_requirements 2)"
    "requirementsFor (m_config platform_merchant) (suite_listing 3) = Inr (suite_requirements 3)" by code_simp+
  have rows: "map_option (listing_of \<circ> row_of) (first_listed (filter (wanted_row [] ''d1'') suite_table)) = Some (suite_listing 2)"
    "map_option (listing_of \<circ> row_of) (first_listed (filter (wanted_row [] ''d2'') suite_table)) = Some (suite_listing 3)"
    by (simp_all add: suite_listing_def suite_table_def sample_table_def wanted_row_def listed_before_def)
  show "staged suite_stage suite_base suite_signing (JStr ''d1'') (suite_listing 2) (suite_requirements 2)"
    by (rule staged_row [OF fits(1) _ stock(1) ok(1) rows(1) req(1)]) simp
  show "staged suite_stage suite_base suite_signing (JStr ''d2'') (suite_listing 3) (suite_requirements 3)"
    by (rule staged_row [OF fits(2) _ stock(2) ok(2) rows(2) req(2)]) simp
qed

end
