(* ===== verification/Suite_Verdict.thy ===== *)
theory Suite_Verdict
  imports Suite_Sample
begin

text \<open>
  The refusal specs that never reach settlement, on the composed platform: malformed payments at the merchant,
  tampered assertions at the edge.
\<close>

section \<open>Malformed payments\<close>

lemma each_payload_passes:
  assumes "\<And>p g. p \<in> set ps \<Longrightarrow> cache_ok g \<Longrightarrow>
      \<exists>g'. bind_io (attemptPurchaseWithRawPayment cy base product a p) check g = (Inr (), g') \<and> cache_ok g'"
    and "cache_ok g"
  shows "\<exists>g'. each_payload cy base product a ps check g = (Inr (), g') \<and> cache_ok g'"
  using assms
proof (induction ps arbitrary: g)
  case Nil
  then show ?case by (auto simp: ret_def)
next
  case (Cons p ps)
  from Cons.prems(1) [of p g] Cons.prems(2) obtain g1 where g1:
    "bind_io (attemptPurchaseWithRawPayment cy base product a p) check g = (Inr (), g1)" "cache_ok g1" by auto
  from Cons.IH [OF Cons.prems(1) g1(2)] obtain g2 where
    "each_payload cy base product a ps check g1 = (Inr (), g2)" "cache_ok g2" by auto
  then show ?case
    by (simp only: each_payload.simps bind_run [where m = "bind_io (attemptPurchaseWithRawPayment cy base product a p) check", OF g1(1)]) auto
qed

text \<open>The payload is decodable and the merchant says what is wrong with it.\<close>

definition payment_fault :: "js \<Rightarrow> string" where
  "payment_fault p =
     (case decodePaymentHeader (encodeHeaderJson p) of Inl (Malformed_payment_error m) \<Rightarrow> m | _ \<Rightarrow> [])"

lemma malformed_payload:
  assumes "p \<in> set malformed_payloads"
  shows "json_ok p" and "ascii (stringify p)" and "utf8_wf (payment_fault p)"
    and "decodePaymentHeader (encodeHeaderJson p) = Inl (Malformed_payment_error (payment_fault p))"
proof -
  have ok: "list_all json_ok malformed_payloads" by code_simp
  have texts: "list_all (\<lambda>p. ascii (stringify p)) malformed_payloads" by code_simp
  show p: "json_ok p" "ascii (stringify p)" using assms ok texts by (simp_all add: list_all_iff)
  have "\<exists>m. decodePaymentHeader (encodeHeaderJson p) = Inl (Malformed_payment_error m) \<and> utf8_wf m"
  proof -
    have messages: "utf8_wf ''payment payload carries no authorization''" "utf8_wf ''payment payload carries no signature''"
      "utf8_wf ''authorization.from is missing or not a string''" by code_simp+
    consider "p = JObj []" | "p = JObj [(''x402Version'', jint 1), (''scheme'', JStr ''exact''), (''network'', JStr ''base-sepolia''),
         (''signature'', JStr ''0x'')]" | "p = JObj [(''authorization'', JObj []), (''signature'', JStr ''0x'')]"
      | "p = JObj [(''x402Version'', jint 1), (''scheme'', JStr ''exact''), (''network'', JStr ''base-sepolia''),
         (''authorization'', JObj [(''from'', JStr ''0x1''), (''to'', JStr ''0x2''), (''value'', JStr ''1''),
            (''validAfter'', JStr ''0''), (''validBefore'', JStr ''99999999999''), (''nonce'', JStr ''0x0'')])]"
      using assms by (auto simp: malformed_payloads_def MalformedPayments_def)
    then show ?thesis
      using p(1) messages
      by cases (simp_all add: decodePaymentHeader_def header_json.decode_encode Let_def missing_field_def get_opt_def AUTHORIZATION_FIELDS_def)
  qed
  then show "utf8_wf (payment_fault p)" "decodePaymentHeader (encodeHeaderJson p) = Inl (Malformed_payment_error (payment_fault p))"
    by (auto simp: payment_fault_def)
qed

definition fault_body :: "js \<Rightarrow> js" where
  "fault_body p = JObj [(''error'', JStr (payment_fault p)), (''reason'', JStr ''malformed_payment'')]"

lemma malformed_answered:
  assumes "carries cy (base @ ''/purchase'') (platform_fetch st)" and "staged st base sg product l requirements" and "genuine st a"
    and "p \<in> set malformed_payloads" and "cache_ok g"
  shows "\<exists>g'. attemptPurchaseWithRawPayment cy base product a p g = (Inr \<lparr>cy_status = 400, cy_answer = fault_body p\<rparr>, g') \<and> cache_ok g'"
proof -
  note p = malformed_payload [OF assms(4)]
  have "utf8_wf ''error''" "utf8_wf ''reason''" "utf8_wf ''malformed_payment''" by code_simp+
  then have "json_ok (mr_body (mr 400 [(''error'', JStr (payment_fault p)), (''reason'', JStr ''malformed_payment'')]))"
    using p(3) by (simp add: mr_def)
  from attempt_answered [OF assms(1-3) p(1,2) assms(5) paid_request_malformed [OF assms(3) p(4)] this]
  show ?thesis by (simp add: mr_def fault_body_def)
qed

section \<open>Tampered assertions\<close>

lemma tamperings_ok: "\<forall>(k, v) \<in> set tamperings. utf8_wf k \<and> json_ok v \<and> ascii k \<and> ascii_js v"
proof -
  have "list_all (\<lambda>(k, v). utf8_wf k \<and> json_ok v \<and> ascii k \<and> ascii_js v) tamperings" by code_simp
  then show ?thesis by (simp add: list_all_iff)
qed

lemma tampered_text:
  assumes "json_ok (JObj kvs)" and "ascii_js (JObj kvs)" and "change \<in> set tamperings"
  shows "json_ok (JObj (spread kvs [change]))" and "ascii (stringify (JObj (spread kvs [change])))"
proof -
  have change: "list_all (\<lambda>(k, v). utf8_wf k \<and> json_ok v) [change]" "\<forall>(k, v) \<in> set [change]. ascii k \<and> ascii_js v"
    using tamperings_ok assms(3) by (cases change; fastforce)+
  show ok: "json_ok (JObj (spread kvs [change]))" by (rule json_ok_spread [OF assms(1) change(1)])
  have "ascii_js (JObj (spread kvs [change]))"
  proof (cases change)
    case (Pair k v)
    then show ?thesis using ascii_put [OF assms(2), of k v] change(2) by simp
  qed
  then show "ascii (stringify (JObj (spread kvs [change])))" by (rule ascii_stringify(1) [OF ok])
qed

text \<open>The suite backdates an assertion as the simulator does.\<close>

lemma backdated_changes: "backdated now = fraud_changes now Expired_mode"
  by (simp add: backdated_def suite_hoursAgo_def Tampering_def get_opt_def hoursAgo_def MillisecondsPerHour_def MILLIS_PER_HOUR_def)

lemma applyFraud_backdates: "applyFraud a Expired_mode now = JObj (spread (own_properties a) (backdated now))"
  by (simp only: applyFraud_def backdated_changes)

lemma backdated_text:
  assumes "json_ok (JObj kvs)" and "ascii_js (JObj kvs)"
  shows "json_ok (JObj (spread (own_properties (JObj kvs)) (backdated now)))"
    and "ascii (stringify (JObj (spread (own_properties (JObj kvs)) (backdated now))))"
proof -
  show ok: "json_ok (JObj (spread (own_properties (JObj kvs)) (backdated now)))"
    using applyFraud_ok [OF assms(1)] by (simp only: applyFraud_backdates [symmetric])
  have "ascii ''issued_at''" "ascii ''expires_at''" by code_simp+
  then have "ascii_js (JObj (spread (own_properties (JObj kvs)) (backdated now)))"
    using hoursAgo_ascii by (simp only: backdated_changes fraud_changes.simps spread_simps own_properties.simps)
      (intro ascii_put assms(2); simp only: ascii_js.simps)
  then show "ascii (stringify (JObj (spread (own_properties (JObj kvs)) (backdated now))))" by (rule ascii_stringify(1) [OF ok])
qed

text \<open>An assertion whose signature fails is refused at the edge, whatever is paid with it.\<close>

lemma forgery_attempted:
  fixes cy :: "'a gateway cypress"
  assumes "carries cy (base @ ''/purchase'') (platform_fetch st)" and "cache_ok g" and "signs sg n"
    and "search_finds cy base found a" and "staged st base sg product l requirements"
    and "ascii (mc_network (m_config (sta_merchant st)))" and "ascii (mc_payToAddress (m_config (sta_merchant st)))"
    and "stopped_at_edge st base product forged"
  obtains g1 g2 g3 payment where
    "\<And>k :: js \<Rightarrow> js \<Rightarrow> ('a gateway, exn, unit) io. found_by cy base ''Default'' k g = k found a g1"
    "signed_for cy base sg product g1 = (Inr payment, g2)"
    "attemptPurchase cy base product forged payment g2 = (Inr \<lparr>cy_status = 401, cy_answer = refusal_body\<rparr>, g3)"
proof -
  let ?config = "m_config (sta_merchant st)"
  obtain g1 where g1: "cache_ok g1" "\<And>k :: js \<Rightarrow> js \<Rightarrow> ('a gateway, exn, unit) io. found_by cy base ''Default'' k g = k found a g1"
    using found_by_run [OF assms(4,2)] by blast
  obtain units t g2 where u: "centsToAtomicUnits (priceCents l) = Inr units" "t \<noteq> []" "ascii t" "cache_ok g2"
    and signed: "signed_for cy base sg product g1 = (Inr (JObj (suite_payment sg (JStr (mc_network ?config))
       (JStr (mc_payToAddress ?config)) (JStr units) n t)), g2)"
    using signed_for_pays [OF assms(1,5) g1(1) assms(3)] by blast
  obtain k where "units = int_text (k * 10000)" using u(1) unfolding centsToAtomicUnits_Inr by blast
  then have "ascii units" by (simp add: ascii_int_text)
  note payment = suite_payment_ok [OF assms(3,6,7) this u(2,3)]
  from assms(8) [unfolded stopped_at_edge_def] assms(1) u(4) payment(1,2) that [OF g1(2) signed]
  show ?thesis unfolding platform_fetch_def by blast
qed

section \<open>Requests without a payment\<close>

lemma unlisted_answered:
  assumes "findListing (m_query m) (mc_merchantId (m_config m)) (JStr p) w = (Inr None, w1)" and "p \<noteq> []"
  shows "purchase ed legacy m (JObj [(''product_id'', JStr p)]) headers now w =
    (Inr (mr 404 [(''error'', JStr (''no listing for '' @ p))]), w1)"
  using assms by (simp add: purchase_def get_opt_def io_simps)

text \<open>The oversized body is cut off by the node adapter.\<close>

definition oversized :: js where
  "oversized = JObj [(''query'', JStr (replicate 300000 (CHR ''x''))), (''publisher_id'', get_opt Publishers ''Demo''), (''size'', jint 1)]"

lemma ascii_replicate: "byte c < (128 :: nat) \<Longrightarrow> ascii (replicate n c)"
  by (induction n) simp_all

lemma length_escaped: "length s \<le> length (concat (map escape_char s))"
proof (induction s)
  case (Cons c s)
  have "1 \<le> length (escape_char c)" by (simp add: escape_char_def escape_unit_def Let_def)
  with Cons show ?case by simp
qed simp

lemma oversized_ok: "json_ok oversized" and oversized_length: "NODE_MAX_BODY_BYTES < length (json_body oversized)"
proof -
  let ?query = "replicate 300000 (CHR ''x'')"
  have query: "ascii ?query" by (rule ascii_replicate) simp
  have names: "utf8_wf ''query''" "utf8_wf ''publisher_id''" "utf8_wf ''size''" "utf8_wf ''pub_000001''" by code_simp+
  show ok: "json_ok oversized"
    using names utf8_wf_ascii [OF query] by (simp add: oversized_def Publishers_def get_opt_def)
  have "escape_text ?query = concat (map escape_char ?query)"
    using query by (simp only: escape_text_free utf8_wf_surrogate_free utf8_wf_ascii)
  then have "300000 \<le> length (quote ?query)"
    using length_escaped [of ?query] by (simp add: quote_def)
  moreover have "length (quote ?query) \<le> length (stringify oversized)"
    by (simp add: oversized_def Publishers_def get_opt_def)
  moreover have "ascii_js oversized"
  proof -
    have "ascii ''query''" "ascii ''publisher_id''" "ascii ''size''" "ascii ''pub_000001''" by code_simp+
    then show ?thesis using query by (simp add: oversized_def Publishers_def get_opt_def)
  qed
  then have "json_body oversized = stringify oversized"
    using utf8_encode_ascii [OF ascii_stringify(1) [OF ok]] json_body_encode [OF ok] by simp
  ultimately show "NODE_MAX_BODY_BYTES < length (json_body oversized)" by (simp add: NODE_MAX_BODY_BYTES_def)
qed

definition too_large :: js where
  "too_large = JObj [(''error'', JStr (''request body exceeds '' @ nat_text NODE_MAX_BODY_BYTES @ '' bytes'')),
     (''reason'', JStr ''body_too_large'')]"

lemma oversized_refused:
  assumes "posts cy (base @ ''/search'') oversized (platform_fetch st)"
  shows "cy (suite_post base ''Search'' [] oversized) g = (Inr \<lparr>cy_status = 413, cy_answer = too_large\<rparr>, g)"
proof -
  let ?rq = "\<lparr>rq_method = ''POST'', rq_url = base @ ''/search'', rq_headers = [(''content-type'', ''application/json'')],
      rq_body = json_body oversized\<rparr>"
  have "readBody (node_request_of (ed_host (sta_edge st)) ?rq) =
      Inl (Request_too_large (''request body exceeds '' @ nat_text NODE_MAX_BODY_BYTES @ '' bytes''))"
    using oversized_length by (simp add: readBody_def node_request_of_def)
  moreover have "to_lower ''Content-Type'' = ''content-type''" by code_simp
  ultimately have "platform_fetch st ?rq g =
      (Inr \<lparr>rs_status = 413, rs_headers = [(''content-type'', ''application/json'')], rs_body = json_body too_large\<rparr>, g)"
    by (simp add: platform_fetch_def through_gateway_def gateway_serve_def io_simps gateway_error_reply_def
        response_of_reply_def HTTP_PAYLOAD_TOO_LARGE_def lower_header_names too_large_def)
  moreover have "json_ok too_large" by code_simp
  moreover have "suite_gatewayUrl base (get_opt GatewayPaths ''Search'') = base @ ''/search''"
    by (simp add: suite_gatewayUrl_def GatewayPaths_def get_opt_def)
  ultimately show ?thesis
    using assms answer_of_json [of too_large] by (simp add: posts_def suite_post_def)
qed

section \<open>Properties\<close>


text \<open>C8: The refusal specs for a payment that does not match pass on the composed platform: paying one unit
  whatever the price, paying somebody else, and paying for one product with the assertion of another are
  each answered 422 with the reason the suite expects.\<close>

theorem mismatch_specs_pass:
  fixes cy :: "'a gateway cypress"
  assumes "carries cy (base @ ''/purchase'') (platform_fetch st)" and "cache_ok g" and "signs sg n" and "search_finds cy base found a"
    and "genuine st a" and "get a ''product_id'' = Inr (JStr (productId l))"
    and "staged st base sg (JStr (productId l)) l requirements"
    and "and_then (and_then (get found ''products'') (\<lambda>ps. element ps 1)) (\<lambda>other. get other ''product_id'') = Inr other"
    and "staged st base sg other l' requirements'" and "productId l \<noteq> productId l'"
    and "ascii (productId l)" and "ascii (productId l')"
    and "ascii (mc_network (m_config (sta_merchant st)))" and "ascii (mc_payToAddress (m_config (sta_merchant st)))"
    and "to_lower somebody_else \<noteq> to_lower (mc_payToAddress (m_config (sta_merchant st)))"
  shows "(\<exists>g'. spec_underpaying cy base sg g = (Inr (), g')) \<and>
    (\<exists>g'. spec_paying_somebody_else cy base sg g = (Inr (), g')) \<and>
    (\<exists>g'. spec_other_product cy base sg g = (Inr (), g'))"
proof -
  let ?config = "m_config (sta_merchant st)"
  let ?pay = "\<lambda>to amount s. JObj (suite_payment sg (JStr (mc_network ?config)) (JStr to) (JStr amount) n s)"
  obtain g1 where g1: "cache_ok g1" "\<And>k :: js \<Rightarrow> js \<Rightarrow> ('a gateway, exn, unit) io. found_by cy base ''Default'' k g = k found a g1"
    using found_by_run [OF assms(4,2)] by blast
  obtain units s g2 where u: "centsToAtomicUnits (priceCents l) = Inr units" "s \<noteq> []" "ascii s" "cache_ok g2"
    and signed: "signed_for cy base sg (JStr (productId l)) g1 = (Inr (?pay (mc_payToAddress ?config) units s), g2)"
    using signed_for_pays [OF assms(1,7) g1(1) assms(3)] by blast
  obtain k where units: "units = int_text (k * 10000)" using u(1) unfolding centsToAtomicUnits_Inr by blast
  have one: "JStr ''1'' \<noteq> JStr units"
  proof
    assume "JStr ''1'' = JStr units"
    moreover have "int_text 1 = ''1''" by code_simp
    ultimately have "int_text 1 = int_text (k * 10000)" by (simp add: units)
    then have "k * 10000 = 1" using int_text_inj by metis
    moreover have "k * 10000 mod 10000 = 0" by simp
    ultimately show False by simp
  qed
  have ascii_one: "ascii ''1''" "ascii somebody_else" "ascii units" by (code_simp, code_simp, simp add: units ascii_int_text)
  have texts: "utf8_wf ''authorization pays ''" "utf8_wf '', listing requires ''" "utf8_wf ''1''" "utf8_wf units"
    "utf8_wf ''authorization pays a different address''" "utf8_wf ''amount_mismatch''" "utf8_wf ''payee_mismatch''"
    "utf8_wf ''assertion_product_mismatch''" "utf8_wf ''assertion covers ''" "utf8_wf '', purchase covers ''"
    using ascii_one(3) by (code_simp, code_simp, code_simp, simp add: utf8_wf_ascii) code_simp+
  have amount: "mismatch ?config l a (?pay (mc_payToAddress ?config) ''1'' s) =
      Inr (Some (mr 422 [(''error'', JStr (''authorization pays '' @ ''1'' @ '', listing requires '' @ units)),
        (''reason'', JStr ''amount_mismatch'')]))"
    using assms(6) u(1) one by (simp add: mismatch_def authorized_suite)
  have payee: "mismatch ?config l a (?pay somebody_else units s) =
      Inr (Some (mr 422 [(''error'', JStr ''authorization pays a different address''), (''reason'', JStr ''payee_mismatch'')]))"
    using assms(6,15) u(1) by (simp add: mismatch_def authorized_suite)
  have under: "spec_underpaying cy base sg g = bind_io (attemptPurchaseWithRawPayment cy base (JStr (productId l)) a
      (?pay (mc_payToAddress ?config) ''1'' s)) (refused_with ''Unprocessable'' (JStr ''amount_mismatch'')) g2"
    by (simp only: spec_underpaying_def g1(2) assms(6) bind_lift bind_run [where m = "signed_for cy base sg (JStr (productId l))", OF signed] reauthorized_suite merchant_reason)
  have wf: "utf8_wf (''authorization pays '' @ ''1'' @ '', listing requires '' @ units)"
    by (intro utf8_wf_append texts)
  have "\<exists>g'. spec_underpaying cy base sg g = (Inr (), g')"
    unfolding under using mispayment_refused [OF assms(1,7,3,5) u(4) assms(13,14) ascii_one(1) u(2,3) amount wf reason_ok [OF texts(6)] suite_status(1)]
    by blast
  moreover have other: "spec_paying_somebody_else cy base sg g = bind_io (attemptPurchaseWithRawPayment cy base (JStr (productId l)) a
      (?pay somebody_else units s)) (refused_with ''Unprocessable'' (JStr ''payee_mismatch'')) g2"
    by (simp only: spec_paying_somebody_else_def g1(2) assms(6) bind_lift bind_run [where m = "signed_for cy base sg (JStr (productId l))", OF signed] reauthorized_suite merchant_reason)
  have "\<exists>g'. spec_paying_somebody_else cy base sg g = (Inr (), g')"
    unfolding other using mispayment_refused [OF assms(1,7,3,5) u(4) assms(13) ascii_one(2,3) u(2,3) payee texts(5) reason_ok [OF texts(7)] suite_status(1)]
    by blast
  moreover have "\<exists>g'. spec_other_product cy base sg g = (Inr (), g')"
  proof -
    obtain units' s' g3 where u': "centsToAtomicUnits (priceCents l') = Inr units'" "s' \<noteq> []" "ascii s'" "cache_ok g3"
      and signed': "signed_for cy base sg other g1 = (Inr (?pay (mc_payToAddress ?config) units' s'), g3)"
      using signed_for_pays [OF assms(1,9) g1(1) assms(3)] by blast
    obtain k' where "units' = int_text (k' * 10000)" using u'(1) unfolding centsToAtomicUnits_Inr by blast
    then have ascii': "ascii units'" by (simp add: ascii_int_text)
    have covers: "mismatch ?config l' a (?pay (mc_payToAddress ?config) units' s') =
      Inr (Some (mr 422 [(''error'', JStr (''assertion covers '' @ productId l @ '', purchase covers '' @ productId l')),
        (''reason'', JStr ''assertion_product_mismatch'')]))"
      using assms(6,10) by (simp add: mismatch_def)
    have wf': "utf8_wf (''assertion covers '' @ productId l @ '', purchase covers '' @ productId l')"
      by (intro utf8_wf_append texts utf8_wf_ascii [OF assms(11)] utf8_wf_ascii [OF assms(12)])
    have "spec_other_product cy base sg g = bind_io (attemptPurchase cy base other a
      (?pay (mc_payToAddress ?config) units' s')) (refused_with ''Unprocessable'' (JStr ''assertion_product_mismatch'')) g3"
      by (simp only: spec_other_product_def g1(2) assms(8) bind_lift bind_run [where m = "signed_for cy base sg other", OF signed'] merchant_reason)
    then have run: "spec_other_product cy base sg g = bind_io (attemptPurchaseWithRawPayment cy base other a
      (?pay (mc_payToAddress ?config) units' s')) (refused_with ''Unprocessable'' (JStr ''assertion_product_mismatch'')) g3"
      by (simp only: attemptPurchase_def attemptPurchaseWithRawPayment_def)
    show ?thesis
      unfolding run using mispayment_refused [OF assms(1,9,3,5) u'(4) assms(13,14) ascii' u'(2,3) covers wf' reason_ok [OF texts(8)] suite_status(1)]
      by blast
  qed
  ultimately show ?thesis by blast
qed

lemma mismatch_specs_pass_witness:
  "(\<exists>g'. spec_underpaying (suite_cy (platform_fetch suite_stage)) suite_base suite_signing idle = (Inr (), g')) \<and>
    (\<exists>g'. spec_paying_somebody_else (suite_cy (platform_fetch suite_stage)) suite_base suite_signing idle = (Inr (), g')) \<and>
    (\<exists>g'. spec_other_product (suite_cy (platform_fetch suite_stage)) suite_base suite_signing idle = (Inr (), g'))"
proof (rule mismatch_specs_pass [OF suite_carries idle_ok suite_signing_signs suite_search_finds suite_genuine])
  have shown: "productId (suite_listing 2) = ''d1''" "productId (suite_listing 3) = ''d2''" by code_simp+
  show "get (JObj (signed_sample ''p1'')) ''product_id'' = Inr (JStr (productId (suite_listing 2)))" by code_simp
  show "staged suite_stage suite_base suite_signing (JStr (productId (suite_listing 2))) (suite_listing 2) (suite_requirements 2)"
    unfolding shown by (rule suite_staged)
  show "and_then (and_then (get suite_found ''products'') (\<lambda>ps. element ps 1)) (\<lambda>other. get other ''product_id'') = Inr (JStr ''d2'')"
    by code_simp
  show "staged suite_stage suite_base suite_signing (JStr ''d2'') (suite_listing 3) (suite_requirements 3)"
    by (rule suite_staged)
  show "productId (suite_listing 2) \<noteq> productId (suite_listing 3)" "ascii (productId (suite_listing 2))" "ascii (productId (suite_listing 3))"
    unfolding shown by code_simp+
  show "ascii (mc_network (m_config (sta_merchant suite_stage)))" "ascii (mc_payToAddress (m_config (sta_merchant suite_stage)))"
    "to_lower somebody_else \<noteq> to_lower (mc_payToAddress (m_config (sta_merchant suite_stage)))" by code_simp+
qed

text \<open>C10: The malformed-payment specs pass on the composed platform.\<close>

theorem malformed_specs_pass:
  fixes cy :: "'a gateway cypress"
  assumes "carries cy (base @ ''/purchase'') (platform_fetch st)" and "cache_ok g" and "search_finds cy base found a"
    and "genuine st a" and "get a ''product_id'' = Inr product" and "staged st base sg product l requirements"
  shows "\<exists>g1 g2 g3. spec_malformed_payments cy base g = (Inr (), g1) \<and>
     spec_never_server_error cy base g = (Inr (), g2) \<and> spec_leaks_nothing cy base g = (Inr (), g3)"
proof -
  obtain g1 where g1: "cache_ok g1" "\<And>k :: js \<Rightarrow> js \<Rightarrow> ('a gateway, exn, unit) io. found_by cy base ''Default'' k g = k found a g1"
    using found_by_run [OF assms(3,2)] by blast
  note answered = malformed_answered [OF assms(1,6,4)]
  have each: "\<exists>g'. each_payload cy base product a malformed_payloads check g1 = (Inr (), g') \<and> cache_ok g'"
    if check: "\<And>p g. check \<lparr>cy_status = 400, cy_answer = fault_body p\<rparr> g = (Inr (), g)" for check :: "cy_response \<Rightarrow> ('a gateway, exn, unit) io"
  proof (rule each_payload_passes [OF _ g1(1)])
    fix p and g :: "'a gateway" assume "p \<in> set malformed_payloads" "cache_ok g"
    from answered [OF this] obtain g' where "attemptPurchaseWithRawPayment cy base product a p g =
        (Inr \<lparr>cy_status = 400, cy_answer = fault_body p\<rparr>, g')" "cache_ok g'" by blast
    then show "\<exists>g'. bind_io (attemptPurchaseWithRawPayment cy base product a p) check g = (Inr (), g') \<and> cache_ok g'"
      using check by (simp add: bind_io_def)
  qed
  have refused: "refused_with ''BadRequest'' (JStr ''malformed_payment'') \<lparr>cy_status = 400, cy_answer = fault_body p\<rparr> g = (Inr (), g)"
    for p and g :: "'a gateway"
    by (rule refused_with_passes [OF _ suite_status(2)]) (simp_all add: fault_body_def)
  have "\<exists>g'. spec_malformed_payments cy base g = (Inr (), g')"
    unfolding spec_malformed_payments_def g1(2) assms(5) bind_lift merchant_reason
    using each [of "refused_with ''BadRequest'' (JStr ''malformed_payment'')"] refused by blast
  moreover have "\<exists>g'. spec_never_server_error cy base g = (Inr (), g')"
    unfolding spec_never_server_error_def g1(2) assms(5) bind_lift
    using each [of "\<lambda>response. expecting (cy_status response < 500)"] by (fastforce simp: expecting_def io_simps)
  moreover have "\<exists>g'. spec_leaks_nothing cy base g = (Inr (), g')"
  proof -
    let ?p = "get_opt MalformedPayments ''EmptyAuthorization''"
    have "?p \<in> set malformed_payloads" by (simp add: malformed_payloads_def MalformedPayments_def get_opt_def)
    from answered [OF this g1(1)] obtain g' where g':
      "attemptPurchaseWithRawPayment cy base product a ?p g1 = (Inr \<lparr>cy_status = 400, cy_answer = fault_body ?p\<rparr>, g')" by blast
    have fault: "payment_fault ?p = ''authorization.from is missing or not a string''"
    proof -
      have "json_ok ?p" by code_simp
      then show ?thesis
        by (simp add: payment_fault_def decodePaymentHeader_def header_json.decode_encode Let_def missing_field_def get_opt_def AUTHORIZATION_FIELDS_def MalformedPayments_def)
    qed
    have "list_all (\<lambda>marker. \<not> sublist marker (stringify (fault_body ?p))) leak_markers"
      unfolding fault_body_def fault by code_simp
    then show ?thesis
      unfolding spec_leaks_nothing_def g1(2) assms(5) bind_lift
      using g' by (simp add: bind_io_def expecting_def lift_def)
  qed
  ultimately show ?thesis by blast
qed

lemma malformed_specs_pass_witness:
  "\<exists>g1 g2 g3. spec_malformed_payments (suite_cy (platform_fetch suite_stage)) suite_base idle = (Inr (), g1) \<and>
     spec_never_server_error (suite_cy (platform_fetch suite_stage)) suite_base idle = (Inr (), g2) \<and>
     spec_leaks_nothing (suite_cy (platform_fetch suite_stage)) suite_base idle = (Inr (), g3)"
proof (rule malformed_specs_pass [OF suite_carries idle_ok suite_search_finds suite_genuine])
  show "get (JObj (signed_sample ''p1'')) ''product_id'' = Inr (JStr ''d1'')" by code_simp
  show "staged suite_stage suite_base suite_signing (JStr ''d1'') (suite_listing 2) (suite_requirements 2)"
    by (rule suite_staged)
qed

text \<open>C9: A genuine assertion whose publisher, rate, signature or search request is rewritten, or that is backdated, is
  refused at the edge: whatever is behind the gateway and whatever is paid, the suite's attempt is answered 401
  \<open>invalid_signature\<close> and nothing behind the gateway is called.  So the tampering specs and the expiry spec pass
  on the composed platform.\<close>

theorem tampered_specs_pass:
  fixes cy :: "'a gateway cypress"
  assumes "carries cy (base @ ''/purchase'') (platform_fetch st)" and "cache_ok g" and "signs sg n"
    and "search_finds cy base found (JObj kvs)" and "genuine st (JObj kvs)" and "get (JObj kvs) ''product_id'' = Inr product"
    and "staged st base sg product l requirements"
    and "ascii (mc_network (m_config (sta_merchant st)))" and "ascii (mc_payToAddress (m_config (sta_merchant st)))"
    and "signature_bytes (JObj kvs) = Some s" and "canonicalizeForSigning (JObj kvs) = Inr c" and "signable kvs"
    and "\<And>p. sta_check st (m_key (sta_merchant st)) s p \<Longrightarrow> p = utf8_encode c"
    and "\<And>p. \<not> sta_check st (m_key (sta_merchant st)) (replicate 64 (chr 0)) p"
    and "change \<in> set tamperings" and "own kvs (fst change) \<noteq> snd change" and "attacks kvs Expired_mode minted"
  shows "stopped_at_edge st base product (JObj (spread kvs [change])) \<and> stopped_at_edge st base product (JObj (spread kvs (backdated minted))) \<and>
    (\<exists>g'. spec_tampered cy base sg change g = (Inr (), g')) \<and> (\<exists>g'. spec_expired cy base sg minted g = (Inr (), g'))"
proof (intro conjI)
  have ok: "json_ok (JObj kvs)" "ascii_js (JObj kvs)" using assms(5) by (simp_all add: genuine_def)
  have backdated: "verifyAssertion (sta_check st) (sta_legacy st) (applyFraud (JObj kvs) Expired_mode minted)
      (m_key (sta_merchant st)) (ed_now (sta_edge st)) =
      Inl (Assertion_verification_error Invalid_signature ''signature does not verify against the public key'')"
    using assms(10-14) assms(17) by (rule fraud_refused)
  have tampered: "verifyAssertion (sta_check st) (sta_legacy st) (JObj (spread kvs [change]))
      (m_key (sta_merchant st)) (ed_now (sta_edge st)) =
      Inl (Assertion_verification_error Invalid_signature ''signature does not verify against the public key'')"
    using assms(10-16) by (rule suite_tampering_refused)
  show tampered_stopped: "stopped_at_edge st base product (JObj (spread kvs [change]))"
    by (rule edge_refuses [OF assms(7) tampered_text [OF ok assms(15)] tampered])
  have mutated: "applyFraud (JObj kvs) Expired_mode minted = JObj (spread kvs (backdated minted))"
    by (simp only: applyFraud_backdates own_properties.simps)
  show backdated_stopped: "stopped_at_edge st base product (JObj (spread kvs (backdated minted)))"
    by (rule edge_refuses [OF assms(7) backdated_text [OF ok, unfolded own_properties.simps] backdated [unfolded mutated]])
  have reason: "get refusal_body ''reason'' = Inr (JStr ''invalid_signature'')" by (simp add: refusal_body_def)
  obtain g1 g2 g3 payment where run:
    "\<And>k :: js \<Rightarrow> js \<Rightarrow> ('a gateway, exn, unit) io. found_by cy base ''Default'' k g = k found (JObj kvs) g1"
    "signed_for cy base sg product g1 = (Inr payment, g2)"
    "attemptPurchase cy base product (JObj (spread kvs [change])) payment g2 = (Inr \<lparr>cy_status = 401, cy_answer = refusal_body\<rparr>, g3)"
    by (rule forgery_attempted [OF assms(1-4,7-9) tampered_stopped]) (rule that)
  have "spec_tampered cy base sg change g =
      refused_with ''Unauthorized'' (get_opt EdgeRejectionReasons ''SignatureInvalid'') \<lparr>cy_status = 401, cy_answer = refusal_body\<rparr> g3"
    by (simp only: spec_tampered_def run(1) assms(6) bind_lift own_properties.simps bind_run [where m = "signed_for cy base sg product", OF run(2)]
        bind_run [where m = "attemptPurchase cy base product (JObj (spread kvs [change])) payment", OF run(3)])
  also have "\<dots> = (Inr (), g3)"
    by (rule refused_with_passes [OF _ suite_status(3)]) (simp_all add: reason EdgeRejectionReasons_def get_opt_def)
  finally show "\<exists>g'. spec_tampered cy base sg change g = (Inr (), g')" by blast
  obtain h1 h2 h3 paid where run:
    "\<And>k :: js \<Rightarrow> js \<Rightarrow> ('a gateway, exn, unit) io. found_by cy base ''Default'' k g = k found (JObj kvs) h1"
    "signed_for cy base sg product h1 = (Inr paid, h2)"
    "attemptPurchase cy base product (JObj (spread kvs (backdated minted))) paid h2 =
       (Inr \<lparr>cy_status = 401, cy_answer = refusal_body\<rparr>, h3)"
    by (rule forgery_attempted [OF assms(1-4,7-9) backdated_stopped]) (rule that)
  have "spec_expired cy base sg minted g = (Inr (), h3)"
    by (simp only: spec_expired_def run(1) assms(6) bind_lift bind_run [where m = "signed_for cy base sg product", OF run(2)]
        own_properties.simps
        bind_run [where m = "attemptPurchase cy base product (JObj (spread kvs (backdated minted))) paid", OF run(3)])
      (simp add: expecting_def reason HttpStatus_def EdgeRejectionReasons_def get_opt_def io_simps)
  then show "\<exists>g'. spec_expired cy base sg minted g = (Inr (), g')" by blast
qed

lemma tampered_specs_pass_witness:
  "stopped_at_edge suite_stage suite_base (JStr ''d1'')
      (JObj (spread (signed_sample ''p1'') [(''commission_bps'', get_opt Tampering ''InflatedCommissionBps'')])) \<and>
    stopped_at_edge suite_stage suite_base (JStr ''d1'') (JObj (spread (signed_sample ''p1'') (backdated 1785416400000))) \<and>
    (\<exists>g'. spec_tampered (suite_cy (platform_fetch suite_stage)) suite_base suite_signing
      (''commission_bps'', get_opt Tampering ''InflatedCommissionBps'') idle = (Inr (), g')) \<and>
    (\<exists>g'. spec_expired (suite_cy (platform_fetch suite_stage)) suite_base suite_signing 1785416400000 idle = (Inr (), g'))"
proof (rule tampered_specs_pass [OF suite_carries idle_ok suite_signing_signs suite_search_finds suite_genuine])
  show "get (JObj (signed_sample ''p1'')) ''product_id'' = Inr (JStr ''d1'')" by code_simp
  show "staged suite_stage suite_base suite_signing (JStr ''d1'') (suite_listing 2) (suite_requirements 2)"
    by (rule suite_staged)
  show "ascii (mc_network (m_config (sta_merchant suite_stage)))" "ascii (mc_payToAddress (m_config (sta_merchant suite_stage)))"
    by code_simp+
  show "signature_bytes (JObj (signed_sample ''p1'')) = Some (replicate 64 (chr 7))" by code_simp
  show "canonicalizeForSigning (JObj (signed_sample ''p1'')) = Inr sample_canonical"
    by (simp add: sample_canonical_def canonicalize_Obj)
  have "own (signed_sample ''p1'') ''issued_at'' \<noteq> JStr (hoursAgo 1785416400000 3)" by code_simp
  then show "attacks (signed_sample ''p1'') Expired_mode 1785416400000" by (simp add: attacks_def)
  show "signable (signed_sample ''p1'')" by (simp add: signed_sample_signable sample_fields_signable)
  show "p = utf8_encode sample_canonical" if "sta_check suite_stage (m_key (sta_merchant suite_stage)) (replicate 64 (chr 7)) p" for p
    using that by (simp add: forging_check_def suite_stage_def)
  show "\<not> sta_check suite_stage (m_key (sta_merchant suite_stage)) (replicate 64 (chr 0)) p" for p
    by (simp add: forging_check_def suite_stage_def)
  show "(''commission_bps'', get_opt Tampering ''InflatedCommissionBps'') \<in> set tamperings" by (simp add: tamperings_def)
  show "own (signed_sample ''p1'') (fst (''commission_bps'', get_opt Tampering ''InflatedCommissionBps'')) \<noteq>
      snd (''commission_bps'', get_opt Tampering ''InflatedCommissionBps'')" by code_simp
qed

text \<open>The specs that ask without paying pass on the composed platform: a listed product is answered 402 with
  a payee and an amount in the form the suite expects, an unlisted one 404, and a search whose body is
  larger than the edge accepts 413.\<close>

theorem unpaid_specs_pass:
  fixes cy :: "'a gateway cypress"
  assumes "carries cy (base @ ''/purchase'') (platform_fetch st)" and "posts cy (base @ ''/search'') oversized (platform_fetch st)"
    and "cache_ok g" and "search_finds cy base found a" and "staged st base sg product l requirements"
    and "and_then (and_then (get found ''products'') (\<lambda>ps. element ps 0)) (\<lambda>first. get first ''product_id'') = Inr product"
    and "starts_with ''0x'' (mc_payToAddress (m_config (sta_merchant st)))"
    and "\<And>w. findListing (m_query (sta_merchant st)) (mc_merchantId (m_config (sta_merchant st))) (JStr ''prd_99999999'') w = (Inr None, w)"
  shows "(\<exists>g'. spec_unpaid_challenge cy base g = (Inr (), g')) \<and> (\<exists>g'. spec_unlisted_product cy base g = (Inr (), g')) \<and>
    (\<exists>g'. spec_oversized_body cy base g = (Inr (), g'))"
proof (intro conjI)
  obtain k g1 where g1: "search_default cy base ''Default'' g = (Inr \<lparr>cy_status = k, cy_answer = found\<rparr>, g1)" "cache_ok g1"
    using assms(3,4) unfolding search_finds_def by blast
  from challenged [OF assms(1,5) g1(2)] obtain g2 where g2:
    "suite_requestChallenge cy base product g1 = (Inr \<lparr>cy_status = 402, cy_answer = challenge_for requirements\<rparr>, g2)" by blast
  have "requirementsFor (m_config (sta_merchant st)) l = Inr requirements" using assms(5) by (auto simp: staged_def listed_def)
  then obtain units where u: "centsToAtomicUnits (priceCents l) = Inr units"
    and r: "get requirements ''payTo'' = Inr (JStr (mc_payToAddress (m_config (sta_merchant st))))"
      "get requirements ''maxAmountRequired'' = Inr (JStr units)"
    by (auto simp: requirementsFor_def result_simps)
  obtain j where "units = int_text (j * 10000)" "0 \<le> j" using u unfolding centsToAtomicUnits_Inr by blast
  then have digits: "units \<noteq> []" "list_all is_digit units"
    using nat_text_digits by (auto simp: int_text_def list_all_iff nat_text_nonempty)
  have "spec_unpaid_challenge cy base g = (Inr (), g2)"
    using assms(6,7) digits
    by (simp add: spec_unpaid_challenge_def bind_io_def g1(1) g2 lift_def expect_status_def expecting_def HttpStatus_def get_opt_def challenge_for_def r)
  then show "\<exists>g'. spec_unpaid_challenge cy base g = (Inr (), g')" by blast
next
  let ?body = "JObj [(''product_id'', JStr ''prd_99999999'')]"
  have st: "reaches (sta_edge st) (suite_agent base sg)" "serves (sta_edge st)" using assms(5) by (simp_all add: staged_def)
  have fits: "fits ?body" by code_simp
  have ok: "json_ok (mr_body (mr 404 [(''error'', JStr (''no listing for '' @ ''prd_99999999''))]))" by code_simp
  from unpaid_answered [OF assms(1) st fits assms(3) unlisted_answered [OF assms(8)] ok]
  obtain g' where "suite_requestChallenge cy base (JStr ''prd_99999999'') g =
      (Inr \<lparr>cy_status = 404, cy_answer = JObj [(''error'', JStr (''no listing for '' @ ''prd_99999999''))]\<rparr>, g')"
    by (auto simp: mr_def)
  then have "spec_unlisted_product cy base g = (Inr (), g')"
    by (simp add: spec_unlisted_product_def bind_io_def expect_status_def expecting_def HttpStatus_def get_opt_def lift_def)
  then show "\<exists>g'. spec_unlisted_product cy base g = (Inr (), g')" by blast
next
  have "spec_oversized_body cy base g =
      bind_io (cy (suite_post base ''Search'' [] oversized)) (refused_with ''PayloadTooLarge'' (get_opt GatewayRejectionReasons ''BodyTooLarge'')) g"
    by (simp add: spec_oversized_body_def oversized_def BodyLimits_def get_opt_def)
  also have "\<dots> = refused_with ''PayloadTooLarge'' (get_opt GatewayRejectionReasons ''BodyTooLarge'') \<lparr>cy_status = 413, cy_answer = too_large\<rparr> g"
    by (simp only: bind_io_def oversized_refused [OF assms(2)] sum.case prod.case)
  also have "\<dots> = (Inr (), g)"
    by (rule refused_with_passes [OF _ suite_status(5)]) (simp_all add: too_large_def GatewayRejectionReasons_def get_opt_def)
  finally show "\<exists>g'. spec_oversized_body cy base g = (Inr (), g')" by blast
qed

lemma unpaid_specs_pass_witness:
  "(\<exists>g'. spec_unpaid_challenge (suite_cy (platform_fetch suite_stage)) suite_base idle = (Inr (), g')) \<and>
    (\<exists>g'. spec_unlisted_product (suite_cy (platform_fetch suite_stage)) suite_base idle = (Inr (), g')) \<and>
    (\<exists>g'. spec_oversized_body (suite_cy (platform_fetch suite_stage)) suite_base idle = (Inr (), g'))"
proof (rule unpaid_specs_pass [OF suite_carries _ idle_ok suite_search_finds])
  have "hd (replicate 300000 (CHR ''x'')) \<noteq> hd ''trail running shoes''" by simp
  then have "replicate 300000 (CHR ''x'') \<noteq> ''trail running shoes''" by metis
  then have "oversized \<noteq> suite_query" by (simp add: oversized_def suite_query_def Queries_def get_opt_def)
  then show "posts (suite_cy (platform_fetch suite_stage)) (suite_base @ ''/search'') oversized (platform_fetch suite_stage)"
    by (simp add: posts_def suite_cy_def)
  show "staged suite_stage suite_base suite_signing (JStr ''d1'') (suite_listing 2) (suite_requirements 2)"
    by (rule suite_staged)
  show "and_then (and_then (get suite_found ''products'') (\<lambda>ps. element ps 0)) (\<lambda>first. get first ''product_id'') = Inr (JStr ''d1'')"
    by code_simp
  show "starts_with ''0x'' (mc_payToAddress (m_config (sta_merchant suite_stage)))" by code_simp
  have "first_listed (filter (wanted_row [] ''prd_99999999'') suite_table) = None"
    by (simp add: suite_table_def sample_table_def wanted_row_def)
  moreover have "mc_merchantId (m_config (sta_merchant suite_stage)) = []" by code_simp
  ultimately show "findListing (m_query (sta_merchant suite_stage)) (mc_merchantId (m_config (sta_merchant suite_stage)))
      (JStr ''prd_99999999'') w = (Inr None, w)" for w
    by (simp add: findListing_table suite_stage_def)
qed

end
