(* ===== verification/Go_Json.thy ===== *)
theory Go_Json
  imports Go_Assertion
begin

text \<open>
  Go's \<open>encoding/json\<close> as the settlement service uses it.  A text is scanned into a tree that keeps what
  the text said: a number its literal, a string its pieces, an object every member in the order written.
  \<open>js_of\<close> is what \<open>JSON.parse\<close> makes of such a tree; a decoder makes a Go value of it.  They differ: Go finds
  the field of a member by its name and, failing that, by its name with case folded, and a later member
  overwrites an earlier one.
\<close>

section \<open>Scanning\<close>

datatype raw =
    RNull
  | RBool bool
  | RNumber string
  | RString "piece list"
  | RArray "raw list"
  | RObject "(piece list \<times> raw) list"

definition scan_number :: "string \<Rightarrow> (raw \<times> string) option" where
  "scan_number s =
     (let t = takeWhile number_char s in
      map_option (\<lambda>_. (RNumber t, dropWhile number_char s)) (json_number t))"

fun scan_value :: "nat \<Rightarrow> string \<Rightarrow> (raw \<times> string) option"
  and scan_elems :: "nat \<Rightarrow> string \<Rightarrow> (raw list \<times> string) option"
  and scan_members :: "nat \<Rightarrow> string \<Rightarrow> ((piece list \<times> raw) list \<times> string) option" where
  "scan_value 0 s = None"
| "scan_value (Suc n) s =
     (case skip_ws s of
        [] \<Rightarrow> None
      | c # cs \<Rightarrow>
          if c = CHR ''{'' then
            (if starts_with ''}'' (skip_ws cs) then Some (RObject [], drop 1 (skip_ws cs))
             else map_option (\<lambda>(kvs, r). (RObject kvs, r)) (scan_members n cs))
          else if c = CHR ''['' then
            (if starts_with '']'' (skip_ws cs) then Some (RArray [], drop 1 (skip_ws cs))
             else map_option (\<lambda>(vs, r). (RArray vs, r)) (scan_elems n cs))
          else if byte c = (34 :: nat) then map_option (\<lambda>(ps, r). (RString ps, r)) (parse_string cs)
          else if starts_with ''null'' (c # cs) then Some (RNull, drop 3 cs)
          else if starts_with ''true'' (c # cs) then Some (RBool True, drop 3 cs)
          else if starts_with ''false'' (c # cs) then Some (RBool False, drop 4 cs)
          else scan_number (c # cs))"
| "scan_elems 0 s = None"
| "scan_elems (Suc n) s =
     (case scan_value n s of
        None \<Rightarrow> None
      | Some (v, r) \<Rightarrow>
          (case skip_ws r of
             [] \<Rightarrow> None
           | c # r' \<Rightarrow>
               if c = CHR '']'' then Some ([v], r')
               else if c = CHR '','' then map_option (\<lambda>(vs, r). (v # vs, r)) (scan_elems n r')
               else None))"
| "scan_members 0 s = None"
| "scan_members (Suc n) s =
     (case skip_ws s of
        [] \<Rightarrow> None
      | q # s1 \<Rightarrow>
          if byte q \<noteq> (34 :: nat) then None
          else
            (case parse_string s1 of
               None \<Rightarrow> None
             | Some (k, s2) \<Rightarrow>
                 if \<not> starts_with '':'' (skip_ws s2) then None
                 else
                   (case scan_value n (drop 1 (skip_ws s2)) of
                      None \<Rightarrow> None
                    | Some (v, r) \<Rightarrow>
                        (case skip_ws r of
                           [] \<Rightarrow> None
                         | c # r' \<Rightarrow>
                             if c = CHR ''}'' then Some ([(k, v)], r')
                             else if c = CHR '','' then
                               map_option (\<lambda>(kvs, r). ((k, v) # kvs, r)) (scan_members n r')
                             else None))))"

text \<open>The nesting at which the scanner gives up.\<close>

definition maxNestingDepth :: nat where
  "maxNestingDepth = 10000"

fun depth :: "raw \<Rightarrow> nat"
  and depth_elems :: "raw list \<Rightarrow> nat"
  and depth_members :: "(piece list \<times> raw) list \<Rightarrow> nat" where
  "depth (RArray gs) = Suc (depth_elems gs)"
| "depth (RObject kgs) = Suc (depth_members kgs)"
| "depth g = 0"
| "depth_elems [] = 0"
| "depth_elems (g # gs) = max (depth g) (depth_elems gs)"
| "depth_members [] = 0"
| "depth_members ((k, g) # kgs) = max (depth g) (depth_members kgs)"

fun compound :: "raw \<Rightarrow> bool" where
  "compound (RArray gs) = True"
| "compound (RObject kgs) = True"
| "compound g = False"

text \<open>\<open>json.Unmarshal\<close> wants one value and nothing after it.\<close>

definition unmarshal :: "bytes \<Rightarrow> raw option" where
  "unmarshal s =
     (case scan_value (json_fuel s) s of
        Some (g, r) \<Rightarrow> if skip_ws r = [] \<and> depth g \<le> maxNestingDepth then Some g else None
      | None \<Rightarrow> None)"

text \<open>\<open>json.Decoder.Decode\<close> takes the first value of a stream and leaves the rest.  The end of a value that
  no bracket closes is only seen at the next byte or at the end of the stream, which a broken one has not.\<close>

definition decode_first :: "bool \<Rightarrow> bytes \<Rightarrow> raw option" where
  "decode_first ended s =
     (case scan_value (json_fuel s) s of
        Some (g, r) \<Rightarrow> if (compound g \<or> r \<noteq> [] \<or> ended) \<and> depth g \<le> maxNestingDepth then Some g else None
      | None \<Rightarrow> None)"

section \<open>Values\<close>

text \<open>A string: escapes are resolved, a lone surrogate and every byte that starts no well-formed sequence
  become U+FFFD.\<close>

fun raw_bytes :: "piece list \<Rightarrow> bytes" where
  "raw_bytes (Raw c # ps) = c # raw_bytes ps"
| "raw_bytes ps = []"

function go_unquote :: "piece list \<Rightarrow> bytes" where
  "go_unquote [] = []"
| "go_unquote (Unit u # ps) =
     (case ps of
        Unit l # ps' \<Rightarrow>
          if is_high u \<and> is_low l
          then utf8_of_code (65536 + (u - 55296) * 1024 + (l - 56320)) @ go_unquote ps'
          else (if is_high u \<or> is_low u then replacement else utf8_of_code u) @ go_unquote ps
      | _ \<Rightarrow> (if is_high u \<or> is_low u then replacement else utf8_of_code u) @ go_unquote ps)"
| "go_unquote (Raw b # ps) =
     (if byte b < (128 :: nat) then b # go_unquote ps
      else case utf8_lead (byte b) of
        None \<Rightarrow> replacement @ go_unquote ps
      | Some (n, lo, hi) \<Rightarrow>
          (case take_conts n lo hi (raw_bytes ps) of
             (t, r, ok) \<Rightarrow> if ok then b # t @ go_unquote (drop (length t) ps) else replacement @ go_unquote ps))"
  by pat_completeness auto
termination
  by (relation "measure length") auto

text \<open>\<open>strconv.ParseInt(s, 10, 64)\<close> of a number's literal.\<close>

definition parse_int64 :: "string \<Rightarrow> int64 option" where
  "parse_int64 t =
     (let digits = (if starts_with ''-'' t then drop 1 t else t) in
      if digits = [] \<or> \<not> list_all is_digit digits then None
      else
        case digits_value 10 0 digits of
          None \<Rightarrow> None
        | Some n \<Rightarrow>
            let i = (if starts_with ''-'' t then - int n else int n) in
            if - (2 ^ 63) \<le> i \<and> i < 2 ^ 63 then Some (word_of_int i) else None)"

section \<open>Decoders\<close>

text \<open>A decoder overwrites what is there already; \<open>null\<close> leaves it, and a value of another kind is an error.\<close>

type_synonym 'a decoder = "raw \<Rightarrow> 'a \<Rightarrow> 'a option"

fun go_string :: "string decoder" where
  "go_string RNull s = Some s"
| "go_string (RString ps) s = Some (go_unquote ps)"
| "go_string g s = None"

fun go_int :: "int64 decoder" where
  "go_int RNull i = Some i"
| "go_int (RNumber t) i = parse_int64 t"
| "go_int g i = None"

fun go_bool :: "bool decoder" where
  "go_bool RNull b = Some b"
| "go_bool (RBool c) b = Some c"
| "go_bool g b = None"

text \<open>\<open>foldName\<close>: two names are equal when they differ in case alone.  Of the letters outside ASCII only the
  Kelvin sign and the long s fold into it; the others are left as they are, since no field has one.\<close>

definition upper_char :: "char \<Rightarrow> char" where
  "upper_char c = (if 97 \<le> byte c \<and> byte c \<le> (122 :: nat) then chr (byte c - 32) else c)"

fun fold_name :: "bytes \<Rightarrow> bytes" where
  "fold_name (a # b # c # r) =
     (if [byte a, byte b, byte c] = [226, 132, 170 :: nat] then CHR ''K'' # fold_name r
      else if [byte a, byte b] = [197, 191 :: nat] then CHR ''S'' # fold_name (c # r)
      else upper_char a # fold_name (b # c # r))"
| "fold_name [a, b] = (if [byte a, byte b] = [197, 191 :: nat] then ''S'' else [upper_char a, upper_char b])"
| "fold_name [a] = [upper_char a]"
| "fold_name [] = []"

definition field_named :: "(string \<times> 'a) list \<Rightarrow> string \<Rightarrow> 'a option" where
  "field_named fs key =
     (case map_of fs key of
        Some d \<Rightarrow> Some d
      | None \<Rightarrow> map_option snd (List.find (\<lambda>(name, d). fold_name name = fold_name key) fs))"

text \<open>The members in order; one that names no field is skipped.\<close>

fun go_members :: "(string \<times> 's decoder) list \<Rightarrow> (piece list \<times> raw) list \<Rightarrow> 's \<Rightarrow> 's option" where
  "go_members fs [] s = Some s"
| "go_members fs ((k, g) # kgs) s =
     (case field_named fs (go_unquote k) of
        None \<Rightarrow> go_members fs kgs s
      | Some d \<Rightarrow> (case d g s of None \<Rightarrow> None | Some s' \<Rightarrow> go_members fs kgs s'))"

fun go_struct :: "(string \<times> 's decoder) list \<Rightarrow> 's decoder" where
  "go_struct fs RNull s = Some s"
| "go_struct fs (RObject kgs) s = go_members fs kgs s"
| "go_struct fs g s = None"

definition field :: "'a decoder \<Rightarrow> ('s \<Rightarrow> 'a) \<Rightarrow> (('a \<Rightarrow> 'a) \<Rightarrow> 's \<Rightarrow> 's) \<Rightarrow> 's decoder" where
  "field d sel upd g s = map_option (\<lambda>v. upd (\<lambda>_. v) s) (d g (sel s))"

section \<open>Printing\<close>

text \<open>\<open>json.Marshal\<close>: as \<open>go_text\<close>, and the characters HTML gives a meaning are escaped.\<close>

datatype go_out = OString bytes | OInt int | OBool bool | OObject "(string \<times> go_out) list"

definition html_char :: "char \<Rightarrow> string" where
  "html_char c = (if byte c \<in> {38, 60, 62 :: nat} then escape_unit (byte c) else [c])"

definition html_quote :: "bytes \<Rightarrow> string" where
  "html_quote s = [chr 34] @ concat (map html_char (go_text s)) @ [chr 34]"

fun marshal :: "go_out \<Rightarrow> string"
  and marshal_members :: "(string \<times> go_out) list \<Rightarrow> string list" where
  "marshal (OString s) = html_quote s"
| "marshal (OInt i) = int_text i"
| "marshal (OBool b) = (if b then ''true'' else ''false'')"
| "marshal (OObject kvs) = ''{'' @ join '','' (marshal_members kvs) @ ''}''"
| "marshal_members [] = []"
| "marshal_members ((k, v) # kvs) = (html_quote k @ '':'' @ marshal v) # marshal_members kvs"

text \<open>What \<open>JSON.parse\<close> gives of it.\<close>

fun js_out :: "go_out \<Rightarrow> js"
  and js_members :: "(string \<times> go_out) list \<Rightarrow> (string \<times> js) list" where
  "js_out (OString s) = JStr s"
| "js_out (OInt i) = jint i"
| "js_out (OBool b) = JBool b"
| "js_out (OObject kvs) = JObj (js_members kvs)"
| "js_members [] = []"
| "js_members ((k, v) # kvs) = (k, js_out v) # js_members kvs"

section \<open>What \<open>JSON.parse\<close> makes of the same text\<close>

fun js_of :: "raw \<Rightarrow> js" where
  "js_of RNull = JNull"
| "js_of (RBool b) = JBool b"
| "js_of (RNumber t) = JNum (case json_number t of Some x \<Rightarrow> x | None \<Rightarrow> NaN)"
| "js_of (RString ps) = JStr (pieces_text ps)"
| "js_of (RArray gs) = JArr (map js_of gs)"
| "js_of (RObject kgs) = build (map (\<lambda>(k, g). (pieces_text k, js_of g)) kgs)"

lemma scan_number_read:
  "read_number s = map_option (\<lambda>(g, r). (case json_number (takeWhile number_char s) of Some x \<Rightarrow> x | None \<Rightarrow> NaN, r)) (scan_number s)"
  by (auto simp: read_number_def scan_number_def Let_def split: option.splits)

lemma read_string_pieces: "read_string s = map_option (\<lambda>(ps, r). (pieces_text ps, r)) (parse_string s)"
  by (simp add: read_string_def)

abbreviation fst_map :: "('a \<Rightarrow> 'b) \<Rightarrow> ('a \<times> 'c) option \<Rightarrow> ('b \<times> 'c) option" where
  "fst_map f \<equiv> map_option (\<lambda>(a, r). (f a, r))"

lemma parse_scan:
  "parse_value n s = fst_map js_of (scan_value n s)"
  "parse_elems n s = fst_map (map js_of) (scan_elems n s)"
  "parse_members n s = fst_map (map (\<lambda>(k, g). (pieces_text k, js_of g))) (scan_members n s)"
proof (induction n arbitrary: s)
  case (Suc n)
  {
    case 1
    show ?case
      by (simp add: Suc.IH scan_number_read read_string_pieces option.map_comp comp_def case_prod_unfold build_def
          scan_number_def Let_def split: list.split option.split)
  next
    case 2
    show ?case
      by (auto simp: Suc.IH option.map_comp comp_def case_prod_unfold split: list.split option.split)
  next
    case 3
    show ?case
      by (auto simp: Suc.IH read_string_pieces option.map_comp comp_def case_prod_unfold split: list.split option.split)
  }
qed simp_all

text \<open>More fuel changes nothing once there was enough.\<close>

lemma scan_mono:
  "(\<forall>s x m. scan_value n s = Some x \<longrightarrow> n \<le> m \<longrightarrow> scan_value m s = Some x) \<and>
   (\<forall>s x m. scan_elems n s = Some x \<longrightarrow> n \<le> m \<longrightarrow> scan_elems m s = Some x) \<and>
   (\<forall>s x m. scan_members n s = Some x \<longrightarrow> n \<le> m \<longrightarrow> scan_members m s = Some x)"
proof (induction n)
  case (Suc n)
  then have steps: "scan_value n t = Some x \<Longrightarrow> n \<le> k \<Longrightarrow> scan_value k t = Some x"
      "scan_elems n t = Some y \<Longrightarrow> n \<le> k \<Longrightarrow> scan_elems k t = Some y"
      "scan_members n t = Some z \<Longrightarrow> n \<le> k \<Longrightarrow> scan_members k t = Some z" for t x y z k
    by blast+
  have "scan_value m s = Some x" if b: "scan_value (Suc n) s = Some x" "Suc n \<le> m" for s x m
    using b steps(2,3) [of _ _ "m - 1"] by (cases m) (auto split: list.splits if_splits)
  moreover have "scan_elems m s = Some x" if b: "scan_elems (Suc n) s = Some x" "Suc n \<le> m" for s x m
    using b steps(1,2) [of _ _ "m - 1"] by (cases m) (auto split: option.splits list.splits if_splits)
  moreover have "scan_members m s = Some x" if b: "scan_members (Suc n) s = Some x" "Suc n \<le> m" for s x m
    using b steps(1,3) [of _ _ "m - 1"] by (cases m) (auto split: option.splits list.splits if_splits)
  ultimately show ?case by blast
qed simp

lemmas scan_value_mono = scan_mono [THEN conjunct1, rule_format]
  and scan_elems_mono = scan_mono [THEN conjunct2, THEN conjunct1, rule_format]
  and scan_members_mono = scan_mono [THEN conjunct2, THEN conjunct2, rule_format]

text \<open>Whatever any fuel scans, the fuel of the text does.\<close>

lemma scan_enough:
  assumes "scan_value n s = Some x"
  shows "scan_value (json_fuel s) s = Some x"
proof -
  let ?m = "max n (json_fuel s)"
  have m: "scan_value ?m s = Some x" using assms by (rule scan_value_mono) simp
  have "fst_map js_of (scan_value ?m s) = fst_map js_of (scan_value (json_fuel s) s)"
    unfolding parse_scan(1) [symmetric] by (rule parse_fuel_enough) simp
  with m obtain y where y: "scan_value (json_fuel s) s = Some y" by (cases "scan_value (json_fuel s) s") auto
  then have "scan_value ?m s = Some y" by (rule scan_value_mono) simp
  with m y show ?thesis by simp
qed

end
