(* ===== verification/Go_Render.thy ===== *)
theory Go_Render
  imports Go_Json
begin

text \<open>
  The texts that scan to a given tree.  \<open>renders\<close> is the JSON grammar without white space, and every text it
  relates to a tree is scanned back to it.  \<open>JSON.stringify\<close> and \<open>json.Marshal\<close> both write such texts, so what
  one side writes the other reads: \<open>unmarshal_stringify\<close> and \<open>json_parse_marshal\<close>.
\<close>

section \<open>The grammar\<close>

definition renders_string :: "piece list \<Rightarrow> string \<Rightarrow> bool" where
  "renders_string ps t \<longleftrightarrow> (\<exists>b. t = [chr 34] @ b @ [chr 34] \<and> (\<forall>r. parse_string (b @ chr 34 # r) = Some (ps, r)))"

inductive renders :: "raw \<Rightarrow> string \<Rightarrow> bool"
  and renders_elems :: "raw list \<Rightarrow> string list \<Rightarrow> bool"
  and renders_members :: "(piece list \<times> raw) list \<Rightarrow> string list \<Rightarrow> bool" where
  null: "renders RNull ''null''"
| true: "renders (RBool True) ''true''"
| false: "renders (RBool False) ''false''"
| number: "t = c # t' \<Longrightarrow> is_digit c \<or> c = CHR ''-'' \<Longrightarrow> \<forall>c \<in> set t. number_char c \<Longrightarrow> json_number t = Some x \<Longrightarrow> renders (RNumber t) t"
| quoted: "renders_string ps t \<Longrightarrow> renders (RString ps) t"
| array: "renders_elems gs ts \<Longrightarrow> renders (RArray gs) (''['' @ join '','' ts @ '']'')"
| object: "renders_members kgs ts \<Longrightarrow> renders (RObject kgs) (''{'' @ join '','' ts @ ''}'')"
| no_elems: "renders_elems [] []"
| elem: "renders g t \<Longrightarrow> renders_elems gs ts \<Longrightarrow> renders_elems (g # gs) (t # ts)"
| no_members: "renders_members [] []"
| member: "renders_string k kt \<Longrightarrow> renders g t \<Longrightarrow> renders_members kgs ts \<Longrightarrow> renders_members ((k, g) # kgs) ((kt @ '':'' @ t) # ts)"

lemmas renders_rules = renders_renders_elems_renders_members.intros
  and renders_bracketed = renders_renders_elems_renders_members.array [simplified] renders_renders_elems_renders_members.object [simplified]
    renders_renders_elems_renders_members.member [simplified]

lemma renders_Nil:
  "renders_elems gs ts \<Longrightarrow> gs = [] \<longleftrightarrow> ts = []" "renders_members kgs ts \<Longrightarrow> kgs = [] \<longleftrightarrow> ts = []"
  by (auto elim: renders_elems.cases renders_members.cases)

lemma renders_first: "renders g t \<Longrightarrow> \<exists>c s. t = c # s \<and> \<not> json_space c \<and> c \<noteq> CHR '']''"
  by (erule renders.cases) (auto simp: renders_string_def json_space_def is_digit_def)

lemma scan_number_text:
  assumes "\<forall>c \<in> set t. number_char c" and "json_number t = Some x" and "follow r"
  shows "scan_number (t @ r) = Some (RNumber t, r)"
proof -
  have "takeWhile number_char r = []" "dropWhile number_char r = r" using assms(3) by (cases r; simp add: follow_def)+
  with assms(1,2) show ?thesis by (simp add: scan_number_def takeWhile_append2 dropWhile_append2)
qed

lemma join_Cons_ex: "\<exists>u. join sep (t # ts) = t @ u"
  by (cases ts) auto

lemma renders_elems_first:
  assumes "renders_elems gs ts" and "gs \<noteq> []"
  shows "\<exists>c s. join '','' ts = c # s \<and> \<not> json_space c \<and> c \<noteq> CHR '']''"
  using assms(1)
proof cases
  case (elem g t gs' ts')
  obtain c s where "t = c # s" "\<not> json_space c" "c \<noteq> CHR '']''" using renders_first [OF elem(3)] by blast
  with elem(2) join_Cons_ex [of "'',''" t ts'] show ?thesis by auto
qed (use assms(2) in simp)

lemma renders_members_first:
  assumes "renders_members kgs ts" and "kgs \<noteq> []"
  shows "\<exists>s. join '','' ts = chr 34 # s"
  using assms(1)
proof cases
  case (member k kt g t kgs' ts')
  with join_Cons_ex [of "'',''" "kt @ '':'' @ t" ts'] show ?thesis by (auto simp: renders_string_def)
qed (use assms(2) in simp)

lemma digit_neq: "is_digit c \<or> c = CHR ''-'' \<Longrightarrow> c \<noteq> CHR ''{'' \<and> c \<noteq> CHR ''['' \<and> byte c \<noteq> (34 :: nat) \<and> \<not> json_space c \<and>
    \<not> starts_with ''null'' (c # s) \<and> \<not> starts_with ''true'' (c # s) \<and> \<not> starts_with ''false'' (c # s)"
  by (auto simp: is_digit_def json_space_def starts_with_def)

lemma scan_elems_step:
  assumes "scan_value m (t @ CHR '','' # u) = Some (v, CHR '','' # u)" and "scan_elems n u = Some (vs, r)"
  shows "\<exists>k. scan_elems k (t @ CHR '','' # u) = Some (v # vs, r)"
proof -
  have "scan_value (max m n) (t @ CHR '','' # u) = Some (v, CHR '','' # u)" "scan_elems (max m n) u = Some (vs, r)"
    using assms by (auto intro: scan_value_mono scan_elems_mono)
  then have "scan_elems (Suc (max m n)) (t @ CHR '','' # u) = Some (v # vs, r)" by simp
  then show ?thesis by blast
qed

lemma scan_members_step:
  assumes k: "renders_string k kt"
    and "scan_value m (t @ CHR '','' # u) = Some (v, CHR '','' # u)" and "scan_members n u = Some (kvs, r)"
  shows "\<exists>j. scan_members j (kt @ '':'' @ t @ CHR '','' # u) = Some ((k, v) # kvs, r)"
proof -
  have "scan_value (max m n) (t @ CHR '','' # u) = Some (v, CHR '','' # u)" "scan_members (max m n) u = Some (kvs, r)"
    using assms by (auto intro: scan_value_mono scan_members_mono)
  then have "scan_members (Suc (max m n)) (kt @ '':'' @ t @ CHR '','' # u) = Some ((k, v) # kvs, r)"
    using k by (auto simp: renders_string_def starts_with_def)
  then show ?thesis by blast
qed

lemma scan_members_last:
  assumes "renders_string k kt" and "scan_value m (t @ CHR ''}'' # r) = Some (v, CHR ''}'' # r)"
  shows "scan_members (Suc m) (kt @ '':'' @ t @ CHR ''}'' # r) = Some ([(k, v)], r)"
  using assms by (auto simp: renders_string_def starts_with_def)

lemma renders_scan:
  "renders g t \<Longrightarrow> (\<And>r. follow r \<Longrightarrow> \<exists>n. scan_value n (t @ r) = Some (g, r))"
  "renders_elems gs ts \<Longrightarrow> (\<And>r. gs \<noteq> [] \<Longrightarrow> \<exists>n. scan_elems n (join '','' ts @ CHR '']'' # r) = Some (gs, r))"
  "renders_members kgs ts \<Longrightarrow> (\<And>r. kgs \<noteq> [] \<Longrightarrow> \<exists>n. scan_members n (join '','' ts @ CHR ''}'' # r) = Some (kgs, r))"
proof (induction rule: renders_renders_elems_renders_members.inducts)
  case null
  show ?case by (intro exI [where x = 1]) (simp add: starts_with_def)
next
  case true
  show ?case by (intro exI [where x = 1]) (simp add: starts_with_def)
next
  case false
  show ?case by (intro exI [where x = 1]) (simp add: starts_with_def)
next
  case (number t c t' x)
  then have "scan_value 1 (t @ r) = scan_number (t @ r)" using digit_neq [of c "t' @ r"] by (simp add: skip_ws_Cons_id)
  with number show ?case using scan_number_text by metis
next
  case (quoted ps t)
  then show ?case by (intro exI [where x = 1]) (auto simp: renders_string_def)
next
  case (array gs ts)
  show ?case
  proof (cases "gs = []")
    case True
    with array show ?thesis by (intro exI [where x = 1]) (auto dest: renders_Nil simp: starts_with_def)
  next
    case False
    from array.IH [OF False, of r] obtain n where n: "scan_elems n (join '','' ts @ CHR '']'' # r) = Some (gs, r)" by blast
    from renders_elems_first [OF array.hyps False] obtain c s where "join '','' ts = c # s" "\<not> json_space c" "c \<noteq> CHR '']''" by blast
    with n have "scan_value (Suc n) ((''['' @ join '','' ts @ '']'') @ r) = Some (RArray gs, r)"
      by (simp add: skip_ws_Cons_id starts_with_def)
    then show ?thesis by blast
  qed
next
  case (object kgs ts)
  show ?case
  proof (cases "kgs = []")
    case True
    with object show ?thesis by (intro exI [where x = 1]) (auto dest: renders_Nil simp: starts_with_def)
  next
    case False
    from object.IH [OF False, of r] obtain n where n: "scan_members n (join '','' ts @ CHR ''}'' # r) = Some (kgs, r)" by blast
    from renders_members_first [OF object.hyps False] obtain s where "join '','' ts = chr 34 # s" by blast
    with n have "scan_value (Suc n) ((''{'' @ join '','' ts @ ''}'') @ r) = Some (RObject kgs, r)" by (simp add: starts_with_def)
    then show ?thesis by blast
  qed
next
  case (elem g t gs ts)
  show ?case
  proof (cases "gs = []")
    case True
    then have "ts = []" using elem renders_Nil(1) by blast
    moreover obtain n where "scan_value n (t @ CHR '']'' # r) = Some (g, CHR '']'' # r)" using elem.IH(1) [of "CHR '']'' # r"] by auto
    ultimately show ?thesis using True by (intro exI [where x = "Suc n"]) simp
  next
    case False
    then have ts: "ts \<noteq> []" using elem renders_Nil(1) by blast
    let ?u = "join '','' ts @ CHR '']'' # r"
    obtain m n where "scan_value m (t @ CHR '','' # ?u) = Some (g, CHR '','' # ?u)" "scan_elems n ?u = Some (gs, r)"
      using elem.IH(1) [of "CHR '','' # ?u"] elem.IH(2) [OF False, of r] by auto
    from scan_elems_step [OF this] ts show ?thesis by (simp add: join_Cons)
  qed
next
  case (member k kt g t kgs ts)
  show ?case
  proof (cases "kgs = []")
    case True
    then have ts: "ts = []" using member renders_Nil(2) by blast
    obtain n where "scan_value n (t @ CHR ''}'' # r) = Some (g, CHR ''}'' # r)" using member.IH(1) [of "CHR ''}'' # r"] by auto
    from scan_members_last [OF member.hyps(1) this] True ts show ?thesis by (intro exI [where x = "Suc n"]) (simp del: scan_members.simps)
  next
    case False
    then have ts: "ts \<noteq> []" using member renders_Nil(2) by blast
    let ?u = "join '','' ts @ CHR ''}'' # r"
    obtain m n where "scan_value m (t @ CHR '','' # ?u) = Some (g, CHR '','' # ?u)" "scan_members n ?u = Some (kgs, r)"
      using member.IH(1) [of "CHR '','' # ?u"] member.IH(2) [OF False, of r] by auto
    from scan_members_step [OF member.hyps(1) this] ts show ?thesis by (simp add: join_Cons)
  qed
qed simp_all

section \<open>What \<open>JSON.stringify\<close> writes\<close>

definition text_pieces :: "string \<Rightarrow> piece list" where
  "text_pieces s = map char_piece s"

fun raw_of :: "js \<Rightarrow> raw"
  and raw_elems :: "js list \<Rightarrow> raw list"
  and raw_members :: "(string \<times> js) list \<Rightarrow> (piece list \<times> raw) list" where
  "raw_of (JBool b) = RBool b"
| "raw_of (JNum n) = RNumber (num_json n)"
| "raw_of (JStr s) = RString (text_pieces s)"
| "raw_of (JArr vs) = RArray (raw_elems vs)"
| "raw_of (JObj kvs) = RObject (raw_members kvs)"
| "raw_of v = RNull"
| "raw_elems [] = []"
| "raw_elems (v # vs) = raw_of v # raw_elems vs"
| "raw_members [] = []"
| "raw_members ((k, v) # kvs) = (text_pieces k, raw_of v) # raw_members kvs"

lemma renders_quote: "surrogate_free s \<Longrightarrow> renders_string (text_pieces s) (quote s)"
proof -
  assume "surrogate_free s"
  moreover have "parse_string (concat (map escape_char s) @ chr 34 # r) = Some (map char_piece s, r)" for r
    by (induction s) (simp_all add: parse_string_escape_char)
  ultimately show ?thesis by (auto simp: renders_string_def quote_def escape_text_free text_pieces_def)
qed

lemma renders_stringify:
  "json_ok v \<Longrightarrow> renders (raw_of v) (stringify v)"
  "\<forall>v \<in> set vs. json_ok v \<Longrightarrow> renders_elems (raw_elems vs) (elem_texts vs)"
  "\<forall>kv \<in> set kvs. utf8_wf (fst kv) \<and> json_ok (snd kv) \<Longrightarrow> renders_members (raw_members kvs) (member_texts kvs)"
proof (induction v and vs and kvs rule: stringify_elem_texts_member_texts.induct)
  case (4 n)
  then obtain i where n: "n = num_of_int i" "\<bar>i\<bar> < 2 ^ 53" by (auto simp: json_ok_num)
  then have "num_json n = int_text i" using num_text_int [OF n(2)] by simp
  moreover obtain c t where "int_text i = c # t" "is_digit c \<or> c = CHR ''-''" using int_text_Cons by blast
  ultimately show ?case using json_number_int_text [OF n(2)] int_text_number_chars [of i]
    by (auto intro!: renders_rules)
next
  case (11 k v kvs)
  then have v: "v \<noteq> JUndef" "surrogate_free k" using json_ok_defined by (auto simp: utf8_wf_surrogate_free)
  from renders_renders_elems_renders_members.member [OF renders_quote [OF v(2)]] 11 v(1) show ?case by simp
qed (auto intro!: renders_rules renders_bracketed renders_quote utf8_wf_surrogate_free)

lemma renders_unmarshal:
  assumes "renders g t" and "depth g \<le> maxNestingDepth"
  shows "unmarshal t = Some g" and "compound g \<or> ended \<Longrightarrow> decode_first ended t = Some g" and "json_parse t = Inr (js_of g)"
proof -
  obtain n where "scan_value n (t @ []) = Some (g, [])" using renders_scan(1) [OF assms(1), of "[]"] by auto
  then have s: "scan_value (json_fuel t) t = Some (g, [])" using scan_enough by simp
  with assms(2) show "unmarshal t = Some g" by (simp add: unmarshal_def skip_ws_def)
  show "decode_first ended t = Some g" if "compound g \<or> ended" using s assms(2) that by (simp add: decode_first_def)
  show "json_parse t = Inr (js_of g)" using s by (simp add: json_parse_def parse_scan(1) skip_ws_def)
qed

text \<open>Go reads a well-formed text back as it was.\<close>

lemma char_piece_high: "byte c \<ge> (128 :: nat) \<Longrightarrow> char_piece c = Raw c"
  by (simp add: char_piece_def)

lemma raw_bytes_high: "\<forall>c \<in> set t. byte c \<ge> (128 :: nat) \<Longrightarrow> raw_bytes (map char_piece t @ ps) = t @ raw_bytes ps"
  by (induction t) (simp_all add: char_piece_high)

lemma unquote_plain_unit: "u < 128 \<Longrightarrow> go_unquote (Unit u # ps) = chr u # go_unquote ps"
  by (cases ps) (auto simp: is_high_def is_low_def utf8_of_code_def split: piece.split)

lemma unquote_text: "utf8_wf s \<Longrightarrow> go_unquote (text_pieces s) = s"
  unfolding text_pieces_def
proof (induction s rule: utf8_wf.induct)
  case (2 b bs)
  show ?case
  proof (cases "byte b < (128 :: nat)")
    case True
    with 2 have "go_unquote (map char_piece bs) = bs" by simp
    with True show ?thesis
      by (auto simp: char_piece_def [of b] unquote_plain_unit simp del: go_unquote.simps(2))
  next
    case False
    with "2.prems" obtain n lo hi t r where lead: "utf8_lead (byte b) = Some (n, lo, hi)"
      and tc: "take_conts n lo hi bs = (t, r, True)" and wf: "utf8_wf r"
      by (auto split: option.splits prod.splits)
    have "128 \<le> lo" using lead by (auto simp: utf8_lead_def split: if_splits)
    then have high: "\<forall>c \<in> set t. byte c \<ge> (128 :: nat)" using take_conts_high [OF tc] by blast
    have bs: "bs = t @ r" using tc by (rule take_conts_split)
    have "take_conts n lo hi (raw_bytes (map char_piece bs)) = (t, raw_bytes (map char_piece r), True)"
      using take_conts_replace [OF tc] by (simp add: bs raw_bytes_high [OF high])
    moreover have "go_unquote (map char_piece r) = r" using "2.IH"(2) [OF False lead] tc wf by auto
    ultimately show ?thesis using False lead by (simp add: char_piece_high bs)
  qed
qed simp

section \<open>What \<open>json.Marshal\<close> writes\<close>

lemma html_unit: "concat (map html_char (escape_unit n)) = escape_unit n"
proof -
  have "html_char (digit_char d) = [digit_char d]" if "d < 16" for d
    using that by (auto simp: html_char_def digit_char_def)
  then show ?thesis by (simp add: escape_unit_def hex4_def html_char_def)
qed

lemma html_escape_char:
  "concat (map html_char (escape_char c)) = (if byte c \<in> {38, 60, 62 :: nat} then escape_unit (byte c) else escape_char c)"
  by (auto simp: escape_char_def Let_def html_unit) (simp_all add: html_char_def)

lemma parse_escape_unit:
  "n < 65536 \<Longrightarrow> parse_string (escape_unit n @ s) = fst_map ((#) (Unit n)) (parse_string s)"
  using digits_value_hex4 [of n] by (simp add: escape_unit_def hex4_def)

lemma parse_high: "\<forall>c \<in> set t. byte c \<ge> (128 :: nat) \<Longrightarrow> parse_string (t @ s) = fst_map ((@) (map Raw t)) (parse_string s)"
  by (induction t) (auto simp: option.map_comp comp_def case_prod_unfold option.map_ident)

lemma pieces_unit: "\<not> is_high n \<Longrightarrow> pieces_text (Unit n # ps) = utf8_of_code n @ pieces_text ps"
  by (cases ps rule: pieces_text.cases) auto

lemma pieces_raw: "pieces_text (map Raw t @ ps) = t @ pieces_text ps"
  by (induction t) auto

lemma html_high: "\<forall>c \<in> set t. byte c \<ge> (128 :: nat) \<Longrightarrow> concat (map html_char t) = t"
  by (induction t) (auto simp: html_char_def)

definition reads_back :: "string \<Rightarrow> bytes \<Rightarrow> bool" where
  "reads_back t s \<longleftrightarrow> (\<exists>ps. pieces_text ps = s \<and> (\<forall>r. parse_string (t @ chr 34 # r) = Some (ps, r)))"

lemma reads_back_char:
  assumes "reads_back t s" and "byte b < (128 :: nat)"
  shows "reads_back (concat (map html_char (escape_char b)) @ t) (b # s)"
proof -
  obtain ps where ps: "pieces_text ps = s" "\<And>r. parse_string (t @ chr 34 # r) = Some (ps, r)"
    using assms(1) unfolding reads_back_def by blast
  have u: "utf8_of_code (byte b) = [b]" "\<not> is_high (byte b)" "byte b < (65536 :: nat)"
    using assms(2) by (simp_all add: utf8_of_code_def is_high_def)
  show ?thesis
  proof (cases "byte b \<in> {38, 60, 62 :: nat}")
    case True
    then show ?thesis unfolding reads_back_def
      using ps u by (intro exI [of _ "Unit (byte b) # ps"]) (simp add: html_escape_char parse_escape_unit pieces_unit)
  next
    case False
    have "pieces_text (char_piece b # ps) = b # pieces_text ps" using u by (simp add: char_piece_def pieces_unit)
    with False show ?thesis unfolding reads_back_def
      using ps by (intro exI [of _ "char_piece b # ps"]) (simp add: html_escape_char parse_string_escape_char)
  qed
qed

lemma reads_back_rune:
  assumes "reads_back t s" and "byte b \<ge> (128 :: nat)" and "\<forall>c \<in> set u. byte c \<ge> (128 :: nat)"
  shows "reads_back (concat (map html_char (go_rune b u)) @ t) (b # u @ s)"
proof -
  obtain ps where ps: "pieces_text ps = s" "\<And>r. parse_string (t @ chr 34 # r) = Some (ps, r)"
    using assms(1) unfolding reads_back_def by blast
  have unit: "reads_back (escape_unit n @ t) (utf8_of_code n @ s)" if "n \<in> {8232, 8233}" for n
    unfolding reads_back_def using ps that
    by (intro exI [of _ "Unit n # ps"]) (auto simp: parse_escape_unit pieces_unit is_high_def)
  have raw: "reads_back ((b # u) @ t) ((b # u) @ s)" unfolding reads_back_def
    using ps parse_high [of "b # u"] assms(2,3) pieces_raw [of "b # u"] by (intro exI [of _ "map Raw (b # u) @ ps"]) (simp del: append_Cons parse_string.simps)
  have plain: "concat (map html_char (b # u)) = b # u" using assms(2,3) by (intro html_high) simp
  consider "byte b = (226 :: nat)" "u = [chr 128, chr 168]" | "byte b = (226 :: nat)" "u = [chr 128, chr 169]"
    | "go_rune b u = b # u" unfolding go_rune_def by meson
  then show ?thesis
  proof cases
    case 1
    then have "b # u = utf8_of_code 8232" by (simp add: utf8_of_code_def chr_eq_byte)
    moreover have "go_rune b u = escape_unit 8232" using 1 by (simp add: go_rune_def)
    ultimately show ?thesis using unit [of 8232] by (simp only: html_unit) (simp flip: append_Cons)
  next
    case 2
    then have "b # u = utf8_of_code 8233" by (simp add: utf8_of_code_def chr_eq_byte)
    moreover have "go_rune b u = escape_unit 8233" using 2 by (simp add: go_rune_def)
    ultimately show ?thesis using unit [of 8233] by (simp only: html_unit) (simp flip: append_Cons)
  next
    case 3
    with raw plain show ?thesis by simp
  qed
qed

lemma reads_back_text: "utf8_wf s \<Longrightarrow> reads_back (concat (map html_char (go_text s))) s"
proof (induction s rule: utf8_wf.induct)
  case 1
  then show ?case by (auto simp: reads_back_def intro: exI [of _ "[]"])
next
  case (2 b bs)
  show ?case
  proof (cases "byte b < (128 :: nat)")
    case True
    with 2 show ?thesis using reads_back_char by simp
  next
    case False
    with "2.prems" obtain n lo hi t r where lead: "utf8_lead (byte b) = Some (n, lo, hi)"
      and tc: "take_conts n lo hi bs = (t, r, True)" and wf: "utf8_wf r"
      by (auto split: option.splits prod.splits)
    have "128 \<le> lo" using lead by (auto simp: utf8_lead_def split: if_splits)
    then have high: "\<forall>c \<in> set t. byte c \<ge> (128 :: nat)" using take_conts_high [OF tc] by blast
    have "reads_back (concat (map html_char (go_text r))) r" using "2.IH"(2) [OF False lead] tc wf by auto
    from reads_back_rune [OF this _ high] False lead tc take_conts_split [OF tc] show ?thesis by simp
  qed
qed

lemma html_quote_renders: "utf8_wf s \<Longrightarrow> \<exists>ps. renders_string ps (html_quote s) \<and> pieces_text ps = s"
  using reads_back_text [of s] by (auto simp: reads_back_def renders_string_def html_quote_def)

text \<open>Values of well-formed text, integers a double represents and members of distinct names.\<close>

fun out_ok :: "go_out \<Rightarrow> bool"
  and out_members_ok :: "(string \<times> go_out) list \<Rightarrow> bool" where
  "out_ok (OString s) = utf8_wf s"
| "out_ok (OInt i) = (\<bar>i\<bar> < 2 ^ 53)"
| "out_ok (OBool b) = True"
| "out_ok (OObject kvs) = (distinct (map fst kvs) \<and> out_members_ok kvs)"
| "out_members_ok [] = True"
| "out_members_ok ((k, v) # kvs) = (utf8_wf k \<and> out_ok v \<and> out_members_ok kvs)"

lemma js_members_names: "map fst (js_members kvs) = map fst kvs"
  by (induction kvs) auto

lemma renders_marshal:
  "out_ok v \<Longrightarrow> \<exists>g. renders g (marshal v) \<and> js_of g = js_out v"
  "out_members_ok kvs \<Longrightarrow> \<exists>kgs. renders_members kgs (marshal_members kvs) \<and>
     map (\<lambda>(k, g). (pieces_text k, js_of g)) kgs = js_members kvs"
proof (induction v and kvs rule: marshal_marshal_members.induct)
  case (1 s)
  then show ?case using html_quote_renders [of s] by (auto intro: renders_rules)
next
  case (2 i)
  then have "json_number (int_text i) = Some (num_of_int i)" by (intro json_number_int_text) simp
  moreover obtain c t where "int_text i = c # t" "is_digit c \<or> c = CHR ''-''" using int_text_Cons by blast
  ultimately have "renders (RNumber (int_text i)) (int_text i)" using int_text_number_chars [of i]
    by (intro renders_rules)
  then show ?case using \<open>json_number (int_text i) = Some (num_of_int i)\<close> by (intro exI [of _ "RNumber (int_text i)"]) simp
next
  case (3 b)
  show ?case by (intro exI [of _ "RBool b"]) (cases b; simp add: renders_rules)
next
  case (4 kvs)
  then obtain kgs where "renders_members kgs (marshal_members kvs)" "map (\<lambda>(k, g). (pieces_text k, js_of g)) kgs = js_members kvs"
    by auto
  then show ?case using 4(2) build_distinct [of "js_members kvs"]
    by (intro exI [of _ "RObject kgs"]) (simp add: renders_bracketed js_members_names)
next
  case 5
  show ?case by (auto intro: renders_rules)
next
  case (6 k v kvs)
  then obtain g kgs ps where "renders g (marshal v)" "js_of g = js_out v"
    "renders_members kgs (marshal_members kvs)" "map (\<lambda>(k, g). (pieces_text k, js_of g)) kgs = js_members kvs"
    "renders_string ps (html_quote k)" "pieces_text ps = k" using html_quote_renders [of k] by auto
  then show ?case
    by (intro exI [of _ "(ps, g) # kgs"]) (auto intro!: renders_bracketed)
qed

text \<open>\<open>JSON.parse\<close> reads back what \<open>json.Marshal\<close> writes.\<close>

lemma json_parse_marshal:
  assumes "out_ok v"
  shows "json_parse (marshal v) = Inr (js_out v)"
proof -
  obtain g where g: "renders g (marshal v)" "js_of g = js_out v" using renders_marshal(1) [OF assms] by blast
  obtain n where "scan_value n (marshal v @ []) = Some (g, [])" using renders_scan(1) [OF g(1), of "[]"] by auto
  then have "scan_value (json_fuel (marshal v)) (marshal v) = Some (g, [])" using scan_enough by simp
  then show ?thesis using g(2) by (simp add: json_parse_def parse_scan(1) skip_ws_def)
qed

text \<open>The text is well-formed, and a line feed after it changes nothing.\<close>

lemma escape_unit_ascii: "list_all (\<lambda>c. byte c < (128 :: nat)) (escape_unit n)"
  by (simp add: escape_unit_def hex4_def digit_char_ascii)

lemma html_text_wf: "utf8_wf s \<Longrightarrow> utf8_wf (concat (map html_char (go_text s)))"
proof (induction s rule: utf8_wf.induct)
  case (2 b bs)
  show ?case
  proof (cases "byte b < (128 :: nat)")
    case True
    have "utf8_wf (concat (map html_char (escape_char b)))"
      using escape_unit_ascii escape_char_ascii [OF True] by (auto simp: html_escape_char intro: utf8_wf_ascii)
    with True 2 show ?thesis by simp
  next
    case False
    with "2.prems" obtain n lo hi t r where lead: "utf8_lead (byte b) = Some (n, lo, hi)"
      and tc: "take_conts n lo hi bs = (t, r, True)" and wf: "utf8_wf r"
      by (auto split: option.splits prod.splits)
    have "128 \<le> lo" using lead by (auto simp: utf8_lead_def split: if_splits)
    then have high: "\<forall>c \<in> set t. byte c \<ge> (128 :: nat)" using take_conts_high [OF tc] by blast
    have IH: "utf8_wf (concat (map html_char (go_text r)))" using "2.IH"(2) [OF False lead] tc wf by auto
    have raw: "concat (map html_char (b # t)) = b # t" using high False by (intro html_high) simp
    have "utf8_wf (b # t @ concat (map html_char (go_text r)))" using False lead take_conts_replace [OF tc] IH by simp
    moreover have "utf8_wf (escape_unit m @ concat (map html_char (go_text r)))" for m
      using IH utf8_wf_ascii [OF escape_unit_ascii] by (intro utf8_wf_append)
    ultimately have "utf8_wf (concat (map html_char (go_rune b t)) @ concat (map html_char (go_text r)))"
      using raw by (auto simp: go_rune_def html_unit)
    then show ?thesis using False lead tc by simp
  qed
qed simp

lemma utf8_wf_html_quote: "utf8_wf s \<Longrightarrow> utf8_wf (html_quote s)"
proof -
  assume "utf8_wf s"
  from html_text_wf [OF this] have "utf8_wf ([chr 34] @ concat (map html_char (go_text s)) @ [chr 34])"
    by (intro utf8_wf_append) simp_all
  then show ?thesis by (simp add: html_quote_def)
qed

lemma utf8_wf_marshal:
  "out_ok v \<Longrightarrow> utf8_wf (marshal v)"
  "out_members_ok kvs \<Longrightarrow> \<forall>t \<in> set (marshal_members kvs). utf8_wf t"
proof (induction v and kvs rule: marshal_marshal_members.induct)
  case (4 kvs)
  then have "utf8_wf (join '','' (marshal_members kvs))" by (intro utf8_wf_join) auto
  then have "utf8_wf (''{'' @ join '','' (marshal_members kvs) @ ''}'')" by (intro utf8_wf_append) simp_all
  then show ?case by simp
next
  case (6 k v kvs)
  then have "utf8_wf (html_quote k @ '':'' @ marshal v)" by (intro utf8_wf_append utf8_wf_html_quote) simp_all
  with 6 show ?case by auto
qed (simp_all add: utf8_wf_html_quote utf8_wf_int_text)

lemma json_parse_marshal_line:
  assumes "out_ok v"
  shows "json_parse (marshal v @ [chr 10]) = Inr (js_out v)"
proof -
  obtain g where g: "renders g (marshal v)" "js_of g = js_out v" using renders_marshal(1) [OF assms] by blast
  have "follow [chr 10]" by (simp add: follow_def number_char_def is_digit_def)
  from renders_scan(1) [OF g(1) this] obtain n where "scan_value n (marshal v @ [chr 10]) = Some (g, [chr 10])" by blast
  then have "scan_value (json_fuel (marshal v @ [chr 10])) (marshal v @ [chr 10]) = Some (g, [chr 10])" by (rule scan_enough)
  then show ?thesis using g(2) by (simp add: json_parse_def parse_scan(1) skip_ws_def json_space_def)
qed

end
