(* ===== verification/Go_Wire.thy ===== *)
theory Go_Wire
  imports Go_Render Settlement Http
begin

text \<open>
  The settlement service on the wire: the struct tags of \<open>assertion.go\<close>, \<open>x402.go\<close>, \<open>service.go\<close> and \<open>store.go\<close> as
  decoders and printers, the writing routes of \<open>handler.go\<close> on the bytes of a request, and the HTTP client of the
  facilitator in \<open>x402.go\<close>.  The HTTP client and the URL parser below it are parameters; the texts of their errors,
  and of the JSON decoder's, are held as what failed.
\<close>

section \<open>Decoding\<close>

definition decode_assertion :: "go_assertion decoder" where
  "decode_assertion = go_struct
     [(''assertion_id'', field go_string AssertionID AssertionID_update),
      (''publisher_id'', field go_string PublisherID PublisherID_update),
      (''product_id'', field go_string ProductID ProductID_update),
      (''search_request_id'', field go_string SearchRequestID SearchRequestID_update),
      (''issued_at'', field go_string IssuedAt IssuedAt_update),
      (''expires_at'', field go_string ExpiresAt ExpiresAt_update),
      (''commission_bps'', field go_int CommissionBps CommissionBps_update),
      (''signature'', field go_string Signature Signature_update)]"

definition decode_authorization :: "Eip3009Authorization decoder" where
  "decode_authorization = go_struct
     [(''from'', field go_string auth_From auth_From_update), (''to'', field go_string auth_To auth_To_update),
      (''value'', field go_string auth_Value auth_Value_update),
      (''validAfter'', field go_string auth_ValidAfter auth_ValidAfter_update),
      (''validBefore'', field go_string auth_ValidBefore auth_ValidBefore_update),
      (''nonce'', field go_string auth_Nonce auth_Nonce_update)]"

definition decode_payload :: "PaymentPayload decoder" where
  "decode_payload = go_struct
     [(''x402Version'', field go_int pp_X402Version pp_X402Version_update),
      (''scheme'', field go_string pp_Scheme pp_Scheme_update), (''network'', field go_string pp_Network pp_Network_update),
      (''authorization'', field decode_authorization pp_Authorization pp_Authorization_update),
      (''signature'', field go_string pp_Signature pp_Signature_update)]"

definition decode_requirements :: "PaymentRequirements decoder" where
  "decode_requirements = go_struct
     [(''scheme'', field go_string pr_Scheme pr_Scheme_update), (''network'', field go_string pr_Network pr_Network_update),
      (''asset'', field go_string pr_Asset pr_Asset_update),
      (''maxAmountRequired'', field go_string pr_MaxAmountRequired pr_MaxAmountRequired_update),
      (''payTo'', field go_string pr_PayTo pr_PayTo_update),
      (''maxTimeoutSeconds'', field go_int pr_MaxTimeoutSeconds pr_MaxTimeoutSeconds_update),
      (''resource'', field go_string pr_Resource pr_Resource_update),
      (''description'', field go_string pr_Description pr_Description_update)]"

definition decode_request :: "settle_request decoder" where
  "decode_request = go_struct
     [(''assertion'', field decode_assertion rq_Assertion rq_Assertion_update),
      (''merchant_id'', field go_string rq_MerchantID rq_MerchantID_update),
      (''gross_amount_cents'', field go_int rq_GrossAmountCents rq_GrossAmountCents_update),
      (''currency'', field go_string rq_Currency rq_Currency_update),
      (''payment_payload'', field decode_payload rq_PaymentPayload rq_PaymentPayload_update),
      (''payment_requirements'', field decode_requirements rq_PaymentRequirements rq_PaymentRequirements_update)]"

definition decode_rejection :: "Rejection decoder" where
  "decode_rejection = go_struct
     [(''publisher_id'', field go_string rj_PublisherID rj_PublisherID_update),
      (''assertion_id'', field go_string rj_AssertionID rj_AssertionID_update),
      (''merchant_id'', field go_string rj_MerchantID rj_MerchantID_update),
      (''reason'', field go_string rj_Reason rj_Reason_update), (''detail'', field go_string rj_Detail rj_Detail_update)]"

definition decode_verify_response :: "VerifyResponse decoder" where
  "decode_verify_response = go_struct
     [(''isValid'', field go_bool vr_IsValid vr_IsValid_update),
      (''invalidReason'', field go_string vr_InvalidReason vr_InvalidReason_update),
      (''payer'', field go_string vr_Payer vr_Payer_update)]"

definition decode_settle_response :: "SettleResponse decoder" where
  "decode_settle_response = go_struct
     [(''success'', field go_bool sp_Success sp_Success_update),
      (''errorReason'', field go_string sp_ErrorReason sp_ErrorReason_update),
      (''transaction'', field go_string sp_Transaction sp_Transaction_update),
      (''network'', field go_string sp_Network sp_Network_update), (''payer'', field go_string sp_Payer sp_Payer_update)]"

text \<open>The zero values the handlers decode into.\<close>

definition zero_assertion :: go_assertion where
  "zero_assertion = \<lparr>AssertionID = [], PublisherID = [], ProductID = [], SearchRequestID = [], IssuedAt = [], ExpiresAt = [],
     CommissionBps = 0, Signature = []\<rparr>"

definition zero_payload :: PaymentPayload where
  "zero_payload = \<lparr>pp_X402Version = 0, pp_Scheme = [], pp_Network = [],
     pp_Authorization = \<lparr>auth_From = [], auth_To = [], auth_Value = [], auth_ValidAfter = [], auth_ValidBefore = [], auth_Nonce = []\<rparr>,
     pp_Signature = []\<rparr>"

definition zero_requirements :: PaymentRequirements where
  "zero_requirements = \<lparr>pr_Scheme = [], pr_Network = [], pr_Asset = [], pr_MaxAmountRequired = [], pr_PayTo = [],
     pr_MaxTimeoutSeconds = 0, pr_Resource = [], pr_Description = []\<rparr>"

definition zero_request :: settle_request where
  "zero_request = \<lparr>rq_Assertion = zero_assertion, rq_MerchantID = [], rq_GrossAmountCents = 0, rq_Currency = [],
     rq_PaymentPayload = zero_payload, rq_PaymentRequirements = zero_requirements\<rparr>"

definition zero_rejection :: Rejection where
  "zero_rejection = \<lparr>rj_PublisherID = [], rj_AssertionID = [], rj_MerchantID = [], rj_Reason = [], rj_Detail = []\<rparr>"

definition zero_verify_response :: VerifyResponse where
  "zero_verify_response = \<lparr>vr_IsValid = False, vr_InvalidReason = [], vr_Payer = []\<rparr>"

definition zero_settle_response :: SettleResponse where
  "zero_settle_response = \<lparr>sp_Success = False, sp_ErrorReason = [], sp_Transaction = [], sp_Network = [], sp_Payer = []\<rparr>"

section \<open>Printing\<close>

fun status_text :: "settlement_status \<Rightarrow> string" where
  "status_text StatusPending = ''pending''"
| "status_text StatusConfirmed = ''confirmed''"
| "status_text StatusFailed = ''failed''"

definition out_int :: "int64 \<Rightarrow> go_out" where
  "out_int i = OInt (sint i)"

definition result_out :: "settle_result \<Rightarrow> go_out" where
  "result_out r = OObject
     [(''settlement_id'', OString (re_SettlementID r)), (''status'', OString (status_text (re_Status r))),
      (''tx_hash'', OString (re_TxHash r)), (''network'', OString (re_Network r)), (''payer'', OString (re_Payer r)),
      (''commission_bps'', out_int (re_CommissionBps r)),
      (''commission_amount_cents'', out_int (CommissionAmountCents (re_Split r))),
      (''platform_fee_cents'', out_int (PlatformFeeCents (re_Split r))),
      (''publisher_amount_cents'', out_int (PublisherAmountCents (re_Split r)))]"

definition error_out :: "string \<Rightarrow> string \<Rightarrow> go_out" where
  "error_out text reason = OObject [(''error'', OString text), (''reason'', OString reason)]"

definition authorization_out :: "Eip3009Authorization \<Rightarrow> go_out" where
  "authorization_out a = OObject
     [(''from'', OString (auth_From a)), (''to'', OString (auth_To a)), (''value'', OString (auth_Value a)),
      (''validAfter'', OString (auth_ValidAfter a)), (''validBefore'', OString (auth_ValidBefore a)),
      (''nonce'', OString (auth_Nonce a))]"

definition payload_out :: "PaymentPayload \<Rightarrow> go_out" where
  "payload_out p = OObject
     [(''x402Version'', out_int (pp_X402Version p)), (''scheme'', OString (pp_Scheme p)), (''network'', OString (pp_Network p)),
      (''authorization'', authorization_out (pp_Authorization p)), (''signature'', OString (pp_Signature p))]"

definition requirements_out :: "PaymentRequirements \<Rightarrow> go_out" where
  "requirements_out r = OObject
     [(''scheme'', OString (pr_Scheme r)), (''network'', OString (pr_Network r)), (''asset'', OString (pr_Asset r)),
      (''maxAmountRequired'', OString (pr_MaxAmountRequired r)), (''payTo'', OString (pr_PayTo r)),
      (''maxTimeoutSeconds'', out_int (pr_MaxTimeoutSeconds r)), (''resource'', OString (pr_Resource r)),
      (''description'', OString (pr_Description r))]"

definition X402Version :: int64 where
  "X402Version = 1"

definition facilitatorRequest_out :: "PaymentPayload \<Rightarrow> PaymentRequirements \<Rightarrow> go_out" where
  "facilitatorRequest_out p r = OObject
     [(''x402Version'', out_int X402Version), (''paymentPayload'', payload_out p), (''paymentRequirements'', requirements_out r)]"

section \<open>The client of the facilitator\<close>

definition maxFacilitatorResponseBytes :: nat where
  "maxFacilitatorResponseBytes = 65536"

record 'w http_facilitator =
  hf_baseURL :: string
  hf_parses :: "string \<Rightarrow> bool"
  hf_Do :: "'w fetch"

definition unavailable :: "string \<Rightarrow> go_error" where
  "unavailable what = detailed (sentinel_error ErrFacilitatorUnavailable) what"

definition facilitator_http :: "'w http_facilitator \<Rightarrow> string \<Rightarrow> PaymentPayload \<Rightarrow> PaymentRequirements \<Rightarrow> http_request" where
  "facilitator_http hf path p r =
     \<lparr>rq_method = ''POST'', rq_url = hf_baseURL hf @ path, rq_headers = [(''content-type'', ''application/json'')],
      rq_body = marshal (facilitatorRequest_out p r)\<rparr>"

text \<open>What \<open>post\<close> makes of the answer: the read is cut at the limit, whatever is left then fails to decode.\<close>

definition read_answer :: "'a decoder \<Rightarrow> 'a \<Rightarrow> http_response \<Rightarrow> 'a go_result" where
  "read_answer d zero resp =
     (let raw = take maxFacilitatorResponseBytes (rs_body resp) in
      if rs_status resp \<noteq> 200 then Inl (unavailable (''status '' @ nat_text (rs_status resp) @ '': '' @ raw))
      else
        case Option.bind (unmarshal raw) (\<lambda>g. d g zero) of
          None \<Rightarrow> Inl (unavailable ''decode body'')
        | Some out \<Rightarrow> Inr out)"

definition facilitator_post ::
    "'w http_facilitator \<Rightarrow> string \<Rightarrow> 'a decoder \<Rightarrow> 'a \<Rightarrow> PaymentPayload \<Rightarrow> PaymentRequirements \<Rightarrow> 'w \<Rightarrow> 'a go_result \<times> 'w" where
  "facilitator_post hf path d zero p r w =
     (if \<not> hf_parses hf (hf_baseURL hf @ path) then (Inl (plain_error ''build facilitator request''), w)
      else
        case hf_Do hf (facilitator_http hf path p r) w of
          (Inl e, w') \<Rightarrow> (Inl (unavailable (message e)), w')
        | (Inr resp, w') \<Rightarrow> (read_answer d zero resp, w'))"

definition verifyPath :: string where
  "verifyPath = ''/verify''"

definition settlePath :: string where
  "settlePath = ''/settle''"

definition NewHTTPFacilitator :: "'w http_facilitator \<Rightarrow> 'w facilitator_client" where
  "NewHTTPFacilitator hf =
     \<lparr>fc_verify = facilitator_post hf verifyPath decode_verify_response zero_verify_response,
      fc_settle = facilitator_post hf settlePath decode_settle_response zero_settle_response\<rparr>"

section \<open>The routes\<close>

definition maxRequestBytes :: nat where
  "maxRequestBytes = 262144"

text \<open>\<open>json.NewDecoder(http.MaxBytesReader(w, r.Body, maxRequestBytes)).Decode\<close>.\<close>

definition read_request :: "body_stream \<Rightarrow> raw option" where
  "read_request body =
     (let sent = concat (chunks body) in
      decode_first (broken body = None \<and> length sent \<le> maxRequestBytes) (take maxRequestBytes sent))"

text \<open>\<open>writeJSON\<close>: the status, and the text, which the encoder ends with a line feed.\<close>

type_synonym go_reply = "nat \<times> bytes"

definition writeJSON :: "nat \<Rightarrow> go_out \<Rightarrow> go_reply" where
  "writeJSON status body = (status, marshal body @ [chr 10])"

definition malformed_body :: go_reply where
  "malformed_body = writeJSON 400 (error_out ''malformed request body'' ''bad_request'')"

fun answer_reply :: "settle_answer \<Rightarrow> go_reply" where
  "answer_reply (Confirmed r) = writeJSON 200 (result_out r)"
| "answer_reply (Refused status text reason) = writeJSON status (error_out text reason)"

definition serve_settle ::
    "'f service \<Rightarrow> weather \<Rightarrow> string \<Rightarrow> body_stream \<Rightarrow> database \<times> 'f \<Rightarrow> go_reply \<times> (database \<times> 'f)" where
  "serve_settle sv wx newID body s =
     (case Option.bind (read_request body) (\<lambda>g. decode_request g zero_request) of
        None \<Rightarrow> (malformed_body, s)
      | Some req \<Rightarrow> (case handleSettle sv wx newID req s of (a, s') \<Rightarrow> (answer_reply a, s')))"

definition serve_rejection :: "link \<Rightarrow> body_stream \<Rightarrow> database \<Rightarrow> go_reply \<times> database" where
  "serve_rejection l body db =
     (case Option.bind (read_request body) (\<lambda>g. decode_rejection g zero_rejection) of
        None \<Rightarrow> (malformed_body, db)
      | Some rejection \<Rightarrow>
          if rj_PublisherID rejection = [] \<or> rj_Reason rejection = []
          then (writeJSON 400 (error_out ''publisher_id and reason are both required'' ''bad_request''), db)
          else
            case RecordRejection l rejection db of
              (Some e, db') \<Rightarrow> (writeJSON 500 (error_out (err_text e) reasonInternalError), db')
            | (None, db') \<Rightarrow> (writeJSON 202 (OObject [(''status'', OString ''recorded'')]), db'))"

definition serve_health :: go_reply where
  "serve_health = writeJSON 200 (OObject [(''status'', OString ''ok'')])"

text \<open>\<open>Routes\<close>: the reading routes, and what the multiplexer answers to anything else, are a parameter.\<close>

definition settlement_serve ::
    "'f service \<Rightarrow> weather \<Rightarrow> string \<Rightarrow> (database \<times> 'f) fetch \<Rightarrow> (database \<times> 'f) fetch" where
  "settlement_serve sv wx newID others = (\<lambda>rq s.
     (let body = \<lparr>chunks = [rq_body rq], broken = None\<rparr>;
          reply = (\<lambda>r. Inr \<lparr>rs_status = fst r, rs_headers = [(''content-type'', ''application/json'')], rs_body = snd r\<rparr>);
          path = url_pathname (rq_url rq) in
      if rq_method rq = ''POST'' \<and> path = ''/settle''
      then (case serve_settle sv wx newID body s of (r, s') \<Rightarrow> (reply r, s'))
      else if rq_method rq = ''POST'' \<and> path = ''/rejections''
      then (case s of (db, f) \<Rightarrow> (case serve_rejection (wx_reject wx) body db of (r, db') \<Rightarrow> (reply r, (db', f))))
      else if rq_method rq = ''GET'' \<and> path = ''/healthz'' then (reply serve_health, s)
      else others rq s))"

end
