(* ===== verification/Go_Exchange.thy ===== *)
theory Go_Exchange
  imports Go_Wire Settlement_Client X402 Settlement_Books
begin

text \<open>
  What the settlement service reads of what the TypeScript services send it: the requests of the merchant's
  client come through as they are, and a member whose name is a field's in another case is taken for that field.
\<close>

section \<open>Reading one member\<close>

text \<open>A number of the wire stays the integer it came from.\<close>

declare of_int_sint [simp del]

lemma field_known:
  "utf8_wf k \<Longrightarrow> map_of fs k = Some d \<Longrightarrow>
     go_members fs ((text_pieces k, g) # kgs) s = (case d g s of None \<Rightarrow> None | Some s' \<Rightarrow> go_members fs kgs s')"
  by (simp add: unquote_text field_named_def)

lemma field_folded:
  "utf8_wf k \<Longrightarrow> map_of fs k = None \<Longrightarrow> List.find (\<lambda>(name, d). fold_name name = fold_name k) fs = Some (n, d) \<Longrightarrow>
     go_members fs ((text_pieces k, g) # kgs) s = (case d g s of None \<Rightarrow> None | Some s' \<Rightarrow> go_members fs kgs s')"
  by (simp add: unquote_text field_named_def)

lemma parse_int64_text:
  assumes "- (2 ^ 63) \<le> i" and "i < 2 ^ 63"
  shows "parse_int64 (int_text i) = Some (word_of_int i)"
proof -
  have digits: "list_all is_digit (nat_text n)" "nat_text n \<noteq> []" "digits_value 10 0 (nat_text n) = Some n" for n
    using nat_text_digits nat_text_value by (auto simp: list_all_iff)
  show ?thesis
  proof (cases "i < 0")
    case True
    then show ?thesis using assms digits [of "nat (- i)"] by (simp add: parse_int64_def int_text_def starts_with_def Let_def)
  next
    case False
    moreover have "\<not> starts_with ''-'' (nat_text (nat i))"
      by (rule starts_with_digit) (simp_all add: nat_text_hd_digit, simp add: is_digit_def)
    ultimately show ?thesis using assms digits [of "nat i"] by (simp add: parse_int64_def int_text_def Let_def)
  qed
qed

lemma parse_int64_word:
  assumes "\<bar>sint w\<bar> < 2 ^ 53"
  shows "parse_int64 (num_json (num_of_int (sint (w :: int64)))) = Some w"
proof -
  have "num_json (num_of_int (sint w)) = int_text (sint w)" using num_text_int [OF assms] by simp
  then show ?thesis using assms parse_int64_text [of "sint w"] by (simp add: of_int_sint del: num_json.simps)
qed

lemmas reading = field_known field_def unquote_text parse_int64_word

text \<open>Field names are plain text.\<close>

lemma plain_names:
  "utf8_wf ''assertion_id''" "utf8_wf ''publisher_id''" "utf8_wf ''product_id''" "utf8_wf ''search_request_id''"
  "utf8_wf ''issued_at''" "utf8_wf ''expires_at''" "utf8_wf ''commission_bps''" "utf8_wf ''signature''"
  "utf8_wf ''from''" "utf8_wf ''to''" "utf8_wf ''value''" "utf8_wf ''validAfter''" "utf8_wf ''validBefore''" "utf8_wf ''nonce''"
  "utf8_wf ''x402Version''" "utf8_wf ''scheme''" "utf8_wf ''network''" "utf8_wf ''authorization''" "utf8_wf ''asset''"
  "utf8_wf ''maxAmountRequired''" "utf8_wf ''payTo''" "utf8_wf ''maxTimeoutSeconds''" "utf8_wf ''resource''" "utf8_wf ''description''"
  "utf8_wf ''assertion''" "utf8_wf ''merchant_id''" "utf8_wf ''gross_amount_cents''" "utf8_wf ''currency''"
  "utf8_wf ''payment_payload''" "utf8_wf ''payment_requirements''" "utf8_wf ''isValid''" "utf8_wf ''invalidReason''"
  "utf8_wf ''payer''" "utf8_wf ''success''" "utf8_wf ''errorReason''" "utf8_wf ''transaction''" "utf8_wf ''reason''"
  "utf8_wf ''detail''"
  by (rule utf8_wf_ascii, simp)+

section \<open>Values both sides have\<close>

definition assertion_texts :: "go_assertion \<Rightarrow> bool" where
  "assertion_texts a \<longleftrightarrow> list_all utf8_wf (Signature a # signed_texts a) \<and> \<bar>sint (CommissionBps a)\<bar> < 2 ^ 53"

definition payload_texts :: "PaymentPayload \<Rightarrow> bool" where
  "payload_texts p \<longleftrightarrow> out_ok (payload_out p)"

definition requirements_texts :: "PaymentRequirements \<Rightarrow> bool" where
  "requirements_texts r \<longleftrightarrow> out_ok (requirements_out r)"

lemma decode_assertion_js:
  assumes "assertion_texts a"
  shows "decode_assertion (raw_of (assertion_js (assertion_of a))) z = Some a"
  using assms
  by (simp add: decode_assertion_def assertion_js_def assertion_of_def assertion_texts_def signed_texts_def reading plain_names
      del: go_members.simps(2) num_json.simps)

lemma decode_payload_js:
  assumes "payload_texts p"
  shows "decode_payload (raw_of (js_out (payload_out p))) z = Some p"
  using assms
  by (simp add: decode_payload_def decode_authorization_def payload_texts_def payload_out_def authorization_out_def out_int_def
      reading plain_names del: go_members.simps(2) num_json.simps)

lemma decode_requirements_js:
  assumes "requirements_texts r"
  shows "decode_requirements (raw_of (js_out (requirements_out r))) z = Some r"
  using assms
  by (simp add: decode_requirements_def requirements_texts_def requirements_out_def out_int_def
      reading plain_names del: go_members.simps(2) num_json.simps)

lemma json_ok_out:
  "out_ok v \<Longrightarrow> json_ok (js_out v)"
  "out_members_ok kvs \<Longrightarrow> \<forall>kv \<in> set (js_members kvs). utf8_wf (fst kv) \<and> json_ok (snd kv)"
  by (induction v and kvs rule: js_out_js_members.induct) (auto simp: js_members_names)

lemma json_ok_assertion: "assertion_texts a \<Longrightarrow> json_ok (assertion_js (assertion_of a))"
  by (simp add: assertion_texts_def signed_texts_def assertion_js_def assertion_of_def plain_names)

section \<open>A request read from its bytes\<close>

lemma request_read:
  assumes "json_ok v" and "compound (raw_of v)" and "depth (raw_of v) \<le> maxNestingDepth"
    and "concat (chunks body) = json_body v" and "broken body = None" and "length (json_body v) \<le> maxRequestBytes"
  shows "read_request body = Some (raw_of v)"
proof -
  have "json_body v = stringify v" using utf8_wf_stringify(1) [OF assms(1)] by (simp add: json_body_def)
  with assms renders_unmarshal(2) [OF renders_stringify(1) [OF assms(1)] assms(3)] show ?thesis
    by (simp add: read_request_def Let_def)
qed

lemma request_members:
  assumes "decode_assertion (raw_of (sq_assertion q)) zero_assertion = Some a"
    and "decode_payload (raw_of (sq_payment_payload q)) zero_payload = Some p"
    and "decode_requirements (raw_of (sq_payment_requirements q)) zero_requirements = Some r"
    and "sq_gross_amount_cents q = num_of_int (sint amount)" and "\<bar>sint amount\<bar> < 2 ^ 53"
    and "utf8_wf (sq_merchant_id q)" and "utf8_wf (sq_currency q)"
  shows "decode_request (raw_of (settlement_request_js q)) zero_request =
     Some \<lparr>rq_Assertion = a, rq_MerchantID = sq_merchant_id q, rq_GrossAmountCents = amount, rq_Currency = sq_currency q,
       rq_PaymentPayload = p, rq_PaymentRequirements = r\<rparr>"
  using assms
  by (simp add: decode_request_def settlement_request_js_def zero_request_def reading plain_names
      del: go_members.simps(2) num_json.simps)

text \<open>The request the merchant's client makes of the parts the settlement service has.\<close>

definition client_request :: "settle_request \<Rightarrow> settlement_request" where
  "client_request req =
     \<lparr>sq_assertion = assertion_js (assertion_of (rq_Assertion req)), sq_merchant_id = rq_MerchantID req,
      sq_gross_amount_cents = num_of_int (sint (rq_GrossAmountCents req)), sq_currency = rq_Currency req,
      sq_payment_payload = js_out (payload_out (rq_PaymentPayload req)),
      sq_payment_requirements = js_out (requirements_out (rq_PaymentRequirements req))\<rparr>"

definition request_texts :: "settle_request \<Rightarrow> bool" where
  "request_texts req \<longleftrightarrow>
     assertion_texts (rq_Assertion req) \<and> payload_texts (rq_PaymentPayload req) \<and> requirements_texts (rq_PaymentRequirements req) \<and>
     utf8_wf (rq_MerchantID req) \<and> utf8_wf (rq_Currency req) \<and> \<bar>sint (rq_GrossAmountCents req)\<bar> < 2 ^ 53"

lemma client_request_ok: "request_texts req \<Longrightarrow> json_ok (settlement_request_js (client_request req))"
  using json_ok_out(1) [of "payload_out (rq_PaymentPayload req)"] json_ok_out(1) [of "requirements_out (rq_PaymentRequirements req)"]
  by (simp add: request_texts_def client_request_def settlement_request_js_def json_ok_assertion payload_texts_def
      requirements_texts_def plain_names)

lemma payload_depth: "depth (raw_of (js_out (payload_out p))) = 2" "depth (raw_of (js_out (requirements_out r))) = 1"
  by (simp_all add: payload_out_def authorization_out_def requirements_out_def out_int_def)

lemma request_depth:
  "depth (raw_of (settlement_request_js q)) =
     Suc (max (depth (raw_of (sq_assertion q)))
       (max (depth (raw_of (sq_payment_payload q))) (depth (raw_of (sq_payment_requirements q)))))"
  by (simp add: settlement_request_js_def)

lemma client_request_depth: "depth (raw_of (settlement_request_js (client_request req))) = 3"
  by (simp add: request_depth client_request_def payload_depth) (simp add: assertion_js_def)

lemma request_decoded: "request_texts req \<Longrightarrow> decode_request (raw_of (settlement_request_js (client_request req))) zero_request = Some req"
  using request_members [of "client_request req" "rq_Assertion req" "rq_PaymentPayload req" "rq_PaymentRequirements req"
      "rq_GrossAmountCents req"] decode_assertion_js decode_payload_js decode_requirements_js
  by (simp add: client_request_def request_texts_def)

section \<open>An assertion inside another\<close>

definition upper_name :: "string \<Rightarrow> string" where
  "upper_name = map upper_char"

text \<open>The members of one assertion, and those of another with their names in upper case.\<close>

fun members_of :: "js \<Rightarrow> (string \<times> js) list" where
  "members_of (JObj kvs) = kvs"
| "members_of v = []"

definition smuggled :: "go_assertion \<Rightarrow> go_assertion \<Rightarrow> js" where
  "smuggled a b = JObj (members_of (assertion_js (assertion_of a)) @
     map (\<lambda>(k, v). (upper_name k, v)) (members_of (assertion_js (assertion_of b))))"

lemma upper_names:
  "upper_name ''assertion_id'' = ''ASSERTION_ID''" "upper_name ''publisher_id'' = ''PUBLISHER_ID''"
  "upper_name ''product_id'' = ''PRODUCT_ID''" "upper_name ''search_request_id'' = ''SEARCH_REQUEST_ID''"
  "upper_name ''issued_at'' = ''ISSUED_AT''" "upper_name ''expires_at'' = ''EXPIRES_AT''"
  "upper_name ''commission_bps'' = ''COMMISSION_BPS''" "upper_name ''signature'' = ''SIGNATURE''"
  by code_simp+

lemma upper_plain:
  "utf8_wf ''ASSERTION_ID''" "utf8_wf ''PUBLISHER_ID''" "utf8_wf ''PRODUCT_ID''" "utf8_wf ''SEARCH_REQUEST_ID''"
  "utf8_wf ''ISSUED_AT''" "utf8_wf ''EXPIRES_AT''" "utf8_wf ''COMMISSION_BPS''" "utf8_wf ''SIGNATURE''"
  by (rule utf8_wf_ascii, simp)+

lemma upper_folds:
  "fold_name ''ASSERTION_ID'' = ''ASSERTION_ID''" "fold_name ''assertion_id'' = ''ASSERTION_ID''"
  "fold_name ''PUBLISHER_ID'' = ''PUBLISHER_ID''" "fold_name ''publisher_id'' = ''PUBLISHER_ID''"
  "fold_name ''PRODUCT_ID'' = ''PRODUCT_ID''" "fold_name ''product_id'' = ''PRODUCT_ID''"
  "fold_name ''SEARCH_REQUEST_ID'' = ''SEARCH_REQUEST_ID''" "fold_name ''search_request_id'' = ''SEARCH_REQUEST_ID''"
  "fold_name ''ISSUED_AT'' = ''ISSUED_AT''" "fold_name ''issued_at'' = ''ISSUED_AT''"
  "fold_name ''EXPIRES_AT'' = ''EXPIRES_AT''" "fold_name ''expires_at'' = ''EXPIRES_AT''"
  "fold_name ''COMMISSION_BPS'' = ''COMMISSION_BPS''" "fold_name ''commission_bps'' = ''COMMISSION_BPS''"
  "fold_name ''SIGNATURE'' = ''SIGNATURE''" "fold_name ''signature'' = ''SIGNATURE''"
  by code_simp+

lemma smuggled_members:
  "smuggled a b = JObj (members_of (assertion_js (assertion_of a)) @
     [(''ASSERTION_ID'', JStr (AssertionID b)), (''PUBLISHER_ID'', JStr (PublisherID b)), (''PRODUCT_ID'', JStr (ProductID b)),
      (''SEARCH_REQUEST_ID'', JStr (SearchRequestID b)), (''ISSUED_AT'', JStr (IssuedAt b)), (''EXPIRES_AT'', JStr (ExpiresAt b)),
      (''COMMISSION_BPS'', jint (sint (CommissionBps b))), (''SIGNATURE'', JStr (Signature b))])"
  by (simp add: smuggled_def assertion_js_def assertion_of_def upper_names)

lemma smuggled_decoded:
  assumes "assertion_texts a" and "assertion_texts b"
  shows "decode_assertion (raw_of (smuggled a b)) z = Some b"
  using assms
  by (simp add: smuggled_members assertion_js_def assertion_of_def decode_assertion_def assertion_texts_def signed_texts_def
      reading field_folded plain_names upper_plain upper_folds del: go_members.simps(2) num_json.simps fold_name.simps)

lemma smuggled_ok: "assertion_texts a \<Longrightarrow> assertion_texts b \<Longrightarrow> json_ok (smuggled a b)"
  by (simp add: smuggled_members assertion_texts_def signed_texts_def assertion_js_def assertion_of_def plain_names upper_plain)

lemma assertion_names: "map fst (members_of (assertion_js a)) = signed_fields @ [''signature'']"
  by (simp add: assertion_js_def signed_fields_def)

lemma smuggled_own:
  assumes "k \<in> set (''signature'' # signed_fields)"
  shows "get (smuggled a b) k = get (assertion_js (assertion_of a)) k"
proof -
  let ?a = "members_of (assertion_js (assertion_of a))"
  have "k \<in> set (map fst ?a)" unfolding assertion_names using assms by auto
  then have "map_of ?a k \<noteq> None" by (simp add: map_of_eq_None_iff)
  moreover have "assertion_js (assertion_of a) = JObj ?a" by (simp add: assertion_js_def)
  moreover have "own (xs @ ys) k = own xs k" if "map_of xs k \<noteq> None" for xs ys :: "(string \<times> js) list"
    using that by (auto simp: own_def map_add_def split: option.splits)
  ultimately show ?thesis unfolding smuggled_members by (metis get.simps(3))
qed

lemma smuggled_canonical: "canonicalizeForSigning (smuggled a b) = canonicalizeForSigning (assertion_js (assertion_of a))"
proof -
  obtain s k where s: "smuggled a b = JObj s" and k: "assertion_js (assertion_of a) = JObj k"
    by (simp add: smuggled_def assertion_js_def)
  have "own s f = own k f" if "f \<in> set signed_fields" for f
    using smuggled_own [of f a b] that by (simp add: s k)
  then have "map (\<lambda>f. (f, own s f)) signed_fields = map (\<lambda>f. (f, own k f)) signed_fields" by simp
  then show ?thesis by (simp only: s k canonicalize_Obj)
qed

lemma smuggled_verified:
  "verifyAssertion ed legacy (smuggled a b) key now = verifyAssertion ed legacy (assertion_js (assertion_of a)) key now"
proof -
  have "get (smuggled a b) ''signature'' = get (assertion_js (assertion_of a)) ''signature''" by (rule smuggled_own) simp
  moreover have "get (smuggled a b) ''expires_at'' = get (assertion_js (assertion_of a)) ''expires_at''"
    by (rule smuggled_own) (simp add: signed_fields_def)
  ultimately show ?thesis unfolding verifyAssertion_def smuggled_canonical by (simp only:)
qed

section \<open>Answers\<close>

fun answer_out :: "settle_answer \<Rightarrow> go_out" where
  "answer_out (Confirmed r) = result_out r"
| "answer_out (Refused status text reason) = error_out text reason"

fun outcome_of :: "settle_answer \<Rightarrow> settlement_outcome" where
  "outcome_of (Confirmed r) = Settled (js_out (result_out r))"
| "outcome_of (Refused status text reason) = Settlement_rejected status (js_out (error_out text reason))"

lemma reply_json:
  assumes "out_ok v" and "rs_body r = marshal v @ [chr 10]" and "v = OObject kvs"
  shows "response_json r = Inr (js_out v)"
proof -
  have "utf8_wf (marshal v @ [chr 10])" using utf8_wf_marshal(1) [OF assms(1)] by (intro utf8_wf_append) simp_all
  then have "text_decode (rs_body r) = marshal v @ [chr 10]"
    by (simp add: text_decode_def assms(2,3) starts_with_def byte_order_mark_def del: utf8_replace.simps)
  then show ?thesis using json_parse_marshal_line [OF assms(1)] by (simp add: response_json_def)
qed

lemma statusFor_failure: "statusFor e = (status, reason) \<Longrightarrow> 400 \<le> status \<and> status \<le> 502"
  by (auto simp: statusFor_def split: if_splits)

lemma handled_answer:
  assumes "handleSettle sv wx newID req s = (ans, s')" and "out_ok (answer_out ans)"
    and "rs_status r = fst (answer_reply ans)" and "rs_body r = snd (answer_reply ans)"
  shows "case ans of Confirmed res \<Rightarrow> response_ok r \<and> response_json r = Inr (js_out (result_out res))
    | Refused status text reason \<Rightarrow> \<not> response_ok r \<and> response_json r = Inr (js_out (error_out text reason))"
proof (cases ans)
  case (Confirmed res)
  with assms reply_json [OF _ _ result_out_def, of res r] show ?thesis by (simp add: writeJSON_def response_ok_def)
next
  case (Refused status t reason)
  then obtain e where "statusFor e = (status, reason)"
    using assms(1) by (auto simp: handleSettle_def Let_def split: prod.splits sum.splits)
  from statusFor_failure [OF this] Refused assms reply_json [OF _ _ error_out_def, of t reason r] show ?thesis
    by (simp add: writeJSON_def response_ok_def)
qed

lemma settle_served:
  assumes "request_texts req" and "concat (chunks body) = json_body (settlement_request_js (client_request req))"
    and "broken body = None" and "length (json_body (settlement_request_js (client_request req))) \<le> maxRequestBytes"
  shows "serve_settle sv wx newID body s = (case handleSettle sv wx newID req s of (a, s') \<Rightarrow> (answer_reply a, s'))"
proof -
  let ?v = "settlement_request_js (client_request req)"
  have "read_request body = Some (raw_of ?v)"
  proof (rule request_read [OF client_request_ok [OF assms(1)] _ _ assms(2-4)])
    show "compound (raw_of ?v)" by (simp add: settlement_request_js_def)
    show "depth (raw_of ?v) \<le> maxNestingDepth" by (simp add: client_request_depth maxNestingDepth_def)
  qed
  then show ?thesis by (simp add: serve_settle_def request_decoded [OF assms(1)])
qed

text \<open>The merchant's request as the service answers it over HTTP.\<close>

lemma settle_over_http:
  assumes "request_texts req" and "length (json_body (settlement_request_js (client_request req))) \<le> maxRequestBytes"
    and "url_pathname (settlement_base baseUrl @ ''/settle'') = ''/settle''"
    and "handleSettle sv wx newID req s = (ans, s')" and "out_ok (answer_out ans)"
  shows "\<exists>http. settlement_serve sv wx newID others
       (settlement_post baseUrl ''/settle'' (settlement_request_js (client_request req))) s = (Inr http, s') \<and>
     (case ans of Confirmed res \<Rightarrow> response_ok http \<and> response_json http = Inr (js_out (result_out res))
      | Refused status text reason \<Rightarrow> \<not> response_ok http \<and> rs_status http = status \<and>
          response_json http = Inr (js_out (error_out text reason)))"
proof -
  let ?rq = "settlement_post baseUrl ''/settle'' (settlement_request_js (client_request req))"
  let ?r = "\<lparr>rs_status = fst (answer_reply ans), rs_headers = [(''content-type'', ''application/json'')], rs_body = snd (answer_reply ans)\<rparr>"
  have "serve_settle sv wx newID \<lparr>chunks = [rq_body ?rq], broken = None\<rparr> s = (answer_reply ans, s')"
    using settle_served [OF assms(1) _ _ assms(2), where sv = sv and wx = wx and newID = newID and s = s
        and body = "\<lparr>chunks = [rq_body ?rq], broken = None\<rparr>"] assms(4)
    by (simp add: settlement_post_def)
  then have "settlement_serve sv wx newID others ?rq s = (Inr ?r, s')"
    using assms(3) by (simp add: settlement_serve_def settlement_post_def Let_def)
  with handled_answer [OF assms(4,5), of ?r] show ?thesis
    by (cases ans) (auto simp: writeJSON_def simp del: marshal.simps)
qed

section \<open>A rejection over HTTP\<close>

definition rejection_js :: "Rejection \<Rightarrow> js" where
  "rejection_js r = JObj [(''publisher_id'', JStr (rj_PublisherID r)), (''assertion_id'', JStr (rj_AssertionID r)),
     (''merchant_id'', JStr (rj_MerchantID r)), (''reason'', JStr (rj_Reason r)), (''detail'', JStr (rj_Detail r))]"

definition rejection_texts :: "Rejection \<Rightarrow> bool" where
  "rejection_texts r \<longleftrightarrow> list_all utf8_wf [rj_PublisherID r, rj_AssertionID r, rj_MerchantID r, rj_Reason r, rj_Detail r]"

lemma rejection_decoded:
  assumes "rejection_texts r"
  shows "decode_rejection (raw_of (rejection_js r)) zero_rejection = Some r"
  using assms
  by (simp add: decode_rejection_def rejection_js_def rejection_texts_def zero_rejection_def reading plain_names
      del: go_members.simps(2) num_json.simps)

definition rejected_row :: "Rejection \<Rightarrow> rejected_attempt" where
  "rejected_row r = \<lparr>ra_publisher = rj_PublisherID r, ra_assertion = nullable (rj_AssertionID r), ra_merchant = nullable (rj_MerchantID r),
     ra_reason = rj_Reason r, ra_detail = nullable (truncateDetail (rj_Detail r))\<rparr>"

definition recordable :: "Rejection \<Rightarrow> bool" where
  "recordable r \<longleftrightarrow> rejection_texts r \<and> rj_PublisherID r \<noteq> [] \<and> rj_Reason r \<noteq> [] \<and>
     list_all storable [rj_PublisherID r, rj_AssertionID r, rj_MerchantID r, rj_Reason r, truncateDetail (rj_Detail r)]"

lemma rejection_recorded: "recordable r \<Longrightarrow> RecordRejection Up r db = (None, db\<lparr>db_rejected := db_rejected db @ [rejected_row r]\<rparr>)"
  by (simp add: recordable_def RecordRejection_def rejected_row_def Let_def)

lemma rejection_over_http:
  assumes "recordable r" and "wx_reject wx = Up" and "url_pathname (settlement_base url @ ''/rejections'') = ''/rejections''"
    and "length (json_body (rejection_js r)) \<le> maxRequestBytes"
  shows "snd (settlement_serve sv wx newID others (settlement_post url ''/rejections'' (rejection_js r)) (db, f)) =
    (db\<lparr>db_rejected := db_rejected db @ [rejected_row r]\<rparr>, f)"
proof -
  have texts: "rejection_texts r" using assms(1) by (simp add: recordable_def)
  let ?body = "\<lparr>chunks = [json_body (rejection_js r)], broken = None\<rparr>"
  have "read_request ?body = Some (raw_of (rejection_js r))"
  proof (rule request_read)
    show "json_ok (rejection_js r)" using texts by (simp add: rejection_js_def rejection_texts_def plain_names)
    show "compound (raw_of (rejection_js r))" "depth (raw_of (rejection_js r)) \<le> maxNestingDepth"
      by (simp_all add: rejection_js_def maxNestingDepth_def)
  qed (use assms(4) in simp_all)
  then have "snd (serve_rejection Up ?body db) = db\<lparr>db_rejected := db_rejected db @ [rejected_row r]\<rparr>"
    using assms(1) by (simp add: serve_rejection_def rejection_decoded [OF texts] rejection_recorded) (simp add: recordable_def)
  then show ?thesis
    using assms(2,3) by (auto simp: settlement_serve_def settlement_post_def Let_def split: prod.splits)
qed

section \<open>The facilitator out of reach\<close>

text \<open>An error of the transport, another status than 200, or a body the decoder refuses: one that is not JSON, is
  cut off at the limit or has a value of the wrong type.\<close>

definition no_answer :: "'a decoder \<Rightarrow> 'a \<Rightarrow> (exn + http_response) \<Rightarrow> bool" where
  "no_answer d zero r \<longleftrightarrow>
     (case r of Inl e \<Rightarrow> True
      | Inr resp \<Rightarrow> rs_status resp \<noteq> 200 \<or>
          (\<forall>g. unmarshal (take maxFacilitatorResponseBytes (rs_body resp)) = Some g \<longrightarrow> d g zero = None))"

lemma post_no_answer:
  assumes "hf_parses hf (hf_baseURL hf @ path)" and "hf_Do hf (facilitator_http hf path p r) w = (resp, w')" and "no_answer d zero resp"
  shows "\<exists>what. facilitator_post hf path d zero p r w = (Inl (unavailable what), w')"
proof (cases resp)
  case (Inr http)
  have "Option.bind (unmarshal (take maxFacilitatorResponseBytes (rs_body http))) (\<lambda>g. d g zero) = None" if "rs_status http = 200"
    using assms(3) Inr that by (cases "unmarshal (take maxFacilitatorResponseBytes (rs_body http))") (simp_all add: no_answer_def)
  then have "\<exists>what. read_answer d zero http = Inl (unavailable what)" by (auto simp: read_answer_def Let_def)
  then show ?thesis using assms(1,2) Inr by (auto simp: facilitator_post_def)
qed (use assms in \<open>auto simp: facilitator_post_def\<close>)

lemma unavailable_status: "statusFor (unavailable what) = (502, ''facilitator_unavailable'')"
  by (simp add: unavailable_def statusFor_def)

lemma rejection_keeps_books:
  "db_consumed (snd (RecordRejection l r db)) = db_consumed db" "db_settlements (snd (RecordRejection l r db)) = db_settlements db"
  "db_entries (snd (RecordRejection l r db)) = db_entries db"
  by (simp_all add: RecordRejection_def Let_def)

section \<open>A concrete exchange\<close>

definition nothing_else :: "(database \<times> nat) fetch" where
  "nothing_else = (\<lambda>rq w. (Inl (Network_error ''refused''), w))"

definition sample_other :: go_assertion where
  "sample_other = sample_minted\<lparr>ProductID := ''d9'', PublisherID := ''p9''\<rparr>"

lemma sample_request_texts: "request_texts sample_request"
  by code_simp

lemma sample_other_texts: "assertion_texts sample_other"
  by code_simp

lemma sample_request_size: "length (json_body (settlement_request_js (client_request sample_request))) \<le> maxRequestBytes"
  by code_simp

lemma first_served_ok: "out_ok (answer_out (fst first_served))"
  by code_simp

definition sample_smuggled :: settlement_request where
  "sample_smuggled = (client_request sample_request)\<lparr>sq_assertion := smuggled sample_other (rq_Assertion sample_request)\<rparr>"

lemma sample_smuggled_size: "length (json_body (settlement_request_js sample_smuggled)) \<le> maxRequestBytes"
  by code_simp

text \<open>A facilitator that answers always the same: busy, or a 200 whose \<open>isValid\<close> is a text.\<close>

definition sample_outage :: "http_response \<Rightarrow> nat http_facilitator" where
  "sample_outage resp = \<lparr>hf_baseURL = ''http://f'', hf_parses = (\<lambda>_. True), hf_Do = (\<lambda>rq n. (Inr resp, Suc n))\<rparr>"

definition sample_cut_off :: "http_response \<Rightarrow> nat service" where
  "sample_cut_off resp = sample_service\<lparr>sv_facilitator := NewHTTPFacilitator (sample_outage resp)\<rparr>"

definition busy :: http_response where
  "busy = \<lparr>rs_status = 503, rs_headers = [], rs_body = ''busy''\<rparr>"

definition mistyped :: http_response where
  "mistyped = \<lparr>rs_status = 200, rs_headers = [], rs_body = json_body (JObj [(''isValid'', JStr ''yes'')])\<rparr>"

section \<open>Properties\<close>

text \<open>C11: What the merchant's client gets over HTTP from the settlement service is what the service decides of the
  very request: the JSON the client writes is decoded field for field, and the answer it reads is the service's.\<close>

theorem settlement_call_is_handled:
  assumes "request_texts req" and "length (json_body (settlement_request_js (client_request req))) \<le> maxRequestBytes"
    and "url_pathname (settlement_base baseUrl @ ''/settle'') = ''/settle''"
    and "handleSettle sv wx newID req s = (ans, s')" and "out_ok (answer_out ans)"
  shows "settle_call (settlement_serve sv wx newID others) baseUrl (client_request req) s = (Inr (outcome_of ans), s')"
  using settle_over_http [OF assms, of others] by (cases ans) (auto simp: settle_call_def io_simps)

text \<open>C12: An assertion inside another: a header that holds a genuine assertion, and after it the members of a second one
  under upper-case names, is verified by the gateway and the merchant as the first and settled as the second.\<close>

theorem smuggled_assertion_settles:
  assumes "assertion_texts a" and "request_texts req"
    and "q = (client_request req)\<lparr>sq_assertion := smuggled a (rq_Assertion req)\<rparr>"
    and "concat (chunks body) = json_body (settlement_request_js q)" and "broken body = None"
    and "length (json_body (settlement_request_js q)) \<le> maxRequestBytes"
  shows "verifyAssertion ed legacy (sq_assertion q) key now = verifyAssertion ed legacy (assertion_js (assertion_of a)) key now \<and>
    get (sq_assertion q) ''product_id'' = Inr (JStr (ProductID a)) \<and> get (sq_assertion q) ''publisher_id'' = Inr (JStr (PublisherID a)) \<and>
    decodeHeaderJson (encodeHeaderJson (sq_assertion q)) = Inr (sq_assertion q) \<and>
    serve_settle sv wx newID body s = (case handleSettle sv wx newID req s of (ans, s') \<Rightarrow> (answer_reply ans, s'))"
proof -
  let ?v = "settlement_request_js q"
  have b: "assertion_texts (rq_Assertion req)" using assms(2) by (simp add: request_texts_def)
  have ok: "json_ok (smuggled a (rq_Assertion req))" by (rule smuggled_ok [OF assms(1) b])
  have "json_ok ?v" using client_request_ok [OF assms(2)] ok by (simp add: assms(3) settlement_request_js_def)
  moreover have "compound (raw_of ?v)" by (simp add: settlement_request_js_def)
  moreover have "depth (raw_of ?v) \<le> maxNestingDepth"
    by (simp add: assms(3) request_depth client_request_def payload_depth maxNestingDepth_def) (simp add: smuggled_members assertion_js_def)
  ultimately have "read_request body = Some (raw_of ?v)" using assms(4-6) by (rule request_read)
  moreover have "decode_request (raw_of ?v) zero_request = Some req"
    using request_members [of q "rq_Assertion req" "rq_PaymentPayload req" "rq_PaymentRequirements req" "rq_GrossAmountCents req"]
      smuggled_decoded [OF assms(1) b] assms(2) decode_payload_js decode_requirements_js
    by (simp add: assms(3) client_request_def request_texts_def)
  moreover have "get (smuggled a (rq_Assertion req)) k = get (assertion_js (assertion_of a)) k"
    if "k \<in> {''product_id'', ''publisher_id''}" for k
    using that by (intro smuggled_own) (auto simp: signed_fields_def)
  ultimately show ?thesis
    using smuggled_verified header_json.decode_encode [OF ok]
    by (simp add: assms(3) serve_settle_def assertion_js_def assertion_of_def)
qed

text \<open>C13: A facilitator that is down costs nothing: when its check cannot be reached, answers anything but a 200, or
  answers what does not decode, be it no JSON or JSON of the wrong types, the settlement is refused with 502, and no assertion is consumed, no settlement
  opened and no entry posted.\<close>

theorem facilitator_outage_refused:
  assumes "sv_facilitator sv = NewHTTPFacilitator hf" and "hf_parses hf (hf_baseURL hf @ verifyPath)"
    and "Verify (sv_check sv) (sv_key sv) (rq_Assertion req) (wx_now wx) = None"
    and "LookupListing (wx_lookup wx) (ProductID (rq_Assertion req)) (rq_MerchantID req) db = Inr listing"
    and "check_listing req listing = Inr ()"
    and "hf_Do hf (facilitator_http hf verifyPath (rq_PaymentPayload req) (rq_PaymentRequirements req)) f = (resp, f1)"
    and "no_answer decode_verify_response zero_verify_response resp"
    and "handleSettle sv wx newID req (db, f) = (ans, (db', f'))"
  shows "(\<exists>t. ans = Refused 502 t ''facilitator_unavailable'') \<and> f' = f1 \<and> db_consumed db' = db_consumed db \<and>
    db_settlements db' = db_settlements db \<and> db_entries db' = db_entries db"
proof -
  obtain what where "fc_verify (sv_facilitator sv) (rq_PaymentPayload req) (rq_PaymentRequirements req) f = (Inl (unavailable what), f1)"
    using post_no_answer [OF assms(2,6,7)] by (auto simp: assms(1) NewHTTPFacilitator_def)
  then have "Settle sv wx newID req (db, f) = (Inl (unavailable what), (db, f1))"
    using assms(3-5) by (simp add: Settle_def prepare_def Let_def)
  then show ?thesis using assms(8)
    by (auto simp: handleSettle_def unavailable_status reasonInternalError_def rejection_keeps_books)
qed

lemma settlement_call_is_handled_witness:
  "settle_call (settlement_serve sample_service clear_weather ''x1'' nothing_else) ''http://s'' (client_request sample_request) (sample_store, 0) =
     (Inr (outcome_of (fst first_served)), snd first_served)"
proof (rule settlement_call_is_handled [OF sample_request_texts sample_request_size _ _ first_served_ok])
  show "url_pathname (settlement_base ''http://s'' @ ''/settle'') = ''/settle''" by code_simp
qed (simp add: first_served_def)

lemma smuggled_assertion_settles_witness:
  "get (sq_assertion sample_smuggled) ''product_id'' = Inr (JStr ''d9'') \<and>
   fst (serve_settle sample_service clear_weather ''x1'' \<lparr>chunks = [json_body (settlement_request_js sample_smuggled)], broken = None\<rparr>
      (sample_store, 0)) = answer_reply (fst first_served)"
proof -
  note run = smuggled_assertion_settles [OF sample_other_texts sample_request_texts sample_smuggled_def, where
      body = "\<lparr>chunks = [json_body (settlement_request_js sample_smuggled)], broken = None\<rparr>" and sv = sample_service and
      wx = clear_weather and newID = "''x1''" and s = "(sample_store, 0)", simplified, OF sample_smuggled_size]
  have "ProductID sample_other = ''d9''" by (simp add: sample_other_def)
  with run show ?thesis by (simp add: first_served_def case_prod_unfold)
qed

lemma facilitator_outage_refused_witness:
  "(\<exists>t db'. handleSettle (sample_cut_off busy) clear_weather ''x1'' sample_request (sample_store, 0) =
      (Refused 502 t ''facilitator_unavailable'', (db', 1)) \<and> db_consumed db' = []) \<and>
   (\<exists>t db'. handleSettle (sample_cut_off mistyped) clear_weather ''x1'' sample_request (sample_store, 0) =
      (Refused 502 t ''facilitator_unavailable'', (db', 1)) \<and> db_consumed db' = [])"
proof -
  have v: "Verify (sv_check sample_service) (sv_key sample_service) (rq_Assertion sample_request) (wx_now clear_weather) = None"
    by code_simp
  have l: "LookupListing (wx_lookup clear_weather) (ProductID (rq_Assertion sample_request)) (rq_MerchantID sample_request) sample_store =
      Inr (hd (db_listings sample_store))" by code_simp
  have c: "check_listing sample_request (hd (db_listings sample_store)) = Inr ()" by code_simp
  have refused: "\<exists>t db'. handleSettle (sample_cut_off resp) clear_weather ''x1'' sample_request (sample_store, 0) =
      (Refused 502 t ''facilitator_unavailable'', (db', 1)) \<and> db_consumed db' = []"
    if no: "no_answer decode_verify_response zero_verify_response (Inr resp)" for resp
  proof -
    obtain ans db' f' where h: "handleSettle (sample_cut_off resp) clear_weather ''x1'' sample_request (sample_store, 0) = (ans, (db', f'))"
      by (metis prod.exhaust)
    from facilitator_outage_refused [OF _ _ _ l c _ no h, of "sample_outage resp" 1] v
    show ?thesis using h by (auto simp: sample_cut_off_def sample_outage_def sample_store_def)
  qed
  have "unmarshal (take maxFacilitatorResponseBytes (rs_body mistyped)) = Some g \<Longrightarrow> decode_verify_response g zero_verify_response = None" for g
  proof -
    have "Option.bind (unmarshal (take maxFacilitatorResponseBytes (rs_body mistyped))) (\<lambda>g. decode_verify_response g zero_verify_response) = None"
      by code_simp
    then show "decode_verify_response g zero_verify_response = None"
      if "unmarshal (take maxFacilitatorResponseBytes (rs_body mistyped)) = Some g" using that by simp
  qed
  then have "no_answer decode_verify_response zero_verify_response (Inr mistyped)" by (simp add: no_answer_def)
  moreover have "no_answer decode_verify_response zero_verify_response (Inr busy)" by (simp add: no_answer_def busy_def)
  ultimately show ?thesis using refused by blast
qed

end
