(* ===== verification/Go_Facilitator.thy ===== *)
theory Go_Facilitator
  imports Go_Exchange Facilitator_Server
begin

text \<open>
  The Go client of \<open>x402.go\<close> on the TypeScript facilitator's server: what the client sends is read as the very
  payment and requirements, and what the facilitator answers is the client's result.
\<close>

section \<open>The server behind the client\<close>

definition facilitator_fetch :: "verify_typed_data \<Rightarrow> (string \<Rightarrow> string) \<Rightarrow> number \<Rightarrow> facilitator fetch" where
  "facilitator_fetch vt keccak clock = (\<lambda>rq st.
     (case facilitator_serve vt keccak clock
         \<lparr>sq_method = Some (rq_method rq), sq_url = Some (url_pathname (rq_url rq)),
          sq_body = \<lparr>chunks = [rq_body rq], broken = None\<rparr>\<rparr> st of
        ((status, t), st') \<Rightarrow> (Inr \<lparr>rs_status = status, rs_headers = [], rs_body = utf8_encode t\<rparr>, st')))"

definition wire_request :: "PaymentPayload \<Rightarrow> PaymentRequirements \<Rightarrow> js" where
  "wire_request p r = js_out (facilitatorRequest_out p r)"

lemma wire_request_parts:
  "get_opt (wire_request p r) ''paymentPayload'' = js_out (payload_out p)"
  "get_opt (wire_request p r) ''paymentRequirements'' = js_out (requirements_out r)"
  "get_opt (js_out (payload_out p)) ''authorization'' = js_out (authorization_out (pp_Authorization p))"
  "get_opt (js_out (payload_out p)) ''network'' = JStr (pp_Network p)"
  "get_opt (js_out (payload_out p)) ''signature'' = JStr (pp_Signature p)"
  "get_opt (js_out (authorization_out a)) ''nonce'' = JStr (auth_Nonce a)"
  "get_opt (js_out (authorization_out a)) ''to'' = JStr (auth_To a)"
  "get_opt (js_out (authorization_out a)) ''value'' = JStr (auth_Value a)"
  by (simp_all add: wire_request_def facilitatorRequest_out_def payload_out_def authorization_out_def get_opt_def)

lemma wire_request_ok: "payload_texts p \<Longrightarrow> requirements_texts r \<Longrightarrow> out_ok (facilitatorRequest_out p r)"
  by (simp add: facilitatorRequest_out_def payload_texts_def requirements_texts_def out_int_def X402Version_def plain_names
      utf8_wf_ascii)

lemma wire_request_read:
  assumes "payload_texts p" and "requirements_texts r" and "length (marshal (facilitatorRequest_out p r)) \<le> MAX_BODY_BYTES"
  shows "readJson \<lparr>chunks = [marshal (facilitatorRequest_out p r)], broken = None\<rparr> = wire_request p r"
proof -
  have ok: "out_ok (facilitatorRequest_out p r)" by (rule wire_request_ok [OF assms(1,2)])
  have "utf8_replace (marshal (facilitatorRequest_out p r)) = marshal (facilitatorRequest_out p r)"
    using utf8_wf_marshal(1) [OF ok] by (rule utf8_replace_wf)
  with assms(3) json_parse_marshal [OF ok] show ?thesis
    by (simp add: readJson_def json_chunks_eq wire_request_def)
qed

lemma wire_request_valid:
  assumes "all_digits (pr_MaxAmountRequired r)"
  shows "validateRequest (wire_request p r) = Inr (wire_request p r)"
proof -
  have "is_object (js_out (OObject kvs))" for kvs by (simp add: is_object_def)
  then have "is_object (wire_request p r)" "is_object (js_out (payload_out p))" "is_object (js_out (requirements_out r))"
    "is_object (js_out (authorization_out (pp_Authorization p)))"
    unfolding wire_request_def facilitatorRequest_out_def payload_out_def requirements_out_def authorization_out_def by blast+
  moreover have "\<forall>f \<in> set THROWING_REQUIREMENT_FIELDS. \<exists>s. get_opt (js_out (requirements_out r)) f = JStr s"
    by (simp add: THROWING_REQUIREMENT_FIELDS_def requirements_out_def get_opt_def)
  moreover have "amount_text (get_opt (js_out (requirements_out r)) ''maxAmountRequired'') = pr_MaxAmountRequired r"
    by (simp add: requirements_out_def get_opt_def)
  ultimately show ?thesis using assms by (simp add: validateRequest_Inr well_formed_def wire_request_parts)
qed

section \<open>One call\<close>

text \<open>A client whose calls reach the facilitator.\<close>

definition reaches_facilitator :: "verify_typed_data \<Rightarrow> (string \<Rightarrow> string) \<Rightarrow> number \<Rightarrow> facilitator http_facilitator \<Rightarrow> bool" where
  "reaches_facilitator vt keccak clock hf \<longleftrightarrow> hf_Do hf = facilitator_fetch vt keccak clock \<and>
     hf_parses hf (hf_baseURL hf @ verifyPath) \<and> url_pathname (hf_baseURL hf @ verifyPath) = verifyPath \<and>
     hf_parses hf (hf_baseURL hf @ settlePath) \<and> url_pathname (hf_baseURL hf @ settlePath) = settlePath"

lemma facilitator_call:
  assumes hf: "reaches_facilitator vt keccak clock hf" and path: "path \<in> {verifyPath, settlePath}"
    and texts: "payload_texts p" "requirements_texts r" and size: "length (marshal (facilitatorRequest_out p r)) \<le> MAX_BODY_BYTES"
    and run: "handle vt keccak ''POST'' path (wire_request p r) clock st = (Inr \<lparr>fr_status = 200, fr_body = b\<rparr>, st')"
    and b: "json_ok b" "depth (raw_of b) \<le> maxNestingDepth" "length (json_body b) \<le> maxFacilitatorResponseBytes"
    and d: "d (raw_of b) zero = Some out"
  shows "facilitator_post hf path d zero p r st = (Inr out, st')"
proof -
  have body: "json_body b = stringify b" using utf8_wf_stringify(1) [OF b(1)] by (simp add: json_body_def)
  have "hf_Do hf (facilitator_http hf path p r) st = (Inr \<lparr>rs_status = 200, rs_headers = [], rs_body = json_body b\<rparr>, st')"
    using hf path run wire_request_read [OF texts size]
    by (auto simp: reaches_facilitator_def facilitator_fetch_def facilitator_serve_def facilitator_http_def json_body_def Let_def
        simp del: stringify.simps)
  moreover have "unmarshal (stringify b) = Some (raw_of b)" by (rule renders_unmarshal(1) [OF renders_stringify(1) [OF b(1)] b(2)])
  ultimately show ?thesis using hf path b(3) d body
    by (auto simp: facilitator_post_def reaches_facilitator_def read_answer_def simp del: stringify.simps)
qed

section \<open>An accepted payment\<close>

definition verified_answer :: "string \<Rightarrow> js" where
  "verified_answer payer = JObj [(''isValid'', JBool True), (''payer'', JStr payer)]"

definition settled_answer :: "string \<Rightarrow> string \<Rightarrow> string \<Rightarrow> js" where
  "settled_answer tx network payer =
     JObj [(''success'', JBool True), (''transaction'', JStr tx), (''network'', JStr network), (''payer'', JStr payer)]"

lemma transaction_hash: "\<exists>t. simulatedTransactionHash keccak (js_out (authorization_out a)) = Inr (keccak t)"
  by (simp add: simulatedTransactionHash_def authorization_out_def) blast

lemma settle_fresh:
  assumes "\<not> nonce_has (JStr (auth_Nonce (pp_Authorization p))) (consumed st)"
  shows "\<exists>t st'. settle keccak (js_out (payload_out p)) (JStr payer) st =
      (Inr \<lparr>fr_status = 200, fr_body = settled_answer (keccak t) (pp_Network p) payer\<rparr>, st') \<and>
    consumed st' = consumed st @ [JStr (auth_Nonce (pp_Authorization p))]"
proof -
  obtain t where "simulatedTransactionHash keccak (js_out (authorization_out (pp_Authorization p))) = Inr (keccak t)"
    using transaction_hash by blast
  with assms show ?thesis
    by (auto simp: settle_def wire_request_parts nonce_claim_def fr_def settled_answer_def Let_def)
qed

lemma accepted_answers:
  assumes "all_digits (pr_MaxAmountRequired r)" and "injected (fault st) path = None" and "nowSeconds clock = Inr now"
    and "verifyPayment vt (js_out (payload_out p)) (js_out (requirements_out r)) now = Inr (Valid (JStr payer))"
  shows "path = ''/verify'' \<Longrightarrow>
      handle vt keccak ''POST'' path (wire_request p r) clock st = (Inr \<lparr>fr_status = 200, fr_body = verified_answer payer\<rparr>, st)"
    and "path = ''/settle'' \<Longrightarrow> \<not> nonce_has (JStr (auth_Nonce (pp_Authorization p))) (consumed st) \<Longrightarrow>
      \<exists>t st'. handle vt keccak ''POST'' path (wire_request p r) clock st =
          (Inr \<lparr>fr_status = 200, fr_body = settled_answer (keccak t) (pp_Network p) payer\<rparr>, st') \<and>
        consumed st' = consumed st @ [JStr (auth_Nonce (pp_Authorization p))]"
  using assms wire_request_valid [OF assms(1), of p] settle_fresh [of p st keccak payer]
  by (simp_all add: handle_def admit_def route_defs finish_def wire_request_parts verified_answer_def Let_def)

lemma verified_answer_decoded:
  "utf8_wf payer \<Longrightarrow> decode_verify_response (raw_of (verified_answer payer)) zero_verify_response =
     Some \<lparr>vr_IsValid = True, vr_InvalidReason = [], vr_Payer = payer\<rparr>"
  by (simp add: verified_answer_def decode_verify_response_def zero_verify_response_def reading plain_names del: go_members.simps(2))

lemma settled_answer_decoded:
  "utf8_wf tx \<Longrightarrow> utf8_wf network \<Longrightarrow> utf8_wf payer \<Longrightarrow>
     decode_settle_response (raw_of (settled_answer tx network payer)) zero_settle_response =
     Some \<lparr>sp_Success = True, sp_ErrorReason = [], sp_Transaction = tx, sp_Network = network, sp_Payer = payer\<rparr>"
  by (simp add: settled_answer_def decode_settle_response_def zero_settle_response_def reading plain_names del: go_members.simps(2))

text \<open>The texts fit the client's limit.\<close>

definition answers_fit :: "string \<Rightarrow> string \<Rightarrow> string \<Rightarrow> bool" where
  "answers_fit tx network payer \<longleftrightarrow> list_all utf8_wf [tx, network, payer] \<and>
     length (json_body (verified_answer payer)) \<le> maxFacilitatorResponseBytes \<and>
     length (json_body (settled_answer tx network payer)) \<le> maxFacilitatorResponseBytes"

lemma accepted_calls:
  assumes hf: "reaches_facilitator vt keccak clock hf" and texts: "payload_texts p" "requirements_texts r"
    and size: "length (marshal (facilitatorRequest_out p r)) \<le> MAX_BODY_BYTES"
    and digits: "all_digits (pr_MaxAmountRequired r)" and fault: "fault st \<in> {None, Some Fault_none}" and clock: "nowSeconds clock = Inr now"
    and valid: "verifyPayment vt (js_out (payload_out p)) (js_out (requirements_out r)) now = Inr (Valid (JStr payer))"
    and fresh: "\<not> nonce_has (JStr (auth_Nonce (pp_Authorization p))) (consumed st)"
    and fit: "\<And>t. answers_fit (keccak t) (pp_Network p) payer"
  shows "fc_verify (NewHTTPFacilitator hf) p r st = (Inr \<lparr>vr_IsValid = True, vr_InvalidReason = [], vr_Payer = payer\<rparr>, st)"
    and "\<exists>t st'. fc_settle (NewHTTPFacilitator hf) p r st =
        (Inr \<lparr>sp_Success = True, sp_ErrorReason = [], sp_Transaction = keccak t, sp_Network = pp_Network p, sp_Payer = payer\<rparr>, st') \<and>
      consumed st' = consumed st @ [JStr (auth_Nonce (pp_Authorization p))]"
proof -
  have inj: "injected (fault st) path = None" for path using fault by (auto simp: injected_def)
  have texts': "utf8_wf (keccak t)" "utf8_wf (pp_Network p)" "utf8_wf payer"
    "length (json_body (verified_answer payer)) \<le> maxFacilitatorResponseBytes"
    "length (json_body (settled_answer (keccak t) (pp_Network p) payer)) \<le> maxFacilitatorResponseBytes" for t
    using fit [of t] by (simp_all add: answers_fit_def)
  note answers = accepted_answers [OF digits inj clock valid, where keccak = keccak]
  show "fc_verify (NewHTTPFacilitator hf) p r st = (Inr \<lparr>vr_IsValid = True, vr_InvalidReason = [], vr_Payer = payer\<rparr>, st)"
    unfolding NewHTTPFacilitator_def facilitator_client.simps
  proof (rule facilitator_call [OF hf _ texts size])
    show "handle vt keccak ''POST'' verifyPath (wire_request p r) clock st =
        (Inr \<lparr>fr_status = 200, fr_body = verified_answer payer\<rparr>, st)"
      by (rule answers(1)) (simp add: verifyPath_def)
    show "json_ok (verified_answer payer)" "depth (raw_of (verified_answer payer)) \<le> maxNestingDepth"
      using texts' by (simp_all add: verified_answer_def plain_names maxNestingDepth_def)
  qed (use texts' verified_answer_decoded in simp_all)
  obtain t st' where run: "handle vt keccak ''POST'' settlePath (wire_request p r) clock st =
      (Inr \<lparr>fr_status = 200, fr_body = settled_answer (keccak t) (pp_Network p) payer\<rparr>, st')"
    "consumed st' = consumed st @ [JStr (auth_Nonce (pp_Authorization p))]"
    using answers(2) [OF _ fresh, of settlePath] by (auto simp: settlePath_def)
  have "fc_settle (NewHTTPFacilitator hf) p r st =
      (Inr \<lparr>sp_Success = True, sp_ErrorReason = [], sp_Transaction = keccak t, sp_Network = pp_Network p, sp_Payer = payer\<rparr>, st')"
    unfolding NewHTTPFacilitator_def facilitator_client.simps
  proof (rule facilitator_call [OF hf _ texts size run(1)])
    show "json_ok (settled_answer (keccak t) (pp_Network p) payer)"
      "depth (raw_of (settled_answer (keccak t) (pp_Network p) payer)) \<le> maxNestingDepth"
      using texts' by (simp_all add: settled_answer_def plain_names maxNestingDepth_def)
  qed (use texts' settled_answer_decoded in simp_all)
  with run(2) show "\<exists>t st'. fc_settle (NewHTTPFacilitator hf) p r st =
        (Inr \<lparr>sp_Success = True, sp_ErrorReason = [], sp_Transaction = keccak t, sp_Network = pp_Network p, sp_Payer = payer\<rparr>, st') \<and>
      consumed st' = consumed st @ [JStr (auth_Nonce (pp_Authorization p))]" by blast
qed

end
