(* ===== verification/Platform_Settlement.thy ===== *)
theory Platform_Settlement
  imports Go_Facilitator Platform Settlement_Answers
begin

text \<open>
  The whole platform: the agent, the gateway, the merchant, the settlement service in Go and the facilitator, each
  the server behind the \<open>fetch\<close> or the HTTP client of the one before, over a world of the settlement store and the
  facilitator's ledger.  What passes between them is bytes.
\<close>

section \<open>The purchase as the settlement service has it\<close>

text \<open>A request of the settlement service that is the purchase of a listing with an assertion.\<close>

definition purchase_request :: "'w merchant \<Rightarrow> listing \<Rightarrow> js \<Rightarrow> settle_request \<Rightarrow> bool" where
  "purchase_request m l requirements req \<longleftrightarrow>
     request_texts req \<and> rq_MerchantID req = merchantId l \<and> rq_Currency req = currency l \<and>
     priceCents l = num_of_int (sint (rq_GrossAmountCents req)) \<and> ProductID (rq_Assertion req) = productId l \<and>
     requirements = js_out (requirements_out (rq_PaymentRequirements req)) \<and> pp_Signature (rq_PaymentPayload req) \<noteq> [] \<and>
     length (json_body (settlement_request_js (client_request req))) \<le> maxRequestBytes \<and>
     length (marshal (facilitatorRequest_out (rq_PaymentPayload req) (rq_PaymentRequirements req))) \<le> MAX_BODY_BYTES"

lemma client_request_of:
  assumes "purchase_request m l requirements req"
  shows "client_request req = \<lparr>sq_assertion = assertion_js (assertion_of (rq_Assertion req)), sq_merchant_id = merchantId l,
     sq_gross_amount_cents = priceCents l, sq_currency = currency l,
     sq_payment_payload = js_out (payload_out (rq_PaymentPayload req)), sq_payment_requirements = requirements\<rparr>"
  using assms by (simp add: purchase_request_def client_request_def)

lemma requirements_of_listing:
  assumes "requirementsFor config l = Inr (js_out (requirements_out r))"
  shows "centsToAtomicUnits (priceCents l) = Inr (pr_MaxAmountRequired r)" and "pr_PayTo r = mc_payToAddress config"
    and "pr_Network r = mc_network config"
  using assms by (auto simp: requirementsFor_def result_simps requirements_out_def)

lemma units_digits: "centsToAtomicUnits c = Inr units \<Longrightarrow> all_digits units"
  unfolding centsToAtomicUnits_Inr using nat_text_digits by (auto simp: int_text_def all_digits_def list_all_iff)

text \<open>What the agent signs is the requirements' amount and payee.\<close>

lemma signed_of_requirements:
  assumes "signAuthorization agent (js_out (requirements_out r)) now bytes = Inr (js_out (payload_out p))"
  shows "auth_Value (pp_Authorization p) = pr_MaxAmountRequired r" and "auth_To (pp_Authorization p) = pr_PayTo r"
    and "auth_Nonce (pp_Authorization p) = randomNonce bytes" and "pp_Network p = pr_Network r"
  using assms
  by (auto simp: signAuthorization_def result_simps authorization_for_def get_opt_def requirements_out_def payload_out_def
      authorization_out_def Let_def)

lemma payload_shaped: "pp_Signature p \<noteq> [] \<Longrightarrow> payment_shaped (js_out (payload_out p))"
  by (simp add: payment_shaped_def payload_out_def authorization_out_def get_opt_def AUTHORIZATION_FIELDS_def is_object_def)

lemma purchase_cleared:
  assumes "purchase_request m l requirements req" and "requirementsFor (m_config m) l = Inr requirements"
    and "signAuthorization agent requirements now bytes = Inr (js_out (payload_out (rq_PaymentPayload req)))"
    and "verifyAssertion ed legacy (assertion_js (assertion_of (rq_Assertion req))) (m_key m) mnow = Inr ()"
  shows "cleared ed legacy m l (encodeHeaderJson (assertion_js (assertion_of (rq_Assertion req))))
     (encodeHeaderJson (js_out (payload_out (rq_PaymentPayload req)))) mnow (assertion_js (assertion_of (rq_Assertion req)))
     (js_out (payload_out (rq_PaymentPayload req)))"
proof -
  have texts: "assertion_texts (rq_Assertion req)" "out_ok (payload_out (rq_PaymentPayload req))"
    using assms(1) by (simp_all add: purchase_request_def request_texts_def payload_texts_def)
  have req: "requirements = js_out (requirements_out (rq_PaymentRequirements req))" using assms(1) by (simp add: purchase_request_def)
  note units = requirements_of_listing [OF assms(2) [unfolded req]] and signed = signed_of_requirements [OF assms(3) [unfolded req]]
  have "get (assertion_js (assertion_of (rq_Assertion req))) ''product_id'' = Inr (JStr (productId l))"
    using assms(1) by (simp add: purchase_request_def assertion_js_def assertion_of_def)
  moreover have "payment_shaped (js_out (payload_out (rq_PaymentPayload req)))"
    using assms(1) by (simp add: purchase_request_def payload_shaped)
  ultimately show ?thesis
    using assms(4) units signed header_json.decode_encode [OF json_ok_assertion [OF texts(1)]]
      header_json.decode_encode [OF json_ok_out(1) [OF texts(2)]]
    by (simp add: cleared_def wire_request_parts)
qed

section \<open>The settlement of an honest purchase\<close>

text \<open>The store accepts the settlement: the listing is there at that price, and the claim goes through.\<close>

definition settleable :: "settle_request \<Rightarrow> string \<Rightarrow> int64 \<Rightarrow> database \<Rightarrow> bool" where
  "settleable req newID bps db \<longleftrightarrow>
     (\<exists>listing. LookupListing Up (ProductID (rq_Assertion req)) (rq_MerchantID req) db = Inr listing \<and> InStock listing \<and>
        ListingCurrency listing = rq_Currency req \<and> PriceCents listing = rq_GrossAmountCents req \<and>
        bps = effectiveCommissionBps (CommissionBps (rq_Assertion req)) (ListingBps listing)) \<and>
     fst (Begin Up (pending_settlement newID req bps) db) = None"

definition clear :: "weather \<Rightarrow> bool" where
  "clear wx \<longleftrightarrow> wx_lookup wx = Up \<and> wx_begin wx = Up \<and> wx_finish wx = Up"

lemma honest_settlement:
  assumes "settleable req newID bps db" and "clear wx"
    and "Verify (sv_check sv) (sv_key sv) (rq_Assertion req) (wx_now wx) = None"
    and "fc_verify (sv_facilitator sv) (rq_PaymentPayload req) (rq_PaymentRequirements req) st = (Inr v, st)" and "vr_IsValid v"
    and "fc_settle (sv_facilitator sv) (rq_PaymentPayload req) (rq_PaymentRequirements req) st = (Inr a, st')" and "sp_Success a"
    and "storable (sp_Transaction a)"
  shows "handleSettle sv wx newID req (db, st) =
    (Confirmed \<lparr>re_SettlementID = newID, re_Status = StatusConfirmed, re_TxHash = sp_Transaction a, re_Network = sp_Network a,
       re_Payer = sp_Payer a, re_CommissionBps = bps, re_Split = CalculateCommission (rq_GrossAmountCents req) bps\<rparr>,
     (with_confirm (pending_settlement newID req bps) (sp_Transaction a) (wx_confirmed wx)
        (with_claim (pending_settlement newID req bps) db), st'))"
proof -
  let ?p = "pending_settlement newID req bps"
  have id: "ps_SettlementID ?p = newID" "ps_CommissionBps ?p = bps" "ps_Split ?p = CalculateCommission (rq_GrossAmountCents req) bps"
    by (simp_all add: pending_settlement_def)
  have "prepare sv (wx_lookup wx) (wx_now wx) newID req db st = (Inr ?p, st)"
    using assms(1-5) unfolding prepare_Inr settleable_def clear_def by metis
  moreover have "conclude_settlement (wx_finish wx) (wx_confirmed wx) ?p (Inr a) (with_claim ?p db) =
      (Inr \<lparr>re_SettlementID = newID, re_Status = StatusConfirmed, re_TxHash = sp_Transaction a, re_Network = sp_Network a,
         re_Payer = sp_Payer a, re_CommissionBps = bps, re_Split = CalculateCommission (rq_GrossAmountCents req) bps\<rparr>,
       with_confirm ?p (sp_Transaction a) (wx_confirmed wx) (with_claim ?p db))"
    using assms(2,7,8) awaits_claimed [of ?p db] unfolding conclude_Inr Confirm_None clear_def by (auto simp: id)
  ultimately have "\<exists>res. Settle sv wx newID req (db, st) = (Inr res, (with_confirm ?p (sp_Transaction a) (wx_confirmed wx) (with_claim ?p db), st')) \<and>
      res = \<lparr>re_SettlementID = newID, re_Status = StatusConfirmed, re_TxHash = sp_Transaction a, re_Network = sp_Network a,
         re_Payer = sp_Payer a, re_CommissionBps = bps, re_Split = CalculateCommission (rq_GrossAmountCents req) bps\<rparr>"
    using assms(1,2,6) unfolding Settle_Inr settleable_def clear_def by metis
  then show ?thesis by (simp add: handleSettle_def)
qed

text \<open>The order the merchant makes of it.\<close>

definition result_of :: "settle_request \<Rightarrow> string \<Rightarrow> int64 \<Rightarrow> string \<Rightarrow> string \<Rightarrow> settle_result" where
  "result_of req newID bps tx payer =
     \<lparr>re_SettlementID = newID, re_Status = StatusConfirmed, re_TxHash = tx, re_Network = pp_Network (rq_PaymentPayload req),
      re_Payer = payer, re_CommissionBps = bps, re_Split = CalculateCommission (rq_GrossAmountCents req) bps\<rparr>"

definition order_of :: "listing \<Rightarrow> settle_request \<Rightarrow> string \<Rightarrow> int64 \<Rightarrow> string \<Rightarrow> js" where
  "order_of l req newID bps tx = JObj
     [(''order_id'', JStr newID), (''product_id'', JStr (productId l)), (''listing_title'', JStr (listingTitle l)),
      (''amount_cents'', JNum (priceCents l)), (''currency'', JStr (currency l)), (''settlement_id'', JStr newID),
      (''tx_hash'', JStr tx), (''network'', JStr (pp_Network (rq_PaymentPayload req))),
      (''attributed_publisher_id'', JStr (PublisherID (rq_Assertion req))),
      (''publisher_commission_cents'', jint (sint (PublisherAmountCents (CalculateCommission (rq_GrossAmountCents req) bps))))]"

definition exact_amounts :: "settle_request \<Rightarrow> int64 \<Rightarrow> bool" where
  "exact_amounts req bps \<longleftrightarrow>
     (let split = CalculateCommission (rq_GrossAmountCents req) bps in
      list_all (\<lambda>i. \<bar>sint i\<bar> < 2 ^ 53) [bps, CommissionAmountCents split, PlatformFeeCents split, PublisherAmountCents split])"

lemma more_names:
  "utf8_wf ''settlement_id''" "utf8_wf ''status''" "utf8_wf ''confirmed''" "utf8_wf ''tx_hash''" "utf8_wf ''commission_amount_cents''"
  "utf8_wf ''platform_fee_cents''" "utf8_wf ''publisher_amount_cents''" "utf8_wf ''order_id''" "utf8_wf ''listing_title''"
  "utf8_wf ''amount_cents''" "utf8_wf ''attributed_publisher_id''" "utf8_wf ''publisher_commission_cents''"
  by (rule utf8_wf_ascii, simp)+

lemma result_texts:
  assumes "exact_amounts req bps" and "list_all utf8_wf [newID, tx, pp_Network (rq_PaymentPayload req), payer]"
  shows "out_ok (result_out (result_of req newID bps tx payer))"
  using assms by (simp add: result_out_def result_of_def exact_amounts_def Let_def out_int_def more_names plain_names)

lemma order_made:
  "fulfillment_for l (assertion_js (assertion_of (rq_Assertion req))) (js_out (result_out (result_of req newID bps tx payer))) =
     Inr (order_of l req newID bps tx)"
  by (simp add: fulfillment_for_def order_of_def result_out_def result_of_def assertion_js_def assertion_of_def get_opt_def out_int_def)

lemma listing_title_text:
  assumes "requirementsFor config l = Inr requirements" and "json_ok requirements"
  shows "utf8_wf (listingTitle l)"
  using assms by (auto simp: requirementsFor_def result_simps)

lemma order_texts:
  assumes "purchase_request m l requirements req" and "requirementsFor config l = Inr requirements" and "json_ok requirements"
    and "exact_amounts req bps" and "utf8_wf newID" and "utf8_wf tx" and "utf8_wf (pp_Network (rq_PaymentPayload req))"
  shows "json_ok (order_of l req newID bps tx)"
proof -
  have "request_texts req" and eq: "ProductID (rq_Assertion req) = productId l" "rq_Currency req = currency l"
      "priceCents l = num_of_int (sint (rq_GrossAmountCents req))"
    using assms(1) by (simp_all add: purchase_request_def)
  from this(1) have "utf8_wf (ProductID (rq_Assertion req))" "utf8_wf (PublisherID (rq_Assertion req))" "utf8_wf (rq_Currency req)"
      "\<bar>sint (rq_GrossAmountCents req)\<bar> < 2 ^ 53"
    by (simp_all add: request_texts_def assertion_texts_def signed_texts_def)
  note l = this(2,4) this(1) [unfolded eq] this(3) [unfolded eq] eq(3)
  have "\<bar>sint (PublisherAmountCents (CalculateCommission (rq_GrossAmountCents req) bps))\<bar> < 2 ^ 53"
    using assms(4) by (simp add: exact_amounts_def Let_def)
  with l listing_title_text [OF assms(2,3)] assms(5-7) show ?thesis
    by (simp add: order_of_def more_names plain_names del: of_int_sint)
qed

lemma claimed_balances:
  assumes "settleable req newID bps db"
  shows "posted_total (ledger_entries (pending_settlement newID req bps)) = 0"
proof -
  have "Begin Up (pending_settlement newID req bps) db = (None, snd (Begin Up (pending_settlement newID req bps) db))"
    using assms by (simp add: settleable_def prod_eq_iff)
  then have "checks_hold (pending_settlement newID req bps)" by (cases rule: Begin_cases) simp_all
  then show ?thesis by (rule ledger_entries_balance)
qed

section \<open>Rejections journalled\<close>

text \<open>What is journalled of a refused request: its publisher, its assertion, a merchant, the reason and the text of the error.\<close>

definition rejection_row :: "settle_request \<Rightarrow> string \<Rightarrow> string \<Rightarrow> string \<Rightarrow> Rejection" where
  "rejection_row req merchant reason t =
     \<lparr>rj_PublisherID = PublisherID (rq_Assertion req), rj_AssertionID = AssertionID (rq_Assertion req),
      rj_MerchantID = merchant, rj_Reason = reason, rj_Detail = t\<rparr>"

lemma service_journals:
  assumes "handleSettle sv wx newID req (db, f) = (Refused status t reason, (db', f'))" and "wx_reject wx = Up"
    and "recordable (rejection_row req (rq_MerchantID req) reason t)"
  shows "db_rejected db' = db_rejected db @ (if status = 500 then [] else [rejected_row (rejection_row req (rq_MerchantID req) reason t)])"
proof -
  obtain e db1 where settle: "Settle sv wx newID req (db, f) = (Inl e, (db1, f'))" and st: "(status, reason) = statusFor e" "t = err_text e"
    and db': "db' = (if reason = reasonInternalError then db1 else snd (RecordRejection (wx_reject wx) (rejection_of req reason e) db1))"
    using assms(1) by (rule handleSettle_Refused)
  have "status = 500 \<longleftrightarrow> reason = reasonInternalError"
    using statusFor_range [of e] unfolding st(1) [symmetric] by (auto simp: reasonInternalError_def)
  moreover have "rejection_of req reason e = rejection_row req (rq_MerchantID req) reason t"
    by (simp add: rejection_of_def rejection_row_def st(2))
  ultimately show ?thesis
    using db' Settle_keeps_journal [OF settle] rejection_recorded [OF assms(3)] by (simp add: assms(2))
qed

section \<open>A concrete platform\<close>

definition sample_world_merchant :: "(database \<times> facilitator) fetch \<Rightarrow> (database \<times> facilitator) merchant" where
  "sample_world_merchant fetch =
     \<lparr>m_config = (m_config sample_merchant)\<lparr>mc_assetAddress := DEFAULT_USDC_ASSET\<rparr>, m_query = select_listings sample_table,
      m_fetch = fetch, m_key = replicate 32 (chr 9)\<rparr>"

definition always_valid :: verify_typed_data where
  "always_valid = (\<lambda>_ _ _. Inr True)"

definition sample_keccak :: "string \<Rightarrow> string" where
  "sample_keccak t = ''0xt''"

definition sample_client :: "facilitator http_facilitator" where
  "sample_client = \<lparr>hf_baseURL = ''http://f'', hf_parses = (\<lambda>_. True), hf_Do = facilitator_fetch always_valid sample_keccak (Fin 1000000)\<rparr>"

definition sample_settlement :: "facilitator service" where
  "sample_settlement = \<lparr>sv_check = (\<lambda>_ _ _. True), sv_key = replicate 32 (chr 9), sv_facilitator = NewHTTPFacilitator sample_client\<rparr>"

definition sample_fetch :: "(database \<times> facilitator) fetch" where
  "sample_fetch = settlement_serve sample_settlement clear_weather ''x1'' (\<lambda>rq w. (Inl (Network_error ''refused''), w))"

definition priced_store :: database where
  "priced_store = sample_store\<lparr>db_listings := [\<lparr>ListingID = ''l3'', ListingProduct = ''d1'', ListingMerchant = ''m1'', PriceCents = 1100,
     ListingCurrency = ''USD'', InStock = True, ListingBps = 500\<rparr>]\<rparr>"

definition empty_facilitator :: facilitator where
  "empty_facilitator = \<lparr>consumed = [], fault = None, settled = []\<rparr>"

definition sample_gateway :: "(database \<times> facilitator) gateway" where
  "sample_gateway = \<lparr>outside = (priced_store, empty_facilitator), cachedKey = None, cachedKeyMaterial = None, reports = []\<rparr>"

definition listed_requirements :: PaymentRequirements where
  "listed_requirements = \<lparr>pr_Scheme = ''exact'', pr_Network = ''base-sepolia'', pr_Asset = DEFAULT_USDC_ASSET,
     pr_MaxAmountRequired = ''11000000'', pr_PayTo = ''0xB'', pr_MaxTimeoutSeconds = 120, pr_Resource = ''/purchase/d1'', pr_Description = ''t''\<rparr>"

definition signed_payload :: PaymentPayload where
  "signed_payload = \<lparr>pp_X402Version = 1, pp_Scheme = ''exact'', pp_Network = ''base-sepolia'',
     pp_Authorization = \<lparr>auth_From = ''0xA'', auth_To = ''0xB'', auth_Value = ''11000000'', auth_ValidAfter = ''940'',
       auth_ValidBefore = ''1120'', auth_Nonce = randomNonce (replicate 32 (chr 1))\<rparr>, pp_Signature = ''0xS''\<rparr>"

definition whole_request :: settle_request where
  "whole_request = \<lparr>rq_Assertion = sample_minted, rq_MerchantID = ''m1'', rq_GrossAmountCents = 1100, rq_Currency = ''USD'',
     rq_PaymentPayload = signed_payload, rq_PaymentRequirements = listed_requirements\<rparr>"

lemma sample_quoted: "requirementsFor (m_config (sample_world_merchant f)) sample_listing = Inr (js_out (requirements_out listed_requirements))"
  by code_simp

lemma sample_payable: "payable (members_of (js_out (requirements_out listed_requirements))) ''0xB'' 11000000 120 1000"
proof -
  have "int_text 11000000 = ''11000000''" by code_simp
  then show ?thesis by (simp add: payable_def requirements_out_def listed_requirements_def out_int_def)
qed

lemma sample_signed:
  "signAuthorization sample_agent (js_out (requirements_out listed_requirements)) (Fin 1000000) (replicate 32 (chr 1)) =
    Inr (js_out (payload_out signed_payload))"
proof -
  have r: "js_out (requirements_out listed_requirements) = JObj (members_of (js_out (requirements_out listed_requirements)))"
    by (simp add: requirements_out_def)
  have "agent_seconds (Fin 1000000) = Inr 1000" by code_simp
  moreover have "ag_sign sample_agent d = Inr ''0xS''" for d by (simp add: sample_agent_def new_agent_def)
  ultimately have "signAuthorization sample_agent (JObj (members_of (js_out (requirements_out listed_requirements)))) (Fin 1000000)
      (replicate 32 (chr 1)) = Inr (JObj (payment_fields sample_agent (JObj (members_of (js_out (requirements_out listed_requirements))))
        1000 120 (replicate 32 (chr 1)) ''0xS''))"
    by (intro signed_payment [OF sample_payable])
  moreover have "int_text (1000 - 60) = ''940''" "int_text (1000 + 120) = ''1120''" by code_simp+
  then have "JObj (payment_fields sample_agent (js_out (requirements_out listed_requirements)) 1000 120 (replicate 32 (chr 1)) ''0xS'') =
      js_out (payload_out signed_payload)"
    by (simp add: payment_fields_def authorization_for_def payload_out_def authorization_out_def signed_payload_def out_int_def
        requirements_out_def listed_requirements_def get_opt_def sample_agent_def new_agent_def VALID_AFTER_BACKDATE_SECONDS_def)
  ultimately show ?thesis by (simp only: r [symmetric])
qed

lemma whole_request_texts: "request_texts whole_request"
  by code_simp

lemma whole_request_size: "length (json_body (settlement_request_js (client_request whole_request))) \<le> maxRequestBytes"
  by code_simp

lemma whole_payment_size: "length (marshal (facilitatorRequest_out signed_payload listed_requirements)) \<le> MAX_BODY_BYTES"
  by code_simp

lemma whole_request_settleable: "settleable whole_request ''x1'' 500 priced_store"
proof -
  have "fst (Begin Up (pending_settlement ''x1'' whole_request 500) priced_store) = None" by code_simp
  moreover have "LookupListing Up (ProductID (rq_Assertion whole_request)) (rq_MerchantID whole_request) priced_store =
      Inr (hd (db_listings priced_store))" by code_simp
  moreover have "InStock (hd (db_listings priced_store))" "ListingCurrency (hd (db_listings priced_store)) = rq_Currency whole_request"
    "PriceCents (hd (db_listings priced_store)) = rq_GrossAmountCents whole_request" 
    "(500 :: int64) = effectiveCommissionBps (CommissionBps (rq_Assertion whole_request)) (ListingBps (hd (db_listings priced_store)))" by code_simp+
  ultimately show ?thesis unfolding settleable_def by blast
qed

lemma whole_request_exact: "exact_amounts whole_request 500"
  by code_simp

lemma whole_request_verified: "Verify (sv_check sample_settlement) (sv_key sample_settlement) sample_minted (wx_now clear_weather) = None"
  by code_simp

lemma whole_payment_valid: "verifyPayment always_valid (js_out (payload_out signed_payload)) (js_out (requirements_out listed_requirements)) 1000 = Inr (Valid (JStr ''0xA''))"
  by code_simp
lemma whole_assertion_verified: "verifyAssertion (\<lambda>k s p. True) (\<lambda>_. None) (assertion_js (assertion_of sample_minted)) (replicate 32 (chr 9)) 0 = Inr ()"
  by code_simp

lemma whole_listed:
  "listed (sample_world_merchant sample_fetch) (JObj [(''product_id'', JStr ''d1'')]) (priced_store, empty_facilitator) sample_listing
     (js_out (requirements_out listed_requirements)) (priced_store, empty_facilitator)"
proof -
  have "findListing (m_query (sample_world_merchant sample_fetch)) (mc_merchantId (m_config (sample_world_merchant sample_fetch)))
      (get_opt (JObj [(''product_id'', JStr ''d1'')]) ''product_id'') (priced_store, empty_facilitator) =
      (Inr (Some sample_listing), (priced_store, empty_facilitator))"
    by code_simp
  moreover have "inStock sample_listing" by code_simp
  moreover have "truthy (get_opt (JObj [(''product_id'', JStr ''d1'')]) ''product_id'')" by code_simp
  ultimately show ?thesis using sample_quoted by (simp add: listed_def)
qed

lemma whole_purchase:
  "purchase_request (sample_world_merchant sample_fetch) sample_listing (js_out (requirements_out listed_requirements)) whole_request"
proof -
  have l: "merchantId sample_listing = ''m1''" "currency sample_listing = ''USD''" "priceCents sample_listing = num_of_int 1100"
    "ProductID sample_minted = productId sample_listing" by code_simp+
  have "length (marshal (facilitatorRequest_out (rq_PaymentPayload whole_request) (rq_PaymentRequirements whole_request))) \<le> MAX_BODY_BYTES"
    using whole_payment_size by (simp add: whole_request_def)
  moreover have "pp_Signature (rq_PaymentPayload whole_request) \<noteq> []" by (simp add: whole_request_def signed_payload_def)
  ultimately show ?thesis
    unfolding purchase_request_def using whole_request_texts whole_request_size l by (simp add: whole_request_def)
qed

lemma whole_reaches: "reaches_facilitator always_valid sample_keccak (Fin 1000000) sample_client"
proof -
  have "url_pathname (''http://f'' @ verifyPath) = verifyPath" "url_pathname (''http://f'' @ settlePath) = settlePath" by code_simp+
  then show ?thesis by (simp add: reaches_facilitator_def sample_client_def)
qed

lemma whole_answers_fit: "storable ''0xt'' \<and> answers_fit ''0xt'' (pp_Network (rq_PaymentPayload whole_request)) ''0xA''"
  by code_simp

lemma clear_sample: "clear clear_weather"
  by (simp add: clear_def clear_weather_def)

lemma no_fault: "fault empty_facilitator \<in> {None, Some Fault_none}"
  by (simp add: empty_facilitator_def)

section \<open>A replay\<close>

text \<open>The store after the assertion was claimed once, and the purchase that presents it again.\<close>

definition replay_store :: database where
  "replay_store = with_claim (pending_settlement ''x0'' whole_request 500) priced_store"

definition replay_http :: merchant_http where
  "replay_http = sample_http
     [(''payment-signature'', encodeHeaderJson (js_out (payload_out (rq_PaymentPayload whole_request)))),
      (''x-attribution-assertion'', encodeHeaderJson (assertion_js (assertion_of (rq_Assertion whole_request))))]"

definition strict_base64 :: "string \<Rightarrow> bytes" where
  "strict_base64 s = (case base64_bytes s of Inl _ \<Rightarrow> [] | Inr bytes \<Rightarrow> bytes)"

lemma whole_values_ok:
  "json_ok (js_out (payload_out (rq_PaymentPayload whole_request)))" "json_ok (assertion_js (assertion_of (rq_Assertion whole_request)))"
  by code_simp+

lemma whole_calls:
  "fc_verify (sv_facilitator sample_settlement) signed_payload listed_requirements empty_facilitator =
     (Inr \<lparr>vr_IsValid = True, vr_InvalidReason = [], vr_Payer = ''0xA''\<rparr>, empty_facilitator)"
  "\<exists>st. fc_settle (sv_facilitator sample_settlement) signed_payload listed_requirements empty_facilitator =
     (Inr \<lparr>sp_Success = True, sp_ErrorReason = [], sp_Transaction = ''0xt'', sp_Network = ''base-sepolia'', sp_Payer = ''0xA''\<rparr>, st)"
proof -
  have texts: "payload_texts signed_payload" "requirements_texts listed_requirements"
    using whole_request_texts by (simp_all add: request_texts_def whole_request_def)
  have digits: "all_digits (pr_MaxAmountRequired listed_requirements)" by code_simp
  have clock: "nowSeconds (Fin 1000000) = Inr 1000" by code_simp
  have fresh: "\<not> nonce_has (JStr (auth_Nonce (pp_Authorization signed_payload))) (consumed empty_facilitator)"
    by (simp add: nonce_has_def empty_facilitator_def)
  have fit: "answers_fit (sample_keccak t) (pp_Network signed_payload) ''0xA''" for t
    using whole_answers_fit by (simp add: sample_keccak_def whole_request_def)
  note calls = accepted_calls [OF whole_reaches texts whole_payment_size digits no_fault clock whole_payment_valid fresh fit]
  show "fc_verify (sv_facilitator sample_settlement) signed_payload listed_requirements empty_facilitator =
     (Inr \<lparr>vr_IsValid = True, vr_InvalidReason = [], vr_Payer = ''0xA''\<rparr>, empty_facilitator)"
    "\<exists>st. fc_settle (sv_facilitator sample_settlement) signed_payload listed_requirements empty_facilitator =
     (Inr \<lparr>sp_Success = True, sp_ErrorReason = [], sp_Transaction = ''0xt'', sp_Network = ''base-sepolia'', sp_Payer = ''0xA''\<rparr>, st)"
    using calls by (auto simp: sample_settlement_def sample_keccak_def signed_payload_def)
qed

lemma replay_refused:
  "\<exists>db f. handleSettle sample_settlement clear_weather ''x1'' whole_request (replay_store, empty_facilitator) =
     (Refused 409 ''assertion already consumed'' ''assertion_reused'', (db, f))"
proof -
  have listing: "LookupListing Up (ProductID (rq_Assertion whole_request)) (rq_MerchantID whole_request) replay_store =
      Inr (hd (db_listings priced_store))" by code_simp
  have check: "check_listing whole_request (hd (db_listings priced_store)) = Inr ()" by code_simp
  have rate: "effectiveCommissionBps (CommissionBps (rq_Assertion whole_request)) (ListingBps (hd (db_listings priced_store))) = 500"
    by code_simp
  have reused: "Begin Up (pending_settlement ''x1'' whole_request 500) replay_store = (Some (sentinel_error ErrAssertionReused), replay_store)"
    by code_simp
  have parts: "rq_PaymentPayload whole_request = signed_payload" "rq_PaymentRequirements whole_request = listed_requirements"
    "rq_Assertion whole_request = sample_minted" by (simp_all add: whole_request_def)
  have up: "wx_lookup clear_weather = Up" "wx_begin clear_weather = Up" by (simp_all add: clear_weather_def)
  have "prepare sample_settlement Up (wx_now clear_weather) ''x1'' whole_request replay_store empty_facilitator =
      (Inr (pending_settlement ''x1'' whole_request 500), empty_facilitator)"
    using listing check rate whole_request_verified whole_calls(1) by (simp add: prepare_def parts Let_def)
  then have "Settle sample_settlement clear_weather ''x1'' whole_request (replay_store, empty_facilitator) =
      (Inl (sentinel_error ErrAssertionReused), (replay_store, empty_facilitator))"
    by (simp add: Settle_def up reused)
  moreover have "statusFor (sentinel_error ErrAssertionReused) = (409, ''assertion_reused'')"
    "err_text (sentinel_error ErrAssertionReused) = ''assertion already consumed''" by code_simp+
  ultimately show ?thesis by (auto simp: handleSettle_def Let_def)
qed

section \<open>Properties\<close>

text \<open>C6: An honest purchase settles on the whole platform: the agent that takes the challenge, signs it and pays
  through gateway, merchant, settlement service and facilitator gets the order; the store then holds the
  confirmed settlement with its ledger entries, which balance, and the facilitator has consumed the nonce.\<close>

theorem platform_purchase_settles:
  assumes "reaches e agent" and "serves e" and "fits (JObj [(''product_id'', product)])" and "cache_ok g"
    and "importVerificationKey (ATTRIBUTION_PUBLIC_KEY (ed_env e)) = Inr (m_key m)" and "outside g = (db, st)"
    and "listed m (JObj [(''product_id'', product)]) (db, st) l requirements (db, st)"
    and "purchase_request m l requirements req"
    and "signAuthorization agent requirements now bytes = Inr (js_out (payload_out (rq_PaymentPayload req)))"
    and "verifyAssertion ed legacy (assertion_js (assertion_of (rq_Assertion req))) (m_key m) (ed_now e) = Inr ()"
    and "verifyAssertion ed legacy (assertion_js (assertion_of (rq_Assertion req))) (m_key m) mnow = Inr ()"
    and "m_fetch m = settlement_serve sv wx newID others"
    and "url_pathname (settlement_base (mc_settlementUrl (m_config m)) @ ''/settle'') = ''/settle''"
    and "settleable req newID bps db" and "clear wx" and "storable newID" and "exact_amounts req bps"
    and "Verify (sv_check sv) (sv_key sv) (rq_Assertion req) (wx_now wx) = None"
    and "sv_facilitator sv = NewHTTPFacilitator hf" and "reaches_facilitator vt keccak clock hf"
    and "fault st \<in> {None, Some Fault_none}" and "nowSeconds clock = Inr later"
    and "verifyPayment vt (js_out (payload_out (rq_PaymentPayload req))) requirements later = Inr (Valid (JStr payer))"
    and "\<not> nonce_has (JStr (randomNonce bytes)) (consumed st)"
    and "\<And>t. storable (keccak t) \<and> answers_fit (keccak t) (pp_Network (rq_PaymentPayload req)) payer"
  shows "\<exists>g' st' tx. bind_io (requestChallenge (through_gateway ed legacy e (through_merchant ed legacy b64 m mnow)) agent product)
       (\<lambda>requirements. bind_io (lift (signAuthorization agent requirements now bytes))
       (\<lambda>payment. completePurchase (through_gateway ed legacy e (through_merchant ed legacy b64 m mnow)) agent product
          (assertion_js (assertion_of (rq_Assertion req))) payment)) g = (Inr (order_of l req newID bps tx), g') \<and>
     outside g' = (with_confirm (pending_settlement newID req bps) tx (wx_confirmed wx) (with_claim (pending_settlement newID req bps) db), st') \<and>
     posted_total (ledger_entries (pending_settlement newID req bps)) = 0 \<and> consumed st' = consumed st @ [JStr (randomNonce bytes)]"
proof -
  let ?F = "through_gateway ed legacy e (through_merchant ed legacy b64 m mnow)"
  let ?a = "assertion_js (assertion_of (rq_Assertion req))" and ?pay = "js_out (payload_out (rq_PaymentPayload req))"
  let ?p = "pending_settlement newID req bps"
  have req: "request_texts req" "requirements = js_out (requirements_out (rq_PaymentRequirements req))"
    "length (json_body (settlement_request_js (client_request req))) \<le> maxRequestBytes"
    "length (marshal (facilitatorRequest_out (rq_PaymentPayload req) (rq_PaymentRequirements req))) \<le> MAX_BODY_BYTES"
    using assms(8) by (simp_all add: purchase_request_def)
  have texts: "assertion_texts (rq_Assertion req)" "payload_texts (rq_PaymentPayload req)" "requirements_texts (rq_PaymentRequirements req)"
    using req(1) by (simp_all add: request_texts_def)
  have rf: "requirementsFor (m_config m) l = Inr requirements" using assms(7) by (simp add: listed_def)
  note quote = requirements_of_listing [OF rf [unfolded req(2)]] and signed = signed_of_requirements [OF assms(9) [unfolded req(2)]]
  have ok: "json_ok requirements" "json_ok ?a" "json_ok ?pay"
    using json_ok_out(1) texts(2,3) json_ok_assertion [OF texts(1)] by (simp_all add: req(2) payload_texts_def requirements_texts_def)
  have fit: "answers_fit (keccak t) (pp_Network (rq_PaymentPayload req)) payer" "storable (keccak t)" for t using assms(25) by blast+
  then have wf: "utf8_wf (keccak t)" "utf8_wf (pp_Network (rq_PaymentPayload req))" "utf8_wf payer" "utf8_wf newID" for t
    using assms(16) by (auto simp: answers_fit_def storable_def)
  note calls = accepted_calls [OF assms(20) texts(2,3) req(4) units_digits [OF quote(1)] assms(21,22) assms(23) [unfolded req(2)]
      assms(24) [folded signed(3)] fit(1)]
  obtain t st' where paid: "fc_settle (sv_facilitator sv) (rq_PaymentPayload req) (rq_PaymentRequirements req) st =
      (Inr \<lparr>sp_Success = True, sp_ErrorReason = [], sp_Transaction = keccak t, sp_Network = pp_Network (rq_PaymentPayload req),
        sp_Payer = payer\<rparr>, st')" "consumed st' = consumed st @ [JStr (randomNonce bytes)]"
    using calls(2) unfolding assms(19) signed(3) by blast
  let ?res = "result_of req newID bps (keccak t) payer"
  let ?w = "(with_confirm ?p (keccak t) (wx_confirmed wx) (with_claim ?p db), st')"
  have handled: "handleSettle sv wx newID req (db, st) = (Confirmed ?res, ?w)"
    using honest_settlement [OF assms(14,15,18) calls(1) [folded assms(19)] _ paid(1)] fit(2) by (simp add: result_of_def)
  have "out_ok (answer_out (Confirmed ?res))" using result_texts [OF assms(17)] wf by simp
  from settle_over_http [OF req(1,3) assms(13) handled this, of others]
  obtain http where http: "m_fetch m (settlement_post (mc_settlementUrl (m_config m)) ''/settle'' (settlement_request_js
        \<lparr>sq_assertion = ?a, sq_merchant_id = merchantId l, sq_gross_amount_cents = priceCents l, sq_currency = currency l,
         sq_payment_payload = ?pay, sq_payment_requirements = requirements\<rparr>)) (db, st) = (Inr http, ?w)"
    "response_ok http" "response_json http = Inr (js_out (result_out ?res))"
    unfolding client_request_of [OF assms(8)] assms(12) by auto
  let ?g1 = "g\<lparr>outside := (db, st)\<rparr>"
  have g1: "cache_ok ?g1" "outside ?g1 = (db, st)" using assms(4) by (simp_all add: cache_ok_def)
  have quoted: "listed m (JObj [(''product_id'', product)]) (outside ?g1) l requirements (db, st)" using assms(7) by simp
  have "\<exists>g'. completePurchase ?F agent product ?a ?pay ?g1 = (Inr (order_of l req newID bps (keccak t)), g') \<and> outside g' = ?w"
    using paid_run [OF assms(1-3) ok(2,3) g1(1) assms(5,10) quoted purchase_cleared [OF assms(8) rf assms(9,11)]
        http order_made order_texts [OF assms(8) rf ok(1) assms(17) wf(4,1,2)]] by blast
  moreover have "requestChallenge ?F agent product g = (Inr requirements, ?g1)"
    by (rule challenge_run [OF assms(1-3) _ ok(1)]) (use assms(6,7) in simp)
  moreover have "posted_total (ledger_entries ?p) = 0" using assms(14) by (rule claimed_balances)
  ultimately show ?thesis using paid(2) assms(9) by (auto simp: io_simps)
qed

lemma platform_purchase_settles_witness:
  "\<exists>g' st' tx. bind_io (requestChallenge (through_gateway (\<lambda>k s p. True) (\<lambda>_. None) sample_edge
          (through_merchant (\<lambda>k s p. True) (\<lambda>_. None) id (sample_world_merchant sample_fetch) 0)) sample_agent (JStr ''d1''))
       (\<lambda>requirements. bind_io (lift (signAuthorization sample_agent requirements (Fin 1000000) (replicate 32 (chr 1))))
       (\<lambda>payment. completePurchase (through_gateway (\<lambda>k s p. True) (\<lambda>_. None) sample_edge
          (through_merchant (\<lambda>k s p. True) (\<lambda>_. None) id (sample_world_merchant sample_fetch) 0)) sample_agent (JStr ''d1'')
          (assertion_js (assertion_of (rq_Assertion whole_request))) payment)) sample_gateway =
       (Inr (order_of sample_listing whole_request ''x1'' 500 tx), g') \<and>
     outside g' = (with_confirm (pending_settlement ''x1'' whole_request 500) tx (wx_confirmed clear_weather)
        (with_claim (pending_settlement ''x1'' whole_request 500) priced_store), st') \<and>
     posted_total (ledger_entries (pending_settlement ''x1'' whole_request 500)) = 0 \<and>
     consumed st' = consumed empty_facilitator @ [JStr (randomNonce (replicate 32 (chr 1)))]"
proof (rule platform_purchase_settles [where st = empty_facilitator and sv = sample_settlement and hf = sample_client and
      vt = always_valid and keccak = sample_keccak and clock = "Fin 1000000" and later = 1000 and payer = "''0xA''" and
      wx = clear_weather and requirements = "js_out (requirements_out listed_requirements)"])
  show "reaches sample_edge sample_agent" by (rule sample_reaches)
  show "serves sample_edge" by code_simp
  show "fits (JObj [(''product_id'', JStr ''d1'')])" by code_simp
  show "cache_ok sample_gateway" by (simp add: cache_ok_def sample_gateway_def)
  show "importVerificationKey (ATTRIBUTION_PUBLIC_KEY (ed_env sample_edge)) = Inr (m_key (sample_world_merchant sample_fetch))"
    using sample_key by (simp add: sample_edge_def sample_world_merchant_def)
  show "outside sample_gateway = (priced_store, empty_facilitator)" by (simp add: sample_gateway_def)
  show "listed (sample_world_merchant sample_fetch) (JObj [(''product_id'', JStr ''d1'')]) (priced_store, empty_facilitator) sample_listing
      (js_out (requirements_out listed_requirements)) (priced_store, empty_facilitator)"
    by (rule whole_listed)
  show "purchase_request (sample_world_merchant sample_fetch) sample_listing (js_out (requirements_out listed_requirements)) whole_request"
    by (rule whole_purchase)
  show "signAuthorization sample_agent (js_out (requirements_out listed_requirements)) (Fin 1000000) (replicate 32 (chr 1)) =
      Inr (js_out (payload_out (rq_PaymentPayload whole_request)))" using sample_signed by (simp add: whole_request_def)
  show "verifyAssertion (\<lambda>k s p. True) (\<lambda>_. None) (assertion_js (assertion_of (rq_Assertion whole_request)))
      (m_key (sample_world_merchant sample_fetch)) (ed_now sample_edge) = Inr ()"
    "verifyAssertion (\<lambda>k s p. True) (\<lambda>_. None) (assertion_js (assertion_of (rq_Assertion whole_request)))
      (m_key (sample_world_merchant sample_fetch)) 0 = Inr ()"
    using whole_assertion_verified by (simp_all add: whole_request_def sample_world_merchant_def sample_edge_def)
  show "m_fetch (sample_world_merchant sample_fetch) = settlement_serve sample_settlement clear_weather ''x1''
      (\<lambda>rq w. (Inl (Network_error ''refused''), w))" by (simp add: sample_world_merchant_def sample_fetch_def)
  show "url_pathname (settlement_base (mc_settlementUrl (m_config (sample_world_merchant sample_fetch))) @ ''/settle'') = ''/settle''"
    by code_simp
  show "Verify (sv_check sample_settlement) (sv_key sample_settlement) (rq_Assertion whole_request) (wx_now clear_weather) = None"
    using whole_request_verified by (simp add: whole_request_def)
  show "sv_facilitator sample_settlement = NewHTTPFacilitator sample_client" by (simp add: sample_settlement_def)
  show "reaches_facilitator always_valid sample_keccak (Fin 1000000) sample_client" by (rule whole_reaches)
  show "nowSeconds (Fin 1000000) = Inr 1000" by code_simp
  show "verifyPayment always_valid (js_out (payload_out (rq_PaymentPayload whole_request))) (js_out (requirements_out listed_requirements)) 1000 =
      Inr (Valid (JStr ''0xA''))" using whole_payment_valid by (simp add: whole_request_def)
  show "\<not> nonce_has (JStr (randomNonce (replicate 32 (chr 1)))) (consumed empty_facilitator)"
    by (simp add: nonce_has_def empty_facilitator_def)
  show "storable (sample_keccak t) \<and> answers_fit (sample_keccak t) (pp_Network (rq_PaymentPayload whole_request)) ''0xA''" for t
    using whole_answers_fit by (simp add: sample_keccak_def)
  show "storable ''x1''" by code_simp
qed (simp_all only: whole_request_settleable whole_request_exact clear_sample no_fault)



end
