(* ===== verification/Wire_Types.thy ===== *)
theory Wire_Types
  imports Suite_Agent Platform_Settlement
begin

text \<open>
  The interfaces the services declare for the values they exchange.  TypeScript erases them, so a declared
  type is a claim about a value and not a check.  An interface is the list of its members, each with its
  name, whether it is optional and its type, and \<open>conforms\<close> is what the claim says of a value; other
  members may be present.
\<close>

section \<open>Types and what they say\<close>

datatype ts_type =
    TString | TNumber | TBoolean | TLiterals "string list" | TNullable ts_type | TArray ts_type | TRecord ts_type
  | TInterface "(string \<times> bool \<times> ts_type) list"

abbreviation req :: "string \<Rightarrow> ts_type \<Rightarrow> string \<times> bool \<times> ts_type" where
  "req name t \<equiv> (name, False, t)"

abbreviation opt :: "string \<Rightarrow> ts_type \<Rightarrow> string \<times> bool \<times> ts_type" where
  "opt name t \<equiv> (name, True, t)"

fun conforms :: "ts_type \<Rightarrow> js \<Rightarrow> bool"
  and members_conform :: "(string \<times> bool \<times> ts_type) list \<Rightarrow> (string \<times> js) list \<Rightarrow> bool" where
  "conforms TString v = (case v of JStr _ \<Rightarrow> True | _ \<Rightarrow> False)"
| "conforms TNumber v = (case v of JNum _ \<Rightarrow> True | _ \<Rightarrow> False)"
| "conforms TBoolean v = (case v of JBool _ \<Rightarrow> True | _ \<Rightarrow> False)"
| "conforms (TLiterals ls) v = (case v of JStr s \<Rightarrow> s \<in> set ls | _ \<Rightarrow> False)"
| "conforms (TNullable t) v = (v = JNull \<or> conforms t v)"
| "conforms (TArray t) v = (case v of JArr vs \<Rightarrow> \<forall>w \<in> set vs. conforms t w | _ \<Rightarrow> False)"
| "conforms (TRecord t) v = (case v of JObj kvs \<Rightarrow> \<forall>kw \<in> set kvs. conforms t (snd kw) | _ \<Rightarrow> False)"
| "conforms (TInterface ms) v = (case v of JObj kvs \<Rightarrow> members_conform ms kvs | _ \<Rightarrow> False)"
| "members_conform [] kvs = True"
| "members_conform ((name, maybe, t) # ms) kvs =
     ((maybe \<and> own kvs name = JUndef \<or> conforms t (own kvs name)) \<and> members_conform ms kvs)"

section \<open>\<open>packages/types\<close>\<close>

definition AttributionAssertion_type :: ts_type where
  "AttributionAssertion_type = TInterface [req ''assertion_id'' TString, req ''publisher_id'' TString, req ''product_id'' TString,
     req ''search_request_id'' TString, req ''issued_at'' TString, req ''expires_at'' TString, req ''commission_bps'' TNumber,
     req ''signature'' TString]"

definition shared_Eip3009Authorization :: ts_type where
  "shared_Eip3009Authorization = TInterface [req ''from'' TString, req ''to'' TString, req ''value'' TString,
     req ''valid_after'' TString, req ''valid_before'' TString, req ''nonce'' TString]"

definition shared_PaymentPayload :: ts_type where
  "shared_PaymentPayload = TInterface [req ''x402_version'' TNumber, req ''scheme'' (TLiterals [''exact'']), req ''network'' TString,
     req ''authorization'' shared_Eip3009Authorization, req ''signature'' TString]"

section \<open>\<open>merchant\<close>\<close>

definition merchant_Eip3009Authorization :: ts_type where
  "merchant_Eip3009Authorization = TInterface [req ''from'' TString, req ''to'' TString, req ''value'' TString,
     req ''validAfter'' TString, req ''validBefore'' TString, req ''nonce'' TString]"

definition merchant_PaymentPayload :: ts_type where
  "merchant_PaymentPayload = TInterface [req ''x402Version'' TNumber, req ''scheme'' TString, req ''network'' TString,
     req ''authorization'' merchant_Eip3009Authorization, req ''signature'' TString]"

definition merchant_PaymentRequirements :: ts_type where
  "merchant_PaymentRequirements = TInterface [req ''scheme'' TString, req ''network'' TString, req ''asset'' TString,
     req ''maxAmountRequired'' TString, req ''payTo'' TString, req ''maxTimeoutSeconds'' TNumber, req ''resource'' TString,
     req ''description'' TString]"

definition merchant_PaymentRequiredBody :: ts_type where
  "merchant_PaymentRequiredBody = TInterface [req ''x402Version'' TNumber, req ''accepts'' (TArray merchant_PaymentRequirements),
     opt ''error'' TString]"

definition merchant_Fulfillment :: ts_type where
  "merchant_Fulfillment = TInterface [req ''order_id'' TString, req ''product_id'' TString, req ''listing_title'' TString,
     req ''amount_cents'' TNumber, req ''currency'' TString, req ''settlement_id'' TString, req ''tx_hash'' TString,
     req ''network'' TString, req ''attributed_publisher_id'' TString, req ''publisher_commission_cents'' TNumber]"

definition SettlementResult_type :: ts_type where
  "SettlementResult_type = TInterface [req ''settlement_id'' TString, req ''status'' TString, req ''tx_hash'' TString,
     req ''network'' TString, req ''payer'' TString, req ''commission_bps'' TNumber, req ''commission_amount_cents'' TNumber,
     req ''platform_fee_cents'' TNumber, req ''publisher_amount_cents'' TNumber]"

definition SettlementRejection_type :: ts_type where
  "SettlementRejection_type = TInterface [req ''error'' TString, req ''reason'' TString]"

definition SettlementRequest_type :: ts_type where
  "SettlementRequest_type = TInterface [req ''assertion'' AttributionAssertion_type, req ''merchant_id'' TString,
     req ''gross_amount_cents'' TNumber, req ''currency'' TString, req ''payment_payload'' merchant_PaymentPayload,
     req ''payment_requirements'' merchant_PaymentRequirements]"

section \<open>\<open>simulator\<close>\<close>

definition agent_PaymentRequirements :: ts_type where
  "agent_PaymentRequirements = TInterface [req ''scheme'' TString, req ''network'' TString, req ''asset'' TString,
     req ''maxAmountRequired'' TString, req ''payTo'' TString, req ''maxTimeoutSeconds'' TNumber, req ''resource'' TString,
     req ''description'' TString]"

definition agent_PaymentRequiredBody :: ts_type where
  "agent_PaymentRequiredBody = TInterface [req ''x402Version'' TNumber, req ''accepts'' (TArray agent_PaymentRequirements)]"

definition agent_Fulfillment :: ts_type where
  "agent_Fulfillment = TInterface [req ''order_id'' TString, req ''product_id'' TString, req ''amount_cents'' TNumber,
     req ''settlement_id'' TString, req ''tx_hash'' TString, req ''attributed_publisher_id'' TString,
     req ''publisher_commission_cents'' TNumber]"

definition RunnerStats_type :: ts_type where
  "RunnerStats_type = TInterface [req ''running'' TBoolean, req ''started'' TNumber, req ''settled'' TNumber, req ''blocked'' TNumber,
     req ''failed'' TNumber, req ''concurrency'' TNumber, req ''fraudRate'' TNumber, req ''lastEvent'' TString,
     req ''byReason'' (TRecord TNumber)]"

definition smoke_DriverStats :: ts_type where
  "smoke_DriverStats = TInterface [req ''running'' TBoolean, req ''started'' TNumber, req ''settled'' TNumber, req ''blocked'' TNumber,
     req ''failed'' TNumber]"

section \<open>\<open>facilitator\<close>\<close>

definition WireAuthorization_type :: ts_type where
  "WireAuthorization_type = TInterface [req ''from'' TString, req ''to'' TString, req ''value'' TString,
     req ''validAfter'' TString, req ''validBefore'' TString, req ''nonce'' TString]"

definition WirePaymentPayload_type :: ts_type where
  "WirePaymentPayload_type = TInterface [req ''x402Version'' TNumber, req ''scheme'' TString, req ''network'' TString,
     req ''authorization'' WireAuthorization_type, req ''signature'' TString]"

definition WirePaymentRequirements_type :: ts_type where
  "WirePaymentRequirements_type = TInterface [req ''scheme'' TString, req ''network'' TString, req ''asset'' TString,
     req ''maxAmountRequired'' TString, req ''payTo'' TString, req ''maxTimeoutSeconds'' TNumber, req ''resource'' TString,
     req ''description'' TString]"

section \<open>The end-to-end suite\<close>

definition suite_AttributionAssertion :: ts_type where
  "suite_AttributionAssertion = TInterface [req ''assertion_id'' TString, req ''publisher_id'' TString, req ''product_id'' TString,
     req ''search_request_id'' TString, req ''issued_at'' TString, req ''expires_at'' TString, req ''commission_bps'' TNumber,
     req ''signature'' TString]"

definition suite_PaymentRequirements :: ts_type where
  "suite_PaymentRequirements = TInterface [req ''scheme'' TString, req ''network'' TString, req ''asset'' TString,
     req ''maxAmountRequired'' TString, req ''payTo'' TString, req ''maxTimeoutSeconds'' TNumber, req ''resource'' TString,
     req ''description'' TString]"

definition suite_PaymentRequiredBody :: ts_type where
  "suite_PaymentRequiredBody = TInterface [req ''x402Version'' TNumber, req ''accepts'' (TArray suite_PaymentRequirements)]"

definition suite_X402Authorization :: ts_type where
  "suite_X402Authorization = TInterface [req ''from'' TString, req ''to'' TString, req ''value'' TString,
     req ''validAfter'' TString, req ''validBefore'' TString, req ''nonce'' TString]"

definition suite_X402Payment :: ts_type where
  "suite_X402Payment = TInterface [req ''x402Version'' TNumber, req ''scheme'' TString, req ''network'' TString,
     req ''authorization'' suite_X402Authorization, req ''signature'' TString]"

definition suite_RejectionBody :: ts_type where
  "suite_RejectionBody = TInterface [opt ''error'' TString, opt ''reason'' TString]"

definition suite_DriverStats :: ts_type where
  "suite_DriverStats = TInterface [req ''running'' TBoolean, req ''started'' TNumber, req ''settled'' TNumber, req ''blocked'' TNumber,
     req ''failed'' TNumber, req ''concurrency'' TNumber, req ''fraudRate'' TNumber, req ''lastEvent'' TString]"

section \<open>Lemmas\<close>

named_theorems interfaces

declare AttributionAssertion_type_def [interfaces] shared_PaymentPayload_def [interfaces] shared_Eip3009Authorization_def [interfaces]
  merchant_Eip3009Authorization_def [interfaces] merchant_PaymentPayload_def [interfaces] merchant_PaymentRequirements_def [interfaces]
  merchant_PaymentRequiredBody_def [interfaces] merchant_Fulfillment_def [interfaces] SettlementResult_type_def [interfaces]
  SettlementRejection_type_def [interfaces] SettlementRequest_type_def [interfaces] agent_PaymentRequirements_def [interfaces]
  agent_PaymentRequiredBody_def [interfaces] agent_Fulfillment_def [interfaces] RunnerStats_type_def [interfaces]
  smoke_DriverStats_def [interfaces] WireAuthorization_type_def [interfaces] WirePaymentPayload_type_def [interfaces]
  WirePaymentRequirements_type_def [interfaces] suite_AttributionAssertion_def [interfaces] suite_PaymentRequirements_def [interfaces]
  suite_PaymentRequiredBody_def [interfaces] suite_X402Authorization_def [interfaces] suite_X402Payment_def [interfaces]
  suite_RejectionBody_def [interfaces] suite_DriverStats_def [interfaces]

lemma conforms_cases:
  "conforms TString v \<longleftrightarrow> (\<exists>s. v = JStr s)" "conforms TNumber v \<longleftrightarrow> (\<exists>n. v = JNum n)" "conforms TBoolean v \<longleftrightarrow> (\<exists>b. v = JBool b)"
  "conforms (TInterface ms) v \<longleftrightarrow> (\<exists>kvs. v = JObj kvs \<and> members_conform ms kvs)"
  "conforms (TArray t) v \<longleftrightarrow> (\<exists>vs. v = JArr vs \<and> (\<forall>w \<in> set vs. conforms t w))"
  "conforms (TLiterals ls) v \<longleftrightarrow> (\<exists>s. v = JStr s \<and> s \<in> set ls)"
  by (cases v; simp)+

lemma refusal_typed:
  "conforms suite_RejectionBody (mr_body (mr k [(''error'', JStr e)]))"
  "conforms suite_RejectionBody (mr_body (mr k [(''error'', JStr e), (''reason'', JStr r)]))"
  "mr_status (mr k kvs) = k"
  by (simp_all add: interfaces mr_def)

lemma requirements_typed:
  assumes "requirementsFor config l = Inr r"
  shows "conforms merchant_PaymentRequirements r" and "conforms merchant_PaymentRequiredBody (challenge_for r)"
    and "conforms agent_PaymentRequiredBody (challenge_for r)" and "conforms suite_PaymentRequiredBody (challenge_for r)"
    and "conforms suite_RejectionBody (challenge_for r)" and "conforms WirePaymentRequirements_type r"
    and "conforms agent_PaymentRequirements r" and "conforms suite_PaymentRequirements r"
  using assms by (auto simp: requirementsFor_def result_simps interfaces challenge_for_def)

lemma assertion_typed:
  "conforms AttributionAssertion_type (assertion_js a)" "conforms suite_AttributionAssertion (assertion_js a)"
  by (simp_all add: interfaces assertion_js_def)

lemma stats_typed:
  "conforms RunnerStats_type (stats_js r)" "conforms suite_DriverStats (stats_js r)" "conforms smoke_DriverStats (stats_js r)"
  by (auto simp: interfaces stats_js_def Let_def)

text \<open>What the merchant and the settlement service say to each other.\<close>

lemma settlement_request_typed:
  "conforms AttributionAssertion_type (sq_assertion q) \<Longrightarrow> conforms merchant_PaymentPayload (sq_payment_payload q) \<Longrightarrow>
     conforms merchant_PaymentRequirements (sq_payment_requirements q) \<Longrightarrow> conforms SettlementRequest_type (settlement_request_js q)"
  by (simp add: SettlementRequest_type_def settlement_request_js_def)

lemma settle_answer_typed:
  "conforms SettlementResult_type (js_out (answer_out (Confirmed r)))"
  "conforms SettlementRejection_type (js_out (answer_out (Refused status text reason)))"
  by (simp_all add: interfaces result_out_def out_int_def error_out_def)

text \<open>What the settlement service answers over HTTP: the value the merchant reads, and the status.\<close>

definition answers_settlement :: "http_response \<Rightarrow> settle_answer \<Rightarrow> bool" where
  "answers_settlement r ans \<longleftrightarrow>
     response_json r = Inr (js_out (answer_out ans)) \<and>
     rs_status r = (case ans of Confirmed _ \<Rightarrow> 200 | Refused status _ _ \<Rightarrow> status) \<and> (response_ok r \<longleftrightarrow> (\<exists>res. ans = Confirmed res))"

text \<open>The request, if any, that the settlement service decodes of what a purchase sends it, and the state it is served in.\<close>

definition decoded_request :: "js \<Rightarrow> settle_request option" where
  "decoded_request v = Option.bind (read_request \<lparr>chunks = [json_body v], broken = None\<rparr>) (\<lambda>g. decode_request g zero_request)"

definition asks_settlement ::
    "ed25519_check \<Rightarrow> (string \<Rightarrow> int option) \<Rightarrow> 'w merchant \<Rightarrow> js \<Rightarrow> (string \<times> string) list \<Rightarrow> int \<Rightarrow> 'w \<Rightarrow> settle_request \<Rightarrow> 'w \<Rightarrow> bool" where
  "asks_settlement ed legacy m body headers now w asked w1 \<longleftrightarrow>
     (\<exists>l requirements ah ph a payment. listed m body w l requirements w1 \<and>
        header_of headers X402_AttributionAssertion = Some ah \<and> header_of headers X402_PaymentSignature = Some ph \<and>
        cleared ed legacy m l ah ph now a payment \<and>
        decoded_request (settlement_request_js
          \<lparr>sq_assertion = a, sq_merchant_id = merchantId l, sq_gross_amount_cents = priceCents l, sq_currency = currency l,
           sq_payment_payload = payment, sq_payment_requirements = requirements\<rparr>) = Some asked)"

lemma settlement_answers:
  assumes "url_pathname (settlement_base url @ ''/settle'') = ''/settle''"
    and "settlement_serve sv wx newID others (settlement_post url ''/settle'' v) s = (Inr http, s')"
    and "\<And>asked ans s'. decoded_request v = Some asked \<Longrightarrow> handleSettle sv wx newID asked s = (ans, s') \<Longrightarrow> out_ok (answer_out ans)"
  shows "\<exists>ans. answers_settlement http ans"
proof -
  let ?body = "\<lparr>chunks = [json_body v], broken = None\<rparr>"
  obtain reply where reply: "serve_settle sv wx newID ?body s = (reply, s')" "rs_status http = fst reply" "rs_body http = snd reply"
    using assms(1,2) by (auto simp: settlement_serve_def settlement_post_def Let_def split: prod.splits)
  show ?thesis
  proof (cases "decoded_request v")
    case None
    then have r: "reply = malformed_body" using reply(1) by (simp add: serve_settle_def decoded_request_def)
    have "out_ok (error_out ''malformed request body'' ''bad_request'')" by code_simp
    then have "response_json http = Inr (js_out (error_out ''malformed request body'' ''bad_request''))"
      by (rule reply_json [OF _ _ error_out_def]) (simp add: reply(3) r malformed_body_def writeJSON_def del: marshal.simps)
    then have "answers_settlement http (Refused 400 ''malformed request body'' ''bad_request'')"
      by (simp add: answers_settlement_def reply(2) r malformed_body_def writeJSON_def response_ok_def)
    then show ?thesis ..
  next
    case (Some asked)
    obtain ans s1 where h: "handleSettle sv wx newID asked s = (ans, s1)" by (metis prod.exhaust)
    then have r: "reply = answer_reply ans"
      using reply(1) Some by (simp add: serve_settle_def decoded_request_def)
    from handled_answer [OF h assms(3) [OF Some h] reply(2,3) [unfolded r]]
    have "answers_settlement http ans"
      using reply(2) by (cases ans) (auto simp: answers_settlement_def r writeJSON_def)
    then show ?thesis ..
  qed
qed

lemma fulfillment_typed:
  assumes "fulfillment_for l a (js_out (result_out res)) = Inr f" and "conforms AttributionAssertion_type a"
  shows "conforms merchant_Fulfillment f" and "conforms agent_Fulfillment f"
proof -
  obtain p where "get a ''publisher_id'' = Inr (JStr p)"
    using assms(2) by (auto simp: interfaces conforms_cases simp del: conforms.simps)
  then show "conforms merchant_Fulfillment f" "conforms agent_Fulfillment f"
    using assms(1) by (auto simp: fulfillment_for_def result_simps interfaces result_out_def out_int_def get_opt_def)
qed

lemma settle_purchase_typed:
  assumes "settle_purchase m l a payment requirements w = (Inr r, w')" and "conforms AttributionAssertion_type a"
    and "\<And>http w'. m_fetch m (settlement_post (mc_settlementUrl (m_config m)) ''/settle'' (settlement_request_js
        \<lparr>sq_assertion = a, sq_merchant_id = merchantId l, sq_gross_amount_cents = priceCents l,
         sq_currency = currency l, sq_payment_payload = payment, sq_payment_requirements = requirements\<rparr>)) w = (Inr http, w') \<Longrightarrow>
      \<exists>ans. answers_settlement http ans"
  shows "if mr_status r = 200 then conforms merchant_Fulfillment (mr_body r) \<and> conforms agent_Fulfillment (mr_body r)
    else conforms suite_RejectionBody (mr_body r)"
proof -
  have "\<nexists>e. (Inr r :: merchant_response result) = Inl e" by simp
  with settle_purchase_cases [OF assms(1)] obtain http where
    http: "m_fetch m (settlement_post (mc_settlementUrl (m_config m)) ''/settle'' (settlement_request_js
        \<lparr>sq_assertion = a, sq_merchant_id = merchantId l, sq_gross_amount_cents = priceCents l,
         sq_currency = currency l, sq_payment_payload = payment, sq_payment_requirements = requirements\<rparr>)) w = (Inr http, w')" and
    r: "if response_ok http
       then \<exists>v f. response_json http = Inr v \<and> fulfillment_for l a v = Inr f \<and>
          (Inr r :: merchant_response result) =
            Inr \<lparr>mr_status = 200, mr_body = f, mr_headers = [(X402_PaymentResponse, encodeHeaderJson v)]\<rparr>
       else \<exists>v. (Inr r :: merchant_response result) = Inr \<lparr>mr_status = rs_status http, mr_body = v, mr_headers = []\<rparr> \<and>
          (is_ok (response_json http) \<longrightarrow> response_json http = Inr v)" by blast
  obtain ans where ans: "answers_settlement http ans" using assms(3) [OF http] by blast
  note read = ans [unfolded answers_settlement_def, THEN conjunct1]
  show ?thesis
  proof (cases ans)
    case (Confirmed res)
    then show ?thesis using r ans read fulfillment_typed [OF _ assms(2)] by (auto simp: answers_settlement_def)
  next
    case (Refused status t reason)
    then have "\<not> response_ok http" "rs_status http \<noteq> 200" using ans by (auto simp: answers_settlement_def response_ok_def)
    then show ?thesis using r read Refused by (auto simp: interfaces is_ok_iff error_out_def)
  qed
qed

lemma paid_refusal_typed:
  assumes "\<nexists>a payment. cleared ed legacy m l ah ph now a payment"
    and "paid_request ed legacy m l requirements ah ph now w = (Inr r, w')"
  shows "conforms suite_RejectionBody (mr_body r)"
proof (cases "decode_both ah ph")
  case (Inl resp)
  then have "conforms suite_RejectionBody (mr_body resp)"
    by (auto simp: decode_both_def refusal_typed split: sum.splits exn.splits)
  then show ?thesis using assms(2) Inl by (simp add: paid_request_def ret_def)
next
  case (Inr ap)
  obtain a p where ap: "ap = (a, p)" by force
  show ?thesis
  proof (cases "verifyAssertion ed legacy a (m_key m) now")
    case (Inl e)
    then show ?thesis using assms(2) Inr ap
      by (auto simp: paid_request_def io_simps refusal_typed split: exn.splits)
  next
    case ok: (Inr u)
    have "mismatch (m_config m) l a p \<noteq> Inr None"
      using assms(1) Inr ap ok by (auto simp: cleared_def decode_both_Inr mismatch_None)
    moreover have "conforms suite_RejectionBody (mr_body resp)" if "mismatch (m_config m) l a p = Inr (Some resp)" for resp
      using that by (auto simp: mismatch_def result_simps Let_def refusal_typed split: if_splits)
    ultimately show ?thesis using assms(2) Inr ap ok
      by (auto simp: paid_request_def io_simps split: sum.splits option.splits)
  qed
qed

section \<open>A concrete exchange\<close>

text \<open>The purchase of the composed platform, as the merchant's server gets it.\<close>

definition whole_headers :: "(string \<times> string) list" where
  "whole_headers = [(X402_PaymentSignature, encodeHeaderJson (js_out (payload_out (rq_PaymentPayload whole_request)))),
     (X402_AttributionAssertion, encodeHeaderJson (assertion_js (assertion_of (rq_Assertion whole_request))))]"

lemma whole_header_values:
  "header_of whole_headers X402_PaymentSignature = Some (encodeHeaderJson (js_out (payload_out (rq_PaymentPayload whole_request))))"
  "header_of whole_headers X402_AttributionAssertion = Some (encodeHeaderJson (assertion_js (assertion_of (rq_Assertion whole_request))))"
  using encodeHeaderJson_nonempty [OF whole_values_ok(1)] encodeHeaderJson_nonempty [OF whole_values_ok(2)]
  by (simp_all add: header_of_Some whole_headers_def x402_headers)

lemma whole_decoded: "decoded_request (settlement_request_js (client_request whole_request)) = Some whole_request"
proof -
  let ?v = "settlement_request_js (client_request whole_request)"
  have "read_request \<lparr>chunks = [json_body ?v], broken = None\<rparr> = Some (raw_of ?v)"
  proof (rule request_read [OF client_request_ok [OF whole_request_texts]])
    show "compound (raw_of ?v)" by (simp add: settlement_request_js_def)
    show "depth (raw_of ?v) \<le> maxNestingDepth" by (simp add: client_request_depth maxNestingDepth_def)
  qed (use whole_request_size in simp_all)
  then show ?thesis using request_decoded [OF whole_request_texts] by (simp add: decoded_request_def)
qed

lemma whole_asked:
  assumes "asks_settlement (\<lambda>k s p. True) (\<lambda>_. None) (sample_world_merchant sample_fetch) (JObj [(''product_id'', JStr ''d1'')])
      whole_headers 0 (priced_store, empty_facilitator) asked w1"
  shows "asked = whole_request \<and> w1 = (priced_store, empty_facilitator)"
proof -
  let ?m = "sample_world_merchant sample_fetch" and ?w = "(priced_store, empty_facilitator)"
  from assms obtain l requirements a payment where l: "listed ?m (JObj [(''product_id'', JStr ''d1'')]) ?w l requirements w1"
    and c: "cleared (\<lambda>k s p. True) (\<lambda>_. None) ?m l (encodeHeaderJson (assertion_js (assertion_of (rq_Assertion whole_request))))
        (encodeHeaderJson (js_out (payload_out (rq_PaymentPayload whole_request)))) 0 a payment"
    and asked: "decoded_request (settlement_request_js
          \<lparr>sq_assertion = a, sq_merchant_id = merchantId l, sq_gross_amount_cents = priceCents l, sq_currency = currency l,
           sq_payment_payload = payment, sq_payment_requirements = requirements\<rparr>) = Some asked"
    unfolding asks_settlement_def whole_header_values by auto
  have same: "l = sample_listing" "requirements = js_out (requirements_out listed_requirements)" "w1 = ?w"
    using l whole_listed by (auto simp: listed_def)
  have parts: "a = assertion_js (assertion_of (rq_Assertion whole_request))" "payment = js_out (payload_out (rq_PaymentPayload whole_request))"
    using c header_json.decode_encode [OF whole_values_ok(2)] header_json.decode_encode [OF whole_values_ok(1)]
    by (simp_all add: cleared_def)
  show ?thesis
    using asked whole_decoded unfolding client_request_of [OF whole_purchase] same parts by simp
qed

lemma whole_result_ok: "out_ok (answer_out (Confirmed (result_of whole_request ''x1'' 500 ''0xt'' ''0xA'')))"
  using result_texts [OF whole_request_exact, of "''x1''" "''0xt''" "''0xA''"] by (simp add: whole_request_def signed_payload_def)

lemma whole_settled:
  "\<exists>w'. handleSettle sample_settlement clear_weather ''x1'' whole_request (priced_store, empty_facilitator) =
     (Confirmed (result_of whole_request ''x1'' 500 ''0xt'' ''0xA''), w')"
proof -
  have parts: "rq_PaymentPayload whole_request = signed_payload" "rq_PaymentRequirements whole_request = listed_requirements"
    "rq_Assertion whole_request = sample_minted" "pp_Network signed_payload = ''base-sepolia''"
    by (simp_all add: whole_request_def signed_payload_def)
  obtain st where paid: "fc_settle (sv_facilitator sample_settlement) signed_payload listed_requirements empty_facilitator =
     (Inr \<lparr>sp_Success = True, sp_ErrorReason = [], sp_Transaction = ''0xt'', sp_Network = ''base-sepolia'', sp_Payer = ''0xA''\<rparr>, st)"
    using whole_calls(2) by blast
  have "storable ''0xt''" by code_simp
  then show ?thesis
    using honest_settlement [OF whole_request_settleable clear_sample whole_request_verified [folded parts(3)] whole_calls(1) [folded parts(1,2)] _
        paid [folded parts(1,2)]] by (simp add: result_of_def parts)
qed

lemma whole_bought:
  "\<exists>r w'. purchase (\<lambda>k s p. True) (\<lambda>_. None) (sample_world_merchant sample_fetch) (JObj [(''product_id'', JStr ''d1'')]) whole_headers 0
       (priced_store, empty_facilitator) = (Inr r, w') \<and> mr_status r = 200"
proof -
  let ?m = "sample_world_merchant sample_fetch" and ?w = "(priced_store, empty_facilitator)"
  let ?a = "assertion_js (assertion_of (rq_Assertion whole_request))" and ?p = "js_out (payload_out (rq_PaymentPayload whole_request))"
  obtain w' where settled: "handleSettle sample_settlement clear_weather ''x1'' whole_request ?w =
     (Confirmed (result_of whole_request ''x1'' 500 ''0xt'' ''0xA''), w')" using whole_settled by blast
  have route: "url_pathname (settlement_base (mc_settlementUrl (m_config ?m)) @ ''/settle'') = ''/settle''" by code_simp
  have fetch: "m_fetch ?m = settlement_serve sample_settlement clear_weather ''x1'' (\<lambda>rq w. (Inl (Network_error ''refused''), w))"
    by (simp add: sample_world_merchant_def sample_fetch_def)
  obtain http where http: "m_fetch ?m (settlement_post (mc_settlementUrl (m_config ?m)) ''/settle''
        (settlement_request_js (client_request whole_request))) ?w = (Inr http, w')" "response_ok http"
      "response_json http = Inr (js_out (result_out (result_of whole_request ''x1'' 500 ''0xt'' ''0xA'')))"
    using settle_over_http [OF whole_request_texts whole_request_size route settled whole_result_ok] unfolding fetch by auto
  have cleared: "cleared (\<lambda>k s p. True) (\<lambda>_. None) ?m sample_listing (encodeHeaderJson ?a) (encodeHeaderJson ?p) 0 ?a ?p"
  proof (rule purchase_cleared [OF whole_purchase sample_quoted])
    show "signAuthorization sample_agent (js_out (requirements_out listed_requirements)) (Fin 1000000) (replicate 32 (chr 1)) = Inr ?p"
      using sample_signed by (simp add: whole_request_def)
    show "verifyAssertion (\<lambda>k s p. True) (\<lambda>_. None) ?a (m_key ?m) 0 = Inr ()"
      using whole_assertion_verified by (simp add: whole_request_def sample_world_merchant_def)
  qed
  have "purchase (\<lambda>k s p. True) (\<lambda>_. None) ?m (JObj [(''product_id'', JStr ''d1'')]) whole_headers 0 ?w =
      settle_purchase ?m sample_listing ?a ?p (js_out (requirements_out listed_requirements)) ?w"
    by (simp only: paid_purchase_run [OF whole_listed whole_header_values] paid_request_cleared [OF cleared])
  then show ?thesis
    using http by (simp add: settle_purchase_def settle_call_def io_simps client_request_of [OF whole_purchase] order_made)
qed

section \<open>Properties\<close>

text \<open>C38: The merchant's answers have the types the agent and the end-to-end suite declare for them: a request
  without a payment that is asked to pay gets a \<open>PaymentRequiredBody\<close>, a fulfilled one a \<open>Fulfillment\<close>,
  everything else a \<open>RejectionBody\<close>.  The merchant settles with the settlement service of this development;
  the assertion presented is to have its type, and what the service answers to the very request of this purchase is to
  hold UTF-8 texts and integers a double holds exactly.\<close>

theorem purchase_answers_typed:
  fixes m :: "(database \<times> 'f) merchant"
  assumes "purchase ed legacy m body headers now w = (Inr r, w')"
    and "m_fetch m = settlement_serve sv wx newID others"
    and "url_pathname (settlement_base (mc_settlementUrl (m_config m)) @ ''/settle'') = ''/settle''"
    and "\<And>h a. header_of headers X402_AttributionAssertion = Some h \<Longrightarrow> decodeHeaderJson h = Inr a \<Longrightarrow> conforms AttributionAssertion_type a"
    and "\<And>asked w1 ans w2. asks_settlement ed legacy m body headers now w asked w1 \<Longrightarrow> handleSettle sv wx newID asked w1 = (ans, w2) \<Longrightarrow>
      out_ok (answer_out ans)"
  shows "(if mr_status r = 200 then conforms merchant_Fulfillment (mr_body r) \<and> conforms agent_Fulfillment (mr_body r)
      else conforms suite_RejectionBody (mr_body r)) \<and>
    (mr_status r = 402 \<and> header_of headers X402_PaymentSignature = None \<longrightarrow>
      conforms merchant_PaymentRequiredBody (mr_body r) \<and> conforms agent_PaymentRequiredBody (mr_body r) \<and>
      conforms suite_PaymentRequiredBody (mr_body r))"
proof (cases "\<exists>l requirements w1. listed m body w l requirements w1")
  case True
  then obtain l requirements w1 where l: "listed m body w l requirements w1" by blast
  then have asked: "requirementsFor (m_config m) l = Inr requirements" by (simp add: listed_def)
  note run = assms(1) [unfolded purchase_listed [OF l]]
  show ?thesis
  proof (cases "header_of headers X402_PaymentSignature")
    case None
    then have "r = \<lparr>mr_status = 402, mr_body = challenge_for requirements,
        mr_headers = [(X402_PaymentRequired, encodeHeaderJson (challenge_for requirements))]\<rparr>" using run by simp
    then show ?thesis using requirements_typed [OF asked] by simp
  next
    case ph: (Some ph)
    show ?thesis
    proof (cases "header_of headers X402_AttributionAssertion")
      case None
      then show ?thesis using run ph by (auto simp: refusal_typed)
    next
      case ah: (Some ah)
      have paid: "paid_request ed legacy m l requirements ah ph now w1 = (Inr r, w')" using run ph ah by simp
      show ?thesis
      proof (cases "\<exists>a payment. cleared ed legacy m l ah ph now a payment")
        case True
        then obtain a payment where c: "cleared ed legacy m l ah ph now a payment" by blast
        then have a: "conforms AttributionAssertion_type a" using assms(4) [OF ah] by (simp add: cleared_def)
        have settle: "settle_purchase m l a payment requirements w1 = (Inr r, w')" using paid by (simp add: paid_request_cleared [OF c])
        have "\<exists>ans. answers_settlement http ans"
          if "m_fetch m (settlement_post (mc_settlementUrl (m_config m)) ''/settle'' (settlement_request_js
            \<lparr>sq_assertion = a, sq_merchant_id = merchantId l, sq_gross_amount_cents = priceCents l,
             sq_currency = currency l, sq_payment_payload = payment, sq_payment_requirements = requirements\<rparr>)) w1 = (Inr http, w2)"
          for http w2
        proof (rule settlement_answers [OF assms(3) that [unfolded assms(2)]])
          fix asked ans w3
          assume "decoded_request (settlement_request_js \<lparr>sq_assertion = a, sq_merchant_id = merchantId l,
             sq_gross_amount_cents = priceCents l, sq_currency = currency l, sq_payment_payload = payment,
             sq_payment_requirements = requirements\<rparr>) = Some asked"
          with l ah ph c have "asks_settlement ed legacy m body headers now w asked w1" unfolding asks_settlement_def by blast
          then show "handleSettle sv wx newID asked w1 = (ans, w3) \<Longrightarrow> out_ok (answer_out ans)" by (rule assms(5))
        qed
        from settle_purchase_typed [OF settle a this] ph show ?thesis by (simp del: conforms.simps)
      next
        case False
        from paid_refusal_typed [OF False paid] paid_request_refused [OF False paid] ph show ?thesis
          by (auto simp del: conforms.simps)
      qed
    qed
  qed
next
  case False
  from purchase_unlisted [OF assms(1) False] have status: "mr_status r \<in> {400, 404, 422}" by simp
  have "conforms suite_RejectionBody (mr_body r)"
    using assms(1) False status
    by (auto simp: purchase_def Let_def io_simps refusal_typed listed_def simp del: conforms.simps split: if_splits option.splits sum.splits prod.splits)
  then show ?thesis using status by (auto simp del: conforms.simps)
qed

lemma purchase_answers_typed_witness:
  "\<exists>r w'. purchase (\<lambda>k s p. True) (\<lambda>_. None) (sample_world_merchant sample_fetch) (JObj [(''product_id'', JStr ''d1'')]) whole_headers 0
       (priced_store, empty_facilitator) = (Inr r, w') \<and> mr_status r = 200 \<and>
     conforms merchant_Fulfillment (mr_body r) \<and> conforms agent_Fulfillment (mr_body r)"
proof -
  let ?m = "sample_world_merchant sample_fetch"
  obtain r w' where run: "purchase (\<lambda>k s p. True) (\<lambda>_. None) ?m (JObj [(''product_id'', JStr ''d1'')]) whole_headers 0
       (priced_store, empty_facilitator) = (Inr r, w')" "mr_status r = 200"
    using whole_bought by blast
  have presented: "conforms AttributionAssertion_type a"
    if "header_of whole_headers X402_AttributionAssertion = Some h" and "decodeHeaderJson h = Inr a" for h a
    using that header_json.decode_encode [OF whole_values_ok(2)] assertion_typed(1)
    by (auto simp: whole_header_values simp del: conforms.simps)
  have texts: "out_ok (answer_out ans)"
    if "asks_settlement (\<lambda>k s p. True) (\<lambda>_. None) ?m (JObj [(''product_id'', JStr ''d1'')]) whole_headers 0
        (priced_store, empty_facilitator) asked w1"
      and "handleSettle sample_settlement clear_weather ''x1'' asked w1 = (ans, w2)" for asked w1 ans w2
    using whole_asked [OF that(1)] that(2) whole_settled whole_result_ok by auto
  have route: "url_pathname (settlement_base (mc_settlementUrl (m_config ?m)) @ ''/settle'') = ''/settle''" by code_simp
  have fetch: "m_fetch ?m = settlement_serve sample_settlement clear_weather ''x1'' (\<lambda>rq w. (Inl (Network_error ''refused''), w))"
    by (simp add: sample_world_merchant_def sample_fetch_def)
  have "conforms merchant_Fulfillment (mr_body r) \<and> conforms agent_Fulfillment (mr_body r)"
    using purchase_answers_typed [OF run(1) fetch route presented texts] run(2) by simp
  with run show ?thesis by blast
qed

text \<open>The payments the two agents sign have the type every reader of them declares: merchant, facilitator and
  end-to-end suite, provided the requirements have theirs.\<close>

theorem signed_payments_typed:
  assumes "conforms agent_PaymentRequirements requirements"
  shows "(signAuthorization agent requirements now bytes = Inr payment \<longrightarrow>
      conforms merchant_PaymentPayload payment \<and> conforms WirePaymentPayload_type payment \<and> conforms suite_X402Payment payment) \<and>
    (suite_signAuthorization sg requirements = Inr payment \<longrightarrow>
      conforms merchant_PaymentPayload payment \<and> conforms WirePaymentPayload_type payment \<and> conforms suite_X402Payment payment)"
proof -
  obtain r where r: "requirements = JObj r" and members: "\<exists>s. own r ''scheme'' = JStr s" "\<exists>s. own r ''network'' = JStr s"
    "\<exists>s. own r ''maxAmountRequired'' = JStr s" "\<exists>s. own r ''payTo'' = JStr s"
    using assms by (auto simp: interfaces conforms_cases simp del: conforms.simps)
  then show ?thesis
    by (auto simp: signAuthorization_def suite_signAuthorization_def authorization_for_def result_simps interfaces get_opt_def Let_def X402_def)
qed

lemma signed_payments_typed_witness:
  "\<exists>payment. signAuthorization (new_agent ''http://g'' ''0xA'' (\<lambda>_. Inr ''0xS'')) sample_requirement (Fin 1000000) (replicate 32 (chr 1)) = Inr payment \<and>
     conforms merchant_PaymentPayload payment \<and> conforms WirePaymentPayload_type payment \<and> conforms suite_X402Payment payment"
proof -
  let ?agent = "new_agent ''http://g'' ''0xA'' (\<lambda>_. Inr ''0xS'')"
  have r: "sample_requirement = JObj (own_properties sample_requirement)" by code_simp
  have units: "centsToAtomicUnits (priceCents sample_listing) = Inr (int_text 11000000)" by code_simp
  have fields: "own (own_properties sample_requirement) ''scheme'' = JStr ''exact''"
    "own (own_properties sample_requirement) ''network'' = JStr ''base-sepolia''"
    "own (own_properties sample_requirement) ''payTo'' = JStr ''0xB''"
    "own (own_properties sample_requirement) ''maxAmountRequired'' = JStr (int_text 11000000)"
    "own (own_properties sample_requirement) ''maxTimeoutSeconds'' = jint 120"
    using units by (simp_all add: sample_requirement_def requirementsFor_def MERCHANT_SCHEME_EXACT_def PAYMENT_TIMEOUT_SECONDS_def
        sample_merchant_def)
  have "payable (own_properties sample_requirement) ''0xB'' 11000000 120 1000" unfolding payable_def fields by simp
  moreover have "agent_seconds (Fin 1000000) = Inr 1000" by code_simp
  moreover have "ag_sign ?agent d = Inr ''0xS''" for d by (simp add: new_agent_def)
  ultimately obtain payment where "signAuthorization ?agent sample_requirement (Fin 1000000) (replicate 32 (chr 1)) = Inr payment"
    using signed_payment [of "own_properties sample_requirement"] unfolding r [symmetric] by blast
  moreover have "conforms agent_PaymentRequirements sample_requirement" by code_simp
  ultimately show ?thesis using signed_payments_typed by blast
qed

text \<open>C39: The shared package's \<open>PaymentPayload\<close> is not the one on the wire: a payment of that type without the
  wire's own member is refused as malformed.\<close>

theorem shared_payment_type_refused:
  assumes "json_ok payment" and "conforms shared_PaymentPayload payment"
    and "get_opt (get_opt payment ''authorization'') ''validAfter'' = JUndef"
  shows "decodePaymentHeader (encodeHeaderJson payment) =
    Inl (Malformed_payment_error ''authorization.validAfter is missing or not a string'')"
proof -
  obtain kvs akvs where payment: "payment = JObj kvs" "own kvs ''authorization'' = JObj akvs"
    "\<exists>s. own akvs ''from'' = JStr s" "\<exists>s. own akvs ''to'' = JStr s" "\<exists>s. own akvs ''value'' = JStr s"
    using assms(2) by (auto simp: interfaces conforms_cases simp del: conforms.simps)
  moreover have "own akvs ''validAfter'' = JUndef" using assms(3) payment by (simp add: get_opt_def)
  ultimately show ?thesis
    using assms(1) by (auto simp: decodePaymentHeader_def header_json.decode_encode get_opt_def Let_def missing_field_def AUTHORIZATION_FIELDS_def)
qed

lemma shared_payment_type_refused_witness:
  "decodePaymentHeader (encodeHeaderJson (JObj [(''x402_version'', jint 1), (''scheme'', JStr ''exact''), (''network'', JStr ''base-sepolia''),
     (''authorization'', JObj [(''from'', JStr ''0xA''), (''to'', JStr ''0xB''), (''value'', JStr ''1''), (''valid_after'', JStr ''0''),
        (''valid_before'', JStr ''9''), (''nonce'', JStr ''0xn'')]), (''signature'', JStr ''0xS'')])) =
   Inl (Malformed_payment_error ''authorization.validAfter is missing or not a string'')"
proof (rule shared_payment_type_refused)
  show "json_ok (JObj [(''x402_version'', jint 1), (''scheme'', JStr ''exact''), (''network'', JStr ''base-sepolia''),
     (''authorization'', JObj [(''from'', JStr ''0xA''), (''to'', JStr ''0xB''), (''value'', JStr ''1''), (''valid_after'', JStr ''0''),
        (''valid_before'', JStr ''9''), (''nonce'', JStr ''0xn'')]), (''signature'', JStr ''0xS'')])" by code_simp
qed (simp_all add: interfaces get_opt_def)

end
