(* ===== verification/Spec2Isabelle.thy ===== *)
theory Spec2Isabelle
  imports Gateway_Node Facilitator_Server Merchant_Server Driver Ledger Platform Settlement_Answers Smoke_Verdict Suite_Verdict Wire_Types Platform_Settlement
begin

text \<open>
  Verification library of agentic-attribution, a platform that pays a publisher a commission when a
  buying agent acts on its search results.  A search returns products with signed attribution
  assertions; the agent buys through an edge gateway by HTTP 402: it asks, is told what to pay, signs
  an EIP-3009 transfer authorization and presents it with the assertion.

  \<^bold>\<open>The program's parts and how they meet\<close>

  \<^item> The agent (\<open>simulator/src\<close>) calls the gateway (\<open>gateway/src\<close>), which verifies the assertion and passes
    the purchase on to the merchant (\<open>merchant/src\<close>), which checks assertion, price and payment against its
    listing and asks the settlement service (\<open>internal/settlement\<close>, Go) to settle.  The settlement service
    verifies the payment at the facilitator (\<open>facilitator/src\<close>), claims the assertion, has the payment
    settled, and posts the ledger entries.
  \<^item> Gateway and merchant share the verifier of \<open>packages/types/src\<close>; its canonical form must match the one
    the Go side signs (\<open>internal/attribution\<close>).
  \<^item> The simulator drives all of it: honest purchases and attacks (\<open>runner.ts\<close>, \<open>fraud.ts\<close>) behind an HTTP
    front (\<open>driver.ts\<close>), a demonstration (\<open>index.ts\<close>) and an end-to-end check (\<open>smoke.ts\<close>).

  \<^bold>\<open>How the code is modelled\<close>

  A function that may throw is a function into \<open>exn + 'a\<close> (\<open>result\<close>), \<open>Inl\<close> the thrown value.  Code that
  reaches the outside threads a world, \<open>('w, exn, 'a) io\<close>; \<open>bind_io\<close>, \<open>catch_io\<close> and \<open>lift\<close> are \<open>await\<close>, \<open>try\<close>
  and a pure call.  A TypeScript cast checks nothing, so a value that came from \<open>JSON.parse\<close> stays dynamic
  (the datatype \<open>js\<close>), and reading a field of null or undefined throws.  Strings are held as their UTF-8
  bytes, numbers as IEEE doubles (exact rationals with explicit rounding), BigInt as \<open>int\<close>, Go's \<open>int64\<close> as
  \<open>64 word\<close>.  Requests that interleave are step relations whose steps end at each \<open>await\<close> or transaction.

  \<^bold>\<open>Theories\<close>

  \<^item> \<open>Prelude\<close>: results, effects, the simplification collections \<open>result_simps\<close> and \<open>io_simps\<close>, the locale
    \<open>refinement\<close>.  \<open>Js_Text\<close>, \<open>Js_Number\<close>, \<open>Js_Value\<close>, \<open>Js_Date\<close>, \<open>Utf8\<close>, \<open>Base64\<close>, \<open>Json\<close>, \<open>Wire\<close>, \<open>Http\<close>: what
    the sources use of JavaScript and of the Fetch standard, with the JSON, UTF-8 and base64 round trips as
    instances of the locales \<open>codec\<close> and \<open>codec_chain\<close>.
  \<^item> \<open>Assertion\<close>, \<open>Verify\<close>, \<open>Eip3009\<close>: \<open>packages/types/src\<close> \<open>index.ts\<close>, \<open>verify.ts\<close>, \<open>eip3009.ts\<close>.  The canonical
    form is injective; acceptance is characterised exactly; the locale \<open>assertion_verifier\<close> is what gateway
    and merchant rely on.
  \<^item> \<open>Facilitator_Verify\<close>, \<open>Facilitator\<close>, \<open>Facilitator_Server\<close>: \<open>facilitator/src\<close> \<open>verify.ts\<close>, \<open>handler.ts\<close>,
    \<open>index.ts\<close>.  The nonce ledger interprets the locale \<open>single_use\<close>; \<open>Ledger\<close> is the abstract ledger the
    interleaved server refines.
  \<^item> \<open>Gateway\<close>, \<open>Gateway_Node\<close>: \<open>gateway/src\<close> \<open>handler.ts\<close>, \<open>node.ts\<close>.
  \<^item> \<open>Merchant_Config\<close>, \<open>X402\<close>, \<open>Catalog\<close>, \<open>Settlement_Client\<close>, \<open>Purchase\<close>, \<open>Merchant_Server\<close>: \<open>merchant/src\<close>
    \<open>config.ts\<close>, \<open>x402.ts\<close>, \<open>catalog.ts\<close>, \<open>settlement.ts\<close>, \<open>handler.ts\<close>, \<open>index.ts\<close>.  The locale
    \<open>listing_source\<close> is what the purchase handler needs of the catalog.
  \<^item> \<open>Agent\<close>, \<open>Fraud\<close>, \<open>Runner\<close>, \<open>Driver\<close>, \<open>Demo\<close>, \<open>Smoke\<close>, \<open>Smoke_Verdict\<close>: \<open>simulator/src\<close>.  The population of
    the runner is a step relation, whose steps are all a driver request takes; the requests refine the operations on
    an operator's panel.
  \<^item> \<open>Platform\<close>: agent, gateway and merchant composed over HTTP; honest purchases settle and attacks stop at
    the edge.
  \<^item> \<open>Go_Time\<close>, \<open>Go_Error\<close>, \<open>Commission\<close>, \<open>Go_Assertion\<close>: \<open>internal/attribution/assertion.go\<close>, with RFC 3339
    printing and parsing and wrapped errors.  The commission split of the two languages agrees; their signing
    inputs are compared; what Go mints both verifiers accept until the same second.
  \<^item> \<open>Settlement_Store\<close>, \<open>Settlement\<close>: \<open>internal/settlement\<close> \<open>store.go\<close> over the tables of \<open>db/migrations\<close>, and
    \<open>service.go\<close>, \<open>x402.go\<close>, the writing routes of \<open>handler.go\<close>.  \<open>Settlement_Run\<close> is the service as interleaved
    steps, each a database transaction or a call, with lost connections and crashes, its invariant, and its
    refinement of the life cycle of assertions; \<open>Settlement_Books\<close>, \<open>Settlement_Bounds\<close>, \<open>Settlement_Answers\<close>
    hold its properties: single use, balanced books, bounds, and the answers on every branch.
  \<^item> \<open>Suite_Data\<close>, \<open>Suite_Agent\<close>, \<open>Suite_Specs\<close>: the end-to-end suite (\<open>cypress-tests/cypress/support\<close>), its
    constants, its agent and its refusal specs as programs over \<open>cy.request\<close>.  \<open>Suite_Pass\<close> runs them on the
    composed platform, \<open>Suite_Sample\<close> is a concrete one, and \<open>Suite_Verdict\<close> shows that the specs pass.
  \<^item> \<open>Go_Json\<close>, \<open>Go_Render\<close>: \<open>encoding/json\<close>, which scans a text to a tree that keeps what was written, decodes it
    into a struct by the names of its members, exact or with case folded, and prints with HTML escaping.
    \<open>Go_Render\<close> relates trees and texts by a grammar; what \<open>JSON.stringify\<close> writes Go reads, and the reverse.
  \<^item> \<open>Go_Wire\<close>: the struct tags, the writing routes of \<open>handler.go\<close> on the bytes of a request and the HTTP client of
    \<open>x402.go\<close>.  \<open>Go_Exchange\<close>: the merchant's client on these routes, the client of the facilitator when there is
    no answer, and where the two readings of one assertion differ.  \<open>Go_Facilitator\<close>: the client on the facilitator's
    server.  \<open>Platform_Settlement\<close>: all five services composed, with an honest purchase from end to end and the journalling of a refused one.
  \<^item> \<open>Wire_Types\<close>: the interfaces that the services and the suite declare for the values they exchange, as types
    a value conforms to or not, with what the services really send.

  \<^bold>\<open>Bounds and fuel\<close>

  The JSON reader has fuel twice the length of its input, which \<open>parse_fuel_enough\<close> shows is never used up;
  the Go scanner has the same, and \<open>scan_enough\<close> shows that more would change nothing.
  A readiness wait of the smoke test polls every two seconds for two minutes; its fuel of 61 polls is enough
  on any machine where time passes.  All other recursion is on the data.  The body
  limits (262144 bytes at the gateway and the settlement service, 65536 at the facilitator) are the sources'.

  \<^bold>\<open>Parameters\<close>

  What is not under \<open>src/\<close> is an argument: Ed25519 verification, viem's typed-data signing and verification and
  its keccak hash, \<open>fetch\<close>, node-postgres, the URL parser, \<open>Buffer\<close>'s base64 reader, the engine's reading of dates
  that are not ISO 8601, and the clock, timers and random draws.

  \<^bold>\<open>Not modelled\<close>

  \<^item> Listening sockets, signal handling and log output; streaming of response bodies (a body is its bytes).
  \<^item> \<open>toLowerCase\<close> beyond ASCII, the texts of JSON syntax errors, the order of keys beyond insertion order for
    integer-like names, \<open>for ... of\<close> over iterables other than arrays, and repeated \<open>Set-Cookie\<close> headers.
  \<^item> \<open>byReason\<close> of the runner is a plain object, whose inherited names are left out; \<open>applyFraud\<close> spreads
    objects only.
  \<^item> In Go: the reading routes and \<open>reports.go\<close>, which with anything else the multiplexer answers are a parameter,
    \<open>keys.go\<close>, the search service, the ingest pipeline and the data generator.  Below the facilitator's client the
    HTTP transport and the URL parser are parameters.  Errors of libraries are held as what failed, not their
    wording.
  \<^item> The PHP dashboard and the deployment files; of the Cypress suite the specs that go through the dashboard
    or the settlement reports, the foreign and the still valid assertion, and its page objects.
\<close>

end
